(* ===== verification/Prelude.thy ===== *)
theory Prelude
  imports Main "HOL-Library.Char_ord" "HOL-Library.List_Lexorder"
begin

text \<open>
  Shared vocabulary of the development.

  A Go \<open>string\<close> and a Go \<open>[]byte\<close> are both finite sequences of bytes, so both are modelled by
  \<open>bytes\<close>, a list of (8-bit) characters; \<open>len\<close> is \<open>length\<close> and Go's \<open><\<close> on strings is the
  lexicographic order of \<open>List_Lexorder\<close> over \<open>Char_ord\<close>.

  A Go function returning \<open>(T, error)\<close> returns a value of the sum type \<open>'e + 'a\<close>: \<open>Inl\<close> holds the
  error, \<open>Inr\<close> the value; \<open>bind_err\<close> is the \<open>if err != nil { return err }\<close> of the source.

  The collections \<open>byte_simps\<close> (encodings) and \<open>key_simps\<close> (database keys) gather the rewrite
  rules the component theories share.
\<close>

named_theorems byte_simps
named_theorems key_simps

type_synonym bytes = "char list"

section \<open>Results that may fail\<close>

definition bind_err :: "'e + 'a \<Rightarrow> ('a \<Rightarrow> 'e + 'b) \<Rightarrow> 'e + 'b" where
  "bind_err m f = (case m of Inl e \<Rightarrow> Inl e | Inr x \<Rightarrow> f x)"

text \<open>\<open>guard_err b e\<close> is \<open>if !b { return e }\<close>.\<close>

definition guard_err :: "bool \<Rightarrow> 'e \<Rightarrow> 'e + unit" where
  "guard_err b e = (if b then Inr () else Inl e)"

text \<open>\<open>of_opt e m\<close> reports the failure of an optional value as the error \<open>e\<close>.\<close>

definition of_opt :: "'e \<Rightarrow> 'a option \<Rightarrow> 'e + 'a" where
  "of_opt e m = (case m of None \<Rightarrow> Inl e | Some x \<Rightarrow> Inr x)"

lemma bind_err_Inl [simp]: "bind_err (Inl e) f = Inl e"
  by (simp add: bind_err_def)

lemma bind_err_Inr [simp]: "bind_err (Inr x) f = f x"
  by (simp add: bind_err_def)

lemma bind_err_eq_Inr [simp]: "bind_err m f = Inr y \<longleftrightarrow> (\<exists>x. m = Inr x \<and> f x = Inr y)"
  by (cases m) simp_all

lemma bind_err_eq_Inl:
  "bind_err m f = Inl e \<longleftrightarrow> m = Inl e \<or> (\<exists>x. m = Inr x \<and> f x = Inl e)"
  by (cases m) simp_all

lemma guard_err_eq_Inr [simp]: "guard_err b e = Inr u \<longleftrightarrow> b"
  by (simp add: guard_err_def)

lemma guard_err_eq_Inl [simp]: "guard_err b e = Inl e' \<longleftrightarrow> \<not> b \<and> e' = e"
  by (auto simp: guard_err_def)

lemma guard_err_True [simp]: "guard_err True e = Inr ()"
  by (simp add: guard_err_def)

lemma guard_err_False [simp]: "guard_err False e = Inl e"
  by (simp add: guard_err_def)

lemma of_opt_eq_Inr [simp]: "of_opt e m = Inr x \<longleftrightarrow> m = Some x"
  by (simp add: of_opt_def split: option.splits)

lemma of_opt_eq_Inl [simp]: "of_opt e m = Inl e' \<longleftrightarrow> m = None \<and> e' = e"
  by (auto simp: of_opt_def split: option.splits)

lemma of_opt_Some [simp]: "of_opt e (Some x) = Inr x"
  by (simp add: of_opt_def)

lemma of_opt_None [simp]: "of_opt e None = Inl e"
  by (simp add: of_opt_def)

section \<open>Bytes\<close>

definition byte :: "nat \<Rightarrow> char" where
  "byte n = char_of n"

definition ord_byte :: "char \<Rightarrow> nat" where
  "ord_byte c = of_char c"

lemma ord_byte_byte [byte_simps]: "ord_byte (byte n) = n mod 256"
  by (simp add: byte_def ord_byte_def)

lemma byte_ord_byte [byte_simps]: "byte (ord_byte c) = c"
  by (simp add: byte_def ord_byte_def)

lemma ord_byte_less [simp, byte_simps]: "ord_byte c < 256"
  by (simp add: ord_byte_def)

lemma ord_byte_inject [simp]: "ord_byte c = ord_byte d \<longleftrightarrow> c = d"
  by (simp add: ord_byte_def)

lemma byte_mod [simp]: "byte (n mod 256) = byte n"
  by (simp add: byte_def)

lemma byte_add_mult: "byte (a * 256 + ord_byte c) = c"
proof -
  have "byte (a * 256 + ord_byte c) = byte ((a * 256 + ord_byte c) mod 256)"
    by (simp only: byte_mod)
  also have "\<dots> = byte (ord_byte c)"
    by (simp del: byte_mod)
  finally show ?thesis
    by (simp add: byte_ord_byte)
qed

lemma byte_inject: "m < 256 \<Longrightarrow> n < 256 \<Longrightarrow> byte m = byte n \<longleftrightarrow> m = n"
  by (metis mod_less ord_byte_byte)

lemma byte_less: "m < 256 \<Longrightarrow> n < 256 \<Longrightarrow> byte m < byte n \<longleftrightarrow> m < n"
  by (simp add: less_char_def byte_def)

text \<open>Lexicographic order of byte strings that share or differ in a fixed-length head.\<close>

lemma less_append_same [simp]: "(xs :: bytes) @ a < xs @ b \<longleftrightarrow> a < b"
  by (induction xs) auto

lemma less_append_length:
  "length (xs :: bytes) = length ys \<Longrightarrow> xs @ a < ys @ b \<longleftrightarrow> xs < ys \<or> xs = ys \<and> a < b"
proof (induction xs arbitrary: ys)
  case Nil
  then show ?case by simp
next
  case (Cons x xs)
  then show ?case by (cases ys) auto
qed

section \<open>Character classes and text\<close>

definition is_digit :: "char \<Rightarrow> bool" where
  "is_digit c \<longleftrightarrow> CHR ''0'' \<le> c \<and> c \<le> CHR ''9''"

definition is_lower :: "char \<Rightarrow> bool" where
  "is_lower c \<longleftrightarrow> CHR ''a'' \<le> c \<and> c \<le> CHR ''z''"

definition is_upper :: "char \<Rightarrow> bool" where
  "is_upper c \<longleftrightarrow> CHR ''A'' \<le> c \<and> c \<le> CHR ''Z''"

definition is_lower_hex :: "char \<Rightarrow> bool" where
  "is_lower_hex c \<longleftrightarrow> is_digit c \<or> (CHR ''a'' \<le> c \<and> c \<le> CHR ''f'')"

text \<open>
  \<open>blank s\<close> is \<open>strings.TrimSpace(s) == ""\<close>: the UTF-8 text \<open>s\<close> consists of Unicode white space only.
  The white space runes are U+0009 to U+000D, U+0020, U+0085, U+00A0, U+1680, U+2000 to U+200A,
  U+2028, U+2029, U+202F, U+205F and U+3000; a byte that starts no valid rune decodes to U+FFFD,
  which is not white space.
\<close>

fun blank_code :: "nat list \<Rightarrow> bool" where
  "blank_code [] = True"
| "blank_code (a # s) =
     (if a = 32 \<or> (9 \<le> a \<and> a \<le> 13) then blank_code s
      else case s of
        [] \<Rightarrow> False
      | b # s1 \<Rightarrow>
          (if a = 194 \<and> (b = 133 \<or> b = 160) then blank_code s1
           else case s1 of
             [] \<Rightarrow> False
           | c # s2 \<Rightarrow>
               (if (a = 225 \<and> b = 154 \<and> c = 128)
                   \<or> (a = 226 \<and> b = 128 \<and>
                       ((128 \<le> c \<and> c \<le> 138) \<or> c = 168 \<or> c = 169 \<or> c = 175))
                   \<or> (a = 226 \<and> b = 129 \<and> c = 159)
                   \<or> (a = 227 \<and> b = 128 \<and> c = 128)
                then blank_code s2 else False)))"

definition blank :: "bytes \<Rightarrow> bool" where
  "blank s = blank_code (map ord_byte s)"

lemma blank_Nil [simp]: "blank []"
  by (simp add: blank_def)

section \<open>Lists as sets of strings\<close>

lemma list_all_conv: "list_all P xs \<longleftrightarrow> (\<forall>x\<in>set xs. P x)"
  by (simp add: list_all_iff)

lemma sorted_wrt_less_distinct: "sorted_wrt (<) (xs :: 'a::linorder list) \<Longrightarrow> distinct xs"
  by (induction xs) auto

lemma sort_strict: "distinct xs \<Longrightarrow> sorted_wrt (<) (sort (xs :: 'a::linorder list))"
  by (simp add: strict_sorted_iff)

end
