(* ===== verification/Binary.thy ===== *)
theory Binary
  imports Prelude
begin

text \<open>
  The parts of Go's \<open>encoding/binary\<close> the program uses, over \<open>bytes\<close>: fixed-width big-endian integers
  (\<open>be\<close> is \<open>binary.BigEndian.AppendUint16/32/64\<close>, \<open>unbe\<close> reads them back), unsigned LEB128 varints
  (\<open>uvarint\<close> is \<open>binary.AppendUvarint\<close>, \<open>read_uvarint\<close> is \<open>binary.Uvarint\<close>) and lower-case hex.
  Values are naturals below the width's bound; the lemmas are the round trips, the lengths, and the
  fact the pending and claim indexes rely on: big-endian encoding keeps the order.
\<close>

section \<open>Big-endian integers\<close>

fun be :: "nat \<Rightarrow> nat \<Rightarrow> bytes" where
  "be 0 v = []"
| "be (Suc n) v = be n (v div 256) @ [byte v]"

definition unbe :: "bytes \<Rightarrow> nat" where
  "unbe bs = foldl (\<lambda>a c. a * 256 + ord_byte c) 0 bs"

lemma length_be [simp, byte_simps]: "length (be n v) = n"
  by (induction n arbitrary: v) auto

lemma unbe_snoc [simp]: "unbe (bs @ [c]) = unbe bs * 256 + ord_byte c"
  by (simp add: unbe_def)

lemma unbe_Nil [simp]: "unbe [] = 0"
  by (simp add: unbe_def)

lemma unbe_be_mod: "unbe (be n v) = v mod 256 ^ n"
proof (induction n arbitrary: v)
  case 0
  then show ?case by simp
next
  case (Suc n)
  have "unbe (be (Suc n) v) = (v div 256 mod 256 ^ n) * 256 + v mod 256"
    by (simp add: Suc.IH ord_byte_byte)
  also have "\<dots> = v mod 256 ^ Suc n"
    by (simp add: mod_mult2_eq mult.commute)
  finally show ?case .
qed

lemma unbe_be [simp, byte_simps]: "v < 256 ^ n \<Longrightarrow> unbe (be n v) = v"
  by (simp add: unbe_be_mod)

lemma unbe_less: "unbe bs < 256 ^ length bs"
proof (induction bs rule: rev_induct)
  case Nil
  then show ?case by simp
next
  case (snoc c bs)
  have "unbe bs * 256 + ord_byte c < unbe bs * 256 + 256"
    by simp
  also have "\<dots> = (unbe bs + 1) * 256"
    by simp
  also have "\<dots> \<le> 256 ^ length bs * 256"
    using snoc by (intro mult_le_mono1) simp
  finally show ?case by simp
qed

lemma be_unbe [byte_simps]: "be (length bs) (unbe bs) = bs"
  by (induction bs rule: rev_induct) (simp_all add: byte_add_mult)

lemma be_inject: "v < 256 ^ n \<Longrightarrow> w < 256 ^ n \<Longrightarrow> be n v = be n w \<longleftrightarrow> v = w"
  by (metis unbe_be)

lemma less_by_digits:
  "(v :: nat) < w \<longleftrightarrow> v div 256 < w div 256 \<or> v div 256 = w div 256 \<and> v mod 256 < w mod 256"
proof -
  define a b c d where "a = v div 256" and "b = v mod 256" and "c = w div 256" and "d = w mod 256"
  have "v = 256 * a + b" "w = 256 * c + d" "b < 256" "d < 256"
    by (simp_all add: a_def b_def c_def d_def)
  then show ?thesis
    unfolding a_def [symmetric] b_def [symmetric] c_def [symmetric] d_def [symmetric] by arith
qed

lemma be_less: "v < 256 ^ n \<Longrightarrow> w < 256 ^ n \<Longrightarrow> be n v < be n w \<longleftrightarrow> v < w"
proof (induction n arbitrary: v w)
  case 0
  then show ?case by simp
next
  case (Suc n)
  have d: "v div 256 < 256 ^ n" "w div 256 < 256 ^ n"
    using Suc.prems by (auto simp: less_mult_imp_div_less mult.commute)
  have b: "[byte v] < [byte w] \<longleftrightarrow> v mod 256 < w mod 256"
    by (simp add: less_char_def byte_def)
  have "be (Suc n) v < be (Suc n) w \<longleftrightarrow>
      be n (v div 256) < be n (w div 256)
      \<or> be n (v div 256) = be n (w div 256) \<and> [byte v] < [byte w]"
    by (simp add: less_append_length)
  also have "\<dots> \<longleftrightarrow> v div 256 < w div 256
      \<or> v div 256 = w div 256 \<and> v mod 256 < w mod 256"
    using d b by (simp add: Suc.IH be_inject)
  also have "\<dots> \<longleftrightarrow> v < w"
    by (rule less_by_digits [symmetric])
  finally show ?case .
qed

section \<open>Unsigned varints\<close>

fun uvarint :: "nat \<Rightarrow> bytes" where
  "uvarint n = (if n < 128 then [byte n] else byte (128 + n mod 128) # uvarint (n div 128))"

declare uvarint.simps [simp del]

text \<open>
  \<open>binary.Uvarint\<close>: at most ten bytes, the tenth at most 1; \<open>None\<close> stands for the non-positive byte
  counts (buffer too short, or a value over 64 bits). The arguments carry the index of the byte and
  the value so far.
\<close>

fun read_uvarint_at :: "nat \<Rightarrow> nat \<Rightarrow> bytes \<Rightarrow> (nat \<times> bytes) option" where
  "read_uvarint_at i x [] = None"
| "read_uvarint_at i x (c # cs) =
     (if i = 10 then None
      else if ord_byte c < 128 then
        (if i = 9 \<and> 1 < ord_byte c then None else Some (x + ord_byte c * 2 ^ (7 * i), cs))
      else read_uvarint_at (Suc i) (x + (ord_byte c - 128) * 2 ^ (7 * i)) cs)"

definition read_uvarint :: "bytes \<Rightarrow> (nat \<times> bytes) option" where
  "read_uvarint bs = read_uvarint_at 0 0 bs"

lemma uvarint_small: "n < 128 \<Longrightarrow> uvarint n = [byte n]"
  by (simp add: uvarint.simps)

lemma uvarint_medium:
  "128 \<le> n \<Longrightarrow> n < 16384 \<Longrightarrow> uvarint n = [byte (128 + n mod 128), byte (n div 128)]"
  by (simp add: uvarint.simps [of n] uvarint.simps [of "n div 128"] less_mult_imp_div_less)

lemma length_uvarint_pos: "0 < length (uvarint n)"
  by (subst uvarint.simps) simp

lemma length_uvarint_mono: "m \<le> n \<Longrightarrow> length (uvarint m) \<le> length (uvarint n)"
proof (induction m arbitrary: n rule: uvarint.induct)
  case (1 m)
  show ?case
  proof (cases "m < 128")
    case True
    then show ?thesis
      using length_uvarint_pos [of n] by (simp add: uvarint_small Suc_leI)
  next
    case False
    with 1 have "length (uvarint (m div 128)) \<le> length (uvarint (n div 128))"
      by (simp add: div_le_mono)
    with False "1.prems" show ?thesis
      by (simp add: uvarint.simps [of m] uvarint.simps [of n])
  qed
qed

lemma read_uvarint_at_uvarint:
  "n < 2 ^ (64 - 7 * i) \<Longrightarrow> i \<le> 9 \<Longrightarrow>
   read_uvarint_at i x (uvarint n @ rest) = Some (x + n * 2 ^ (7 * i), rest)"
proof (induction n arbitrary: i x rule: uvarint.induct)
  case (1 n)
  show ?case
  proof (cases "n < 128")
    case True
    have "\<not> 1 < n" if "i = 9"
      using "1.prems"(1) that by simp
    with True "1.prems" show ?thesis
      by (auto simp: uvarint_small ord_byte_byte)
  next
    case False
    have i: "i < 9"
    proof (rule ccontr)
      assume "\<not> i < 9"
      with "1.prems"(2) have "i = 9" by simp
      with "1.prems"(1) False show False by simp
    qed
    have e: "64 - 7 * i = 7 + (64 - 7 * Suc i)"
      using i by simp
    have "n < 128 * 2 ^ (64 - 7 * Suc i)"
      using "1.prems"(1) by (subst (asm) e) (simp add: power_add)
    then have n: "n div 128 < 2 ^ (64 - 7 * Suc i)"
      by (simp add: less_mult_imp_div_less mult.commute)
    have s: "x + n mod 128 * 2 ^ (7 * i) + n div 128 * 2 ^ (7 * Suc i) = x + n * 2 ^ (7 * i)"
    proof -
      have "n div 128 * 2 ^ (7 * Suc i) = (128 * (n div 128)) * 2 ^ (7 * i)"
        by (simp add: power_add)
      then have "n mod 128 * 2 ^ (7 * i) + n div 128 * 2 ^ (7 * Suc i)
          = (n mod 128 + 128 * (n div 128)) * 2 ^ (7 * i)"
        by (simp only: add_mult_distrib)
      then show ?thesis by simp
    qed
    have "read_uvarint_at (Suc i) (x + n mod 128 * 2 ^ (7 * i)) (uvarint (n div 128) @ rest)
        = Some (x + n * 2 ^ (7 * i), rest)"
      using "1.IH" [OF False n, of "x + n mod 128 * 2 ^ (7 * i)"] i s by simp
    moreover have "(128 + n mod 128) mod 256 = 128 + n mod 128"
      by (simp add: mod_less)
    ultimately show ?thesis
      using False i by (simp add: uvarint.simps [of n] ord_byte_byte)
  qed
qed

lemma read_uvarint_uvarint [simp, byte_simps]:
  "n < 2 ^ 64 \<Longrightarrow> read_uvarint (uvarint n @ rest) = Some (n, rest)"
  using read_uvarint_at_uvarint [of n 0 0 rest] by (simp add: read_uvarint_def)

lemma read_uvarint_at_shorter:
  "read_uvarint_at i x bs = Some (n, rest) \<Longrightarrow> length rest < length bs"
  by (induction i x bs rule: read_uvarint_at.induct) (auto split: if_splits)

lemma read_uvarint_shorter: "read_uvarint bs = Some (n, rest) \<Longrightarrow> length rest < length bs"
  by (auto simp: read_uvarint_def dest: read_uvarint_at_shorter)

section \<open>Lower-case hex\<close>

definition hex_digits :: bytes where
  "hex_digits = ''0123456789abcdef''"

fun fmt_hex :: "bytes \<Rightarrow> bytes" where
  "fmt_hex [] = []"
| "fmt_hex (b # bs) = hex_digits ! (ord_byte b div 16) # hex_digits ! (ord_byte b mod 16) # fmt_hex bs"

lemma length_fmt_hex [simp, byte_simps]: "length (fmt_hex bs) = 2 * length bs"
  by (induction bs) auto

lemma hex_digits_lower_hex: "i < 16 \<Longrightarrow> is_lower_hex (hex_digits ! i)"
proof -
  assume "i < 16"
  then have "hex_digits ! i \<in> set hex_digits"
    by (intro nth_mem) (simp add: hex_digits_def)
  moreover have "list_all is_lower_hex hex_digits"
    by (simp add: hex_digits_def is_lower_hex_def is_digit_def)
  ultimately show ?thesis
    by (simp add: list_all_iff)
qed

lemma fmt_hex_lower_hex: "list_all is_lower_hex (fmt_hex bs)"
  by (induction bs) (auto intro!: hex_digits_lower_hex simp: less_mult_imp_div_less)

end
