(* ===== verification/GoTime.thy ===== *)
theory GoTime
  imports Prelude "HOL-Library.Word"
begin

unbundle bit_operations_syntax

text \<open>
  Go's \<open>time.Time\<close> and \<open>time.Duration\<close> as far as the program observes them. A time is an instant, in
  nanoseconds since the Unix epoch (an unbounded integer: \<open>time.Time\<close> reaches far beyond the 64-bit
  nanosecond range), and whether its location is UTC. \<open>time.Time{}\<close>, the zero time, is midnight of 1
  January of year 1 in UTC. Durations are nanoseconds.
\<close>

record gtime =
  t_inst :: int
  t_utc :: bool

definition zero_time :: gtime where
  "zero_time = \<lparr>t_inst = -62135596800000000000, t_utc = True\<rparr>"

definition is_zero :: "gtime \<Rightarrow> bool" where
  "is_zero t \<longleftrightarrow> t_inst t = -62135596800000000000"

text \<open>\<open>t.UnixNano()\<close>, which wraps outside the 64-bit range, and \<open>time.Unix(0, n).UTC()\<close>.\<close>

definition unix_nano :: "gtime \<Rightarrow> 64 word" where
  "unix_nano t = word_of_int (t_inst t)"

definition unix_utc :: "int \<Rightarrow> gtime" where
  "unix_utc n = \<lparr>t_inst = n, t_utc = True\<rparr>"

definition before :: "gtime \<Rightarrow> gtime \<Rightarrow> bool" where
  "before a b \<longleftrightarrow> t_inst a < t_inst b"

definition after :: "gtime \<Rightarrow> gtime \<Rightarrow> bool" where
  "after a b \<longleftrightarrow> t_inst b < t_inst a"

definition same_instant :: "gtime \<Rightarrow> gtime \<Rightarrow> bool" where
  "same_instant a b \<longleftrightarrow> t_inst a = t_inst b"

definition add_time :: "gtime \<Rightarrow> int \<Rightarrow> gtime" where
  "add_time t d = t\<lparr>t_inst := t_inst t + d\<rparr>"

definition go_millisecond :: int where "go_millisecond = 1000000"
definition go_second :: int where "go_second = 1000000000"
definition go_minute :: int where "go_minute = 60 * go_second"
definition go_hour :: int where "go_hour = 60 * go_minute"

lemmas duration_defs = go_millisecond_def go_second_def go_minute_def go_hour_def

text \<open>Instants a 64-bit nanosecond count represents.\<close>

definition nano_range :: "int \<Rightarrow> bool" where
  "nano_range n \<longleftrightarrow> -9223372036854775808 \<le> n \<and> n \<le> 9223372036854775807"

lemma unix_utc_sel [simp]: "t_inst (unix_utc n) = n" "t_utc (unix_utc n)"
  by (simp_all add: unix_utc_def)

lemma sint_unix_nano: "nano_range (t_inst t) \<Longrightarrow> sint (unix_nano t) = t_inst t"
  by (simp add: nano_range_def unix_nano_def signed_of_int signed_take_bit_int_eq_self)

lemma unix_utc_unix_nano:
  "nano_range (t_inst t) \<Longrightarrow> t_utc t \<Longrightarrow> unix_utc (sint (unix_nano t)) = t"
  by (simp add: sint_unix_nano unix_utc_def)

lemma unat_64_bound [simp]: "unat (w :: 64 word) < 256 ^ 8"
  using unsigned_less [of w, where 'a = nat] by simp

lemma unat_32_bound [simp]: "unat (w :: 32 word) < 256 ^ 4"
  using unsigned_less [of w, where 'a = nat] by simp

section \<open>The order-preserving encoding of signed instants\<close>

text \<open>
  \<open>uint64(at.UnixNano()) ^ (1 << 63)\<close>: flipping the sign bit maps signed order to unsigned order.
\<close>

definition flip_sign :: "64 word \<Rightarrow> 64 word" where
  "flip_sign w = w XOR push_bit 63 1"

lemma flip_sign_flip_sign [simp]: "flip_sign (flip_sign w) = w"
  by (simp add: flip_sign_def xor.assoc)

lemma bit_sign: "bit (push_bit 63 1 :: 64 word) n \<longleftrightarrow> n = 63"
  by (auto simp only: bit_push_bit_iff bit_1_iff possible_bit_word) auto

lemma flip_sign_add: "flip_sign w = w + push_bit 63 1"
proof -
  define m where "m = (push_bit 63 1 :: 64 word)"
  have m: "bit m n \<longleftrightarrow> n = 63" for n
    unfolding m_def by (rule bit_sign)
  have mm: "m + m = 0"
    by (simp add: m_def push_bit_eq_mult)
  have "w XOR m = w + m"
  proof (cases "bit w 63")
    case False
    then have "w + m = w OR m"
      by (intro disjunctive_add) (auto simp: m)
    also have "\<dots> = w XOR m"
      using False by (intro bit_eqI) (auto simp: bit_or_iff bit_xor_iff m)
    finally show ?thesis by simp
  next
    case True
    define v where "v = w XOR m"
    have v: "\<not> bit v 63"
      using True by (simp add: v_def bit_xor_iff m)
    then have "v + m = v OR m"
      by (intro disjunctive_add) (auto simp: m)
    also have "\<dots> = w"
      using True by (intro bit_eqI) (auto simp: v_def bit_or_iff bit_xor_iff m)
    finally have "w + m = (v + m) + m"
      by (rule arg_cong [of _ _ "\<lambda>x. x + m", symmetric])
    also have "\<dots> = v"
      by (simp only: add.assoc mm add_0_right)
    finally show ?thesis
      by (simp only: v_def)
  qed
  then show ?thesis
    by (simp add: flip_sign_def m_def)
qed

lemma unat_flip_sign_unix_nano:
  assumes "nano_range (t_inst t)"
  shows "unat (flip_sign (unix_nano t)) = nat (t_inst t + 9223372036854775808)"
proof -
  have "uint (unix_nano t + push_bit 63 1) = (t_inst t + 9223372036854775808) mod 18446744073709551616"
    by (simp add: unix_nano_def uint_word_ariths uint_word_of_int mod_simps take_bit_eq_mod push_bit_eq_mult)
  also have "\<dots> = t_inst t + 9223372036854775808"
    using assms by (simp add: nano_range_def)
  finally show ?thesis
    by (simp add: flip_sign_add unat_eq_nat_uint)
qed

end
