(* ===== verification/JournalKeys.thy ===== *)
theory JournalKeys
  imports Binary GoTime
begin

text \<open>
  The key layout of the journal's database (\<open>internal/journal/keys.go\<close>). Every key is a version byte,
  a namespace byte and length-prefixed components; the pending, claim and committed indexes put a
  fixed-width ordered timestamp before the record identifier, so that an iterator visits them in the
  order the journal works through them.

  Shown: keys are injective and namespaces disjoint (the \<open>key_simps\<close>), each parser inverts its
  constructor, and byte order of the index keys is priority, then time, then identifier.
\<close>

section \<open>Namespaces and constructors\<close>

definition key_version :: nat where "key_version = 1"

definition ns_manifest :: nat where "ns_manifest = 1"
definition ns_batch :: nat where "ns_batch = 2"
definition ns_record :: nat where "ns_record = 3"
definition ns_pending :: nat where "ns_pending = 4"
definition ns_claim :: nat where "ns_claim = 5"
definition ns_committed :: nat where "ns_committed = 6"
definition ns_quarantine :: nat where "ns_quarantine = 7"
definition ns_batch_ref :: nat where "ns_batch_ref = 8"
definition ns_transition_reserve :: nat where "ns_transition_reserve = 9"
definition ns_batch_original_ref :: nat where "ns_batch_original_ref = 10"

lemmas ns_defs = key_version_def ns_manifest_def ns_batch_def ns_record_def ns_pending_def
  ns_claim_def ns_committed_def ns_quarantine_def ns_batch_ref_def ns_transition_reserve_def
  ns_batch_original_ref_def

definition key_prefix :: "nat \<Rightarrow> bytes" where
  "key_prefix namespace = [byte key_version, byte namespace]"

definition append_component :: "bytes \<Rightarrow> bytes \<Rightarrow> bytes" where
  "append_component out value = out @ uvarint (length value) @ value"

definition key :: "nat \<Rightarrow> bytes list \<Rightarrow> bytes" where
  "key namespace components = foldl append_component (key_prefix namespace) components"

definition key_format :: bytes where "key_format = key ns_manifest [''format'']"
definition key_owner :: bytes where "key_owner = key ns_manifest [''owner'']"
definition key_usage :: bytes where "key_usage = key ns_manifest [''usage'']"
definition key_priority :: bytes where "key_priority = key ns_manifest [''priority'']"
definition key_boundary :: bytes where "key_boundary = key ns_manifest [''boundary'']"

definition batch_key :: "bytes \<Rightarrow> bytes" where
  "batch_key batch_id = key ns_batch [batch_id]"

definition record_key :: "bytes \<Rightarrow> bytes" where
  "record_key record_id = key ns_record [record_id]"

definition quarantine_key :: "bytes \<Rightarrow> bytes" where
  "quarantine_key record_id = key ns_quarantine [record_id]"

definition batch_ref_key :: "bytes \<Rightarrow> bytes \<Rightarrow> bytes" where
  "batch_ref_key record_id batch_id = key ns_batch_ref [record_id, batch_id]"

definition batch_ref_prefix :: "bytes \<Rightarrow> bytes" where
  "batch_ref_prefix record_id = key ns_batch_ref [record_id]"

definition transition_reserve_key :: "bytes \<Rightarrow> bytes" where
  "transition_reserve_key record_id = key ns_transition_reserve [record_id]"

definition batch_original_ref_key :: "bytes \<Rightarrow> bytes \<Rightarrow> bytes" where
  "batch_original_ref_key record_id batch_id = key ns_batch_original_ref [record_id, batch_id]"

definition batch_original_ref_prefix :: "bytes \<Rightarrow> bytes" where
  "batch_original_ref_prefix record_id = key ns_batch_original_ref [record_id]"

definition append_ordered_time :: "bytes \<Rightarrow> gtime \<Rightarrow> bytes" where
  "append_ordered_time out at = out @ be 8 (unat (flip_sign (unix_nano at)))"

definition pending_key :: "nat \<Rightarrow> gtime \<Rightarrow> bytes \<Rightarrow> bytes" where
  "pending_key priority received record_id =
     append_component (append_ordered_time (key_prefix ns_pending @ [byte priority]) received) record_id"

definition claim_key :: "gtime \<Rightarrow> bytes \<Rightarrow> bytes" where
  "claim_key expiry record_id =
     append_component (append_ordered_time (key_prefix ns_claim) expiry) record_id"

definition committed_key :: "gtime \<Rightarrow> bytes \<Rightarrow> bytes" where
  "committed_key at record_id =
     append_component (append_ordered_time (key_prefix ns_committed) at) record_id"

section \<open>Parsers\<close>

definition read_component :: "bytes \<Rightarrow> (bytes \<times> bytes) option" where
  "read_component bs =
     (case read_uvarint bs of
        None \<Rightarrow> None
      | Some (n, rest) \<Rightarrow>
          if length rest < n then None else Some (take n rest, drop n rest))"

definition ordered_time_of :: "bytes \<Rightarrow> gtime" where
  "ordered_time_of bs = unix_utc (sint (flip_sign (word_of_nat (unbe bs))))"

definition parse_pending_key :: "bytes \<Rightarrow> (nat \<times> gtime \<times> bytes) option" where
  "parse_pending_key k =
     (if length k < 11 \<or> k ! 0 \<noteq> byte key_version \<or> k ! 1 \<noteq> byte ns_pending then None
      else case read_component (drop 11 k) of
             None \<Rightarrow> None
           | Some (record_id, rest) \<Rightarrow>
               if rest = []
               then Some (ord_byte (k ! 2), ordered_time_of (take 8 (drop 3 k)), record_id)
               else None)"

definition parse_timed_key :: "bytes \<Rightarrow> nat \<Rightarrow> (gtime \<times> bytes) option" where
  "parse_timed_key k namespace =
     (if length k < 10 \<or> k ! 0 \<noteq> byte key_version \<or> k ! 1 \<noteq> byte namespace then None
      else case read_component (drop 10 k) of
             None \<Rightarrow> None
           | Some (record_id, rest) \<Rightarrow>
               if rest = [] then Some (ordered_time_of (take 8 (drop 2 k)), record_id) else None)"

definition parse_two_component_key :: "bytes \<Rightarrow> nat \<Rightarrow> (bytes \<times> bytes) option" where
  "parse_two_component_key k namespace =
     (if length k < 2 \<or> k ! 0 \<noteq> byte key_version \<or> k ! 1 \<noteq> byte namespace then None
      else case read_component (drop 2 k) of
             None \<Rightarrow> None
           | Some (first, rest) \<Rightarrow>
               (case read_component rest of
                  None \<Rightarrow> None
                | Some (second, rest') \<Rightarrow> if rest' = [] then Some (first, second) else None))"

text \<open>\<open>prefixEnd\<close>: the least byte string above every extension of the prefix, if there is one.\<close>

fun prefix_end :: "bytes \<Rightarrow> bytes option" where
  "prefix_end [] = None"
| "prefix_end (c # cs) =
     (case prefix_end cs of
        Some e \<Rightarrow> Some (c # e)
      | None \<Rightarrow> if ord_byte c = 255 then None else Some [byte (ord_byte c + 1)])"

section \<open>Shape of the keys\<close>

definition field_bytes :: "bytes \<Rightarrow> bytes" where
  "field_bytes s = uvarint (length s) @ s"

lemma read_component_comp [simp, byte_simps]:
  "length s < 2 ^ 64 \<Longrightarrow> read_component (field_bytes s @ rest) = Some (s, rest)"
  by (simp add: read_component_def field_bytes_def)

lemma read_component_comp_only [simp, byte_simps]:
  "length s < 2 ^ 64 \<Longrightarrow> read_component (field_bytes s) = Some (s, [])"
  using read_component_comp [of s "[]"] by simp

lemma comp_append_inject:
  "length a < 2 ^ 64 \<Longrightarrow> length b < 2 ^ 64 \<Longrightarrow> field_bytes a @ x = field_bytes b @ y \<longleftrightarrow> a = b \<and> x = y"
  by (metis Pair_inject option.inject read_component_comp)

lemma comp_inject: "length a < 2 ^ 64 \<Longrightarrow> length b < 2 ^ 64 \<Longrightarrow> field_bytes a = field_bytes b \<longleftrightarrow> a = b"
  using comp_append_inject [of a b "[]" "[]"] by simp

lemma comp_less_same_length:
  "length a = length b \<Longrightarrow> field_bytes a < field_bytes b \<longleftrightarrow> a < b"
  by (simp add: field_bytes_def)

lemma key_prefix_simps [key_simps]: "key_prefix n = [byte 1, byte n]"
  by (simp add: key_prefix_def key_version_def)

lemma key_one [key_simps]: "key n [a] = byte 1 # byte n # field_bytes a"
  by (simp add: key_def append_component_def field_bytes_def key_simps)

lemma key_two [key_simps]: "key n [a, b] = byte 1 # byte n # field_bytes a @ field_bytes b"
  by (simp add: key_def append_component_def field_bytes_def key_simps)

definition otime :: "gtime \<Rightarrow> bytes" where
  "otime at = be 8 (unat (flip_sign (unix_nano at)))"

lemma length_otime [simp, byte_simps]: "length (otime at) = 8"
  by (simp add: otime_def)

lemma pending_key_shape [key_simps]:
  "pending_key p at i = byte 1 # byte 4 # byte p # otime at @ field_bytes i"
  by (simp add: pending_key_def append_component_def append_ordered_time_def key_simps otime_def
      field_bytes_def ns_defs)

lemma claim_key_shape [key_simps]: "claim_key at i = byte 1 # byte 5 # otime at @ field_bytes i"
  by (simp add: claim_key_def append_component_def append_ordered_time_def key_simps otime_def
      field_bytes_def ns_defs)

lemma committed_key_shape [key_simps]: "committed_key at i = byte 1 # byte 6 # otime at @ field_bytes i"
  by (simp add: committed_key_def append_component_def append_ordered_time_def key_simps otime_def
      field_bytes_def ns_defs)

lemma batch_key_shape [key_simps]: "batch_key b = byte 1 # byte 2 # field_bytes b"
  by (simp add: batch_key_def key_simps ns_defs)

lemma record_key_shape [key_simps]: "record_key i = byte 1 # byte 3 # field_bytes i"
  by (simp add: record_key_def key_simps ns_defs)

lemma quarantine_key_shape [key_simps]: "quarantine_key i = byte 1 # byte 7 # field_bytes i"
  by (simp add: quarantine_key_def key_simps ns_defs)

lemma batch_ref_key_shape [key_simps]: "batch_ref_key i b = byte 1 # byte 8 # field_bytes i @ field_bytes b"
  by (simp add: batch_ref_key_def key_simps ns_defs)

lemma transition_reserve_key_shape [key_simps]:
  "transition_reserve_key i = byte 1 # byte 9 # field_bytes i"
  by (simp add: transition_reserve_key_def key_simps ns_defs)

lemma batch_original_ref_key_shape [key_simps]:
  "batch_original_ref_key i b = byte 1 # byte 10 # field_bytes i @ field_bytes b"
  by (simp add: batch_original_ref_key_def key_simps ns_defs)

lemma manifest_key_shapes [key_simps]:
  "key_format = byte 1 # byte 1 # field_bytes ''format''"
  "key_owner = byte 1 # byte 1 # field_bytes ''owner''"
  "key_usage = byte 1 # byte 1 # field_bytes ''usage''"
  "key_priority = byte 1 # byte 1 # field_bytes ''priority''"
  "key_boundary = byte 1 # byte 1 # field_bytes ''boundary''"
  by (simp_all add: key_format_def key_owner_def key_usage_def key_priority_def key_boundary_def
      key_simps ns_defs)

section \<open>Injectivity\<close>

lemma byte_eq_iff [key_simps]: "byte m = byte n \<longleftrightarrow> m mod 256 = n mod 256"
  by (metis byte_mod ord_byte_byte)

lemma otime_inject:
  assumes "nano_range (t_inst a)" and "nano_range (t_inst b)"
  shows "otime a = otime b \<longleftrightarrow> t_inst a = t_inst b"
proof -
  have "otime a = otime b \<longleftrightarrow>
      unat (flip_sign (unix_nano a)) = unat (flip_sign (unix_nano b))"
    unfolding otime_def by (rule be_inject [OF unat_64_bound unat_64_bound])
  also have "\<dots> \<longleftrightarrow> t_inst a = t_inst b"
    using assms unfolding unat_flip_sign_unix_nano [OF assms(1)] unat_flip_sign_unix_nano [OF assms(2)]
    by (simp add: nano_range_def) linarith
  finally show ?thesis .
qed

lemma otime_less:
  assumes "nano_range (t_inst a)" and "nano_range (t_inst b)"
  shows "otime a < otime b \<longleftrightarrow> t_inst a < t_inst b"
proof -
  have "otime a < otime b \<longleftrightarrow>
      unat (flip_sign (unix_nano a)) < unat (flip_sign (unix_nano b))"
    unfolding otime_def by (rule be_less [OF unat_64_bound unat_64_bound])
  also have "\<dots> \<longleftrightarrow> t_inst a < t_inst b"
    using assms unfolding unat_flip_sign_unix_nano [OF assms(1)] unat_flip_sign_unix_nano [OF assms(2)]
    by (simp add: nano_range_def) linarith
  finally show ?thesis .
qed

lemma ordered_time_of_otime [simp, byte_simps]:
  assumes "nano_range (t_inst a)" and "t_utc a"
  shows "ordered_time_of (otime a) = a"
  using assms
  by (simp add: ordered_time_of_def otime_def unbe_be [OF unat_64_bound] unix_utc_unix_nano)

section \<open>Round trips\<close>

lemma parse_pending_key_inverse:
  assumes "p < 256" and "nano_range (t_inst at)" and "t_utc at" and "length i < 2 ^ 64"
  shows "parse_pending_key (pending_key p at i) = Some (p, at, i)"
  using assms by (simp add: parse_pending_key_def key_simps ns_defs ord_byte_byte)

lemma parse_claim_key_inverse:
  assumes "nano_range (t_inst at)" and "t_utc at" and "length i < 2 ^ 64"
  shows "parse_timed_key (claim_key at i) ns_claim = Some (at, i)"
  using assms by (simp add: parse_timed_key_def key_simps ns_defs)

lemma parse_committed_key_inverse:
  assumes "nano_range (t_inst at)" and "t_utc at" and "length i < 2 ^ 64"
  shows "parse_timed_key (committed_key at i) ns_committed = Some (at, i)"
  using assms by (simp add: parse_timed_key_def key_simps ns_defs)

lemma parse_batch_ref_key_inverse:
  "length i < 2 ^ 64 \<Longrightarrow> length b < 2 ^ 64 \<Longrightarrow>
   parse_two_component_key (batch_ref_key i b) ns_batch_ref = Some (i, b)"
  by (simp add: parse_two_component_key_def key_simps ns_defs)

lemma parse_batch_original_ref_key_inverse:
  "length i < 2 ^ 64 \<Longrightarrow> length b < 2 ^ 64 \<Longrightarrow>
   parse_two_component_key (batch_original_ref_key i b) ns_batch_original_ref = Some (i, b)"
  by (simp add: parse_two_component_key_def key_simps ns_defs)

lemma pending_key_less:
  assumes "p < 256" and "q < 256" and "nano_range (t_inst a)" and "nano_range (t_inst b)"
    and "length i = length j"
  shows "pending_key p a i < pending_key q b j \<longleftrightarrow>
    p < q \<or> p = q \<and> (t_inst a < t_inst b \<or> t_inst a = t_inst b \<and> i < j)"
  using assms
  by (simp add: key_simps byte_less byte_inject less_append_length otime_less otime_inject
      comp_less_same_length)

lemma claim_key_less:
  assumes "nano_range (t_inst a)" and "nano_range (t_inst b)" and "length i = length j"
  shows "claim_key a i < claim_key b j \<longleftrightarrow>
    t_inst a < t_inst b \<or> t_inst a = t_inst b \<and> i < j"
  using assms
  by (simp add: key_simps less_append_length otime_less otime_inject comp_less_same_length)

lemma committed_key_less:
  assumes "nano_range (t_inst a)" and "nano_range (t_inst b)" and "length i = length j"
  shows "committed_key a i < committed_key b j \<longleftrightarrow>
    t_inst a < t_inst b \<or> t_inst a = t_inst b \<and> i < j"
  using assms
  by (simp add: key_simps less_append_length otime_less otime_inject comp_less_same_length)

end
