(* ===== verification/KvStore.thy ===== *)
theory KvStore
  imports Prelude
begin

text \<open>
  The storage interface the journal is written against. The journal keeps its state in a Pebble
  database, used through point reads, bounded forward iterators and atomic batches of writes and
  deletions. The contents of such a database are an ordered map; \<open>kv_get\<close>, \<open>kv_put\<close>, \<open>kv_del\<close> and
  \<open>kv_range\<close> state what the documented calls \<open>Get\<close>, \<open>Set\<close>, \<open>Delete\<close> and \<open>NewIter\<close> with bounds
  return on given contents. Failures of those calls are inputs of the operations that make them (the
  fault plan of the journal's environment).

  The locale \<open>ordered_kv\<close> is the contract the journal's accounting proofs use; it is interpreted on
  the operations below.
\<close>

section \<open>Ordered contents\<close>

type_synonym ('k, 'v) kv = "('k \<times> 'v) list"

definition kv_get :: "('k, 'v) kv \<Rightarrow> 'k \<Rightarrow> 'v option" where
  "kv_get db k = map_of db k"

fun kv_put :: "'k::linorder \<Rightarrow> 'v \<Rightarrow> ('k, 'v) kv \<Rightarrow> ('k, 'v) kv" where
  "kv_put k v [] = [(k, v)]"
| "kv_put k v ((k', v') # db) =
     (if k < k' then (k, v) # (k', v') # db
      else if k = k' then (k, v) # db
      else (k', v') # kv_put k v db)"

definition kv_del :: "'k \<Rightarrow> ('k, 'v) kv \<Rightarrow> ('k, 'v) kv" where
  "kv_del k db = filter (\<lambda>e. fst e \<noteq> k) db"

text \<open>The entries an iterator bounded by \<open>[lo, hi)\<close> visits, in key order.\<close>

definition kv_range :: "'k::linorder \<Rightarrow> 'k option \<Rightarrow> ('k, 'v) kv \<Rightarrow> ('k, 'v) kv" where
  "kv_range lo hi db =
     filter (\<lambda>e. lo \<le> fst e \<and> (case hi of None \<Rightarrow> True | Some h \<Rightarrow> fst e < h)) db"

definition kv_wf :: "('k::linorder, 'v) kv \<Rightarrow> bool" where
  "kv_wf db = sorted_wrt (<) (map fst db)"

lemma kv_get_put: "kv_get (kv_put k v db) k' = (if k' = k then Some v else kv_get db k')"
  by (induction k v db rule: kv_put.induct) (auto simp: kv_get_def)

lemma kv_get_del: "kv_get (kv_del k db) k' = (if k' = k then None else kv_get db k')"
  by (induction db) (auto simp: kv_get_def kv_del_def)

lemma kv_get_Nil [simp]: "kv_get [] k = None"
  by (simp add: kv_get_def)

lemma set_kv_put: "fst ` set (kv_put k v db) = insert k (fst ` set db)"
  by (induction k v db rule: kv_put.induct) auto

lemma kv_wf_put: "kv_wf db \<Longrightarrow> kv_wf (kv_put k v db)"
proof (induction k v db rule: kv_put.induct)
  case (2 k v k' v' db)
  then show ?case
    using set_kv_put [of k v db] by (auto simp: kv_wf_def)
qed (simp add: kv_wf_def)

lemma kv_wf_del: "kv_wf db \<Longrightarrow> kv_wf (kv_del k db)"
  by (simp add: kv_wf_def kv_del_def sorted_wrt_map sorted_wrt_filter)

lemma kv_wf_distinct: "kv_wf db \<Longrightarrow> distinct (map fst db)"
  unfolding kv_wf_def by (rule sorted_wrt_less_distinct)

lemma kv_wf_Nil [simp]: "kv_wf []"
  by (simp add: kv_wf_def)

lemma kv_entry_iff: "kv_wf db \<Longrightarrow> (k, v) \<in> set db \<longleftrightarrow> kv_get db k = Some v"
  by (simp add: kv_get_def kv_wf_distinct)

lemma kv_range_entry:
  "kv_wf db \<Longrightarrow> (k, v) \<in> set (kv_range lo hi db) \<longleftrightarrow>
     kv_get db k = Some v \<and> lo \<le> k \<and> (case hi of None \<Rightarrow> True | Some h \<Rightarrow> k < h)"
  by (cases hi) (simp_all add: kv_range_def kv_entry_iff)

lemma kv_wf_range: "kv_wf db \<Longrightarrow> kv_wf (kv_range lo hi db)"
  by (simp add: kv_wf_def kv_range_def sorted_wrt_map sorted_wrt_filter)

section \<open>Totals over the contents\<close>

definition kv_total :: "('k \<Rightarrow> 'v \<Rightarrow> nat) \<Rightarrow> ('k, 'v) kv \<Rightarrow> nat" where
  "kv_total f es = sum_list (map (\<lambda>(k, v). f k v) es)"

text \<open>The contribution of one key: nothing when the key is absent.\<close>

definition weight :: "('k \<Rightarrow> 'v \<Rightarrow> nat) \<Rightarrow> 'k \<Rightarrow> 'v option \<Rightarrow> nat" where
  "weight f k ov = (case ov of None \<Rightarrow> 0 | Some v \<Rightarrow> f k v)"

lemma weight_simps [simp]: "weight f k None = 0" "weight f k (Some v) = f k v"
  by (simp_all add: weight_def)

section \<open>The contract\<close>

locale ordered_kv =
  fixes get :: "'db \<Rightarrow> 'k::linorder \<Rightarrow> 'v option"
    and put :: "'k \<Rightarrow> 'v \<Rightarrow> 'db \<Rightarrow> 'db"
    and del :: "'k \<Rightarrow> 'db \<Rightarrow> 'db"
    and entries :: "'db \<Rightarrow> ('k \<times> 'v) list"
    and wf :: "'db \<Rightarrow> bool"
  assumes get_put: "get (put k v db) k' = (if k' = k then Some v else get db k')"
    and get_del: "get (del k db) k' = (if k' = k then None else get db k')"
    and wf_put: "wf db \<Longrightarrow> wf (put k v db)"
    and wf_del: "wf db \<Longrightarrow> wf (del k db)"
    and entries_get: "wf db \<Longrightarrow> (k, v) \<in> set (entries db) \<longleftrightarrow> get db k = Some v"
    and entries_sorted: "wf db \<Longrightarrow> sorted_wrt (<) (map fst (entries db))"
begin

lemma entries_keys: "wf db \<Longrightarrow> fst ` set (entries db) = {k. get db k \<noteq> None}"
proof -
  assume "wf db"
  have "fst ` set (entries db) = {k. \<exists>v. (k, v) \<in> set (entries db)}"
    by force
  with \<open>wf db\<close> show ?thesis
    by (simp add: entries_get)
qed

lemma finite_keys: "wf db \<Longrightarrow> finite {k. get db k \<noteq> None}"
  using entries_keys [of db] by (metis finite_imageI finite_set)

lemma total_as_sum:
  assumes "wf db"
  shows "kv_total f (entries db) = (\<Sum>k | get db k \<noteq> None. weight f k (get db k))"
proof -
  have d: "distinct (map fst (entries db))"
    using assms by (intro sorted_wrt_less_distinct entries_sorted)
  then have inj: "inj_on fst (set (entries db))"
    by (simp add: distinct_map)
  have "kv_total f (entries db) = (\<Sum>e\<in>set (entries db). case e of (k, v) \<Rightarrow> f k v)"
    unfolding kv_total_def using d by (intro sum_list_distinct_conv_sum_set) (simp add: distinct_map)
  also have "\<dots> = (\<Sum>e\<in>set (entries db). weight f (fst e) (get db (fst e)))"
    using assms by (intro sum.cong) (auto simp: entries_get)
  also have "\<dots> = (\<Sum>k\<in>fst ` set (entries db). weight f k (get db k))"
    by (simp add: sum.reindex [OF inj])
  finally show ?thesis
    using assms by (simp add: entries_keys)
qed

lemma total_split:
  assumes "wf db"
  shows "kv_total f (entries db)
    = weight f k (get db k) + (\<Sum>k' | get db k' \<noteq> None \<and> k' \<noteq> k. weight f k' (get db k'))"
proof (cases "get db k")
  case None
  then have "{k'. get db k' \<noteq> None} = {k'. get db k' \<noteq> None \<and> k' \<noteq> k}"
    by auto
  with assms None show ?thesis
    by (simp add: total_as_sum)
next
  case (Some v)
  then have "{k'. get db k' \<noteq> None} = insert k {k'. get db k' \<noteq> None \<and> k' \<noteq> k}"
    by auto
  moreover have "finite {k'. get db k' \<noteq> None \<and> k' \<noteq> k}"
    by (rule finite_subset [OF _ finite_keys [OF assms]]) auto
  ultimately show ?thesis
    using assms by (simp add: total_as_sum)
qed

lemma rest_cong:
  assumes "\<And>k'. k' \<noteq> k \<Longrightarrow> get db' k' = get db k'"
  shows "(\<Sum>k' | get db' k' \<noteq> None \<and> k' \<noteq> k. weight f k' (get db' k'))
    = (\<Sum>k' | get db k' \<noteq> None \<and> k' \<noteq> k. weight f k' (get db k'))"
  using assms by (intro sum.cong) auto

lemma total_put:
  assumes "wf db"
  shows "kv_total f (entries (put k v db)) + weight f k (get db k) = kv_total f (entries db) + f k v"
  using assms total_split [OF wf_put [OF assms], of f k v k] total_split [OF assms, of f k]
    rest_cong [of k "put k v db" db f]
  by (simp add: get_put)

lemma total_del:
  assumes "wf db"
  shows "kv_total f (entries (del k db)) + weight f k (get db k) = kv_total f (entries db)"
  using assms total_split [OF wf_del [OF assms], of f k k] total_split [OF assms, of f k]
    rest_cong [of k "del k db" db f]
  by (simp add: get_del)

lemma weight_le_total: "wf db \<Longrightarrow> weight f k (get db k) \<le> kv_total f (entries db)"
  by (simp add: total_split [of db f k])

end

interpretation kv: ordered_kv kv_get kv_put kv_del "\<lambda>db. db" kv_wf
  by unfold_locales
    (simp_all add: kv_get_put kv_get_del kv_wf_put kv_wf_del kv_entry_iff, simp add: kv_wf_def)

section \<open>Batches\<close>

text \<open>An atomic batch: the pending value of each touched key, \<open>None\<close> for a deletion.\<close>

fun kv_apply :: "('k::linorder \<times> 'v option) list \<Rightarrow> ('k, 'v) kv \<Rightarrow> ('k, 'v) kv" where
  "kv_apply [] db = db"
| "kv_apply ((k, None) # ops) db = kv_apply ops (kv_del k db)"
| "kv_apply ((k, Some v) # ops) db = kv_apply ops (kv_put k v db)"

lemma kv_wf_apply: "kv_wf db \<Longrightarrow> kv_wf (kv_apply ops db)"
  by (induction ops db rule: kv_apply.induct) (auto simp: kv_wf_put kv_wf_del)

lemma kv_get_apply:
  "distinct (map fst ops) \<Longrightarrow>
   kv_get (kv_apply ops db) k = (case map_of ops k of None \<Rightarrow> kv_get db k | Some ov \<Rightarrow> ov)"
proof (induction ops db rule: kv_apply.induct)
  case (2 k0 ops db)
  then show ?case
    by (auto simp: kv_get_del map_of_eq_None_iff [symmetric] split: option.splits)
next
  case (3 k0 v0 ops db)
  then show ?case
    by (auto simp: kv_get_put map_of_eq_None_iff [symmetric] split: option.splits)
qed simp

end
