(* ===== verification/Decimal.thy ===== *)
theory Decimal
  imports Binary
begin

text \<open>
  Decimal text: \<open>dec\<close> is the \<open>%d\<close> of \<open>fmt.Sprintf\<close> on a non-negative integer, \<open>undec\<close> the value of a
  digit string as \<open>strconv.Atoi\<close> computes it. Canonical digit strings (no leading zero) and naturals
  are in bijection.
\<close>

definition digit :: "nat \<Rightarrow> char" where
  "digit n = byte (48 + n)"

fun dec :: "nat \<Rightarrow> bytes" where
  "dec n = (if n < 10 then [digit n] else dec (n div 10) @ [digit (n mod 10)])"

declare dec.simps [simp del]

definition digit_value :: "char \<Rightarrow> nat" where
  "digit_value c = ord_byte c - 48"

definition undec :: "bytes \<Rightarrow> nat" where
  "undec s = foldl (\<lambda>a c. a * 10 + digit_value c) 0 s"

definition canonical_digits :: "bytes \<Rightarrow> bool" where
  "canonical_digits s \<longleftrightarrow> s \<noteq> [] \<and> list_all is_digit s \<and> (hd s = CHR ''0'' \<longrightarrow> length s = 1)"

lemma is_digit_iff: "is_digit c \<longleftrightarrow> 48 \<le> ord_byte c \<and> ord_byte c \<le> 57"
  by (simp add: is_digit_def less_eq_char_def ord_byte_def)

lemma ord_byte_digit: "n < 10 \<Longrightarrow> ord_byte (digit n) = 48 + n"
  by (simp add: digit_def ord_byte_byte)

lemma digit_value_digit [simp]: "n < 10 \<Longrightarrow> digit_value (digit n) = n"
  by (simp add: digit_value_def ord_byte_digit)

lemma is_digit_digit [simp]: "n < 10 \<Longrightarrow> is_digit (digit n)"
  by (simp add: is_digit_iff ord_byte_digit)

lemma digit_digit_value: "is_digit c \<Longrightarrow> digit (digit_value c) = c"
  by (simp add: is_digit_iff digit_def digit_value_def byte_ord_byte)

lemma digit_value_less: "is_digit c \<Longrightarrow> digit_value c < 10"
  by (auto simp: is_digit_iff digit_value_def)

lemma digit_eq_0: "n < 10 \<Longrightarrow> digit n = CHR ''0'' \<longleftrightarrow> n = 0"
proof -
  assume n: "n < 10"
  have "digit n = CHR ''0'' \<longleftrightarrow> ord_byte (digit n) = ord_byte CHR ''0''"
    by (simp only: ord_byte_inject)
  also have "ord_byte CHR ''0'' = 48"
    by (simp add: ord_byte_def)
  finally show ?thesis
    using n by (simp add: ord_byte_digit)
qed

lemma undec_snoc [simp]: "undec (s @ [c]) = undec s * 10 + digit_value c"
  by (simp add: undec_def)

lemma undec_Nil [simp]: "undec [] = 0"
  by (simp add: undec_def)

lemma undec_dec [simp]: "undec (dec n) = n"
proof (induction n rule: dec.induct)
  case (1 n)
  then show ?case
    using undec_snoc [of "[]" "digit n"] by (cases "n < 10") (simp_all add: dec.simps [of n])
qed

lemma dec_not_Nil [simp]: "dec n \<noteq> []"
  by (subst dec.simps) simp

lemma dec_digits: "list_all is_digit (dec n)"
proof (induction n rule: dec.induct)
  case (1 n)
  then show ?case
    by (cases "n < 10") (simp_all add: dec.simps [of n])
qed

lemma hd_dec_0: "hd (dec n) = CHR ''0'' \<Longrightarrow> n = 0"
proof (induction n rule: dec.induct)
  case (1 n)
  then show ?case
    by (cases "n < 10") (simp_all add: dec.simps [of n] digit_eq_0 div_eq_0_iff)
qed

lemma canonical_dec: "canonical_digits (dec n)"
  unfolding canonical_digits_def using hd_dec_0 [of n] dec_digits [of n]
  by (auto simp: dec.simps [of 0])

lemma dec_undec: "canonical_digits s \<Longrightarrow> dec (undec s) = s"
proof (induction s rule: rev_induct)
  case Nil
  then show ?case by (simp add: canonical_digits_def)
next
  case (snoc c s)
  have c: "is_digit c"
    using snoc.prems by (simp add: canonical_digits_def)
  show ?case
  proof (cases "s = []")
    case True
    with c show ?thesis
      using undec_snoc [of "[]" c]
      by (simp add: digit_value_less digit_digit_value dec.simps [of "digit_value c"])
  next
    case False
    with snoc.prems have s: "canonical_digits s" and nz: "hd s \<noteq> CHR ''0''"
      by (auto simp: canonical_digits_def)
    have IH: "dec (undec s) = s"
      using s by (rule snoc.IH)
    have "undec s \<noteq> 0"
    proof
      assume "undec s = 0"
      with IH have "s = dec 0" by simp
      with nz show False by (simp add: dec.simps [of 0] digit_eq_0)
    qed
    then show ?thesis
      using c IH digit_value_less [OF c]
      by (simp add: dec.simps [of "undec s * 10 + digit_value c"] digit_digit_value)
  qed
qed

end
