(* ===== verification/Model.thy ===== *)
theory Model
  imports Decimal GoTime
begin

text \<open>
  The canonical log record (\<open>internal/model\<close>): its types, the schema-version text, and the structural
  validation every durable boundary runs. Go's string enumerations are strings, so a record can hold
  any text there and the validation is what narrows it. A Go map is modelled by its entries in key
  order, the order \<open>sortedKeys\<close> visits them in; \<open>None\<close> is the nil map. A \<open>float64\<close> is its 64 bits.
\<close>

section \<open>Types\<close>

definition source_type_otlp :: bytes where "source_type_otlp = ''otlp''"
definition source_type_cloudwatch :: bytes where "source_type_cloudwatch = ''cloudwatch''"

definition identity_quality_native :: bytes where "identity_quality_native = ''native''"
definition identity_quality_derived :: bytes where "identity_quality_derived = ''derived''"

definition severity_classes :: "bytes list" where
  "severity_classes =
     [''unspecified'', ''trace'', ''debug'', ''info'', ''warn'', ''error'', ''fatal'']"

definition severity_class_debug :: bytes where "severity_class_debug = ''debug''"
definition severity_class_info :: bytes where "severity_class_info = ''info''"
definition severity_class_error :: bytes where "severity_class_error = ''error''"

definition enrichment_statuses :: "bytes list" where
  "enrichment_statuses = [''not_available'', ''not_applicable'', ''pending'', ''available'']"

definition enrichment_available :: bytes where "enrichment_available = ''available''"

definition unknown_deployment :: bytes where "unknown_deployment = ''unknown-deployment''"

record trusted_envelope =
  te_source_type :: bytes
  te_source_account :: bytes
  te_region :: bytes
  te_allowed_environments :: "bytes list"
  te_allowed_services :: "bytes list"
  te_source_instance :: bytes
  te_credential_identity :: bytes
  te_received_at :: gtime

definition allows_environment :: "trusted_envelope \<Rightarrow> bytes \<Rightarrow> bool" where
  "allows_environment e environment \<longleftrightarrow> environment \<in> set (te_allowed_environments e)"

definition allows_service :: "trusted_envelope \<Rightarrow> bytes \<Rightarrow> bool" where
  "allows_service e service \<longleftrightarrow> service \<in> set (te_allowed_services e)"

definition default_environment :: "trusted_envelope \<Rightarrow> bytes option" where
  "default_environment e =
     (case te_allowed_environments e of [environment] \<Rightarrow> Some environment | _ \<Rightarrow> None)"

record service_identity =
  si_name :: bytes
  si_namespace :: bytes
  si_instance_id :: bytes
  si_environment :: bytes
  si_status :: bytes

record deployment_identity =
  di_id :: bytes
  di_version :: bytes
  di_status :: bytes

record correlation_identity =
  ci_trace_id :: bytes
  ci_span_id :: bytes

record stack_frame =
  sf_function :: bytes
  sf_module :: bytes
  sf_file :: bytes
  sf_in_application :: bool

record normalized_exception =
  ne_type :: bytes
  ne_safe_message :: bytes
  ne_stack_frames :: "stack_frame list"

record redaction_metadata =
  rm_policy_version :: bytes
  rm_rule_ids :: "bytes list"
  rm_withheld_fields :: "bytes list"

record regional_log_reference =
  rr_source_type :: bytes
  rr_region :: bytes
  rr_locator :: bytes
  rr_from :: gtime
  rr_to :: gtime
  rr_classification :: bytes
  rr_expires_at :: gtime

datatype safe_value =
  SafeValue (sv_kind: bytes) (sv_string: bytes) (sv_int: "64 word") (sv_double: "64 word")
    (sv_bool: bool) (sv_map: "(bytes \<times> safe_value) list option") (sv_slice: "safe_value list option")
    (sv_withheld: bytes)

definition safe_kind_empty :: bytes where "safe_kind_empty = []"
definition safe_kind_string :: bytes where "safe_kind_string = ''string''"
definition safe_kind_int :: bytes where "safe_kind_int = ''int''"
definition safe_kind_double :: bytes where "safe_kind_double = ''double''"
definition safe_kind_bool :: bytes where "safe_kind_bool = ''bool''"
definition safe_kind_map :: bytes where "safe_kind_map = ''map''"
definition safe_kind_slice :: bytes where "safe_kind_slice = ''slice''"
definition safe_kind_withheld :: bytes where "safe_kind_withheld = ''withheld''"

lemmas safe_kind_defs = safe_kind_empty_def safe_kind_string_def safe_kind_int_def
  safe_kind_double_def safe_kind_bool_def safe_kind_map_def safe_kind_slice_def
  safe_kind_withheld_def

definition safe_empty :: safe_value where
  "safe_empty = SafeValue safe_kind_empty [] 0 0 False None None []"

definition safe_string :: "bytes \<Rightarrow> safe_value" where
  "safe_string v = SafeValue safe_kind_string v 0 0 False None None []"

definition safe_int :: "64 word \<Rightarrow> safe_value" where
  "safe_int v = SafeValue safe_kind_int [] v 0 False None None []"

definition safe_double :: "64 word \<Rightarrow> safe_value" where
  "safe_double v = SafeValue safe_kind_double [] 0 v False None None []"

definition safe_bool :: "bool \<Rightarrow> safe_value" where
  "safe_bool v = SafeValue safe_kind_bool [] 0 0 v None None []"

definition safe_map :: "(bytes \<times> safe_value) list option \<Rightarrow> safe_value" where
  "safe_map v = SafeValue safe_kind_map [] 0 0 False v None []"

definition safe_slice :: "safe_value list option \<Rightarrow> safe_value" where
  "safe_slice v = SafeValue safe_kind_slice [] 0 0 False None v []"

definition withheld :: "bytes \<Rightarrow> safe_value" where
  "withheld reason = SafeValue safe_kind_withheld [] 0 0 False None None reason"

definition sv_is_zero :: "safe_value \<Rightarrow> bool" where
  "sv_is_zero v \<longleftrightarrow> sv_kind v = safe_kind_empty"

text \<open>A nil map or slice ranges over nothing, like an empty one.\<close>

definition opt_list :: "'a list option \<Rightarrow> 'a list" where
  "opt_list xs = (case xs of None \<Rightarrow> [] | Some ys \<Rightarrow> ys)"

fun max_list :: "nat list \<Rightarrow> nat" where
  "max_list [] = 0"
| "max_list (x # xs) = max x (max_list xs)"

primrec sv_depth :: "safe_value \<Rightarrow> nat" where
  "sv_depth (SafeValue kind s i d b m sl w) =
     (if kind = safe_kind_map
      then max_list (case map_option (map (map_prod id sv_depth)) m of
                       None \<Rightarrow> [] | Some es \<Rightarrow> map snd es) + 1
      else if kind = safe_kind_slice
      then max_list (case map_option (map sv_depth) sl of None \<Rightarrow> [] | Some ds \<Rightarrow> ds) + 1
      else 1)"

record normalized_log =
  nl_schema_version :: bytes
  nl_record_id :: bytes
  nl_record_id_version :: bytes
  nl_identity_quality :: bytes
  nl_batch_id :: bytes
  nl_source :: trusted_envelope
  nl_region :: bytes
  nl_event_time :: gtime
  nl_observed_time :: gtime
  nl_timestamp_inferred :: bool
  nl_timestamp_inference_reason :: bytes
  nl_observed_time_inferred :: bool
  nl_observed_time_inference_reason :: bytes
  nl_severity_number :: "32 word"
  nl_severity_text :: bytes
  nl_severity_class :: bytes
  nl_body :: safe_value
  nl_event_name :: bytes
  nl_attributes :: "(bytes \<times> safe_value) list option"
  nl_resource_attributes :: "(bytes \<times> safe_value) list option"
  nl_scope_attributes :: "(bytes \<times> safe_value) list option"
  nl_service :: service_identity
  nl_deployment :: deployment_identity
  nl_correlation :: correlation_identity
  nl_exception :: "normalized_exception option"
  nl_redaction :: redaction_metadata
  nl_raw_reference :: "regional_log_reference option"

section \<open>Schema versions\<close>

record schema_version =
  sver_major :: nat
  sver_minor :: nat

definition normalized_log_schema_major :: nat where "normalized_log_schema_major = 1"
definition normalized_log_schema_minor :: nat where "normalized_log_schema_minor = 1"
definition normalized_log_schema_version :: bytes where "normalized_log_schema_version = ''1.1''"

definition schema_version_string :: "schema_version \<Rightarrow> bytes" where
  "schema_version_string v = dec (sver_major v) @ ''.'' @ dec (sver_minor v)"

definition compatible_with :: "schema_version \<Rightarrow> schema_version \<Rightarrow> bool" where
  "compatible_with v other \<longleftrightarrow> sver_major v = sver_major other"

text \<open>\<open>strings.Cut\<close> at the first occurrence of a one-byte separator.\<close>

fun cut :: "char \<Rightarrow> bytes \<Rightarrow> (bytes \<times> bytes) option" where
  "cut sep [] = None"
| "cut sep (c # cs) =
     (if c = sep then Some ([], cs)
      else case cut sep cs of None \<Rightarrow> None | Some (a, b) \<Rightarrow> Some (c # a, b))"

text \<open>\<open>strconv.Atoi\<close> fails on digits whose value is no 64-bit \<open>int\<close>.\<close>

definition parse_version_part :: "bytes \<Rightarrow> nat option" where
  "parse_version_part s =
     (if s = [] then None
      else if 1 < length s \<and> hd s = CHR ''0'' then None
      else if \<not> list_all is_digit s then None
      else if undec s < 2 ^ 63 then Some (undec s) else None)"

definition parse_schema_version :: "bytes \<Rightarrow> schema_version option" where
  "parse_schema_version s =
     (case cut CHR ''.'' s of
        None \<Rightarrow> None
      | Some (major, minor) \<Rightarrow>
          (case parse_version_part major of
             None \<Rightarrow> None
           | Some a \<Rightarrow>
               (case parse_version_part minor of
                  None \<Rightarrow> None
                | Some b \<Rightarrow> Some \<lparr>sver_major = a, sver_minor = b\<rparr>)))"

lemma cut_Some: "cut sep s = Some (a, b) \<longleftrightarrow> s = a @ sep # b \<and> sep \<notin> set a"
proof (induction s arbitrary: a)
  case Nil
  then show ?case by simp
next
  case (Cons c cs)
  show ?case
  proof (cases a)
    case Nil
    then show ?thesis by (auto split: option.splits)
  next
    case (Cons x xs)
    have "cut sep (c # cs) = Some (x # xs, b) \<longleftrightarrow> c \<noteq> sep \<and> c = x \<and> cut sep cs = Some (xs, b)"
      by (auto split: option.splits)
    also have "\<dots> \<longleftrightarrow> c \<noteq> sep \<and> c = x \<and> cs = xs @ sep # b \<and> sep \<notin> set xs"
      by (simp only: Cons.IH)
    finally show ?thesis
      by (auto simp: Cons)
  qed
qed

lemma parse_version_part_Some:
  "parse_version_part s = Some n \<longleftrightarrow> canonical_digits s \<and> undec s = n \<and> n < 2 ^ 63"
proof -
  have "length s = 1 \<longleftrightarrow> \<not> 1 < length s" if "s \<noteq> []"
    using that by (cases s) auto
  then show ?thesis
    by (auto simp: parse_version_part_def canonical_digits_def)
qed

lemma parse_version_part_dec [simp]: "n < 2 ^ 63 \<Longrightarrow> parse_version_part (dec n) = Some n"
  by (simp add: parse_version_part_Some canonical_dec)

lemma dot_not_digit: "list_all is_digit s \<Longrightarrow> CHR ''.'' \<notin> set s"
  by (auto simp: list_all_iff is_digit_def)

lemma parse_schema_version_iff:
  "parse_schema_version s = Some v \<longleftrightarrow>
     s = schema_version_string v \<and> sver_major v < 2 ^ 63 \<and> sver_minor v < 2 ^ 63"
proof
  assume "parse_schema_version s = Some v"
  then obtain a b where "s = a @ CHR ''.'' # b" "parse_version_part a = Some (sver_major v)"
    "parse_version_part b = Some (sver_minor v)"
    by (auto simp: parse_schema_version_def cut_Some split: option.splits)
  moreover from this have "dec (sver_major v) = a" "dec (sver_minor v) = b"
    "sver_major v < 2 ^ 63" "sver_minor v < 2 ^ 63"
    using dec_undec [of a] dec_undec [of b] by (simp_all only: parse_version_part_Some)
  ultimately show "s = schema_version_string v \<and> sver_major v < 2 ^ 63 \<and> sver_minor v < 2 ^ 63"
    by (simp add: schema_version_string_def)
next
  assume *: "s = schema_version_string v \<and> sver_major v < 2 ^ 63 \<and> sver_minor v < 2 ^ 63"
  then have "cut CHR ''.'' s = Some (dec (sver_major v), dec (sver_minor v))"
    using dot_not_digit [OF dec_digits] by (simp add: cut_Some schema_version_string_def)
  with * show "parse_schema_version s = Some v"
    by (simp add: parse_schema_version_def)
qed

end
