(* ===== verification/ModelValidate.thy ===== *)
theory ModelValidate
  imports Model
begin

text \<open>
  Structural validation of a normalized log (\<open>internal/model/validate.go\<close>). A validation pass collects
  every violation, named by field path; \<open>Validate\<close> returns \<open>nil\<close> exactly when the list is empty. The
  accumulator \<open>violations\<close> of the source, a path prefix and a list, is the prefix argument and the
  returned list here, and \<open>merge\<close> is list append.
\<close>

section \<open>Violations\<close>

record violation =
  vi_field :: bytes
  vi_reason :: bytes

definition add_violation :: "bytes \<Rightarrow> bytes \<Rightarrow> bytes \<Rightarrow> violation list" where
  "add_violation pre field reason = [\<lparr>vi_field = pre @ field, vi_reason = reason\<rparr>]"

definition has_violation :: "violation list \<Rightarrow> bytes \<Rightarrow> bool" where
  "has_violation vs field \<longleftrightarrow> field \<in> set (map vi_field vs)"

definition require_text :: "bytes \<Rightarrow> bytes \<Rightarrow> bytes \<Rightarrow> violation list" where
  "require_text pre field value =
     (if blank value then add_violation pre field ''must not be empty or whitespace-only'' else [])"

definition require_utc :: "bytes \<Rightarrow> bytes \<Rightarrow> gtime \<Rightarrow> violation list" where
  "require_utc pre field t =
     (if is_zero t then add_violation pre field ''must be set''
      else if \<not> t_utc t then add_violation pre field ''must be UTC''
      else [])"

definition nested_path :: "bytes \<Rightarrow> bytes \<Rightarrow> bytes" where
  "nested_path pre field = pre @ field @ ''.''"

definition indexed :: "bytes \<Rightarrow> nat \<Rightarrow> bytes" where
  "indexed field i = field @ ''['' @ dec i @ '']''"

fun require_text_each :: "bytes \<Rightarrow> bytes \<Rightarrow> nat \<Rightarrow> bytes list \<Rightarrow> violation list" where
  "require_text_each pre field i [] = []"
| "require_text_each pre field i (v # vs) =
     require_text pre (indexed field i) v @ require_text_each pre field (Suc i) vs"

section \<open>Envelope, identity and scalar fields\<close>

definition validate_envelope :: "bytes \<Rightarrow> trusted_envelope \<Rightarrow> violation list" where
  "validate_envelope pre e =
     (if te_source_type e = source_type_otlp \<or> te_source_type e = source_type_cloudwatch then []
      else if te_source_type e = [] then add_violation pre ''source_type'' ''must be set''
      else add_violation pre ''source_type'' ''unknown source type'')
     @ require_text pre ''source_account'' (te_source_account e)
     @ require_text pre ''region'' (te_region e)
     @ require_text pre ''source_instance'' (te_source_instance e)
     @ require_text pre ''credential_identity'' (te_credential_identity e)
     @ (if te_allowed_environments e = []
        then add_violation pre ''allowed_environments'' ''must list at least one environment'' else [])
     @ require_text_each pre ''allowed_environments'' 0 (te_allowed_environments e)
     @ (if te_allowed_services e = []
        then add_violation pre ''allowed_services'' ''must list at least one service identity'' else [])
     @ require_text_each pre ''allowed_services'' 0 (te_allowed_services e)
     @ require_utc pre ''received_at'' (te_received_at e)"

definition validate_schema_version :: "bytes \<Rightarrow> violation list" where
  "validate_schema_version s =
     (if blank s then add_violation [] ''schema_version'' ''must not be empty or whitespace-only''
      else case parse_schema_version s of
             None \<Rightarrow> add_violation [] ''schema_version'' ''must be canonical major.minor text''
           | Some version \<Rightarrow>
               if compatible_with
                    \<lparr>sver_major = normalized_log_schema_major, sver_minor = normalized_log_schema_minor\<rparr>
                    version
               then []
               else add_violation [] ''schema_version''
                      (''major version is not readable by this build, which reads ''
                       @ dec normalized_log_schema_major @ ''.x''))"

record record_id_spec =
  ris_quality :: bytes
  ris_hex_digits :: nat

definition record_id_versions :: "(bytes \<times> record_id_spec) list" where
  "record_id_versions =
     [(''otlp:v1'', \<lparr>ris_quality = identity_quality_native, ris_hex_digits = 64\<rparr>),
      (''cw:v1'', \<lparr>ris_quality = identity_quality_native, ris_hex_digits = 64\<rparr>),
      (''derived:v1'', \<lparr>ris_quality = identity_quality_derived, ris_hex_digits = 64\<rparr>)]"

definition known_record_id_versions :: "bytes list" where
  "known_record_id_versions = sort (map fst record_id_versions)"

fun join_strings :: "bytes \<Rightarrow> bytes list \<Rightarrow> bytes" where
  "join_strings sep [] = []"
| "join_strings sep [s] = s"
| "join_strings sep (s # ss) = s @ sep @ join_strings sep ss"

definition validate_hex_digest :: "bytes \<Rightarrow> bytes \<Rightarrow> nat \<Rightarrow> violation list" where
  "validate_hex_digest field value digits =
     (if value = [] then add_violation [] field ''must not be empty or whitespace-only''
      else if length value \<noteq> digits then
        add_violation [] field
          (''identity version produces '' @ dec digits @ '' lowercase hex characters, got ''
           @ dec (length value))
      else if \<not> list_all is_lower_hex value then
        add_violation [] field ''identity version produces lowercase hex''
      else [])"

definition validate_identity :: "normalized_log \<Rightarrow> violation list" where
  "validate_identity r =
     (if nl_identity_quality r = identity_quality_native
         \<or> nl_identity_quality r = identity_quality_derived then []
      else if nl_identity_quality r = [] then add_violation [] ''identity_quality'' ''must be set''
      else add_violation [] ''identity_quality'' ''unknown identity quality'')
     @ (if blank (nl_record_id_version r) then
          add_violation [] ''record_id_version'' ''must not be empty or whitespace-only''
          @ require_text [] ''record_id'' (nl_record_id r)
        else case map_of record_id_versions (nl_record_id_version r) of
               None \<Rightarrow>
                 add_violation [] ''record_id_version''
                   (''unknown identity version; known versions are ''
                    @ join_strings '', '' known_record_id_versions)
                 @ require_text [] ''record_id'' (nl_record_id r)
             | Some spec \<Rightarrow>
                 (if nl_identity_quality r \<noteq> [] \<and> nl_identity_quality r \<noteq> ris_quality spec
                  then add_violation [] ''identity_quality'' ''must match the identity version'' else [])
                 @ validate_hex_digest ''record_id'' (nl_record_id r) (ris_hex_digits spec))"

definition validate_status :: "bytes \<Rightarrow> bytes \<Rightarrow> violation list" where
  "validate_status field status =
     (if status \<in> set enrichment_statuses then []
      else if status = [] then add_violation [] field ''must be set''
      else add_violation [] field ''unknown enrichment status'')"

definition validate_trace_id :: "bytes \<Rightarrow> bytes \<Rightarrow> nat \<Rightarrow> violation list" where
  "validate_trace_id field value width =
     (if value = [] then []
      else if length value \<noteq> width then
        add_violation [] field
          (''must be '' @ dec width @ '' lowercase hex characters, got '' @ dec (length value))
      else if \<not> list_all is_lower_hex value then
        add_violation [] field ''must be lowercase hex''
      else if list_all (\<lambda>c. c = CHR ''0'') value then
        add_violation [] field ''must not be all zeroes''
      else [])"

section \<open>Values\<close>

text \<open>\<open>v.Double != 0\<close> on the 64 bits of a \<open>float64\<close>: both zeroes compare equal to 0.\<close>

definition double_nonzero :: "64 word \<Rightarrow> bool" where
  "double_nonzero w \<longleftrightarrow> w \<noteq> 0 \<and> w \<noteq> push_bit 63 1"

definition payload_kinds :: "safe_value \<Rightarrow> bytes list" where
  "payload_kinds v =
     (if sv_string v \<noteq> [] then [safe_kind_string] else [])
     @ (if sv_int v \<noteq> 0 then [safe_kind_int] else [])
     @ (if double_nonzero (sv_double v) then [safe_kind_double] else [])
     @ (if sv_bool v then [safe_kind_bool] else [])
     @ (if sv_map v \<noteq> None then [safe_kind_map] else [])
     @ (if sv_slice v \<noteq> None then [safe_kind_slice] else [])
     @ (if sv_withheld v \<noteq> [] then [safe_kind_withheld] else [])"

definition scalar_or_container_kinds :: "bytes list" where
  "scalar_or_container_kinds =
     [safe_kind_string, safe_kind_int, safe_kind_double, safe_kind_bool, safe_kind_map,
      safe_kind_slice]"

fun kind_mismatches :: "bytes \<Rightarrow> bytes \<Rightarrow> bytes list \<Rightarrow> violation list" where
  "kind_mismatches pre kind [] = []"
| "kind_mismatches pre kind (k # ks) =
     (if k \<noteq> kind then add_violation pre ''kind'' ''kind and payload disagree'' else [])
     @ kind_mismatches pre kind ks"

fun validate_depth :: "bytes \<Rightarrow> safe_value \<Rightarrow> nat \<Rightarrow> violation list"
  and validate_entries :: "bytes \<Rightarrow> nat \<Rightarrow> (bytes \<times> safe_value) list \<Rightarrow> nat \<Rightarrow> violation list"
  and validate_children :: "bytes \<Rightarrow> nat \<Rightarrow> safe_value list \<Rightarrow> nat \<Rightarrow> violation list" where
  "validate_depth pre v depth =
     (if 64 < depth then add_violation pre ''structure'' ''nesting exceeds validation limit''
      else if sv_kind v = safe_kind_empty then
        (if payload_kinds v \<noteq> [] then
           add_violation pre ''kind'' ''must be set when a payload is present'' else [])
      else if sv_kind v \<notin> set scalar_or_container_kinds \<and> sv_kind v \<noteq> safe_kind_withheld then
        add_violation pre ''kind'' ''unknown value kind''
      else
        (if sv_kind v = safe_kind_withheld \<and> blank (sv_withheld v) then
           add_violation pre ''withheld'' ''must carry a reason'' else [])
        @ kind_mismatches pre (sv_kind v) (payload_kinds v)
        @ (case v of SafeValue kind s i d b m sl w \<Rightarrow>
             (case m of None \<Rightarrow> [] | Some es \<Rightarrow> validate_entries pre 0 es (Suc depth))
             @ (case sl of None \<Rightarrow> [] | Some vs \<Rightarrow> validate_children pre 0 vs (Suc depth))))"
| "validate_entries pre i [] depth = []"
| "validate_entries pre i ((k, v) # es) depth =
     (if blank k then add_violation pre (indexed ''map'' i) ''key must not be empty or whitespace-only''
      else validate_depth (nested_path pre (indexed ''map'' i)) v depth)
     @ validate_entries pre (Suc i) es depth"
| "validate_children pre i [] depth = []"
| "validate_children pre i (v # vs) depth =
     validate_depth (nested_path pre (indexed ''slice'' i)) v depth
     @ validate_children pre (Suc i) vs depth"

declare validate_depth.simps [simp del]

definition validate_value :: "bytes \<Rightarrow> safe_value \<Rightarrow> violation list" where
  "validate_value pre v = validate_depth pre v 0"

fun validate_attributes :: "bytes \<Rightarrow> nat \<Rightarrow> (bytes \<times> safe_value) list \<Rightarrow> violation list" where
  "validate_attributes field index [] = []"
| "validate_attributes field index ((k, v) # es) =
     (if blank k then
        add_violation [] (indexed field index) ''attribute key must not be empty or whitespace-only''
      else validate_value (nested_path [] (indexed field index)) v)
     @ validate_attributes field (Suc index) es"

section \<open>The record\<close>

fun validate_frames :: "nat \<Rightarrow> stack_frame list \<Rightarrow> violation list" where
  "validate_frames i [] = []"
| "validate_frames i (f # fs) =
     (if blank (sf_function f) \<and> blank (sf_module f) then
        add_violation [] (indexed ''exception.stack_frames'' i) ''requires a function or a module''
      else [])
     @ validate_frames (Suc i) fs"

definition validate_exception :: "normalized_exception option \<Rightarrow> violation list" where
  "validate_exception ex =
     (case ex of
        None \<Rightarrow> []
      | Some x \<Rightarrow>
          (if blank (ne_type x) \<and> blank (ne_safe_message x) then
             add_violation [] ''exception'' ''requires an exception type or a safe message'' else [])
          @ validate_frames 0 (ne_stack_frames x))"

definition classifications :: "bytes list" where
  "classifications = [''PUBLIC'', ''INTERNAL'', ''SENSITIVE'', ''RESTRICTED'']"

definition validate_raw_reference ::
    "bytes \<Rightarrow> regional_log_reference option \<Rightarrow> violation list" where
  "validate_raw_reference region reference =
     (case reference of
        None \<Rightarrow> []
      | Some rf \<Rightarrow>
          (if rr_source_type rf = source_type_otlp \<or> rr_source_type rf = source_type_cloudwatch then []
           else if rr_source_type rf = [] then
             add_violation [] ''raw_reference.source_type'' ''must be set''
           else add_violation [] ''raw_reference.source_type'' ''unknown source type'')
          @ require_text [] ''raw_reference.region'' (rr_region rf)
          @ require_text [] ''raw_reference.locator'' (rr_locator rf)
          @ (if rr_classification rf \<in> set classifications then []
             else if rr_classification rf = [] then
               add_violation [] ''raw_reference.classification'' ''must be set''
             else add_violation [] ''raw_reference.classification'' ''unknown classification'')
          @ require_utc [] ''raw_reference.from'' (rr_from rf)
          @ require_utc [] ''raw_reference.to'' (rr_to rf)
          @ require_utc [] ''raw_reference.expires_at'' (rr_expires_at rf)
          @ (if \<not> is_zero (rr_from rf) \<and> \<not> is_zero (rr_to rf) \<and> before (rr_to rf) (rr_from rf) then
               add_violation [] ''raw_reference.to'' ''must not be before raw_reference.from'' else [])
          @ (if \<not> is_zero (rr_to rf) \<and> \<not> is_zero (rr_expires_at rf)
                \<and> \<not> after (rr_expires_at rf) (rr_to rf) then
               add_violation [] ''raw_reference.expires_at'' ''must be after raw_reference.to'' else [])
          @ (if rr_region rf \<noteq> [] \<and> region \<noteq> [] \<and> rr_region rf \<noteq> region then
               add_violation [] ''raw_reference.region'' ''must not point outside the record's region''
             else []))"

definition validate :: "normalized_log \<Rightarrow> violation list" where
  "validate r =
     validate_schema_version (nl_schema_version r)
     @ validate_identity r
     @ require_text [] ''batch_id'' (nl_batch_id r)
     @ validate_envelope (nested_path [] ''source'') (nl_source r)
     @ require_text [] ''region'' (nl_region r)
     @ (if nl_region r \<noteq> [] \<and> te_region (nl_source r) \<noteq> [] \<and> nl_region r \<noteq> te_region (nl_source r)
        then add_violation [] ''region'' ''must equal source.region'' else [])
     @ require_utc [] ''observed_time'' (nl_observed_time r)
     @ require_utc [] ''event_time'' (nl_event_time r)
     @ (if nl_timestamp_inferred r then
          require_text [] ''timestamp_inference_reason'' (nl_timestamp_inference_reason r)
        else if \<not> blank (nl_timestamp_inference_reason r) then
          add_violation [] ''timestamp_inference_reason''
            ''must be empty when timestamp_inferred is false''
        else [])
     @ (if nl_observed_time_inferred r then
          require_text [] ''observed_time_inference_reason'' (nl_observed_time_inference_reason r)
        else if \<not> blank (nl_observed_time_inference_reason r) then
          add_violation [] ''observed_time_inference_reason''
            ''must be empty when observed_time_inferred is false''
        else [])
     @ (if nl_severity_class r \<in> set severity_classes then []
        else if nl_severity_class r = [] then add_violation [] ''severity_class'' ''must be set''
        else add_violation [] ''severity_class'' ''unknown severity class'')
     @ (if sv_is_zero (nl_body r) \<and> blank (nl_event_name r) then
          add_violation [] ''body'' ''a body or an event name is required'' else [])
     @ (if \<not> sv_is_zero (nl_body r) then validate_value (nested_path [] ''body'') (nl_body r) else [])
     @ validate_attributes ''attributes'' 0 (opt_list (nl_attributes r))
     @ validate_attributes ''resource_attributes'' 0 (opt_list (nl_resource_attributes r))
     @ validate_attributes ''scope_attributes'' 0 (opt_list (nl_scope_attributes r))
     @ validate_status ''service.status'' (si_status (nl_service r))
     @ validate_status ''deployment.status'' (di_status (nl_deployment r))
     @ (if di_status (nl_deployment r) = enrichment_available then
          require_text [] ''deployment.id'' (di_id (nl_deployment r)) else [])
     @ validate_trace_id ''correlation.trace_id'' (ci_trace_id (nl_correlation r)) 32
     @ validate_trace_id ''correlation.span_id'' (ci_span_id (nl_correlation r)) 16
     @ (if ci_span_id (nl_correlation r) \<noteq> [] \<and> ci_trace_id (nl_correlation r) = [] then
          add_violation [] ''correlation.trace_id'' ''must be set when a span id is present'' else [])
     @ validate_exception (nl_exception r)
     @ require_text [] ''redaction.policy_version'' (rm_policy_version (nl_redaction r))
     @ validate_raw_reference (nl_region r) (nl_raw_reference r)"

end
