(* ===== verification/ModelFacts.thy ===== *)
theory ModelFacts
  imports ModelValidate
begin

text \<open>
  What a validated record guarantees. The reader-side facts every later stage relies on are derived
  from \<open>validate r = []\<close>: the identity's shape, the agreement of regions, UTC times, and that each safe
  value carries exactly the payload its kind names, with bounded nesting.
\<close>

lemma add_violation_not_Nil [simp]: "add_violation pre field reason \<noteq> []"
  by (simp add: add_violation_def)

lemma require_text_Nil [simp]: "require_text pre field value = [] \<longleftrightarrow> \<not> blank value"
  by (simp add: require_text_def)

lemma require_utc_Nil [simp]: "require_utc pre field t = [] \<longleftrightarrow> \<not> is_zero t \<and> t_utc t"
  by (simp add: require_utc_def)

lemma require_text_each_Nil [simp]:
  "require_text_each pre field i vs = [] \<longleftrightarrow> (\<forall>v\<in>set vs. \<not> blank v)"
  by (induction vs arbitrary: i) auto

section \<open>Values\<close>

text \<open>The kind names the payload: a value whose every payload field but the one of its kind is empty.\<close>

definition kind_agrees :: "safe_value \<Rightarrow> bool" where
  "kind_agrees v \<longleftrightarrow> set (payload_kinds v) \<subseteq> {sv_kind v} - {safe_kind_empty}"

lemma kind_neq:
  "safe_kind_map \<noteq> safe_kind_slice" "safe_kind_slice \<noteq> safe_kind_map"
  "safe_kind_map \<noteq> safe_kind_empty" "safe_kind_slice \<noteq> safe_kind_empty"
  "safe_kind_map \<noteq> safe_kind_withheld" "safe_kind_slice \<noteq> safe_kind_withheld"
  "safe_kind_withheld \<noteq> safe_kind_empty"
  by (simp_all add: safe_kind_defs)

lemma payload_kinds_nonempty_kind: "safe_kind_empty \<notin> set (payload_kinds v)"
  by (simp add: payload_kinds_def safe_kind_defs)

lemma kind_mismatches_Nil [simp]:
  "kind_mismatches pre kind ks = [] \<longleftrightarrow> (\<forall>k\<in>set ks. k = kind)"
  by (induction ks) auto

lemma validate_depth_kind_agrees:
  "validate_depth pre v d = [] \<Longrightarrow> kind_agrees v"
  using payload_kinds_nonempty_kind [of v]
  by (subst (asm) validate_depth.simps) (auto simp: kind_agrees_def split: if_splits)

lemma payload_map: "sv_map v = Some es \<Longrightarrow> safe_kind_map \<in> set (payload_kinds v)"
  by (simp add: payload_kinds_def)

lemma payload_slice: "sv_slice v = Some vs \<Longrightarrow> safe_kind_slice \<in> set (payload_kinds v)"
  by (simp add: payload_kinds_def)

lemma max_list_le: "(\<forall>x\<in>set xs. x \<le> (n::nat)) \<Longrightarrow> max_list xs \<le> n"
  by (induction xs) auto

lemma sv_depth_bound:
  assumes "\<forall>(k, v)\<in>set (opt_list m). sv_depth v \<le> n" and "\<forall>v\<in>set (opt_list sl). sv_depth v \<le> n"
  shows "sv_depth (SafeValue kind s i d b m sl w) \<le> Suc n"
  using assms by (auto simp: opt_list_def comp_def split: option.splits intro!: max_list_le)

lemma validate_depth_containers:
  assumes "validate_depth pre (SafeValue kind s i d b m sl w) dp = []"
  shows "dp \<le> 64
    \<and> (m \<noteq> None \<longrightarrow> kind = safe_kind_map) \<and> (sl \<noteq> None \<longrightarrow> kind = safe_kind_slice)
    \<and> (m \<noteq> None \<longrightarrow> validate_entries pre 0 (opt_list m) (Suc dp) = [])
    \<and> (sl \<noteq> None \<longrightarrow> validate_children pre 0 (opt_list sl) (Suc dp) = [])"
proof -
  have "kind_agrees (SafeValue kind s i d b m sl w)"
    using assms by (rule validate_depth_kind_agrees)
  moreover have "m \<noteq> None \<Longrightarrow> safe_kind_map \<in> set (payload_kinds (SafeValue kind s i d b m sl w))"
    "sl \<noteq> None \<Longrightarrow> safe_kind_slice \<in> set (payload_kinds (SafeValue kind s i d b m sl w))"
    by (simp_all add: payload_kinds_def)
  ultimately have k: "m \<noteq> None \<Longrightarrow> kind = safe_kind_map" "sl \<noteq> None \<Longrightarrow> kind = safe_kind_slice"
    by (auto simp: kind_agrees_def)
  have "\<not> 64 < dp"
    using assms by (subst (asm) validate_depth.simps) (simp split: if_splits)
  moreover have "validate_entries pre 0 (opt_list m) (Suc dp) = []" if "m \<noteq> None"
    using assms that k(1) [OF that]
    by (subst (asm) validate_depth.simps) (auto simp: opt_list_def kind_neq
        scalar_or_container_kinds_def split: if_splits)
  moreover have "validate_children pre 0 (opt_list sl) (Suc dp) = []" if "sl \<noteq> None"
    using assms that k(2) [OF that]
    by (subst (asm) validate_depth.simps) (auto simp: opt_list_def kind_neq
        scalar_or_container_kinds_def split: if_splits)
  ultimately show ?thesis
    using k by simp
qed

lemma validate_entries_Nil:
  "validate_entries pre i es d = [] \<Longrightarrow> (k, v) \<in> set es \<Longrightarrow>
   \<exists>pre'. validate_depth pre' v d = []"
  by (induction es arbitrary: i) (auto split: if_splits)

lemma validate_children_Nil:
  "validate_children pre i vs d = [] \<Longrightarrow> v \<in> set vs \<Longrightarrow> \<exists>pre'. validate_depth pre' v d = []"
  by (induction vs arbitrary: i) (auto split: if_splits)

lemma validate_depth_bound:
  "validate_depth pre v d = [] \<Longrightarrow> d + sv_depth v \<le> 65"
proof (induction v arbitrary: pre d)
  case (SafeValue kind s i db b m sl w)
  note c = validate_depth_containers [OF SafeValue.prems]
  have "sv_depth (SafeValue kind s i db b m sl w) \<le> Suc (64 - d)"
  proof (rule sv_depth_bound)
    show "\<forall>(k, v)\<in>set (opt_list m). sv_depth v \<le> 64 - d"
    proof clarify
      fix k v assume kv: "(k, v) \<in> set (opt_list m)"
      then obtain es where m: "m = Some es"
        by (cases m) (auto simp: opt_list_def)
      with kv c obtain pre' where v: "validate_depth pre' v (Suc d) = []"
        using validate_entries_Nil [of pre 0 "opt_list m" "Suc d" k v] by auto
      have "Suc d + sv_depth v \<le> 65"
        using kv m by (intro SafeValue.IH(1) [OF _ _ _ v, of es "(k, v)"]) (auto simp: opt_list_def)
      then show "sv_depth v \<le> 64 - d" by simp
    qed
    show "\<forall>v\<in>set (opt_list sl). sv_depth v \<le> 64 - d"
    proof
      fix v assume kv: "v \<in> set (opt_list sl)"
      then obtain vs where sl: "sl = Some vs"
        by (cases sl) (auto simp: opt_list_def)
      with kv c obtain pre' where v: "validate_depth pre' v (Suc d) = []"
        using validate_children_Nil [of pre 0 "opt_list sl" "Suc d" v] by auto
      have "Suc d + sv_depth v \<le> 65"
        using kv sl by (intro SafeValue.IH(2) [OF _ _ v, of vs]) (auto simp: opt_list_def)
      then show "sv_depth v \<le> 64 - d" by simp
    qed
  qed
  then show ?case
    using conjunct1 [OF c] by linarith
qed

section \<open>Records\<close>

lemma validate_hex_digest_Nil:
  "validate_hex_digest field value n = [] \<Longrightarrow> length value = n \<and> value \<noteq> [] \<and> list_all is_lower_hex value"
  by (auto simp: validate_hex_digest_def split: if_splits)

lemma record_id_versions_hex:
  "map_of record_id_versions version = Some spec \<Longrightarrow> ris_hex_digits spec = 64"
  by (auto simp: record_id_versions_def split: if_splits)

lemma validate_record_id:
  assumes "validate r = []"
  shows "length (nl_record_id r) = 64 \<and> list_all is_lower_hex (nl_record_id r)"
proof -
  have "validate_identity r = []"
    using assms by (simp add: validate_def)
  then show ?thesis
    by (auto simp: validate_identity_def dest!: validate_hex_digest_Nil record_id_versions_hex
        split: if_splits option.splits)
qed

lemma validate_region:
  assumes "validate r = []"
  shows "nl_region r \<noteq> [] \<and> te_region (nl_source r) = nl_region r"
proof -
  have "\<not> blank (nl_region r)" "\<not> blank (te_region (nl_source r))"
    and "nl_region r \<noteq> [] \<and> te_region (nl_source r) \<noteq> [] \<longrightarrow> nl_region r = te_region (nl_source r)"
    using assms by (auto simp: validate_def validate_envelope_def split: if_splits)
  then show ?thesis
    by (metis blank_Nil)
qed

lemma validate_times:
  assumes "validate r = []"
  shows "t_utc (nl_event_time r) \<and> t_utc (nl_observed_time r) \<and> t_utc (te_received_at (nl_source r))
    \<and> \<not> is_zero (nl_event_time r) \<and> \<not> is_zero (nl_observed_time r)
    \<and> \<not> is_zero (te_received_at (nl_source r))"
  using assms by (simp add: validate_def validate_envelope_def)

lemma validate_batch_id: "validate r = [] \<Longrightarrow> \<not> blank (nl_batch_id r)"
  by (simp add: validate_def)

end
