(* ===== verification/PbCodec.thy ===== *)
theory PbCodec
  imports ModelFacts
begin

text \<open>
  The protobuf side of the journal's codec (\<open>internal/journal/codec.go\<close>, from \<open>timeProto\<close> to
  \<open>valueModel\<close>): the mapping between the canonical record and the generated message types of
  \<open>api/proto/internal/v1\<close>. A message pointer is an option, a \<open>oneof\<close> a datatype with a constructor for
  the unset field. Messages whose fields coincide with the model's records (service, deployment,
  correlation, redaction, stack frame) reuse those records. Fields a reader does not know are kept in
  \<open>dm_unknown\<close>.

  The wire format itself (\<open>proto.Marshal\<close>, \<open>proto.Unmarshal\<close>, \<open>proto.Size\<close>) is library code and is a
  parameter of the theories that use it.
\<close>

section \<open>Messages\<close>

record timestamp_pb =
  ts_seconds :: int
  ts_nanos :: int

datatype pb_value =
    PbUnset
  | PbString bytes
  | PbInt "64 word"
  | PbDouble "64 word"
  | PbBool bool
  | PbMap "(bytes \<times> pb_value option) list option option"
  | PbList "pb_value option list option"
  | PbWithheld bytes

record pb_envelope =
  pe_source_type :: bytes
  pe_source_account :: bytes
  pe_region :: bytes
  pe_allowed_environments :: "bytes list"
  pe_allowed_services :: "bytes list"
  pe_source_instance :: bytes
  pe_credential_identity :: bytes
  pe_received_at :: "timestamp_pb option"

record pb_exception =
  px_type :: bytes
  px_safe_message :: bytes
  px_stack_frames :: "stack_frame option list"

record pb_reference =
  pf_source_type :: bytes
  pf_region :: bytes
  pf_locator :: bytes
  pf_from :: "timestamp_pb option"
  pf_to :: "timestamp_pb option"
  pf_classification :: bytes
  pf_expires_at :: "timestamp_pb option"

record pb_log =
  pl_schema_version :: bytes
  pl_record_id :: bytes
  pl_record_id_version :: bytes
  pl_identity_quality :: bytes
  pl_batch_id :: bytes
  pl_source :: "pb_envelope option"
  pl_region :: bytes
  pl_event_time :: "timestamp_pb option"
  pl_observed_time :: "timestamp_pb option"
  pl_timestamp_inferred :: bool
  pl_timestamp_inference_reason :: bytes
  pl_observed_time_inferred :: bool
  pl_observed_time_inference_reason :: bytes
  pl_severity_number :: "32 word"
  pl_severity_text :: bytes
  pl_severity_class :: bytes
  pl_body :: "pb_value option"
  pl_event_name :: bytes
  pl_attributes :: "(bytes \<times> pb_value option) list option"
  pl_resource_attributes :: "(bytes \<times> pb_value option) list option"
  pl_scope_attributes :: "(bytes \<times> pb_value option) list option"
  pl_service :: "service_identity option"
  pl_deployment :: "deployment_identity option"
  pl_correlation :: "correlation_identity option"
  pl_exception :: "pb_exception option"
  pl_redaction :: "redaction_metadata option"
  pl_raw_reference :: "pb_reference option"

record durable_msg =
  dm_schema_version :: bytes
  dm_message_id :: bytes
  dm_created_at :: "timestamp_pb option"
  dm_region :: bytes
  dm_tenant_id :: bytes
  dm_classification :: bytes
  dm_producer :: bytes
  dm_correlation_id :: bytes
  dm_log :: "pb_log option"
  dm_unknown :: bytes

section \<open>Timestamps\<close>

text \<open>\<open>timestamppb.New\<close>, \<open>AsTime\<close> and \<open>CheckValid\<close> (years 1 to 9999, nanoseconds below one second).\<close>

definition timestamp_new :: "gtime \<Rightarrow> timestamp_pb" where
  "timestamp_new t = \<lparr>ts_seconds = t_inst t div 1000000000, ts_nanos = t_inst t mod 1000000000\<rparr>"

definition timestamp_as_time :: "timestamp_pb \<Rightarrow> gtime" where
  "timestamp_as_time ts = unix_utc (ts_seconds ts * 1000000000 + ts_nanos ts)"

definition timestamp_valid :: "timestamp_pb \<Rightarrow> bool" where
  "timestamp_valid ts \<longleftrightarrow> -62135596800 \<le> ts_seconds ts \<and> ts_seconds ts \<le> 253402300799
     \<and> 0 \<le> ts_nanos ts \<and> ts_nanos ts < 1000000000"

definition time_proto :: "gtime \<Rightarrow> timestamp_pb option" where
  "time_proto t = (if is_zero t then None else Some (timestamp_new t))"

definition proto_time :: "timestamp_pb option \<Rightarrow> gtime option" where
  "proto_time ts =
     (case ts of
        None \<Rightarrow> None
      | Some x \<Rightarrow> if timestamp_valid x then Some (timestamp_as_time x) else None)"

definition optional_proto_time :: "timestamp_pb option \<Rightarrow> gtime option" where
  "optional_proto_time ts = (case ts of None \<Rightarrow> Some zero_time | Some x \<Rightarrow> proto_time ts)"

section \<open>Values\<close>

text \<open>\<open>valueProto\<close>: an empty value, and a value of unknown kind, is the nil message.\<close>

primrec value_proto :: "safe_value \<Rightarrow> pb_value option" where
  "value_proto (SafeValue kind s i d b m sl w) =
     (if kind = safe_kind_string then Some (PbString s)
      else if kind = safe_kind_int then Some (PbInt i)
      else if kind = safe_kind_double then Some (PbDouble d)
      else if kind = safe_kind_bool then Some (PbBool b)
      else if kind = safe_kind_map then
        Some (PbMap (Some (map_option (map (map_prod id value_proto)) m)))
      else if kind = safe_kind_slice then
        Some (PbList (Some (case map_option (map value_proto) sl of None \<Rightarrow> [] | Some vs \<Rightarrow> vs)))
      else if kind = safe_kind_withheld then Some (PbWithheld w)
      else None)"

definition map_proto ::
    "(bytes \<times> safe_value) list option \<Rightarrow> (bytes \<times> pb_value option) list option" where
  "map_proto m = map_option (map (map_prod id value_proto)) m"

fun map_m :: "('a \<Rightarrow> 'b option) \<Rightarrow> 'a list \<Rightarrow> 'b list option" where
  "map_m f [] = Some []"
| "map_m f (x # xs) =
     (case f x of None \<Rightarrow> None
      | Some y \<Rightarrow> (case map_m f xs of None \<Rightarrow> None | Some ys \<Rightarrow> Some (y # ys)))"

lemma map_m_cong [fundef_cong]:
  "xs = ys \<Longrightarrow> (\<And>x. x \<in> set ys \<Longrightarrow> f x = g x) \<Longrightarrow> map_m f xs = map_m g ys"
  by (induction xs arbitrary: ys) (auto split: option.splits)

text \<open>\<open>valueModel(p, false)\<close> on a non-nil message; the callers reject a nil one.\<close>

function pb_value_model :: "pb_value \<Rightarrow> safe_value option" where
  "pb_value_model (PbString s) = Some (safe_string s)"
| "pb_value_model (PbInt i) = Some (safe_int i)"
| "pb_value_model (PbDouble d) = Some (safe_double d)"
| "pb_value_model (PbBool b) = Some (safe_bool b)"
| "pb_value_model (PbMap None) = None"
| "pb_value_model (PbMap (Some None)) = Some (safe_map None)"
| "pb_value_model (PbMap (Some (Some es))) =
     map_option (\<lambda>xs. safe_map (Some xs))
       (map_m (\<lambda>e. case snd e of None \<Rightarrow> None
                   | Some p \<Rightarrow> map_option (\<lambda>x. (fst e, x)) (pb_value_model p)) es)"
| "pb_value_model (PbList None) = None"
| "pb_value_model (PbList (Some vs)) =
     map_option (\<lambda>xs. safe_slice (Some xs))
       (map_m (\<lambda>v. case v of None \<Rightarrow> None | Some p \<Rightarrow> pb_value_model p) vs)"
| "pb_value_model (PbWithheld w) = Some (withheld w)"
| "pb_value_model PbUnset = None"
  by pat_completeness auto

lemma size_map_entry:
  "e \<in> set es \<Longrightarrow> snd e = Some p \<Longrightarrow> size p < size (PbMap (Some (Some es)))"
proof (induction es)
  case (Cons a es)
  then show ?case by (cases a) auto
qed simp

lemma size_list_entry: "Some p \<in> set vs \<Longrightarrow> size p < size (PbList (Some vs))"
  by (induction vs) auto

termination pb_value_model
  by (relation "measure size") (auto simp del: pb_value.size dest: size_map_entry size_list_entry)

definition value_model :: "pb_value option \<Rightarrow> bool \<Rightarrow> safe_value option" where
  "value_model p allow_nil =
     (case p of None \<Rightarrow> if allow_nil then Some safe_empty else None | Some x \<Rightarrow> pb_value_model x)"

definition map_model ::
    "(bytes \<times> pb_value option) list option \<Rightarrow> (bytes \<times> safe_value) list option option" where
  "map_model m =
     (case m of
        None \<Rightarrow> Some None
      | Some es \<Rightarrow>
          map_option Some (map_m (\<lambda>e. map_option (\<lambda>x. (fst e, x)) (value_model (snd e) False)) es))"

section \<open>Records\<close>

definition envelope_proto :: "trusted_envelope \<Rightarrow> pb_envelope" where
  "envelope_proto e =
     \<lparr>pe_source_type = te_source_type e, pe_source_account = te_source_account e,
      pe_region = te_region e, pe_allowed_environments = te_allowed_environments e,
      pe_allowed_services = te_allowed_services e, pe_source_instance = te_source_instance e,
      pe_credential_identity = te_credential_identity e,
      pe_received_at = time_proto (te_received_at e)\<rparr>"

definition exception_proto :: "normalized_exception \<Rightarrow> pb_exception" where
  "exception_proto x =
     \<lparr>px_type = ne_type x, px_safe_message = ne_safe_message x,
      px_stack_frames = map Some (ne_stack_frames x)\<rparr>"

definition reference_proto :: "regional_log_reference \<Rightarrow> pb_reference" where
  "reference_proto x =
     \<lparr>pf_source_type = rr_source_type x, pf_region = rr_region x, pf_locator = rr_locator x,
      pf_from = time_proto (rr_from x), pf_to = time_proto (rr_to x),
      pf_classification = rr_classification x, pf_expires_at = time_proto (rr_expires_at x)\<rparr>"

definition to_proto :: "normalized_log \<Rightarrow> pb_log" where
  "to_proto r =
     \<lparr>pl_schema_version = nl_schema_version r, pl_record_id = nl_record_id r,
      pl_record_id_version = nl_record_id_version r, pl_identity_quality = nl_identity_quality r,
      pl_batch_id = nl_batch_id r, pl_source = Some (envelope_proto (nl_source r)),
      pl_region = nl_region r, pl_event_time = time_proto (nl_event_time r),
      pl_observed_time = time_proto (nl_observed_time r),
      pl_timestamp_inferred = nl_timestamp_inferred r,
      pl_timestamp_inference_reason = nl_timestamp_inference_reason r,
      pl_observed_time_inferred = nl_observed_time_inferred r,
      pl_observed_time_inference_reason = nl_observed_time_inference_reason r,
      pl_severity_number = nl_severity_number r, pl_severity_text = nl_severity_text r,
      pl_severity_class = nl_severity_class r, pl_body = value_proto (nl_body r),
      pl_event_name = nl_event_name r, pl_attributes = map_proto (nl_attributes r),
      pl_resource_attributes = map_proto (nl_resource_attributes r),
      pl_scope_attributes = map_proto (nl_scope_attributes r),
      pl_service = Some (nl_service r), pl_deployment = Some (nl_deployment r),
      pl_correlation = Some (nl_correlation r),
      pl_exception = map_option exception_proto (nl_exception r),
      pl_redaction = Some (nl_redaction r),
      pl_raw_reference = map_option reference_proto (nl_raw_reference r)\<rparr>"

definition envelope_model :: "pb_envelope \<Rightarrow> gtime \<Rightarrow> trusted_envelope" where
  "envelope_model e received =
     \<lparr>te_source_type = pe_source_type e, te_source_account = pe_source_account e,
      te_region = pe_region e, te_allowed_environments = pe_allowed_environments e,
      te_allowed_services = pe_allowed_services e, te_source_instance = pe_source_instance e,
      te_credential_identity = pe_credential_identity e, te_received_at = received\<rparr>"

definition exception_model :: "pb_exception \<Rightarrow> normalized_exception option" where
  "exception_model x =
     map_option
       (\<lambda>frames. \<lparr>ne_type = px_type x, ne_safe_message = px_safe_message x, ne_stack_frames = frames\<rparr>)
       (map_m id (px_stack_frames x))"

definition reference_model :: "pb_reference \<Rightarrow> regional_log_reference option" where
  "reference_model x =
     (case optional_proto_time (pf_from x) of None \<Rightarrow> None
      | Some from_time \<Rightarrow>
     (case optional_proto_time (pf_to x) of None \<Rightarrow> None
      | Some to_time \<Rightarrow>
     (case proto_time (pf_expires_at x) of None \<Rightarrow> None
      | Some expires \<Rightarrow>
          Some \<lparr>rr_source_type = pf_source_type x, rr_region = pf_region x, rr_locator = pf_locator x,
                rr_from = from_time, rr_to = to_time, rr_classification = pf_classification x,
                rr_expires_at = expires\<rparr>)))"

text \<open>An absent sub-message stays absent; a present one must convert.\<close>

definition optional_m :: "('a \<Rightarrow> 'b option) \<Rightarrow> 'a option \<Rightarrow> 'b option option" where
  "optional_m f x = (case x of None \<Rightarrow> Some None | Some y \<Rightarrow> map_option Some (f y))"

definition from_proto :: "pb_log \<Rightarrow> normalized_log option" where
  "from_proto p =
     (case (pl_source p, pl_service p, pl_deployment p, pl_correlation p, pl_redaction p) of
        (Some source, Some service, Some deployment, Some correlation, Some redaction) \<Rightarrow>
     (case proto_time (pl_event_time p) of None \<Rightarrow> None | Some event \<Rightarrow>
     (case proto_time (pl_observed_time p) of None \<Rightarrow> None | Some observed \<Rightarrow>
     (case proto_time (pe_received_at source) of None \<Rightarrow> None | Some received \<Rightarrow>
     (case value_model (pl_body p) True of None \<Rightarrow> None | Some body \<Rightarrow>
     (case map_model (pl_attributes p) of None \<Rightarrow> None | Some attrs \<Rightarrow>
     (case map_model (pl_resource_attributes p) of None \<Rightarrow> None | Some resource \<Rightarrow>
     (case map_model (pl_scope_attributes p) of None \<Rightarrow> None | Some scope \<Rightarrow>
     (case optional_m exception_model (pl_exception p) of None \<Rightarrow> None | Some ex \<Rightarrow>
     (case optional_m reference_model (pl_raw_reference p) of None \<Rightarrow> None | Some raw \<Rightarrow>
       (let r =
         \<lparr>nl_schema_version = pl_schema_version p, nl_record_id = pl_record_id p,
          nl_record_id_version = pl_record_id_version p, nl_identity_quality = pl_identity_quality p,
          nl_batch_id = pl_batch_id p, nl_source = envelope_model source received,
          nl_region = pl_region p, nl_event_time = event, nl_observed_time = observed,
          nl_timestamp_inferred = pl_timestamp_inferred p,
          nl_timestamp_inference_reason = pl_timestamp_inference_reason p,
          nl_observed_time_inferred = pl_observed_time_inferred p,
          nl_observed_time_inference_reason = pl_observed_time_inference_reason p,
          nl_severity_number = pl_severity_number p, nl_severity_text = pl_severity_text p,
          nl_severity_class = pl_severity_class p, nl_body = body, nl_event_name = pl_event_name p,
          nl_attributes = attrs, nl_resource_attributes = resource, nl_scope_attributes = scope,
          nl_service = service, nl_deployment = deployment, nl_correlation = correlation,
          nl_exception = ex, nl_redaction = redaction, nl_raw_reference = raw\<rparr>
        in if validate r = [] then Some r else None))))))))))
      | _ \<Rightarrow> None)"

section \<open>Round trip\<close>

text \<open>
  A value survives the message form when it, and every value inside it, is built as the constructors
  of \<open>safevalue.go\<close> build it: a kind other than empty, no payload but that kind's, and a non-nil slice
  (the message cannot tell a nil slice from an empty one, and turns an empty child into nil).
\<close>

primrec portable :: "safe_value \<Rightarrow> bool" where
  "portable (SafeValue kind s i d b m sl w) \<longleftrightarrow>
     kind \<in> set (safe_kind_withheld # scalar_or_container_kinds)
     \<and> (kind \<noteq> safe_kind_string \<longrightarrow> s = []) \<and> (kind \<noteq> safe_kind_int \<longrightarrow> i = 0)
     \<and> (kind \<noteq> safe_kind_double \<longrightarrow> d = 0) \<and> (kind \<noteq> safe_kind_bool \<longrightarrow> \<not> b)
     \<and> (kind \<noteq> safe_kind_map \<longrightarrow> m = None) \<and> (kind \<noteq> safe_kind_withheld \<longrightarrow> w = [])
     \<and> (kind = safe_kind_slice \<longleftrightarrow> sl \<noteq> None)
     \<and> (case map_option (map (map_prod id portable)) m of
          None \<Rightarrow> True | Some es \<Rightarrow> list_all snd es)
     \<and> (case map_option (map portable) sl of None \<Rightarrow> True | Some ps \<Rightarrow> list_all id ps)"

lemma map_m_map_Some:
  "(\<And>x. x \<in> set xs \<Longrightarrow> f (g x) = Some (h x)) \<Longrightarrow> map_m f (map g xs) = Some (map h xs)"
  by (induction xs) auto

lemma map_m_map_id:
  "(\<And>x. x \<in> set xs \<Longrightarrow> f (g x) = Some x) \<Longrightarrow> map_m f (map g xs) = Some xs"
  by (induction xs) auto

lemma portable_map:
  "portable (SafeValue kind s i d b (Some es) sl w) \<Longrightarrow> (k, v) \<in> set es \<Longrightarrow> portable v"
  by (auto simp: list_all_iff)

lemma portable_slice:
  "portable (SafeValue kind s i d b m (Some vs) w) \<Longrightarrow> v \<in> set vs \<Longrightarrow> portable v"
  by (auto simp: list_all_iff)

lemma safe_kinds_distinct:
  "distinct [safe_kind_empty, safe_kind_string, safe_kind_int, safe_kind_double, safe_kind_bool,
     safe_kind_map, safe_kind_slice, safe_kind_withheld]"
  by (simp add: safe_kind_defs)

lemma portable_cases:
  assumes "portable v"
  obtains (string) s where "v = safe_string s" | (int) i where "v = safe_int i"
  | (double) d where "v = safe_double d" | (bool) b where "v = safe_bool b"
  | (map) m where "v = safe_map m" | (slice) vs where "v = safe_slice (Some vs)"
  | (withheld) w where "v = withheld w"
proof -
  obtain kind s i d b m sl w where v: "v = SafeValue kind s i d b m sl w"
    by (cases v)
  have "kind \<in> set (safe_kind_withheld # scalar_or_container_kinds)"
    using assms by (simp add: v)
  then consider "kind = safe_kind_withheld" | "kind = safe_kind_string" | "kind = safe_kind_int"
    | "kind = safe_kind_double" | "kind = safe_kind_bool" | "kind = safe_kind_map"
    | "kind = safe_kind_slice"
    by (auto simp: scalar_or_container_kinds_def)
  then show thesis
    by cases (use assms in \<open>auto simp: v safe_kind_defs safe_string_def safe_int_def safe_double_def
        safe_bool_def safe_map_def safe_slice_def withheld_def
        intro: string int double bool map slice withheld\<close>)
qed

lemma value_proto_simps [simp]:
  "value_proto (safe_string s) = Some (PbString s)"
  "value_proto (safe_int i) = Some (PbInt i)"
  "value_proto (safe_double d) = Some (PbDouble d)"
  "value_proto (safe_bool b) = Some (PbBool b)"
  "value_proto (safe_map m) = Some (PbMap (Some (map_proto m)))"
  "value_proto (safe_slice (Some vs)) = Some (PbList (Some (map value_proto vs)))"
  "value_proto (withheld w) = Some (PbWithheld w)"
  by (simp_all add: safe_string_def safe_int_def safe_double_def safe_bool_def safe_map_def
      safe_slice_def withheld_def safe_kind_defs map_proto_def)

declare value_proto.simps [simp del] portable.simps [simp del]

lemma value_roundtrip:
  "portable v \<Longrightarrow> \<exists>p. value_proto v = Some p \<and> pb_value_model p = Some v"
proof (induction v)
  case (SafeValue kind s i d b m sl w)
  let ?v = "SafeValue kind s i d b m sl w"
  from SafeValue.prems show ?case
  proof (cases rule: portable_cases)
    case (map m')
    then have m: "m' = m"
      by (simp add: safe_map_def)
    show ?thesis
    proof (cases m)
      case None
      then show ?thesis
        unfolding map m by (simp add: map_proto_def)
    next
      case (Some es)
      have c: "\<exists>p. value_proto (snd e) = Some p \<and> pb_value_model p = Some (snd e)" if "e \<in> set es" for e
        using that portable_map [of kind s i d b es sl w "fst e" "snd e"] SafeValue.prems
        by (intro SafeValue.IH(1) [of es e]) (auto simp: Some prod_set_defs)
      then have "map_m (\<lambda>e. case snd e of None \<Rightarrow> None
                   | Some p \<Rightarrow> map_option (\<lambda>x. (fst e, x)) (pb_value_model p))
               (map (map_prod id value_proto) es) = Some es"
        by (intro map_m_map_id) (force split: option.splits)
      then show ?thesis
        unfolding map m by (simp add: map_proto_def Some)
    qed
  next
    case (slice vs)
    have c: "\<exists>p. value_proto v = Some p \<and> pb_value_model p = Some v" if "v \<in> set vs" for v
      using that slice portable_slice [of kind s i d b m vs w v] SafeValue.prems
      by (intro SafeValue.IH(2) [of vs v]) (auto simp: safe_slice_def)
    then have "map_m (\<lambda>v. case v of None \<Rightarrow> None | Some p \<Rightarrow> pb_value_model p) (map value_proto vs)
        = Some vs"
      by (intro map_m_map_id) force
    then show ?thesis
      unfolding slice by simp
  qed simp_all
qed

lemma map_roundtrip:
  assumes "\<forall>(k, v)\<in>set (opt_list m). portable v"
  shows "map_model (map_proto m) = Some m"
proof (cases m)
  case (Some es)
  have "map_m (\<lambda>e. map_option (\<lambda>x. (fst e, x)) (value_model (snd e) False))
      (map (map_prod id value_proto) es) = Some es"
    using assms Some by (intro map_m_map_id) (force simp: opt_list_def value_model_def dest: value_roundtrip)
  then show ?thesis
    by (simp add: Some map_model_def map_proto_def)
qed (simp add: map_model_def map_proto_def)

text \<open>Instants a protobuf timestamp represents, in UTC.\<close>

definition proto_range :: "gtime \<Rightarrow> bool" where
  "proto_range t \<longleftrightarrow> t_utc t \<and> \<not> is_zero t \<and> -62135596800000000000 \<le> t_inst t
     \<and> t_inst t < 253402300800000000000"

lemma time_roundtrip: "proto_range t \<Longrightarrow> proto_time (time_proto t) = Some t"
proof -
  assume t: "proto_range t"
  then have "timestamp_valid (timestamp_new t)"
    by (auto simp: proto_range_def timestamp_valid_def timestamp_new_def)
  moreover have "timestamp_as_time (timestamp_new t) = t"
    using t by (simp add: timestamp_as_time_def timestamp_new_def proto_range_def unix_utc_def)
  ultimately show ?thesis
    using t by (simp add: proto_range_def proto_time_def time_proto_def)
qed

lemma optional_time_roundtrip: "proto_range t \<Longrightarrow> optional_proto_time (time_proto t) = Some t"
  using time_roundtrip [of t]
  by (auto simp: optional_proto_time_def time_proto_def proto_range_def)

definition portable_record :: "normalized_log \<Rightarrow> bool" where
  "portable_record r \<longleftrightarrow>
     (sv_is_zero (nl_body r) \<longrightarrow> nl_body r = safe_empty) \<and> (\<not> sv_is_zero (nl_body r) \<longrightarrow> portable (nl_body r))
     \<and> list_all (\<lambda>e. portable (snd e)) (opt_list (nl_attributes r))
     \<and> list_all (\<lambda>e. portable (snd e)) (opt_list (nl_resource_attributes r))
     \<and> list_all (\<lambda>e. portable (snd e)) (opt_list (nl_scope_attributes r))
     \<and> proto_range (nl_event_time r) \<and> proto_range (nl_observed_time r)
     \<and> proto_range (te_received_at (nl_source r))
     \<and> (case nl_raw_reference r of None \<Rightarrow> True
          | Some rf \<Rightarrow> proto_range (rr_from rf) \<and> proto_range (rr_to rf) \<and> proto_range (rr_expires_at rf))"

lemma value_proto_empty: "value_proto safe_empty = None"
  by (simp add: safe_empty_def value_proto.simps safe_kind_defs)

lemma body_roundtrip:
  "(sv_is_zero v \<longrightarrow> v = safe_empty) \<Longrightarrow> (\<not> sv_is_zero v \<longrightarrow> portable v) \<Longrightarrow>
   value_model (value_proto v) True = Some v"
  by (cases "sv_is_zero v")
    (auto simp: value_model_def value_proto_empty dest: value_roundtrip)

lemma envelope_roundtrip: "envelope_model (envelope_proto e) (te_received_at e) = e"
  by (simp add: envelope_model_def envelope_proto_def)

lemma exception_roundtrip: "optional_m exception_model (map_option exception_proto x) = Some x"
proof (cases x)
  case (Some y)
  have "map_m id (map Some (ne_stack_frames y)) = Some (ne_stack_frames y)"
    by (intro map_m_map_id) simp
  then show ?thesis
    by (simp add: Some optional_m_def exception_model_def exception_proto_def)
qed (simp add: optional_m_def)

lemma reference_roundtrip:
  "(case x of None \<Rightarrow> True
     | Some rf \<Rightarrow> proto_range (rr_from rf) \<and> proto_range (rr_to rf) \<and> proto_range (rr_expires_at rf)) \<Longrightarrow>
   optional_m reference_model (map_option reference_proto x) = Some x"
  by (cases x) (simp_all add: optional_m_def reference_model_def reference_proto_def
      optional_time_roundtrip time_roundtrip)

lemma normalized_log_eta:
  "\<lparr>nl_schema_version = nl_schema_version r, nl_record_id = nl_record_id r,
    nl_record_id_version = nl_record_id_version r, nl_identity_quality = nl_identity_quality r,
    nl_batch_id = nl_batch_id r, nl_source = nl_source r, nl_region = nl_region r,
    nl_event_time = nl_event_time r, nl_observed_time = nl_observed_time r,
    nl_timestamp_inferred = nl_timestamp_inferred r, nl_timestamp_inference_reason =
    nl_timestamp_inference_reason r, nl_observed_time_inferred = nl_observed_time_inferred r,
    nl_observed_time_inference_reason = nl_observed_time_inference_reason r, nl_severity_number
    = nl_severity_number r, nl_severity_text = nl_severity_text r, nl_severity_class =
    nl_severity_class r, nl_body = nl_body r, nl_event_name = nl_event_name r, nl_attributes =
    nl_attributes r, nl_resource_attributes = nl_resource_attributes r, nl_scope_attributes =
    nl_scope_attributes r, nl_service = nl_service r, nl_deployment = nl_deployment r,
    nl_correlation = nl_correlation r, nl_exception = nl_exception r, nl_redaction =
    nl_redaction r, nl_raw_reference = nl_raw_reference r\<rparr> = r"
  by (cases r) simp

lemma record_roundtrip:
  assumes "validate r = []" and "portable_record r"
  shows "from_proto (to_proto r) = Some r"
proof -
  have attrs: "map_model (map_proto (nl_attributes r)) = Some (nl_attributes r)"
    "map_model (map_proto (nl_resource_attributes r)) = Some (nl_resource_attributes r)"
    "map_model (map_proto (nl_scope_attributes r)) = Some (nl_scope_attributes r)"
    using assms(2) by (auto simp: portable_record_def list_all_iff intro!: map_roundtrip)
  have body: "value_model (value_proto (nl_body r)) True = Some (nl_body r)"
    using assms(2) by (intro body_roundtrip) (simp_all add: portable_record_def)
  have raw: "optional_m reference_model (map_option reference_proto (nl_raw_reference r))
      = Some (nl_raw_reference r)"
    using assms(2) by (intro reference_roundtrip) (simp add: portable_record_def)
  have received: "pe_received_at (envelope_proto (nl_source r)) = time_proto (te_received_at (nl_source r))"
    by (simp add: envelope_proto_def)
  show ?thesis
    using assms
    by (simp add: from_proto_def to_proto_def received time_roundtrip portable_record_def attrs body
        raw exception_roundtrip envelope_roundtrip Let_def normalized_log_eta)
qed

end
