(* ===== verification/Sha256.thy ===== *)
theory Sha256
  imports Binary "HOL-Library.Word"
begin

unbundle bit_operations_syntax

text \<open>
  SHA-256 (\<open>crypto/sha256\<close> of Go's standard library), executable over \<open>bytes\<close>. The journal's proofs use
  one fact about the digest, that it has 32 bytes; the locale \<open>digest\<close> states it, the proofs are made
  inside it, and it is interpreted on \<open>sha256\<close>.
\<close>

type_synonym u32 = "32 word"

text \<open>
  The constants are the first 32 bits of the fractional parts of roots of primes: the cube roots of the
  first 64 primes for the rounds, the square roots of the first eight for the initial state.
  \<open>root_bits k n b r\<close> refines the root bit by bit, from bit \<open>b\<close> down.
\<close>

fun root_bits :: "nat \<Rightarrow> nat \<Rightarrow> nat \<Rightarrow> nat \<Rightarrow> nat" where
  "root_bits k n 0 r = r"
| "root_bits k n (Suc b) r = root_bits k n b (if (r + 2 ^ b) ^ k \<le> n then r + 2 ^ b else r)"

definition root_fraction :: "nat \<Rightarrow> nat \<Rightarrow> u32" where
  "root_fraction k p = word_of_nat (root_bits k (p * 2 ^ (32 * k)) 36 0)"

definition hash_primes :: "nat list" where
  "hash_primes =
     [2, 3, 5, 7, 11, 13, 17, 19, 23, 29, 31, 37, 41, 43, 47, 53, 59, 61, 67, 71, 73, 79, 83,
      89, 97, 101, 103, 107, 109, 113, 127, 131, 137, 139, 149, 151, 157, 163, 167, 173, 179,
      181, 191, 193, 197, 199, 211, 223, 227, 229, 233, 239, 241, 251, 257, 263, 269, 271,
      277, 281, 283, 293, 307, 311]"

definition round_constants :: "u32 list" where
  "round_constants = map (root_fraction 3) hash_primes"

type_synonym hash_state = "u32 \<times> u32 \<times> u32 \<times> u32 \<times> u32 \<times> u32 \<times> u32 \<times> u32"

definition initial_hash :: hash_state where
  "initial_hash =
     (root_fraction 2 2, root_fraction 2 3, root_fraction 2 5, root_fraction 2 7,
      root_fraction 2 11, root_fraction 2 13, root_fraction 2 17, root_fraction 2 19)"

definition rotr :: "nat \<Rightarrow> u32 \<Rightarrow> u32" where
  "rotr n x = drop_bit n x OR push_bit (32 - n) x"

definition pad_message :: "bytes \<Rightarrow> bytes" where
  "pad_message m =
     m @ [byte 128] @ replicate ((119 - length m mod 64) mod 64) (byte 0)
       @ be 8 (8 * length m mod 2 ^ 64)"

text \<open>The message schedule: the last sixteen words, newest first, produce the next one.\<close>

fun extend_schedule :: "nat \<Rightarrow> u32 list \<Rightarrow> u32 list" where
  "extend_schedule 0 ws = rev ws"
| "extend_schedule (Suc n) ws =
     (let w2 = ws ! 1; w7 = ws ! 6; w15 = ws ! 14; w16 = ws ! 15;
          s0 = rotr 7 w15 XOR rotr 18 w15 XOR drop_bit 3 w15;
          s1 = rotr 17 w2 XOR rotr 19 w2 XOR drop_bit 10 w2
      in extend_schedule n ((w16 + s0 + w7 + s1) # ws))"

fun block_words :: "nat \<Rightarrow> bytes \<Rightarrow> u32 list" where
  "block_words 0 bs = []"
| "block_words (Suc n) bs = word_of_nat (unbe (take 4 bs)) # block_words n (drop 4 bs)"

definition hash_round :: "hash_state \<Rightarrow> u32 \<times> u32 \<Rightarrow> hash_state" where
  "hash_round s kw =
     (case (s, kw) of ((a, b, c, d, e, f, g, h), (k, w)) \<Rightarrow>
       (let s1 = rotr 6 e XOR rotr 11 e XOR rotr 25 e;
            ch = (e AND f) XOR (NOT e AND g);
            t1 = h + s1 + ch + k + w;
            s0 = rotr 2 a XOR rotr 13 a XOR rotr 22 a;
            mj = (a AND b) XOR (a AND c) XOR (b AND c)
        in (t1 + s0 + mj, a, b, c, d + t1, e, f, g)))"

definition hash_block :: "hash_state \<Rightarrow> bytes \<Rightarrow> hash_state" where
  "hash_block s block =
     (case (s, foldl hash_round s (zip round_constants (extend_schedule 48 (rev (block_words 16 block))))) of
        ((a, b, c, d, e, f, g, h), (a', b', c', d', e', f', g', h')) \<Rightarrow>
          (a + a', b + b', c + c', d + d', e + e', f + f', g + g', h + h'))"

fun hash_blocks :: "nat \<Rightarrow> hash_state \<Rightarrow> bytes \<Rightarrow> hash_state" where
  "hash_blocks 0 s bs = s"
| "hash_blocks (Suc n) s bs = hash_blocks n (hash_block s (take 64 bs)) (drop 64 bs)"

definition sha256 :: "bytes \<Rightarrow> bytes" where
  "sha256 m =
     (let p = pad_message m
      in case hash_blocks (length p div 64) initial_hash p of
           (a, b, c, d, e, f, g, h) \<Rightarrow>
             concat (map (\<lambda>w. be 4 (unat w)) [a, b, c, d, e, f, g, h]))"

section \<open>The contract\<close>

locale digest =
  fixes H :: "bytes \<Rightarrow> bytes"
  assumes length_digest: "length (H m) = 32"
begin

lemma digest_not_Nil: "H m \<noteq> []"
  using length_digest [of m] by auto

end

interpretation sha: digest sha256
  by unfold_locales (simp add: sha256_def Let_def split: prod.splits)

end
