(* ===== verification/JournalTypes.thy ===== *)
theory JournalTypes
  imports JournalKeys KvStore PbCodec Sha256
begin

text \<open>
  The journal's vocabulary (\<open>internal/journal/types.go\<close>) and the validators of
  \<open>internal/journal/journal.go\<close>: limits, error values, configuration, identifiers, times and boundary
  checks.

  \<open>lib\<close> collects what the journal takes from code outside the repository: the digest, the protobuf wire
  codec and the UUID library. It is a field of the configuration, so every definition that needs a
  library call receives it as an argument.
\<close>

section \<open>Limits and errors\<close>

definition format_major :: nat where "format_major = 1"
definition format_minor :: nat where "format_minor = 0"

definition default_claim_ttl :: int where "default_claim_ttl = 5 * go_minute"
definition default_safety_delay :: int where "default_safety_delay = 15 * go_minute"
definition default_entry_overhead :: "64 word" where "default_entry_overhead = 64"
definition default_max_batch_refs :: int where "default_max_batch_refs = 64"
definition max_owner_bytes :: nat where "max_owner_bytes = 128"
definition max_boundary_bytes :: nat where "max_boundary_bytes = 128"
definition claim_token_bytes :: nat where "claim_token_bytes = length ''claim:'' + 64"
definition transition_reserve_bytes :: nat where
  "transition_reserve_bytes = max_owner_bytes + 1 + claim_token_bytes - 1"
definition max_encoded_record_bytes :: nat where "max_encoded_record_bytes = 256 * 1024"
definition max_append_records :: nat where "max_append_records = 10000"
definition max_transition_records :: nat where "max_transition_records = 1000"

lemmas limit_defs = format_major_def format_minor_def max_owner_bytes_def max_boundary_bytes_def
  claim_token_bytes_def transition_reserve_bytes_def max_encoded_record_bytes_def
  max_append_records_def max_transition_records_def

datatype jerr =
    ErrInvalidConfig
  | ErrInvalidInput
  | ErrCapacity
  | ErrOwnerMismatch
  | ErrBoundaryMismatch
  | ErrIncompatibleFormat
  | ErrLocked
  | ErrDuplicateConflict
  | ErrNotHealthy
  | ErrCorruption
  | ErrStaleClaim
  | ErrClosed

section \<open>Configuration\<close>

record lib =
  lib_sha256 :: "bytes \<Rightarrow> bytes"
  lib_marshal :: "durable_msg \<Rightarrow> bytes option"
  lib_unmarshal :: "bytes \<Rightarrow> durable_msg option"
  lib_size :: "pb_log \<Rightarrow> nat"
  lib_uuid_sha1 :: "bytes \<Rightarrow> bytes"
  lib_uuid_parse :: "bytes \<Rightarrow> bytes option"

text \<open>
  \<open>Config\<close>. The interfaces it holds are represented by what the journal observes: whether they are nil,
  and for the validator its verdict on a record and its policy version. The clock and the free-space
  probe are read through the environment of each operation.
\<close>

record config =
  cfg_dir :: bytes
  cfg_owner :: bytes
  cfg_tenant_id :: bytes
  cfg_region :: bytes
  cfg_classification :: bytes
  cfg_clock_nil :: bool
  cfg_validator_nil :: bool
  cfg_free_space_nil :: bool
  cfg_accepts :: "normalized_log \<Rightarrow> bool"
  cfg_policy_version :: bytes
  cfg_max_bytes :: "64 word"
  cfg_min_free_bytes :: "64 word"
  cfg_claim_ttl :: int
  cfg_safety_delay :: int
  cfg_entry_overhead :: "64 word"
  cfg_max_batch_refs :: int
  cfg_lib :: lib

text \<open>\<open>Priority\<close> is a byte; the four named values are 0 to 3 and lower is claimed first.\<close>

definition priority_critical :: nat where "priority_critical = 0"
definition priority_high :: nat where "priority_high = 1"
definition priority_normal :: nat where "priority_normal = 2"
definition priority_low :: nat where "priority_low = 3"

record admission =
  adm_record :: normalized_log
  adm_priority :: nat

datatype jstate = StatePending | StateClaimed | StateCommitted

record replay_identity =
  rp_version :: bytes
  rp_digest :: bytes
  rp_priority :: nat

definition replay_identity_version :: bytes where
  "replay_identity_version = ''journal:replay:v1''"

record claimed_record =
  cr_record :: normalized_log
  cr_priority :: nat
  cr_replay :: replay_identity
  cr_token :: bytes
  cr_owner :: bytes
  cr_attempt :: "32 word"
  cr_expires_at :: gtime

record commit_claim =
  cc_record_id :: bytes
  cc_token :: bytes

record recovered_record =
  rc_record :: normalized_log
  rc_state :: jstate

text \<open>\<open>QuarantineReason\<close> is a byte; 1 to 3 are the named reasons.\<close>

definition quarantine_first :: nat where "quarantine_first = 1"
definition quarantine_last :: nat where "quarantine_last = 3"

record capacity_observation =
  co_used :: "64 word"
  co_total :: "64 word"
  co_can_persist :: bool

record stats =
  st_accounted_bytes :: "64 word"
  st_by_priority :: "64 word list"
  st_pending :: nat
  st_claimed :: nat
  st_committed :: nat
  st_quarantined :: nat

section \<open>Times\<close>

definition valid_journal_time :: "gtime \<Rightarrow> bool" where
  "valid_journal_time t \<longleftrightarrow>
     \<not> is_zero t \<and> t_utc t \<and> \<not> t_inst t < -9223372036854775808 \<and> \<not> 9223372036854775807 < t_inst t
     \<and> same_instant t (unix_utc (sint (unix_nano t)))"

definition safe_add :: "gtime \<Rightarrow> int \<Rightarrow> gtime option" where
  "safe_add t d =
     (if \<not> valid_journal_time t \<or> d \<le> 0 \<or> 9223372036854775807 - d < t_inst t then None
      else Some (add_time t d))"

section \<open>Identifiers\<close>

definition identifier_char :: "char \<Rightarrow> bool" where
  "identifier_char c \<longleftrightarrow> is_lower c \<or> is_upper c \<or> is_digit c \<or> c \<in> set ''-_.:/''"

definition valid_identifier :: "bytes \<Rightarrow> nat \<Rightarrow> bool" where
  "valid_identifier s n \<longleftrightarrow> s \<noteq> [] \<and> length s \<le> n \<and> list_all identifier_char s"

definition valid_record_id :: "bytes \<Rightarrow> bool" where
  "valid_record_id s \<longleftrightarrow> length s = 64 \<and> list_all is_lower_hex s"

definition valid_claim_token :: "bytes \<Rightarrow> bool" where
  "valid_claim_token s \<longleftrightarrow> length s = claim_token_bytes \<and> take 6 s = ''claim:''
     \<and> list_all is_lower_hex (drop 6 s)"

definition valid_classification :: "bytes \<Rightarrow> bool" where
  "valid_classification s \<longleftrightarrow> s \<in> set classifications"

definition classification_rank :: "bytes \<Rightarrow> nat" where
  "classification_rank s =
     (if s = ''PUBLIC'' then 1 else if s = ''INTERNAL'' then 2
      else if s = ''SENSITIVE'' then 3 else if s = ''RESTRICTED'' then 4 else 0)"

section \<open>Record boundary\<close>

definition valid_record_boundary :: "normalized_log \<Rightarrow> config \<Rightarrow> bytes \<Rightarrow> bool" where
  "valid_record_boundary r cfg policy_version \<longleftrightarrow>
     nl_region r = cfg_region cfg \<and> rm_policy_version (nl_redaction r) = policy_version
     \<and> (case nl_raw_reference r of
          None \<Rightarrow> True
        | Some rf \<Rightarrow>
            rr_region rf = cfg_region cfg \<and> classification_rank (rr_classification rf) \<noteq> 0
            \<and> classification_rank (rr_classification rf) \<le> classification_rank (cfg_classification cfg))"

definition valid_record_times :: "normalized_log \<Rightarrow> bool" where
  "valid_record_times r \<longleftrightarrow>
     (case nl_raw_reference r of
        None \<Rightarrow> True
      | Some rf \<Rightarrow> \<not> before (rr_to rf) (rr_from rf) \<and> after (rr_expires_at rf) (rr_to rf))
     \<and> list_all valid_journal_time
         ([te_received_at (nl_source r), nl_event_time r, nl_observed_time r]
          @ (case nl_raw_reference r of
               None \<Rightarrow> [] | Some rf \<Rightarrow> [rr_from rf, rr_to rf, rr_expires_at rf]))"

section \<open>Facts\<close>

lemma valid_journal_time_iff:
  "valid_journal_time t \<longleftrightarrow> t_utc t \<and> nano_range (t_inst t)"
  using sint_unix_nano [of t]
  by (auto simp: valid_journal_time_def nano_range_def is_zero_def same_instant_def)

lemma valid_journal_timeD [dest]:
  "valid_journal_time t \<Longrightarrow> t_utc t" "valid_journal_time t \<Longrightarrow> nano_range (t_inst t)"
  by (simp_all add: valid_journal_time_iff)

lemma valid_journal_time_nonzero [simp]: "valid_journal_time t \<Longrightarrow> \<not> is_zero t"
  by (simp add: valid_journal_time_def)

lemma safe_add_Some:
  "safe_add t d = Some t' \<longleftrightarrow>
     valid_journal_time t \<and> 0 < d \<and> t' = add_time t d \<and> t_inst t + d \<le> 9223372036854775807"
  by (auto simp: safe_add_def)

lemma safe_add_valid: "safe_add t d = Some t' \<Longrightarrow> valid_journal_time t'"
  by (auto simp: safe_add_Some valid_journal_time_iff add_time_def nano_range_def)

lemma safe_add_later: "safe_add t d = Some t' \<Longrightarrow> before t t'"
  by (auto simp: safe_add_Some add_time_def before_def)

lemma is_zero_zero_time [simp]: "is_zero zero_time"
  by (simp add: is_zero_def zero_time_def)

lemma is_zero_utc: "is_zero t \<Longrightarrow> t_utc t \<Longrightarrow> t = zero_time"
  by (simp add: is_zero_def zero_time_def)

lemma valid_record_id_length [simp]: "valid_record_id s \<Longrightarrow> length s = 64"
  by (simp add: valid_record_id_def)

lemma valid_claim_token_length [simp]: "valid_claim_token s \<Longrightarrow> length s = 70"
  by (simp add: valid_claim_token_def claim_token_bytes_def)

lemma valid_identifier_length: "valid_identifier s n \<Longrightarrow> length s \<le> n"
  by (simp add: valid_identifier_def)

lemma valid_identifier_nonempty: "valid_identifier s n \<Longrightarrow> s \<noteq> []"
  by (simp add: valid_identifier_def)

end
