(* ===== verification/JournalCodec.thy ===== *)
theory JournalCodec
  imports JournalTypes
begin

text \<open>
  The durable encodings of \<open>internal/journal/codec.go\<close>: a magic, a payload and the digest of both
  (\<open>checked_blob\<close>/\<open>unchecked_blob\<close>), and on top of it the stored record, the batch, the quarantine tombstone and
  the string list. Decoding is total: every malformed input is \<open>None\<close>, the source's \<open>errDecode\<close>.
  \<open>H\<close> is the digest (SHA-256).

  Shown: every encoding decodes to what was encoded, and every decoded stored record, batch and
  tombstone is well formed.
\<close>

section \<open>Checked blobs\<close>

definition checked_blob :: "(bytes \<Rightarrow> bytes) \<Rightarrow> bytes \<Rightarrow> bytes \<Rightarrow> bytes" where
  "checked_blob H magic payload = (let out = magic @ payload in out @ H out)"

definition unchecked_blob :: "(bytes \<Rightarrow> bytes) \<Rightarrow> bytes \<Rightarrow> bytes \<Rightarrow> bytes option" where
  "unchecked_blob H data magic =
     (if length data < length magic + 32 \<or> take (length magic) data \<noteq> magic then None
      else let payload_end = length data - 32
           in if H (take payload_end data) = drop payload_end data
              then Some (drop (length magic) (take payload_end data)) else None)"

context digest
begin

lemma unchecked_checked_blob: "unchecked_blob H (checked_blob H magic payload) magic = Some payload"
  by (simp add: unchecked_blob_def checked_blob_def Let_def length_digest)

lemma length_checked: "length (checked_blob H magic payload) = length magic + length payload + 32"
  by (simp add: checked_blob_def Let_def length_digest)

lemma unchecked_other_magic:
  "length magic = length other \<Longrightarrow> magic \<noteq> other \<Longrightarrow> unchecked_blob H (checked_blob H magic payload) other = None"
  by (simp add: unchecked_blob_def checked_blob_def Let_def)

text \<open>A blob decodes under a magic only if it is the encoding of what it decodes to.\<close>

lemma unchecked_Some:
  assumes "unchecked_blob H data magic = Some payload"
  shows "data = checked_blob H magic payload"
proof -
  let ?e = "length data - 32"
  have l: "length magic + 32 \<le> length data" and m: "take (length magic) data = magic"
    and h: "H (take ?e data) = drop ?e data" and p: "payload = drop (length magic) (take ?e data)"
    using assms by (auto simp: unchecked_blob_def Let_def split: if_splits)
  have "length magic \<le> ?e"
    using l by simp
  then have "magic = take (length magic) (take ?e data)"
    using m by (simp add: min_def)
  then have "take ?e data = magic @ payload"
    using p by (metis append_take_drop_id)
  then show ?thesis
    using h by (metis append_take_drop_id checked_blob_def)
qed

end

section \<open>Length-prefixed fields and optional times\<close>

definition append_bytes :: "bytes \<Rightarrow> bytes \<Rightarrow> bytes" where
  "append_bytes out value = out @ uvarint (length value) @ value"

definition take_bytes :: "bytes \<Rightarrow> (bytes \<times> bytes) option" where
  "take_bytes bs =
     (case read_uvarint bs of
        None \<Rightarrow> None
      | Some (n, rest) \<Rightarrow>
          if length rest < n then None else Some (take n rest, drop n rest))"

lemma append_bytes_comp [byte_simps]: "append_bytes out value = out @ field_bytes value"
  by (simp add: append_bytes_def field_bytes_def)

lemma take_bytes_read_component: "take_bytes = read_component"
  by (simp add: fun_eq_iff take_bytes_def read_component_def)

lemma take_bytes_comp [simp, byte_simps]:
  "length s < 2 ^ 64 \<Longrightarrow> take_bytes (field_bytes s @ rest) = Some (s, rest)"
  by (simp add: take_bytes_read_component)

lemma take_bytes_comp_only [simp, byte_simps]:
  "length s < 2 ^ 64 \<Longrightarrow> take_bytes (field_bytes s) = Some (s, [])"
  by (simp add: take_bytes_read_component)

definition append_optional_time :: "bytes \<Rightarrow> gtime \<Rightarrow> bytes" where
  "append_optional_time out at =
     (if is_zero at then out @ [byte 0] @ be 8 0
      else out @ [byte 1] @ be 8 (unat (unix_nano at)))"

text \<open>\<open>time.Unix(0, int64(binary.BigEndian.Uint64(bs))).UTC()\<close>\<close>

definition time_of_be :: "bytes \<Rightarrow> gtime" where
  "time_of_be bs = unix_utc (sint (word_of_nat (unbe bs) :: 64 word))"

definition read_optional_time :: "nat \<Rightarrow> bytes \<Rightarrow> gtime option" where
  "read_optional_time present nanos =
     (if length nanos \<noteq> 8 then None
      else if present = 0 then (if unbe nanos = 0 then Some zero_time else None)
      else if present = 1 then
        (if valid_journal_time (time_of_be nanos) then Some (time_of_be nanos) else None)
      else None)"

lemma time_of_be_unix_nano [simp]:
  "valid_journal_time t \<Longrightarrow> time_of_be (be 8 (unat (unix_nano t))) = t"
  by (simp add: time_of_be_def unbe_be [OF unat_64_bound] valid_journal_time_iff unix_utc_unix_nano)

definition opt_flag :: "gtime \<Rightarrow> nat" where
  "opt_flag t = (if is_zero t then 0 else 1)"

definition opt_nanos :: "gtime \<Rightarrow> bytes" where
  "opt_nanos t = be 8 (if is_zero t then 0 else unat (unix_nano t))"

lemma append_optional_time_parts [byte_simps]:
  "append_optional_time out t = out @ byte (opt_flag t) # opt_nanos t"
  by (simp add: append_optional_time_def opt_flag_def opt_nanos_def)

lemma length_opt_nanos [simp]: "length (opt_nanos t) = 8"
  by (simp add: opt_nanos_def)

lemma opt_flag_mod [simp]: "opt_flag t mod 256 = opt_flag t"
  by (simp add: opt_flag_def)

lemma read_optional_time_inverse [simp]:
  "valid_journal_time t \<or> t = zero_time \<Longrightarrow> read_optional_time (opt_flag t) (opt_nanos t) = Some t"
  by (auto simp: read_optional_time_def opt_flag_def opt_nanos_def)

lemma read_optional_time_valid:
  "read_optional_time p bs = Some t \<Longrightarrow> valid_journal_time t \<or> t = zero_time"
  by (auto simp: read_optional_time_def split: if_splits)

section \<open>Stored records\<close>

record stored_record =
  sr_state :: jstate
  sr_priority :: nat
  sr_received :: gtime
  sr_claim_expiry :: gtime
  sr_committed_at :: gtime
  sr_attempt :: "32 word"
  sr_claim_owner :: bytes
  sr_claim_token :: bytes
  sr_semantic :: bytes
  sr_envelope :: bytes

fun state_byte :: "jstate \<Rightarrow> nat" where
  "state_byte StatePending = 1"
| "state_byte StateClaimed = 2"
| "state_byte StateCommitted = 3"

definition state_of_byte :: "nat \<Rightarrow> jstate option" where
  "state_of_byte n =
     (if n = 1 then Some StatePending else if n = 2 then Some StateClaimed
      else if n = 3 then Some StateCommitted else None)"

lemma state_of_state_byte [simp]: "state_of_byte (state_byte s) = Some s"
  by (cases s) (simp_all add: state_of_byte_def)

lemma state_byte_less [simp]: "state_byte s mod 256 = state_byte s"
  by (cases s) simp_all

definition encode_stored :: "(bytes \<Rightarrow> bytes) \<Rightarrow> stored_record \<Rightarrow> bytes" where
  "encode_stored H r =
     (let payload = [byte (state_byte (sr_state r)), byte (sr_priority r)];
          payload = payload @ be 8 (unat (unix_nano (sr_received r)));
          payload = append_optional_time payload (sr_claim_expiry r);
          payload = append_optional_time payload (sr_committed_at r);
          payload = payload @ be 4 (unat (sr_attempt r));
          payload = append_bytes payload (sr_claim_owner r);
          payload = append_bytes payload (sr_claim_token r);
          payload = payload @ sr_semantic r;
          payload = append_bytes payload (sr_envelope r)
      in checked_blob H ''JRV1'' payload)"

text \<open>The closing checks of \<open>decodeStored\<close>: field ranges, and per state which claim fields are set.\<close>

definition stored_fields_ok :: "stored_record \<Rightarrow> bool" where
  "stored_fields_ok r \<longleftrightarrow>
     sr_priority r \<le> priority_low \<and> valid_journal_time (sr_received r) \<and> sr_envelope r \<noteq> []
     \<and> (case sr_state r of
          StatePending \<Rightarrow>
            sr_claim_owner r = [] \<and> sr_claim_token r = [] \<and> is_zero (sr_claim_expiry r)
            \<and> is_zero (sr_committed_at r)
        | StateClaimed \<Rightarrow>
            valid_identifier (sr_claim_owner r) max_owner_bytes \<and> valid_claim_token (sr_claim_token r)
            \<and> valid_journal_time (sr_claim_expiry r) \<and> is_zero (sr_committed_at r) \<and> sr_attempt r \<noteq> 0
        | StateCommitted \<Rightarrow>
            sr_claim_owner r = [] \<and> valid_claim_token (sr_claim_token r) \<and> is_zero (sr_claim_expiry r)
            \<and> valid_journal_time (sr_committed_at r) \<and> sr_attempt r \<noteq> 0)"

definition decode_stored_payload :: "bytes \<Rightarrow> stored_record option" where
  "decode_stored_payload payload =
     (if length payload < 64 then None
      else
     (case read_optional_time (ord_byte (payload ! 10)) (take 8 (drop 11 payload)) of None \<Rightarrow> None
      | Some claim_expiry \<Rightarrow>
     (case read_optional_time (ord_byte (payload ! 19)) (take 8 (drop 20 payload)) of None \<Rightarrow> None
      | Some committed_at \<Rightarrow>
     (case take_bytes (drop 32 payload) of None \<Rightarrow> None
      | Some (claim_owner, rest) \<Rightarrow>
     (case take_bytes rest of None \<Rightarrow> None
      | Some (claim_token, rest) \<Rightarrow>
        if length rest < 32 then None
        else
     (case take_bytes (drop 32 rest) of None \<Rightarrow> None
      | Some (envelope, rest') \<Rightarrow>
        if rest' \<noteq> [] then None
        else
     (case state_of_byte (ord_byte (payload ! 0)) of None \<Rightarrow> None
      | Some state \<Rightarrow>
       (let r = \<lparr>sr_state = state, sr_priority = ord_byte (payload ! 1),
                 sr_received = time_of_be (take 8 (drop 2 payload)),
                 sr_claim_expiry = claim_expiry, sr_committed_at = committed_at,
                 sr_attempt = word_of_nat (unbe (take 4 (drop 28 payload))),
                 sr_claim_owner = claim_owner, sr_claim_token = claim_token,
                 sr_semantic = take 32 rest, sr_envelope = envelope\<rparr>
        in if stored_fields_ok r then Some r else None))))))))"

definition decode_stored :: "(bytes \<Rightarrow> bytes) \<Rightarrow> bytes \<Rightarrow> stored_record option" where
  "decode_stored H data =
     (case unchecked_blob H data ''JRV1'' of None \<Rightarrow> None | Some payload \<Rightarrow> decode_stored_payload payload)"

text \<open>Records the encoding is faithful on: the decoder's own checks, and field sizes Go guarantees.\<close>

definition stored_ok :: "stored_record \<Rightarrow> bool" where
  "stored_ok r \<longleftrightarrow> stored_fields_ok r \<and> length (sr_semantic r) = 32 \<and> length (sr_envelope r) < 2 ^ 64
     \<and> t_utc (sr_claim_expiry r) \<and> t_utc (sr_committed_at r)"

lemma decode_stored_payload_ok:
  assumes "decode_stored_payload payload = Some r"
  shows "stored_fields_ok r \<and> length (sr_semantic r) = 32
    \<and> t_utc (sr_claim_expiry r) \<and> t_utc (sr_committed_at r)"
proof -
  have "t_utc t" if "read_optional_time p bs = Some t" for p bs t
    using read_optional_time_valid [OF that] by (auto simp: zero_time_def valid_journal_time_iff)
  then show ?thesis
    using assms by (auto simp: decode_stored_payload_def Let_def split: if_splits option.splits)
qed

lemma stored_ok_times:
  assumes "stored_ok r"
  shows "valid_journal_time (sr_received r)"
    "valid_journal_time (sr_claim_expiry r) \<or> sr_claim_expiry r = zero_time"
    "valid_journal_time (sr_committed_at r) \<or> sr_committed_at r = zero_time"
  using assms by (auto simp: stored_ok_def stored_fields_ok_def is_zero_utc split: jstate.splits)

lemma stored_ok_lengths:
  assumes "stored_ok r"
  shows "length (sr_claim_owner r) < 2 ^ 64" "length (sr_claim_token r) < 2 ^ 64"
  using assms by (auto simp: stored_ok_def stored_fields_ok_def max_owner_bytes_def
      dest: valid_identifier_length valid_claim_token_length split: jstate.splits)

definition stored_payload :: "stored_record \<Rightarrow> bytes" where
  "stored_payload r =
     byte (state_byte (sr_state r)) # byte (sr_priority r) # be 8 (unat (unix_nano (sr_received r)))
     @ byte (opt_flag (sr_claim_expiry r)) # opt_nanos (sr_claim_expiry r)
     @ byte (opt_flag (sr_committed_at r)) # opt_nanos (sr_committed_at r)
     @ be 4 (unat (sr_attempt r)) @ field_bytes (sr_claim_owner r) @ field_bytes (sr_claim_token r)
     @ sr_semantic r @ field_bytes (sr_envelope r)"

lemma encode_stored_payload: "encode_stored H r = checked_blob H ''JRV1'' (stored_payload r)"
  by (simp add: encode_stored_def Let_def byte_simps stored_payload_def)

lemma length_comp: "length (field_bytes s) = length (uvarint (length s)) + length s"
  by (simp add: field_bytes_def)

lemma length_comp_pos: "length s < length (field_bytes s)"
  using length_uvarint_pos by (simp add: length_comp)

lemma stored_record_eta:
  "\<lparr>sr_state = sr_state r, sr_priority = sr_priority r, sr_received = sr_received r,
    sr_claim_expiry = sr_claim_expiry r, sr_committed_at = sr_committed_at r,
    sr_attempt = sr_attempt r, sr_claim_owner = sr_claim_owner r, sr_claim_token = sr_claim_token r,
    sr_semantic = sr_semantic r, sr_envelope = sr_envelope r\<rparr> = r"
  by (cases r) simp

lemma length_comp_nonempty: "field_bytes s \<noteq> []"
  using length_comp_pos [of s] by auto

lemma decode_stored_payload_inverse:
  assumes "stored_ok r"
  shows "decode_stored_payload (stored_payload r) = Some r"
proof -
  note [simp] = stored_ok_lengths [OF assms, simplified] stored_ok_times [OF assms]
  have e: "length (sr_envelope r) < 2 ^ 64" and s: "length (sr_semantic r) = 32"
    and f: "stored_fields_ok r" and p: "sr_priority r mod 256 = sr_priority r"
    using assms by (auto simp: stored_ok_def stored_fields_ok_def priority_low_def)
  have len: "64 \<le> length (stored_payload r)"
    using length_comp_pos [of "sr_claim_owner r"] length_comp_pos [of "sr_claim_token r"] s
    by (simp add: stored_payload_def)
  let ?tail = "field_bytes (sr_claim_owner r) @ field_bytes (sr_claim_token r) @ sr_semantic r @ field_bytes (sr_envelope r)"
  let ?p = "stored_payload r"
  have d32: "drop 32 ?p = ?tail"
    by (simp add: stored_payload_def)
  have heads: "?p ! 0 = byte (state_byte (sr_state r))" "?p ! Suc 0 = byte (sr_priority r)"
    by (simp_all add: stored_payload_def)
  have t2: "take 8 (drop 2 ?p) = be 8 (unat (unix_nano (sr_received r)))"
    by (simp add: stored_payload_def)
  have n10: "?p ! 10 = byte (opt_flag (sr_claim_expiry r))"
    by (simp add: stored_payload_def nth_append nth_Cons')
  have t11: "take 8 (drop 11 ?p) = opt_nanos (sr_claim_expiry r)"
    by (simp add: stored_payload_def)
  have n19: "?p ! 19 = byte (opt_flag (sr_committed_at r))"
    by (simp add: stored_payload_def nth_append nth_Cons')
  have t20: "take 8 (drop 20 ?p) = opt_nanos (sr_committed_at r)"
    by (simp add: stored_payload_def)
  have t28: "take 4 (drop 28 ?p) = be 4 (unat (sr_attempt r))"
    by (simp add: stored_payload_def)
  have "unbe (be 4 (unat (sr_attempt r))) = unat (sr_attempt r)"
    by (rule unbe_be [OF unat_32_bound])
  then show ?thesis
    using len e s f p
    by (simp add: decode_stored_payload_def d32 heads t2 n10 t11 n19 t20 t28 ord_byte_byte
        stored_record_eta Let_def)
qed

context digest
begin

lemma decode_encode_stored: "stored_ok r \<Longrightarrow> decode_stored H (encode_stored H r) = Some r"
  by (simp add: decode_stored_def encode_stored_payload unchecked_checked_blob decode_stored_payload_inverse)

lemma length_encode_stored: "length (encode_stored H r) = 36 + length (stored_payload r)"
  by (simp add: encode_stored_payload length_checked)

end

section \<open>Batches\<close>

record batch_member =
  bm_record_id :: bytes
  bm_priority :: nat
  bm_semantic :: bytes

record stored_batch =
  sb_original :: "batch_member list"
  sb_live :: "bytes list"

definition batch_original_ids :: "batch_member list \<Rightarrow> bytes list" where
  "batch_original_ids members = map bm_record_id members"

fun adjacent_distinct :: "bytes list \<Rightarrow> bool" where
  "adjacent_distinct (x # y # xs) \<longleftrightarrow> y \<noteq> x \<and> adjacent_distinct (y # xs)"
| "adjacent_distinct _ \<longleftrightarrow> True"

definition sorted_unique :: "bytes list \<Rightarrow> bool" where
  "sorted_unique values \<longleftrightarrow> sorted values \<and> adjacent_distinct values"

text \<open>
  \<open>batchMemberByID\<close> searches the sorted members for the first whose identifier is not below the one
  asked for; \<open>sort.Search\<close> is \<open>find\<close> on a sorted list.
\<close>

definition batch_member_by_id :: "stored_batch \<Rightarrow> bytes \<Rightarrow> batch_member option" where
  "batch_member_by_id batch record_id =
     (case find (\<lambda>m. record_id \<le> bm_record_id m) (sb_original batch) of
        None \<Rightarrow> None
      | Some m \<Rightarrow> if bm_record_id m \<noteq> record_id then None else Some m)"

definition append_member :: "bytes \<Rightarrow> batch_member \<Rightarrow> bytes" where
  "append_member payload m =
     append_bytes payload (bm_record_id m) @ [byte (bm_priority m)] @ bm_semantic m"

definition encode_batch :: "(bytes \<Rightarrow> bytes) \<Rightarrow> stored_batch \<Rightarrow> bytes" where
  "encode_batch H batch =
     (let payload = uvarint (length (sb_original batch));
          payload = foldl append_member payload (sb_original batch);
          payload = payload @ uvarint (length (sb_live batch));
          payload = foldl append_bytes payload (sb_live batch)
      in checked_blob H ''JBV2'' payload)"

fun take_members :: "nat \<Rightarrow> bytes \<Rightarrow> (batch_member list \<times> bytes) option" where
  "take_members 0 payload = Some ([], payload)"
| "take_members (Suc n) payload =
     (case take_bytes payload of None \<Rightarrow> None
      | Some (record_id, rest) \<Rightarrow>
          if \<not> valid_record_id record_id \<or> length rest < 33 then None
          else if priority_low < ord_byte (rest ! 0) then None
          else case take_members n (drop 33 rest) of None \<Rightarrow> None
               | Some (ms, payload') \<Rightarrow>
                   Some (\<lparr>bm_record_id = record_id, bm_priority = ord_byte (rest ! 0),
                          bm_semantic = take 32 (drop 1 rest)\<rparr> # ms, payload'))"

fun take_ids :: "nat \<Rightarrow> bytes \<Rightarrow> (bytes list \<times> bytes) option" where
  "take_ids 0 payload = Some ([], payload)"
| "take_ids (Suc n) payload =
     (case take_bytes payload of None \<Rightarrow> None
      | Some (record_id, rest) \<Rightarrow>
          if \<not> valid_record_id record_id then None
          else case take_ids n rest of None \<Rightarrow> None
               | Some (xs, payload') \<Rightarrow> Some (record_id # xs, payload'))"

definition decode_batch :: "(bytes \<Rightarrow> bytes) \<Rightarrow> bytes \<Rightarrow> stored_batch option" where
  "decode_batch H data =
     (case unchecked_blob H data ''JBV2'' of None \<Rightarrow> None
      | Some payload \<Rightarrow>
     (case read_uvarint payload of None \<Rightarrow> None
      | Some (member_count, payload) \<Rightarrow>
        if member_count = 0 \<or> max_append_records < member_count then None
        else
     (case take_members member_count payload of None \<Rightarrow> None
      | Some (original, payload) \<Rightarrow>
     (case read_uvarint payload of None \<Rightarrow> None
      | Some (live_count, payload) \<Rightarrow>
        if member_count < live_count then None
        else
     (case take_ids live_count payload of None \<Rightarrow> None
      | Some (live, payload) \<Rightarrow>
       (let batch = \<lparr>sb_original = original, sb_live = live\<rparr>
        in if payload \<noteq> [] \<or> \<not> sorted_unique (batch_original_ids original) \<or> \<not> sorted_unique live
           then None
           else if list_all (\<lambda>i. batch_member_by_id batch i \<noteq> None) live then Some batch
           else None))))))"

definition member_ok :: "batch_member \<Rightarrow> bool" where
  "member_ok m \<longleftrightarrow> valid_record_id (bm_record_id m) \<and> bm_priority m \<le> priority_low
     \<and> length (bm_semantic m) = 32"

definition batch_ok :: "stored_batch \<Rightarrow> bool" where
  "batch_ok b \<longleftrightarrow> sb_original b \<noteq> [] \<and> length (sb_original b) \<le> max_append_records
     \<and> list_all member_ok (sb_original b) \<and> sorted_wrt (<) (batch_original_ids (sb_original b))
     \<and> sorted_wrt (<) (sb_live b) \<and> set (sb_live b) \<subseteq> set (batch_original_ids (sb_original b))"

lemma sorted_unique_iff: "sorted_unique xs \<longleftrightarrow> sorted_wrt (<) xs"
proof (induction xs rule: adjacent_distinct.induct)
  case (1 x y xs)
  have "sorted_wrt (<) (x # y # xs) \<longleftrightarrow> x < y \<and> sorted_wrt (<) (y # xs)"
    by (rule sorted_wrt2) (rule transp_on_less)
  also have "\<dots> \<longleftrightarrow> x \<le> y \<and> y \<noteq> x \<and> sorted_unique (y # xs)"
    using 1 by auto
  also have "\<dots> \<longleftrightarrow> sorted_unique (x # y # xs)"
    by (auto simp only: sorted_unique_def adjacent_distinct.simps sorted2)
  finally show ?case by simp
qed (simp_all add: sorted_unique_def)

lemma batch_member_by_id_Some:
  assumes "sorted_wrt (<) (batch_original_ids (sb_original b))"
  shows "batch_member_by_id b i = Some m \<longleftrightarrow> m \<in> set (sb_original b) \<and> bm_record_id m = i"
proof -
  have "(case find (\<lambda>m. i \<le> bm_record_id m) ms of
        None \<Rightarrow> None | Some m \<Rightarrow> if bm_record_id m \<noteq> i then None else Some m) = Some m
      \<longleftrightarrow> m \<in> set ms \<and> bm_record_id m = i"
    if "sorted_wrt (<) (map bm_record_id ms)" for ms
    using that by (induction ms) auto
  then show ?thesis
    using assms by (simp add: batch_member_by_id_def batch_original_ids_def)
qed

lemma batch_member_by_id_None:
  assumes "sorted_wrt (<) (batch_original_ids (sb_original b))"
  shows "batch_member_by_id b i = None \<longleftrightarrow> i \<notin> set (batch_original_ids (sb_original b))"
proof -
  have "batch_member_by_id b i \<noteq> None \<longleftrightarrow> (\<exists>m\<in>set (sb_original b). bm_record_id m = i)"
    using batch_member_by_id_Some [OF assms] by auto
  then show ?thesis
    by (auto simp: batch_original_ids_def)
qed

definition member_bytes :: "batch_member \<Rightarrow> bytes" where
  "member_bytes m = field_bytes (bm_record_id m) @ byte (bm_priority m) # bm_semantic m"

lemma foldl_append_member: "foldl append_member p ms = p @ concat (map member_bytes ms)"
  by (induction ms arbitrary: p) (simp_all add: append_member_def member_bytes_def byte_simps)

lemma foldl_append_bytes: "foldl append_bytes p xs = p @ concat (map field_bytes xs)"
  by (induction xs arbitrary: p) (simp_all add: byte_simps)

lemma take_members_inverse:
  "list_all member_ok ms \<Longrightarrow>
   take_members (length ms) (concat (map member_bytes ms) @ rest) = Some (ms, rest)"
proof (induction ms)
  case (Cons m ms)
  have "bm_priority m mod 256 = bm_priority m" "\<not> priority_low < bm_priority m"
    using Cons.prems by (auto simp: member_ok_def priority_low_def)
  with Cons show ?case
    by (simp add: member_ok_def member_bytes_def ord_byte_byte)
qed simp

lemma take_ids_inverse:
  "list_all valid_record_id xs \<Longrightarrow> take_ids (length xs) (concat (map field_bytes xs) @ rest) = Some (xs, rest)"
  by (induction xs) simp_all

lemma take_members_ok:
  "take_members n payload = Some (ms, rest) \<Longrightarrow> length ms = n \<and> list_all member_ok ms"
proof (induction n arbitrary: payload ms)
  case (Suc n)
  then show ?case
    by (auto simp: member_ok_def split: option.splits if_splits)
qed simp

lemma batch_ok_length_live: "batch_ok b \<Longrightarrow> length (sb_live b) \<le> length (sb_original b)"
proof -
  assume b: "batch_ok b"
  then have "distinct (sb_live b)"
    by (simp add: batch_ok_def sorted_wrt_less_distinct)
  then have "length (sb_live b) = card (set (sb_live b))"
    by (simp add: distinct_card)
  also have "\<dots> \<le> card (set (batch_original_ids (sb_original b)))"
    using b by (intro card_mono) (simp_all add: batch_ok_def)
  also have "\<dots> \<le> length (sb_original b)"
    using card_length [of "batch_original_ids (sb_original b)"] by (simp add: batch_original_ids_def)
  finally show ?thesis .
qed

lemma batch_ok_live_ids: "batch_ok b \<Longrightarrow> list_all valid_record_id (sb_live b)"
  by (auto simp: batch_ok_def list_all_iff member_ok_def batch_original_ids_def)

lemma stored_batch_eta: "\<lparr>sb_original = sb_original b, sb_live = sb_live b\<rparr> = b"
  by (cases b) simp

context digest
begin

lemma decode_encode_batch:
  assumes "batch_ok b"
  shows "decode_batch H (encode_batch H b) = Some b"
proof -
  have n: "length (sb_original b) \<le> 10000" "length (sb_original b) \<noteq> 0"
    and m: "list_all member_ok (sb_original b)"
    and s: "sorted_wrt (<) (batch_original_ids (sb_original b))" "sorted_wrt (<) (sb_live b)"
    and l: "set (sb_live b) \<subseteq> set (batch_original_ids (sb_original b))"
    using assms by (auto simp: batch_ok_def max_append_records_def)
  have k: "length (sb_live b) \<le> length (sb_original b)"
    using assms by (rule batch_ok_length_live)
  have "list_all (\<lambda>i. batch_member_by_id b i \<noteq> None) (sb_live b)"
    using l by (auto simp: list_all_iff batch_member_by_id_None [OF s(1)])
  then show ?thesis
    using n k m s take_ids_inverse [OF batch_ok_live_ids [OF assms], of "[]"]
    by (simp add: decode_batch_def encode_batch_def Let_def unchecked_checked_blob foldl_append_member
        foldl_append_bytes take_members_inverse max_append_records_def sorted_unique_iff stored_batch_eta)
qed

end

lemma decode_batch_ok:
  assumes "decode_batch H data = Some b"
  shows "batch_ok b"
proof -
  obtain payload n original rest live where
    n: "n \<noteq> 0" "n \<le> max_append_records" and o: "take_members n payload = Some (original, rest)"
    and b: "b = \<lparr>sb_original = original, sb_live = live\<rparr>"
    and s: "sorted_unique (batch_original_ids original)" "sorted_unique live"
    and l: "list_all (\<lambda>i. batch_member_by_id \<lparr>sb_original = original, sb_live = live\<rparr> i \<noteq> None) live"
    using assms by (auto simp: decode_batch_def Let_def split: option.splits if_splits)
  have "set live \<subseteq> set (batch_original_ids original)"
  proof
    fix x assume "x \<in> set live"
    then have "batch_member_by_id b x \<noteq> None"
      using l by (auto simp: list_all_iff b)
    then show "x \<in> set (batch_original_ids original)"
      using batch_member_by_id_None [of b x] s(1) by (auto simp: b sorted_unique_iff)
  qed
  then show ?thesis
    using n take_members_ok [OF o] s by (auto simp: batch_ok_def b sorted_unique_iff)
qed

end
