(* ===== verification/JournalEnvelope.thy ===== *)
theory JournalEnvelope
  imports JournalCodec
begin

text \<open>
  The rest of \<open>internal/journal/codec.go\<close>: quarantine tombstones in their current and legacy formats,
  the string list of the boundary manifest, and the durable envelope around a record, with the replay
  digest computed from it.
\<close>

section \<open>String lists\<close>

definition encode_strings :: "(bytes \<Rightarrow> bytes) \<Rightarrow> bytes \<Rightarrow> bytes list \<Rightarrow> bytes" where
  "encode_strings H magic values =
     checked_blob H magic (foldl append_bytes (uvarint (length values)) values)"

fun take_strings :: "nat \<Rightarrow> bytes \<Rightarrow> (bytes list \<times> bytes) option" where
  "take_strings 0 payload = Some ([], payload)"
| "take_strings (Suc n) payload =
     (case take_bytes payload of None \<Rightarrow> None
      | Some (v, rest) \<Rightarrow>
          (case take_strings n rest of None \<Rightarrow> None
           | Some (vs, payload') \<Rightarrow> Some (v # vs, payload')))"

definition decode_strings :: "(bytes \<Rightarrow> bytes) \<Rightarrow> bytes \<Rightarrow> bytes \<Rightarrow> bytes list option" where
  "decode_strings H data magic =
     (case unchecked_blob H data magic of None \<Rightarrow> None
      | Some payload \<Rightarrow>
     (case read_uvarint payload of None \<Rightarrow> None
      | Some (n, payload) \<Rightarrow>
     (case take_strings n payload of None \<Rightarrow> None
      | Some (vs, rest) \<Rightarrow> if rest \<noteq> [] then None else Some vs)))"

lemma take_strings_inverse:
  "list_all (\<lambda>s. length s < 2 ^ 64) vs \<Longrightarrow>
   take_strings (length vs) (concat (map field_bytes vs) @ rest) = Some (vs, rest)"
  by (induction vs) simp_all

section \<open>Quarantine tombstones\<close>

record quarantine_metadata =
  qm_record_id :: bytes
  qm_reason :: nat
  qm_at :: gtime
  qm_attempt :: "32 word"
  qm_semantic :: bytes
  qm_priority :: nat
  qm_legacy :: bool

definition encode_quarantine ::
    "(bytes \<Rightarrow> bytes) \<Rightarrow> bytes \<Rightarrow> nat \<Rightarrow> gtime \<Rightarrow> 32 word \<Rightarrow> bytes \<Rightarrow> nat \<Rightarrow> bytes" where
  "encode_quarantine H record_id reason at attempt semantic priority =
     (let present = (if is_zero at then 0 else 1);
          payload = [byte reason, byte present];
          payload = payload @ be 8 (unat (unix_nano at));
          payload = payload @ be 4 (unat attempt);
          payload = payload @ [byte priority];
          payload = payload @ semantic;
          payload = append_bytes payload record_id
      in checked_blob H ''JQV2'' payload)"

definition encode_legacy_quarantine ::
    "(bytes \<Rightarrow> bytes) \<Rightarrow> bytes \<Rightarrow> nat \<Rightarrow> gtime \<Rightarrow> 32 word \<Rightarrow> bytes" where
  "encode_legacy_quarantine H record_id reason at attempt =
     (let present = (if is_zero at then 0 else 1);
          payload = [byte reason, byte present];
          payload = payload @ be 8 (unat (unix_nano at));
          payload = payload @ be 4 (unat attempt);
          payload = append_bytes payload record_id
      in checked_blob H ''JQV1'' payload)"

definition decode_quarantine :: "(bytes \<Rightarrow> bytes) \<Rightarrow> bytes \<Rightarrow> quarantine_metadata option" where
  "decode_quarantine H data =
     (let blob = (case unchecked_blob H data ''JQV2'' of
                    Some payload \<Rightarrow> Some (payload, False)
                  | None \<Rightarrow> (case unchecked_blob H data ''JQV1'' of
                               Some payload \<Rightarrow> Some (payload, True)
                             | None \<Rightarrow> None))
      in case blob of None \<Rightarrow> None
         | Some (payload, legacy) \<Rightarrow>
             if length payload < (if legacy then 15 else 48) \<or> ord_byte (payload ! 1) \<noteq> 1 then None
             else if ord_byte (payload ! 0) < quarantine_first \<or> quarantine_last < ord_byte (payload ! 0)
             then None
             else
               let at = time_of_be (take 8 (drop 2 payload));
                   attempt = word_of_nat (unbe (take 4 (drop 10 payload)));
                   rest = drop 14 payload;
                   priority = (if legacy then 0 else ord_byte (rest ! 0));
                   semantic = (if legacy then replicate 32 (byte 0) else take 32 (drop 1 rest));
                   rest = (if legacy then rest else drop 33 rest)
               in case take_bytes rest of None \<Rightarrow> None
                  | Some (record_id, rest') \<Rightarrow>
                      if \<not> valid_journal_time at \<or> attempt = 0 \<or> rest' \<noteq> []
                         \<or> \<not> valid_record_id record_id then None
                      else if \<not> legacy \<and> priority_low < priority then None
                      else Some \<lparr>qm_record_id = record_id, qm_reason = ord_byte (payload ! 0),
                                 qm_at = at, qm_attempt = attempt, qm_semantic = semantic,
                                 qm_priority = priority, qm_legacy = legacy\<rparr>)"

definition quarantine_ok :: "quarantine_metadata \<Rightarrow> bool" where
  "quarantine_ok q \<longleftrightarrow>
     valid_record_id (qm_record_id q) \<and> quarantine_first \<le> qm_reason q \<and> qm_reason q \<le> quarantine_last
     \<and> valid_journal_time (qm_at q) \<and> qm_attempt q \<noteq> 0 \<and> length (qm_semantic q) = 32
     \<and> qm_priority q \<le> priority_low"

lemma be_attempt [simp]: "word_of_nat (unbe (be 4 (unat (a :: 32 word)))) = a"
  by (simp add: unbe_be [OF unat_32_bound])

context digest
begin

lemma decode_encode_strings:
  assumes "list_all (\<lambda>s. length s < 2 ^ 64) vs" and "length vs < 2 ^ 64"
  shows "decode_strings H (encode_strings H magic vs) magic = Some vs"
  using assms take_strings_inverse [OF assms(1), of "[]"]
  by (simp add: decode_strings_def encode_strings_def unchecked_checked_blob foldl_append_bytes)

lemma decode_encode_quarantine:
  assumes "quarantine_ok q" and "\<not> qm_legacy q"
  shows "decode_quarantine H
      (encode_quarantine H (qm_record_id q) (qm_reason q) (qm_at q) (qm_attempt q) (qm_semantic q)
        (qm_priority q)) = Some q"
proof -
  have "qm_reason q mod 256 = qm_reason q" "qm_priority q mod 256 = qm_priority q"
    "1 \<le> qm_reason q" "qm_reason q \<le> 3" "qm_priority q \<le> 3"
    using assms by (auto simp: quarantine_ok_def quarantine_first_def quarantine_last_def priority_low_def)
  then show ?thesis
    using assms length_comp_pos [of "qm_record_id q"] length_comp_nonempty
    by (simp add: decode_quarantine_def encode_quarantine_def Let_def unchecked_checked_blob byte_simps
        quarantine_ok_def quarantine_first_def quarantine_last_def priority_low_def not_less)
qed

lemma decode_encode_legacy_quarantine:
  assumes "valid_record_id i" and "quarantine_first \<le> r" and "r \<le> quarantine_last"
    and "valid_journal_time at" and "a \<noteq> 0"
  shows "decode_quarantine H (encode_legacy_quarantine H i r at a) =
      Some \<lparr>qm_record_id = i, qm_reason = r, qm_at = at, qm_attempt = a,
            qm_semantic = replicate 32 (byte 0), qm_priority = 0, qm_legacy = True\<rparr>"
proof -
  have "r mod 256 = r" "1 \<le> r" "r \<le> 3"
    using assms by (auto simp: quarantine_first_def quarantine_last_def)
  then show ?thesis
    using assms length_comp_pos [of i] length_comp_nonempty
    by (simp add: decode_quarantine_def encode_legacy_quarantine_def Let_def unchecked_checked_blob
        unchecked_other_magic byte_simps quarantine_first_def quarantine_last_def not_less)
qed

end

section \<open>The durable envelope\<close>

definition durable_message_id :: "lib \<Rightarrow> bytes \<Rightarrow> bytes" where
  "durable_message_id l record_id = lib_uuid_sha1 l (''journal-record:'' @ record_id)"

definition encode_durable :: "lib \<Rightarrow> normalized_log \<Rightarrow> bytes \<Rightarrow> bytes \<Rightarrow> bytes option" where
  "encode_durable l record tenant_id classification =
     (if validate record \<noteq> [] then None
      else lib_marshal l
        \<lparr>dm_schema_version = normalized_log_schema_version,
         dm_message_id = durable_message_id l (nl_record_id record),
         dm_created_at = time_proto (te_received_at (nl_source record)),
         dm_region = nl_region record, dm_tenant_id = tenant_id, dm_classification = classification,
         dm_producer = te_source_instance (nl_source record),
         dm_correlation_id = ci_trace_id (nl_correlation record),
         dm_log = Some (to_proto record), dm_unknown = []\<rparr>)"

definition encoded_normalized_size :: "lib \<Rightarrow> normalized_log \<Rightarrow> nat" where
  "encoded_normalized_size l record = lib_size l (to_proto record)"

definition decode_durable :: "lib \<Rightarrow> bytes \<Rightarrow> bytes \<Rightarrow> bytes \<Rightarrow> normalized_log option" where
  "decode_durable l data tenant_id classification =
     (case lib_unmarshal l data of None \<Rightarrow> None
      | Some message \<Rightarrow>
     (case (dm_log message, parse_schema_version (dm_schema_version message),
            dm_created_at message) of
        (Some log, Some version, Some created) \<Rightarrow>
          if sver_major version \<noteq> normalized_log_schema_major
             \<or> lib_uuid_parse l (dm_message_id message) \<noteq> Some (dm_message_id message)
             \<or> \<not> timestamp_valid created
             \<or> dm_region message = [] \<or> dm_tenant_id message = []
             \<or> dm_classification message = [] \<or> dm_producer message = [] then None
          else if dm_tenant_id message \<noteq> tenant_id \<or> dm_classification message \<noteq> classification then None
          else
            (case from_proto log of None \<Rightarrow> None
             | Some record \<Rightarrow>
                 if durable_message_id l (nl_record_id record) \<noteq> dm_message_id message
                    \<or> nl_region record \<noteq> dm_region message
                    \<or> te_source_instance (nl_source record) \<noteq> dm_producer message
                    \<or> ci_trace_id (nl_correlation record) \<noteq> dm_correlation_id message
                    \<or> \<not> same_instant (te_received_at (nl_source record)) (timestamp_as_time created)
                 then None
                 else if \<not> valid_record_times record then None
                 else Some record)
      | _ \<Rightarrow> None))"

definition semantic_digest_envelope :: "lib \<Rightarrow> bytes \<Rightarrow> bytes option" where
  "semantic_digest_envelope l data =
     (case lib_unmarshal l data of None \<Rightarrow> None
      | Some message \<Rightarrow>
     (case dm_log message of None \<Rightarrow> None
      | Some log \<Rightarrow>
     (case pl_source log of None \<Rightarrow> None
      | Some source \<Rightarrow>
          map_option (lib_sha256 l)
            (lib_marshal l
              (message\<lparr>dm_created_at := None,
                       dm_log := Some (log\<lparr>pl_batch_id := [],
                                            pl_source := Some (source\<lparr>pe_received_at := None\<rparr>)\<rparr>)\<rparr>)))))"

definition new_replay_identity ::
    "lib \<Rightarrow> normalized_log \<Rightarrow> bytes \<Rightarrow> bytes \<Rightarrow> nat \<Rightarrow> replay_identity option" where
  "new_replay_identity l record tenant_id classification priority =
     (if priority_low < priority then None
      else case encode_durable l record tenant_id classification of None \<Rightarrow> None
           | Some encoded \<Rightarrow>
               map_option (\<lambda>d. \<lparr>rp_version = replay_identity_version, rp_digest = d,
                                rp_priority = priority\<rparr>)
                 (semantic_digest_envelope l encoded))"

section \<open>What the codec relies on\<close>

text \<open>
  The wire library's documented behaviour: unmarshalling returns what was marshalled, and a UUID text
  the library printed parses to itself. The digest has 32 bytes.
\<close>

definition lib_ok :: "lib \<Rightarrow> bool" where
  "lib_ok l \<longleftrightarrow> digest (lib_sha256 l)
     \<and> (\<forall>m data. lib_marshal l m = Some data \<longrightarrow> lib_unmarshal l data = Some m)
     \<and> (\<forall>s. lib_uuid_parse l (lib_uuid_sha1 l s) = Some (lib_uuid_sha1 l s))"

lemma lib_ok_digest: "lib_ok l \<Longrightarrow> digest (lib_sha256 l)"
  by (simp add: lib_ok_def)

lemma lib_ok_unmarshal: "lib_ok l \<Longrightarrow> lib_marshal l m = Some data \<Longrightarrow> lib_unmarshal l data = Some m"
  by (simp add: lib_ok_def)

lemma decode_encode_durable:
  assumes l: "lib_ok l" and r: "portable_record r" and t: "valid_record_times r"
    and c: "tenant \<noteq> []" "classification \<noteq> []"
    and e: "encode_durable l r tenant classification = Some data"
  shows "decode_durable l data tenant classification = Some r"
proof -
  have v: "validate r = []"
    using e by (simp add: encode_durable_def split: if_splits)
  have region: "nl_region r \<noteq> []"
    using validate_region [OF v] by simp
  have producer: "te_source_instance (nl_source r) \<noteq> []"
  proof -
    have "\<not> blank (te_source_instance (nl_source r))"
      using v by (simp add: validate_def validate_envelope_def)
    then show ?thesis by auto
  qed
  have created: "proto_range (te_received_at (nl_source r))"
    using r by (simp add: portable_record_def)
  then have ts: "time_proto (te_received_at (nl_source r)) = Some (timestamp_new (te_received_at (nl_source r)))"
    "timestamp_valid (timestamp_new (te_received_at (nl_source r)))"
    "timestamp_as_time (timestamp_new (te_received_at (nl_source r))) = te_received_at (nl_source r)"
    using time_roundtrip [OF created] by (auto simp: time_proto_def proto_time_def split: if_splits)
  have one: "dec (Suc 0) = ''1''"
    by code_simp
  have version: "parse_schema_version normalized_log_schema_version = Some \<lparr>sver_major = 1, sver_minor = 1\<rparr>"
    by (simp add: parse_schema_version_iff schema_version_string_def normalized_log_schema_version_def
        one)
  have "lib_unmarshal l data = Some
        \<lparr>dm_schema_version = normalized_log_schema_version,
         dm_message_id = durable_message_id l (nl_record_id r),
         dm_created_at = time_proto (te_received_at (nl_source r)),
         dm_region = nl_region r, dm_tenant_id = tenant, dm_classification = classification,
         dm_producer = te_source_instance (nl_source r),
         dm_correlation_id = ci_trace_id (nl_correlation r),
         dm_log = Some (to_proto r), dm_unknown = []\<rparr>"
    using e v by (intro lib_ok_unmarshal [OF l]) (simp add: encode_durable_def)
  then show ?thesis
    using v r t c region producer ts version l
    by (simp add: decode_durable_def record_roundtrip normalized_log_schema_major_def same_instant_def
        lib_ok_def durable_message_id_def)
qed

lemma decode_durable_facts:
  assumes "decode_durable l data tenant classification = Some r"
  shows "validate r = [] \<and> valid_record_times r"
proof -
  have "validate r = []" if "from_proto p = Some r" for p
    using that by (auto simp: from_proto_def Let_def split: option.splits if_splits prod.splits)
  then show ?thesis
    using assms by (auto simp: decode_durable_def split: option.splits if_splits)
qed

lemma semantic_digest_length:
  "lib_ok l \<Longrightarrow> semantic_digest_envelope l data = Some d \<Longrightarrow> length d = 32"
  by (auto simp: semantic_digest_envelope_def digest.length_digest [OF lib_ok_digest]
      split: option.splits)

end
