(* ===== verification/JournalCore.thy ===== *)
theory JournalCore
  imports JournalEnvelope
begin

text \<open>
  The journal's state and its one write path (\<open>internal/journal/journal.go\<close>): point reads and scans,
  the pending mutation, \<open>commitMutation\<close> with its byte accounting, the health check every operation
  starts with, and claim tokens.

  An operation runs against an \<open>env\<close>, which fixes everything the outside world decides during the
  call: the clock readings, which reads fail, where an iterator breaks, how each commit ends, and the
  free space. A failed synchronous commit may or may not have reached the disk (\<open>CommitFailed\<close>).

  In the source every \<open>ErrCorruption\<close> an operation returns comes from \<open>j.corrupt()\<close>, which also clears
  the health flag; \<open>fail_with\<close> is that convention.
\<close>

section \<open>State and environment\<close>

type_synonym db = "(bytes, bytes) kv"

record journal =
  j_db :: db
  j_cfg :: config
  j_usage :: "64 word"
  j_priorities :: "64 word list"
  j_healthy :: bool
  j_closed :: bool
  j_policy_version :: bytes

datatype commit_outcome = CommitOk | CommitFailed bool

record env =
  env_clock :: "nat \<Rightarrow> gtime"
  env_get_fails :: "bytes \<Rightarrow> bool"
  env_scan_cut :: "bytes \<Rightarrow> nat option"
  env_commit :: "nat \<Rightarrow> commit_outcome"
  env_free_space :: "64 word option"

abbreviation j_lib :: "journal \<Rightarrow> lib" where
  "j_lib j \<equiv> cfg_lib (j_cfg j)"

abbreviation j_hash :: "journal \<Rightarrow> bytes \<Rightarrow> bytes" where
  "j_hash j \<equiv> lib_sha256 (cfg_lib (j_cfg j))"

section \<open>Reads\<close>

text \<open>\<open>get\<close>: \<open>None\<close> is a failed read, \<open>Some None\<close> an absent key.\<close>

definition db_get :: "env \<Rightarrow> db \<Rightarrow> bytes \<Rightarrow> bytes option option" where
  "db_get env db k = (if env_get_fails env k then None else Some (kv_get db k))"

text \<open>
  The entries an iterator delivers, and whether it stopped on an error. A loop that consumes all of
  them sees \<open>iter.Error()\<close>; one that stops earlier does not.
\<close>

definition db_scan :: "env \<Rightarrow> db \<Rightarrow> bytes \<Rightarrow> bytes option \<Rightarrow> (bytes \<times> bytes) list \<times> bool" where
  "db_scan env db lo hi =
     (case env_scan_cut env lo of
        None \<Rightarrow> (kv_range lo hi db, False)
      | Some n \<Rightarrow> (take n (kv_range lo hi db), True))"

definition scan_namespace :: "env \<Rightarrow> db \<Rightarrow> nat \<Rightarrow> (bytes \<times> bytes) list \<times> bool" where
  "scan_namespace env db namespace =
     db_scan env db (key_prefix namespace) (Some (key_prefix (namespace + 1)))"

definition load_record :: "env \<Rightarrow> journal \<Rightarrow> bytes \<Rightarrow> stored_record option option" where
  "load_record env j record_id =
     (case db_get env (j_db j) (record_key record_id) of
        None \<Rightarrow> None
      | Some None \<Rightarrow> Some None
      | Some (Some value) \<Rightarrow> map_option Some (decode_stored (j_hash j) value))"

definition validate_empty_index :: "env \<Rightarrow> journal \<Rightarrow> bytes \<Rightarrow> bool" where
  "validate_empty_index env j index_key \<longleftrightarrow> db_get env (j_db j) index_key = Some (Some [])"

definition reserve_value :: "(bytes \<Rightarrow> bytes) \<Rightarrow> bytes" where
  "reserve_value H = checked_blob H ''JTR1'' (replicate transition_reserve_bytes (byte 0))"

definition validate_transition_reserve :: "env \<Rightarrow> journal \<Rightarrow> bytes \<Rightarrow> bool \<Rightarrow> bool" where
  "validate_transition_reserve env j record_id expected \<longleftrightarrow>
     (case db_get env (j_db j) (transition_reserve_key record_id) of
        None \<Rightarrow> False
      | Some None \<Rightarrow> \<not> expected
      | Some (Some value) \<Rightarrow> expected \<and> value = reserve_value (j_hash j))"

section \<open>Manifest values\<close>

definition format_value :: "(bytes \<Rightarrow> bytes) \<Rightarrow> bytes" where
  "format_value H = checked_blob H ''JFM1'' (be 2 format_major @ be 2 format_minor)"

definition owner_value :: "(bytes \<Rightarrow> bytes) \<Rightarrow> bytes \<Rightarrow> bytes" where
  "owner_value H owner = checked_blob H ''JOW1'' owner"

definition boundary_value :: "config \<Rightarrow> bytes \<Rightarrow> bytes" where
  "boundary_value cfg policy_version =
     checked_blob (lib_sha256 (cfg_lib cfg)) ''JBD1''
       (encode_strings (lib_sha256 (cfg_lib cfg)) ''JBS1''
          [cfg_region cfg, cfg_tenant_id cfg, cfg_classification cfg, policy_version])"

definition usage_value :: "(bytes \<Rightarrow> bytes) \<Rightarrow> 64 word \<Rightarrow> bytes" where
  "usage_value H n = checked_blob H ''JUS1'' (be 8 (unat n))"

definition decode_usage :: "(bytes \<Rightarrow> bytes) \<Rightarrow> bytes \<Rightarrow> 64 word option" where
  "decode_usage H data =
     (case unchecked_blob H data ''JUS1'' of None \<Rightarrow> None
      | Some p \<Rightarrow> if length p \<noteq> 8 then None else Some (word_of_nat (unbe p)))"

definition be_u64 :: "64 word \<Rightarrow> bytes" where
  "be_u64 v = be 8 (unat v)"

definition priority_value :: "(bytes \<Rightarrow> bytes) \<Rightarrow> 64 word list \<Rightarrow> bytes" where
  "priority_value H values = checked_blob H ''JPA1'' (concat (map be_u64 values))"

definition decode_priority :: "(bytes \<Rightarrow> bytes) \<Rightarrow> bytes \<Rightarrow> 64 word list option" where
  "decode_priority H data =
     (case unchecked_blob H data ''JPA1'' of None \<Rightarrow> None
      | Some p \<Rightarrow>
          if length p \<noteq> 32 then None
          else Some (map (\<lambda>i. word_of_nat (unbe (take 8 (drop (i * 8) p)))) [0..<4]))"

definition manifest_values :: "journal \<Rightarrow> (bytes \<times> bytes) list" where
  "manifest_values j =
     [(key_format, format_value (j_hash j)),
      (key_owner, owner_value (j_hash j) (cfg_owner (j_cfg j))),
      (key_boundary, boundary_value (j_cfg j) (j_policy_version j)),
      (key_usage, usage_value (j_hash j) (j_usage j)),
      (key_priority, priority_value (j_hash j) (j_priorities j))]"

definition verify_manifest :: "env \<Rightarrow> journal \<Rightarrow> bool" where
  "verify_manifest env j \<longleftrightarrow>
     list_all (\<lambda>(k, v). db_get env (j_db j) k = Some (Some v)) (manifest_values j)"

definition usable :: "env \<Rightarrow> journal \<Rightarrow> jerr + unit" where
  "usable env j =
     (if j_closed j then Inl ErrClosed
      else if \<not> j_healthy j then Inl ErrNotHealthy
      else if \<not> verify_manifest env j then Inl ErrCorruption
      else Inr ())"

section \<open>Claim tokens\<close>

definition preimage_part :: "bytes \<Rightarrow> bytes" where
  "preimage_part v = be 4 (length v) @ v"

definition token_preimage :: "bytes \<Rightarrow> bytes \<Rightarrow> bytes \<Rightarrow> 32 word \<Rightarrow> gtime \<Rightarrow> bytes" where
  "token_preimage journal_owner worker record_id attempt expiry =
     concat (map preimage_part [journal_owner, worker, record_id])
     @ be 4 (unat attempt) @ be 8 (unat (unix_nano expiry))"

definition claim_token ::
    "(bytes \<Rightarrow> bytes) \<Rightarrow> bytes \<Rightarrow> bytes \<Rightarrow> bytes \<Rightarrow> 32 word \<Rightarrow> gtime \<Rightarrow> bytes" where
  "claim_token H journal_owner worker record_id attempt expiry =
     ''claim:'' @ fmt_hex (H (token_preimage journal_owner worker record_id attempt expiry))"

section \<open>Mutations\<close>

record mutation =
  m_ops :: "(bytes \<times> bytes option) list"
  m_delta :: "int list"

definition new_mutation :: mutation where
  "new_mutation = \<lparr>m_ops = [], m_delta = [0, 0, 0, 0]\<rparr>"

definition m_set :: "bytes \<Rightarrow> bytes \<Rightarrow> mutation \<Rightarrow> mutation" where
  "m_set k v m = m\<lparr>m_ops := kv_put k (Some v) (m_ops m)\<rparr>"

definition m_del :: "bytes \<Rightarrow> mutation \<Rightarrow> mutation" where
  "m_del k m = m\<lparr>m_ops := kv_put k None (m_ops m)\<rparr>"

definition add_priority :: "nat \<Rightarrow> int \<Rightarrow> mutation \<Rightarrow> mutation" where
  "add_priority p delta m = m\<lparr>m_delta := (m_delta m)[p := m_delta m ! p + delta]\<rparr>"

definition m_get :: "env \<Rightarrow> journal \<Rightarrow> bytes \<Rightarrow> mutation \<Rightarrow> bytes option option" where
  "m_get env j k m =
     (case kv_get (m_ops m) k of
        Some value \<Rightarrow> Some value
      | None \<Rightarrow> db_get env (j_db j) k)"

section \<open>Commit\<close>

definition cost :: "64 word \<Rightarrow> bytes \<Rightarrow> bytes \<Rightarrow> 64 word option" where
  "cost overhead k v =
     (let lk = word_of_nat (length k); lv = word_of_nat (length v)
      in if - 1 - lv < lk then None
         else let n = lk + lv
              in if - 1 - overhead < n then None else Some (n + overhead))"

definition is_manifest_key :: "bytes \<Rightarrow> bool" where
  "is_manifest_key k \<longleftrightarrow> 2 \<le> length k \<and> k ! 0 = byte key_version \<and> k ! 1 = byte ns_manifest"

fun apply_deltas :: "int list \<Rightarrow> 64 word list \<Rightarrow> jerr + 64 word list" where
  "apply_deltas (delta # ds) (p # ps) =
     bind_err
       (if delta < 0 then
          (let amount = word_of_int (- delta)
           in if p < amount then Inl ErrCorruption else Inr (p - amount))
        else if 0 < delta then
          (let amount = word_of_int delta
           in if - 1 - amount < p then Inl ErrCapacity else Inr (p + amount))
        else Inr p)
       (\<lambda>p'. bind_err (apply_deltas ds ps) (\<lambda>ps'. Inr (p' # ps')))"
| "apply_deltas _ ps = Inr ps"

fun account :: "env \<Rightarrow> 64 word \<Rightarrow> db \<Rightarrow> (bytes \<times> bytes option) list \<Rightarrow> 64 word \<Rightarrow> jerr + 64 word" where
  "account env overhead db [] next = Inr next"
| "account env overhead db ((k, value) # ops) next =
     (if is_manifest_key k then account env overhead db ops next
      else
        bind_err (of_opt ErrCorruption (db_get env db k)) (\<lambda>old.
        bind_err
          (case old of
             None \<Rightarrow> Inr next
           | Some prior \<Rightarrow>
               (case cost overhead k prior of
                  None \<Rightarrow> Inl ErrCorruption
                | Some c \<Rightarrow> if next < c then Inl ErrCorruption else Inr (next - c)))
          (\<lambda>next.
        bind_err
          (case value of
             None \<Rightarrow> Inr next
           | Some v \<Rightarrow>
               (case cost overhead k v of
                  None \<Rightarrow> Inl ErrCapacity
                | Some c \<Rightarrow> if - 1 - c < next then Inl ErrCapacity else Inr (next + c)))
          (\<lambda>next. account env overhead db ops next))))"

definition check_capacity :: "env \<Rightarrow> journal \<Rightarrow> 64 word \<Rightarrow> jerr + unit" where
  "check_capacity env j next =
     (if j_usage j < next then
        (let delta = next - j_usage j
         in if cfg_max_bytes (j_cfg j) < next then Inl ErrCapacity
            else case env_free_space env of
                   None \<Rightarrow> Inl ErrCapacity
                 | Some free \<Rightarrow>
                     if free < cfg_min_free_bytes (j_cfg j)
                        \<or> free - cfg_min_free_bytes (j_cfg j) < delta
                     then Inl ErrCapacity else Inr ())
      else Inr ())"

definition fail_with :: "journal \<Rightarrow> jerr \<Rightarrow> (jerr + 'a) \<times> journal" where
  "fail_with j e = (Inl e, if e = ErrCorruption then j\<lparr>j_healthy := False\<rparr> else j)"

definition committed_db :: "journal \<Rightarrow> mutation \<Rightarrow> 64 word \<Rightarrow> 64 word list \<Rightarrow> db" where
  "committed_db j m next next_priorities =
     kv_put key_priority (priority_value (j_hash j) next_priorities)
       (kv_put key_usage (usage_value (j_hash j) next) (kv_apply (m_ops m) (j_db j)))"

definition commit_mutation ::
    "env \<Rightarrow> nat \<Rightarrow> journal \<Rightarrow> mutation \<Rightarrow> bool \<Rightarrow> (jerr + unit) \<times> journal" where
  "commit_mutation env n j m capacity =
     (if m_ops m = [] then (Inr (), j)
      else
        (case apply_deltas (m_delta m) (j_priorities j) of Inl e \<Rightarrow> fail_with j e
         | Inr next_priorities \<Rightarrow>
        (case account env (cfg_entry_overhead (j_cfg j)) (j_db j) (m_ops m) (j_usage j) of
           Inl e \<Rightarrow> fail_with j e
         | Inr next \<Rightarrow>
        (case (if capacity then check_capacity env j next else Inr ()) of Inl e \<Rightarrow> fail_with j e
         | Inr _ \<Rightarrow>
        (case env_commit env n of
           CommitFailed applied \<Rightarrow>
             fail_with
               (if applied then j\<lparr>j_db := committed_db j m next next_priorities\<rparr> else j)
               ErrCorruption
         | CommitOk \<Rightarrow>
             (Inr (), j\<lparr>j_db := committed_db j m next next_priorities, j_usage := next,
                        j_priorities := next_priorities\<rparr>))))))"

section \<open>Operations share their frame\<close>

definition when_usable ::
    "env \<Rightarrow> journal \<Rightarrow> (jerr + 'a) \<times> journal \<Rightarrow> (jerr + 'a) \<times> journal" where
  "when_usable env j body = (case usable env j of Inl e \<Rightarrow> fail_with j e | Inr _ \<Rightarrow> body)"

text \<open>A prepared mutation is committed, and the operation's value returned if the commit succeeds.\<close>

definition commit_prepared ::
    "env \<Rightarrow> nat \<Rightarrow> journal \<Rightarrow> bool \<Rightarrow> (jerr + mutation \<times> 'a) \<Rightarrow> (jerr + 'a) \<times> journal" where
  "commit_prepared env n j capacity prepared =
     (case prepared of
        Inl e \<Rightarrow> fail_with j e
      | Inr (m, a) \<Rightarrow>
          (case commit_mutation env n j m capacity of
             (Inl e, j') \<Rightarrow> (Inl e, j')
           | (Inr _, j') \<Rightarrow> (Inr a, j')))"

end
