(* ===== verification/JournalBatch.thy ===== *)
theory JournalBatch
  imports JournalCore
begin

text \<open>
  Batch references of \<open>internal/journal/journal.go\<close>. Every admitted batch keeps the identities it was
  written with; each record refers back to the batches that delivered it. These functions read and
  validate the two reference indexes, and \<open>remove_batch_refs\<close> is the only code that shrinks a batch.

  The source distinguishes \<open>errDecode\<close> from \<open>ErrDuplicateConflict\<close> in these helpers, and each caller
  turns the former into \<open>j.corrupt()\<close>; here it is \<open>ErrCorruption\<close> from the start.
\<close>

section \<open>Reference scans\<close>

fun batch_refs_loop ::
    "env \<Rightarrow> journal \<Rightarrow> bytes \<Rightarrow> stored_record \<Rightarrow> bool \<Rightarrow> (bytes \<times> bytes) list \<Rightarrow> bytes list
       \<Rightarrow> bytes list option" where
  "batch_refs_loop env j record_id stored fault [] refs = (if fault then None else Some refs)"
| "batch_refs_loop env j record_id stored fault ((k, v) # es) refs =
     (case parse_two_component_key k ns_batch_ref of None \<Rightarrow> None
      | Some (i, batch) \<Rightarrow>
          if i \<noteq> record_id \<or> v \<noteq> [] then None
          else
     (case db_get env (j_db j) (batch_key batch) of
        Some (Some value) \<Rightarrow>
     (case decode_batch (j_hash j) value of None \<Rightarrow> None
      | Some metadata \<Rightarrow>
     (case batch_member_by_id metadata record_id of None \<Rightarrow> None
      | Some member \<Rightarrow>
          if record_id \<notin> set (sb_live metadata) \<or> bm_semantic member \<noteq> sr_semantic stored
             \<or> bm_priority member \<noteq> sr_priority stored then None
          else if db_get env (j_db j) (batch_original_ref_key record_id batch) \<noteq> Some (Some []) then None
          else if cfg_max_batch_refs (j_cfg j) < int (length (refs @ [batch])) then None
          else batch_refs_loop env j record_id stored fault es (refs @ [batch])))
      | _ \<Rightarrow> None))"

definition batch_refs :: "env \<Rightarrow> journal \<Rightarrow> bytes \<Rightarrow> bytes list option" where
  "batch_refs env j record_id =
     (case load_record env j record_id of
        Some (Some stored) \<Rightarrow>
          (let p = batch_ref_prefix record_id;
               (entries, fault) = db_scan env (j_db j) p (prefix_end p)
           in batch_refs_loop env j record_id stored fault entries [])
      | _ \<Rightarrow> None)"

fun historical_loop ::
    "env \<Rightarrow> journal \<Rightarrow> bytes \<Rightarrow> bytes \<Rightarrow> nat \<Rightarrow> bool \<Rightarrow> (bytes \<times> bytes) list \<Rightarrow> int \<Rightarrow> jerr + int" where
  "historical_loop env j record_id semantic priority fault [] n =
     (if fault then Inl ErrCorruption else Inr n)"
| "historical_loop env j record_id semantic priority fault ((k, v) # es) n =
     (case parse_two_component_key k ns_batch_original_ref of None \<Rightarrow> Inl ErrCorruption
      | Some (i, batch_id) \<Rightarrow>
          if i \<noteq> record_id \<or> v \<noteq> [] then Inl ErrCorruption
          else
     (case db_get env (j_db j) (batch_key batch_id) of
        Some (Some value) \<Rightarrow>
     (case decode_batch (j_hash j) value of None \<Rightarrow> Inl ErrCorruption
      | Some batch \<Rightarrow>
     (case batch_member_by_id batch record_id of None \<Rightarrow> Inl ErrCorruption
      | Some member \<Rightarrow>
          if bm_semantic member \<noteq> semantic \<or> bm_priority member \<noteq> priority
          then Inl ErrDuplicateConflict
          else
     (case (load_record env j record_id, db_get env (j_db j) (batch_ref_key record_id batch_id)) of
        (Some found, Some ref_found) \<Rightarrow>
          bind_err
            (if record_id \<in> set (sb_live batch) then
               (case found of
                  None \<Rightarrow> Inl ErrCorruption
                | Some stored \<Rightarrow>
                    if sr_semantic stored \<noteq> bm_semantic member \<or> sr_priority stored \<noteq> bm_priority member
                       \<or> ref_found \<noteq> Some []
                    then Inl ErrCorruption else Inr ())
             else if ref_found \<noteq> None then Inl ErrCorruption
             else
               (case found of
                  None \<Rightarrow> Inr ()
                | Some stored \<Rightarrow>
                    if sr_semantic stored \<noteq> bm_semantic member \<or> sr_priority stored \<noteq> bm_priority member
                    then Inl ErrDuplicateConflict else Inr ()))
            (\<lambda>_. if cfg_max_batch_refs (j_cfg j) < n + 1 then Inl ErrCorruption
                 else historical_loop env j record_id semantic priority fault es (n + 1))
      | _ \<Rightarrow> Inl ErrCorruption)))
      | _ \<Rightarrow> Inl ErrCorruption))"

definition validate_historical_identity ::
    "env \<Rightarrow> journal \<Rightarrow> bytes \<Rightarrow> bytes \<Rightarrow> nat \<Rightarrow> jerr + int" where
  "validate_historical_identity env j record_id semantic priority =
     (let p = batch_original_ref_prefix record_id;
          (entries, fault) = db_scan env (j_db j) p (prefix_end p)
      in historical_loop env j record_id semantic priority fault entries 0)"

fun stored_members_loop ::
    "env \<Rightarrow> journal \<Rightarrow> bytes \<Rightarrow> stored_batch \<Rightarrow> batch_member list \<Rightarrow> jerr + unit" where
  "stored_members_loop env j batch_id batch [] = Inr ()"
| "stored_members_loop env j batch_id batch (member # ms) =
     (if db_get env (j_db j) (batch_original_ref_key (bm_record_id member) batch_id) \<noteq> Some (Some [])
      then Inl ErrCorruption
      else
     (case (load_record env j (bm_record_id member),
            db_get env (j_db j) (batch_ref_key (bm_record_id member) batch_id)) of
        (Some found, Some ref_found) \<Rightarrow>
          bind_err
            (if bm_record_id member \<in> set (sb_live batch) then
               (case found of
                  None \<Rightarrow> Inl ErrCorruption
                | Some stored \<Rightarrow>
                    if sr_semantic stored \<noteq> bm_semantic member \<or> sr_priority stored \<noteq> bm_priority member
                       \<or> ref_found \<noteq> Some []
                    then Inl ErrCorruption
                    else
                      (case batch_refs env j (bm_record_id member) of
                         None \<Rightarrow> Inl ErrCorruption
                       | Some refs \<Rightarrow> if batch_id \<notin> set refs then Inl ErrCorruption else Inr ()))
             else if ref_found \<noteq> None then Inl ErrCorruption
             else
               (case found of
                  None \<Rightarrow> Inr ()
                | Some stored \<Rightarrow>
                    if sr_semantic stored \<noteq> bm_semantic member \<or> sr_priority stored \<noteq> bm_priority member
                    then Inl ErrDuplicateConflict else Inr ()))
            (\<lambda>_. stored_members_loop env j batch_id batch ms)
      | _ \<Rightarrow> Inl ErrCorruption))"

definition validate_stored_batch :: "env \<Rightarrow> journal \<Rightarrow> bytes \<Rightarrow> stored_batch \<Rightarrow> jerr + unit" where
  "validate_stored_batch env j batch_id batch =
     (if sb_live batch = [] \<or> sb_original batch = [] then Inl ErrCorruption
      else stored_members_loop env j batch_id batch (sb_original batch))"

section \<open>Removing a record from its batches\<close>

fun del_original_refs :: "bytes \<Rightarrow> batch_member list \<Rightarrow> mutation \<Rightarrow> mutation" where
  "del_original_refs batch_id [] m = m"
| "del_original_refs batch_id (member # ms) m =
     del_original_refs batch_id ms (m_del (batch_original_ref_key (bm_record_id member) batch_id) m)"

fun remove_refs_loop ::
    "env \<Rightarrow> journal \<Rightarrow> bytes \<Rightarrow> bytes list \<Rightarrow> mutation \<Rightarrow> mutation option" where
  "remove_refs_loop env j record_id [] m = Some m"
| "remove_refs_loop env j record_id (batch_id # refs) m =
     (case m_get env j (batch_key batch_id) m of
        Some (Some value) \<Rightarrow>
     (case decode_batch (j_hash j) value of None \<Rightarrow> None
      | Some batch \<Rightarrow>
          if batch_member_by_id batch record_id = None \<or> record_id \<notin> set (sb_live batch) then None
          else
            (let next = filter (\<lambda>i. i \<noteq> record_id) (sb_live batch);
                 m1 = m_del (batch_ref_key record_id batch_id) m;
                 m2 = (if next = [] then
                         m_del (batch_key batch_id) (del_original_refs batch_id (sb_original batch) m1)
                       else m_set (batch_key batch_id) (encode_batch (j_hash j) (batch\<lparr>sb_live := next\<rparr>)) m1)
             in remove_refs_loop env j record_id refs m2))
      | _ \<Rightarrow> None)"

definition remove_batch_refs :: "env \<Rightarrow> journal \<Rightarrow> mutation \<Rightarrow> bytes \<Rightarrow> mutation option" where
  "remove_batch_refs env j m record_id =
     (case batch_refs env j record_id of None \<Rightarrow> None
      | Some refs \<Rightarrow> remove_refs_loop env j record_id refs m)"

end
