(* ===== verification/JournalOps.thy ===== *)
theory JournalOps
  imports JournalBatch
begin

text \<open>
  The journal's public operations (\<open>internal/journal/journal.go\<close>), each with every guard, early return
  and state change of its source, in the source's order: \<open>AppendBatch\<close>, \<open>Claim\<close>, \<open>AdoptClaims\<close>,
  \<open>RenewClaims\<close>, \<open>MarkCommittedBatch\<close>, \<open>Quarantine\<close>, \<open>Compact\<close>, and the observers. Each takes the
  environment and the journal and returns its result with the journal afterwards. An iterator loop
  carries the entries still to visit and whether the iterator stops on an error after them.
\<close>

section \<open>AppendBatch\<close>

record prepared =
  pr_priority :: nat
  pr_received :: gtime
  pr_encoded :: bytes
  pr_semantic :: bytes

definition prepare_admission :: "journal \<Rightarrow> bytes \<Rightarrow> admission \<Rightarrow> jerr + prepared" where
  "prepare_admission j batch_id a =
     (let r = adm_record a; cfg = j_cfg j in
      if priority_low < adm_priority a \<or> nl_batch_id r \<noteq> batch_id
         \<or> \<not> valid_record_boundary r cfg (j_policy_version j) \<or> \<not> valid_record_times r
         \<or> validate r \<noteq> [] then Inl ErrInvalidInput
      else if max_encoded_record_bytes < encoded_normalized_size (j_lib j) r then Inl ErrInvalidInput
      else if \<not> cfg_accepts cfg r then Inl ErrInvalidInput
      else
        bind_err (of_opt ErrInvalidInput
          (encode_durable (j_lib j) r (cfg_tenant_id cfg) (cfg_classification cfg))) (\<lambda>encoded.
        bind_err (of_opt ErrInvalidInput
          (decode_durable (j_lib j) encoded (cfg_tenant_id cfg) (cfg_classification cfg))) (\<lambda>decoded.
        if nl_record_id decoded \<noteq> nl_record_id r then Inl ErrInvalidInput
        else
          bind_err (of_opt ErrInvalidInput (semantic_digest_envelope (j_lib j) encoded)) (\<lambda>semantic.
          Inr \<lparr>pr_priority = adm_priority a, pr_received = te_received_at (nl_source r),
               pr_encoded = encoded, pr_semantic = semantic\<rparr>))))"

text \<open>The map \<open>unique\<close> and the list \<open>ids\<close>, which the source sorts right after the loop.\<close>

fun prepare_admissions ::
    "journal \<Rightarrow> bytes \<Rightarrow> admission list \<Rightarrow> (bytes, prepared) kv \<Rightarrow> jerr + (bytes, prepared) kv" where
  "prepare_admissions j batch_id [] unique = Inr unique"
| "prepare_admissions j batch_id (a # as) unique =
     bind_err (prepare_admission j batch_id a) (\<lambda>p.
       case kv_get unique (nl_record_id (adm_record a)) of
         Some prior \<Rightarrow>
           if pr_semantic prior \<noteq> pr_semantic p \<or> pr_priority prior \<noteq> pr_priority p
           then Inl ErrDuplicateConflict
           else prepare_admissions j batch_id as unique
       | None \<Rightarrow>
           prepare_admissions j batch_id as (kv_put (nl_record_id (adm_record a)) p unique))"

definition members_match :: "(bytes, prepared) kv \<Rightarrow> batch_member list \<Rightarrow> bool" where
  "members_match unique ms \<longleftrightarrow>
     list_all (\<lambda>member. case kv_get unique (bm_record_id member) of
                 None \<Rightarrow> False
               | Some p \<Rightarrow> bm_semantic member = pr_semantic p \<and> bm_priority member = pr_priority p) ms"

definition replay_batch ::
    "env \<Rightarrow> journal \<Rightarrow> bytes \<Rightarrow> (bytes, prepared) kv \<Rightarrow> bytes \<Rightarrow> jerr + unit" where
  "replay_batch env j batch_id unique existing =
     bind_err (of_opt ErrCorruption (decode_batch (j_hash j) existing)) (\<lambda>batch.
       if batch_original_ids (sb_original batch) \<noteq> map fst unique then Inl ErrDuplicateConflict
       else if \<not> members_match unique (sb_original batch) then Inl ErrDuplicateConflict
       else validate_stored_batch env j batch_id batch)"

text \<open>One record of a new batch: the mutation, and whether the record stays live in the batch.\<close>

definition append_one ::
    "env \<Rightarrow> journal \<Rightarrow> bytes \<Rightarrow> bytes \<Rightarrow> prepared \<Rightarrow> mutation \<Rightarrow> jerr + (mutation \<times> bool)" where
  "append_one env j batch_id record_id p m =
     bind_err (validate_historical_identity env j record_id (pr_semantic p) (pr_priority p)) (\<lambda>history.
     if cfg_max_batch_refs (j_cfg j) \<le> history then Inl ErrCapacity
     else
     bind_err (of_opt ErrCorruption (load_record env j record_id)) (\<lambda>found.
     case found of
       Some stored \<Rightarrow>
         if sr_semantic stored \<noteq> pr_semantic p \<or> sr_priority stored \<noteq> pr_priority p
         then Inl ErrDuplicateConflict
         else
           bind_err (of_opt ErrCorruption (batch_refs env j record_id)) (\<lambda>refs.
           if cfg_max_batch_refs (j_cfg j) \<le> int (length refs) then Inl ErrCapacity
           else Inr (m_set (batch_ref_key record_id batch_id) [] m, True))
     | None \<Rightarrow>
         bind_err (of_opt ErrCorruption (db_get env (j_db j) (quarantine_key record_id))) (\<lambda>quarantined.
         case quarantined of
           Some value \<Rightarrow>
             bind_err (of_opt ErrCorruption (decode_quarantine (j_hash j) value)) (\<lambda>metadata.
             if qm_record_id metadata \<noteq> record_id then Inl ErrCorruption
             else if qm_legacy metadata then
               Inr (m_set (quarantine_key record_id)
                      (encode_quarantine (j_hash j) record_id (qm_reason metadata) (qm_at metadata)
                         (qm_attempt metadata) (pr_semantic p) (pr_priority p)) m, False)
             else if qm_semantic metadata \<noteq> pr_semantic p \<or> qm_priority metadata \<noteq> pr_priority p
             then Inl ErrDuplicateConflict
             else Inr (m, False))
         | None \<Rightarrow>
             (let received = pr_received p;
                  stored = \<lparr>sr_state = StatePending, sr_priority = pr_priority p,
                            sr_received = received, sr_claim_expiry = zero_time,
                            sr_committed_at = zero_time, sr_attempt = 0, sr_claim_owner = [],
                            sr_claim_token = [], sr_semantic = pr_semantic p,
                            sr_envelope = pr_encoded p\<rparr>;
                  m = m_set (record_key record_id) (encode_stored (j_hash j) stored) m;
                  m = m_set (pending_key (sr_priority stored) received record_id) [] m;
                  m = m_set (batch_ref_key record_id batch_id) [] m;
                  m = m_set (transition_reserve_key record_id) (reserve_value (j_hash j)) m;
                  m = add_priority (sr_priority stored) 1 m
              in Inr (m, True)))))"

fun append_all ::
    "env \<Rightarrow> journal \<Rightarrow> bytes \<Rightarrow> (bytes \<times> prepared) list \<Rightarrow> mutation \<Rightarrow> bytes list
       \<Rightarrow> jerr + (mutation \<times> bytes list)" where
  "append_all env j batch_id [] m live = Inr (m, live)"
| "append_all env j batch_id ((record_id, p) # ps) m live =
     bind_err (append_one env j batch_id record_id p m) (\<lambda>(m', is_live).
       append_all env j batch_id ps m' (if is_live then live @ [record_id] else live))"

fun set_original_refs :: "bytes \<Rightarrow> bytes list \<Rightarrow> mutation \<Rightarrow> mutation" where
  "set_original_refs batch_id [] m = m"
| "set_original_refs batch_id (record_id # xs) m =
     set_original_refs batch_id xs (m_set (batch_original_ref_key record_id batch_id) [] m)"

definition new_batch :: "(bytes, prepared) kv \<Rightarrow> bytes list \<Rightarrow> stored_batch" where
  "new_batch unique live =
     \<lparr>sb_original = map (\<lambda>(i, p). \<lparr>bm_record_id = i, bm_priority = pr_priority p,
                                   bm_semantic = pr_semantic p\<rparr>) unique,
      sb_live = live\<rparr>"

definition append_prepare ::
    "env \<Rightarrow> journal \<Rightarrow> bytes \<Rightarrow> admission list \<Rightarrow> jerr + (mutation \<times> unit)" where
  "append_prepare env j batch_id admissions =
     (if \<not> valid_identifier batch_id max_boundary_bytes \<or> admissions = []
         \<or> max_append_records < length admissions then Inl ErrInvalidInput
      else
        bind_err (prepare_admissions j batch_id admissions []) (\<lambda>unique.
        bind_err (of_opt ErrCorruption (db_get env (j_db j) (batch_key batch_id))) (\<lambda>existing.
        case existing of
          Some value \<Rightarrow>
            bind_err (replay_batch env j batch_id unique value) (\<lambda>_. Inr (new_mutation, ()))
        | None \<Rightarrow>
            bind_err (append_all env j batch_id unique new_mutation []) (\<lambda>(m, live).
              let batch = new_batch unique live;
                  m = (if live \<noteq> [] then
                         m_set (batch_key batch_id) (encode_batch (j_hash j) batch)
                           (set_original_refs batch_id (map fst unique) m)
                       else m);
                  m = m_set key_format (format_value (j_hash j)) m
              in Inr (m, ())))))"

definition append_batch ::
    "env \<Rightarrow> journal \<Rightarrow> bytes \<Rightarrow> admission list \<Rightarrow> (jerr + unit) \<times> journal" where
  "append_batch env j batch_id admissions =
     when_usable env j (commit_prepared env 0 j True (append_prepare env j batch_id admissions))"

section \<open>Claim\<close>

definition claimed_of :: "normalized_log \<Rightarrow> stored_record \<Rightarrow> claimed_record" where
  "claimed_of record stored =
     \<lparr>cr_record = record, cr_priority = sr_priority stored,
      cr_replay = \<lparr>rp_version = replay_identity_version, rp_digest = sr_semantic stored,
                   rp_priority = sr_priority stored\<rparr>,
      cr_token = sr_claim_token stored, cr_owner = sr_claim_owner stored,
      cr_attempt = sr_attempt stored, cr_expires_at = sr_claim_expiry stored\<rparr>"

text \<open>\<open>expireClaims\<close>: claims whose expiry has been reached go back to pending, oldest first.\<close>

fun expire_loop ::
    "env \<Rightarrow> journal \<Rightarrow> gtime \<Rightarrow> nat \<Rightarrow> bool \<Rightarrow> (bytes \<times> bytes) list \<Rightarrow> mutation \<Rightarrow> nat
       \<Rightarrow> jerr + (mutation \<times> nat)" where
  "expire_loop env j now limit fault [] m expired =
     (if fault then Inl ErrCorruption else Inr (m, expired))"
| "expire_loop env j now limit fault ((k, v) # es) m expired =
     (if \<not> expired < limit then Inr (m, expired)
      else if v \<noteq> [] then Inl ErrCorruption
      else
     (case parse_timed_key k ns_claim of None \<Rightarrow> Inl ErrCorruption
      | Some (expiry, record_id) \<Rightarrow>
          if before now expiry then Inr (m, expired)
          else
     (case load_record env j record_id of
        Some (Some stored) \<Rightarrow>
          if sr_state stored \<noteq> StateClaimed \<or> \<not> same_instant (sr_claim_expiry stored) expiry
          then Inl ErrCorruption
          else if \<not> validate_transition_reserve env j record_id False then Inl ErrCorruption
          else
            (let m = m_del k m;
                 stored = stored\<lparr>sr_state := StatePending, sr_claim_owner := [], sr_claim_token := [],
                                 sr_claim_expiry := zero_time\<rparr>;
                 m = m_set (record_key record_id) (encode_stored (j_hash j) stored) m;
                 m = m_set (pending_key (sr_priority stored) (sr_received stored) record_id) [] m;
                 m = m_set (transition_reserve_key record_id) (reserve_value (j_hash j)) m
             in expire_loop env j now limit fault es m (expired + 1))
      | _ \<Rightarrow> Inl ErrCorruption)))"

definition expire_claims :: "env \<Rightarrow> journal \<Rightarrow> nat \<Rightarrow> jerr + (mutation \<times> nat)" where
  "expire_claims env j limit =
     (if limit < 1 \<or> max_transition_records < limit then Inl ErrCorruption
      else
        (let (entries, fault) = scan_namespace env (j_db j) ns_claim;
             now = env_clock env 0
         in if \<not> valid_journal_time now then Inl ErrCorruption
            else expire_loop env j now limit fault entries new_mutation 0))"

fun claim_loop ::
    "env \<Rightarrow> journal \<Rightarrow> bytes \<Rightarrow> gtime \<Rightarrow> nat \<Rightarrow> bool \<Rightarrow> (bytes \<times> bytes) list \<Rightarrow> mutation
       \<Rightarrow> claimed_record list \<Rightarrow> jerr + (mutation \<times> claimed_record list)" where
  "claim_loop env j owner expiry limit fault [] m claimed =
     (if fault then Inl ErrCorruption else Inr (m, claimed))"
| "claim_loop env j owner expiry limit fault ((k, v) # es) m claimed =
     (if \<not> length claimed < limit then Inr (m, claimed)
      else if v \<noteq> [] then Inl ErrCorruption
      else
     (case parse_pending_key k of None \<Rightarrow> Inl ErrCorruption
      | Some (priority, received, record_id) \<Rightarrow>
     (case load_record env j record_id of
        Some (Some stored) \<Rightarrow>
          if sr_state stored \<noteq> StatePending \<or> sr_priority stored \<noteq> priority
             \<or> \<not> same_instant (sr_received stored) received then Inl ErrCorruption
          else if sr_attempt stored = - 1 then Inl ErrCorruption
          else if \<not> validate_transition_reserve env j record_id True then Inl ErrCorruption
          else
            (let attempt = sr_attempt stored + 1;
                 stored = stored\<lparr>sr_state := StateClaimed, sr_attempt := attempt,
                                 sr_claim_owner := owner, sr_claim_expiry := expiry,
                                 sr_claim_token := claim_token (j_hash j) (cfg_owner (j_cfg j)) owner
                                                     record_id attempt expiry\<rparr>;
                 m = m_del (transition_reserve_key record_id) m;
                 m = m_del k m;
                 m = m_set (claim_key expiry record_id) [] m;
                 m = m_set (record_key record_id) (encode_stored (j_hash j) stored) m
             in case decode_durable (j_lib j) (sr_envelope stored) (cfg_tenant_id (j_cfg j))
                       (cfg_classification (j_cfg j)) of
                  None \<Rightarrow> Inl ErrCorruption
                | Some record \<Rightarrow>
                    claim_loop env j owner expiry limit fault es m
                      (claimed @ [claimed_of record stored]))
      | _ \<Rightarrow> Inl ErrCorruption)))"

definition claim_pending ::
    "env \<Rightarrow> journal \<Rightarrow> bytes \<Rightarrow> nat \<Rightarrow> jerr + (mutation \<times> claimed_record list)" where
  "claim_pending env j owner limit =
     (let (entries, fault) = scan_namespace env (j_db j) ns_pending
      in case safe_add (env_clock env 1) (cfg_claim_ttl (j_cfg j)) of
           None \<Rightarrow> Inl ErrCorruption
         | Some expiry \<Rightarrow> claim_loop env j owner expiry limit fault entries new_mutation [])"

definition claim :: "env \<Rightarrow> journal \<Rightarrow> nat \<Rightarrow> bytes \<Rightarrow> (jerr + claimed_record list) \<times> journal" where
  "claim env j limit owner =
     when_usable env j
       (if limit < 1 \<or> max_transition_records < limit \<or> blank owner then fail_with j ErrInvalidInput
        else if \<not> valid_identifier owner max_owner_bytes then fail_with j ErrInvalidInput
        else
          (case commit_prepared env 0 j False (expire_claims env j max_transition_records) of
             (Inl e, j') \<Rightarrow> (Inl e, j')
           | (Inr expired, j') \<Rightarrow>
               (let budget = max_transition_records - expired
                in if budget = 0 then (Inr [], j')
                   else commit_prepared env 1 j' False
                          (claim_pending env j' owner (min limit budget)))))"

section \<open>AdoptClaims\<close>

fun adopt_loop ::
    "env \<Rightarrow> journal \<Rightarrow> bytes \<Rightarrow> gtime \<Rightarrow> nat \<Rightarrow> bool \<Rightarrow> (bytes \<times> bytes) list \<Rightarrow> claimed_record list
       \<Rightarrow> jerr + claimed_record list" where
  "adopt_loop env j owner now limit fault [] adopted =
     (if fault then Inl ErrCorruption else Inr adopted)"
| "adopt_loop env j owner now limit fault ((k, v) # es) adopted =
     (if \<not> length adopted < limit then Inr adopted
      else if v \<noteq> [] then Inl ErrCorruption
      else
     (case parse_timed_key k ns_claim of None \<Rightarrow> Inl ErrCorruption
      | Some (expiry, record_id) \<Rightarrow>
     (case load_record env j record_id of
        Some (Some stored) \<Rightarrow>
          if sr_state stored \<noteq> StateClaimed \<or> \<not> same_instant (sr_claim_expiry stored) expiry
          then Inl ErrCorruption
          else if \<not> before now expiry \<or> sr_claim_owner stored \<noteq> owner
          then adopt_loop env j owner now limit fault es adopted
          else if \<not> validate_transition_reserve env j record_id False then Inl ErrCorruption
          else
            (case decode_durable (j_lib j) (sr_envelope stored) (cfg_tenant_id (j_cfg j))
                    (cfg_classification (j_cfg j)) of
               None \<Rightarrow> Inl ErrCorruption
             | Some record \<Rightarrow>
                 adopt_loop env j owner now limit fault es (adopted @ [claimed_of record stored]))
      | _ \<Rightarrow> Inl ErrCorruption)))"

definition adopt_prepare :: "env \<Rightarrow> journal \<Rightarrow> bytes \<Rightarrow> nat \<Rightarrow> jerr + claimed_record list" where
  "adopt_prepare env j owner limit =
     (if limit < 1 \<or> max_transition_records < limit \<or> \<not> valid_identifier owner max_owner_bytes
      then Inl ErrInvalidInput
      else
        (let (entries, fault) = scan_namespace env (j_db j) ns_claim;
             now = env_clock env 0
         in if \<not> valid_journal_time now then Inl ErrCorruption
            else adopt_loop env j owner now limit fault entries []))"

definition adopt_claims ::
    "env \<Rightarrow> journal \<Rightarrow> bytes \<Rightarrow> nat \<Rightarrow> (jerr + claimed_record list) \<times> journal" where
  "adopt_claims env j owner limit =
     when_usable env j
       (case adopt_prepare env j owner limit of Inl e \<Rightarrow> fail_with j e | Inr cs \<Rightarrow> (Inr cs, j))"

section \<open>RenewClaims\<close>

fun renew_loop ::
    "env \<Rightarrow> journal \<Rightarrow> gtime \<Rightarrow> gtime \<Rightarrow> commit_claim list \<Rightarrow> bytes list \<Rightarrow> mutation
       \<Rightarrow> claimed_record list \<Rightarrow> jerr + (mutation \<times> claimed_record list)" where
  "renew_loop env j now expiry [] seen m renewed = Inr (m, renewed)"
| "renew_loop env j now expiry (c # cs) seen m renewed =
     (let record_id = cc_record_id c in
      if \<not> valid_record_id record_id \<or> \<not> valid_claim_token (cc_token c) \<or> record_id \<in> set seen
      then Inl ErrInvalidInput
      else
     (case load_record env j record_id of None \<Rightarrow> Inl ErrCorruption
      | Some None \<Rightarrow> Inl ErrStaleClaim
      | Some (Some stored) \<Rightarrow>
          if sr_state stored = StateCommitted then
            (if sr_claim_token stored \<noteq> cc_token c then Inl ErrStaleClaim
             else renew_loop env j now expiry cs (record_id # seen) m renewed)
          else if sr_state stored \<noteq> StateClaimed \<or> sr_claim_token stored \<noteq> cc_token c
                  \<or> \<not> before now (sr_claim_expiry stored) then Inl ErrStaleClaim
          else if \<not> validate_empty_index env j (claim_key (sr_claim_expiry stored) record_id)
          then Inl ErrCorruption
          else if \<not> validate_transition_reserve env j record_id False then Inl ErrCorruption
          else
            (case decode_durable (j_lib j) (sr_envelope stored) (cfg_tenant_id (j_cfg j))
                    (cfg_classification (j_cfg j)) of
               None \<Rightarrow> Inl ErrCorruption
             | Some record \<Rightarrow>
                 (let m = m_del (claim_key (sr_claim_expiry stored) record_id) m;
                      stored = stored\<lparr>sr_claim_expiry := expiry,
                                      sr_claim_token := claim_token (j_hash j) (cfg_owner (j_cfg j))
                                                          (sr_claim_owner stored) record_id
                                                          (sr_attempt stored) expiry\<rparr>;
                      m = m_set (claim_key expiry record_id) [] m;
                      m = m_set (record_key record_id) (encode_stored (j_hash j) stored) m
                  in renew_loop env j now expiry cs (record_id # seen) m
                       (renewed @ [claimed_of record stored])))))"

definition renew_prepare ::
    "env \<Rightarrow> journal \<Rightarrow> commit_claim list \<Rightarrow> jerr + (mutation \<times> claimed_record list)" where
  "renew_prepare env j claims =
     (if claims = [] \<or> max_transition_records < length claims then Inl ErrInvalidInput
      else
        (let now = env_clock env 0
         in if \<not> valid_journal_time now then Inl ErrCorruption
            else case safe_add now (cfg_claim_ttl (j_cfg j)) of
                   None \<Rightarrow> Inl ErrCorruption
                 | Some expiry \<Rightarrow> renew_loop env j now expiry claims [] new_mutation []))"

definition renew_claims ::
    "env \<Rightarrow> journal \<Rightarrow> commit_claim list \<Rightarrow> (jerr + claimed_record list) \<times> journal" where
  "renew_claims env j claims =
     when_usable env j (commit_prepared env 0 j False (renew_prepare env j claims))"

section \<open>MarkCommittedBatch\<close>

fun mark_loop ::
    "env \<Rightarrow> journal \<Rightarrow> gtime \<Rightarrow> commit_claim list \<Rightarrow> bytes list \<Rightarrow> mutation \<Rightarrow> jerr + mutation" where
  "mark_loop env j now [] seen m = Inr m"
| "mark_loop env j now (c # cs) seen m =
     (let record_id = cc_record_id c in
      if \<not> valid_record_id record_id \<or> \<not> valid_claim_token (cc_token c) \<or> record_id \<in> set seen
      then Inl ErrInvalidInput
      else
     (case load_record env j record_id of None \<Rightarrow> Inl ErrCorruption
      | Some None \<Rightarrow> Inl ErrStaleClaim
      | Some (Some stored) \<Rightarrow>
          if sr_state stored = StateCommitted then
            (if \<not> validate_empty_index env j (committed_key (sr_committed_at stored) record_id)
             then Inl ErrCorruption
             else if \<not> validate_transition_reserve env j record_id False then Inl ErrCorruption
             else if sr_claim_token stored \<noteq> cc_token c then Inl ErrStaleClaim
             else mark_loop env j now cs (record_id # seen) m)
          else if sr_state stored \<noteq> StateClaimed \<or> sr_claim_token stored \<noteq> cc_token c
                  \<or> \<not> before now (sr_claim_expiry stored) then Inl ErrStaleClaim
          else if \<not> validate_empty_index env j (claim_key (sr_claim_expiry stored) record_id)
          then Inl ErrCorruption
          else if \<not> validate_transition_reserve env j record_id False then Inl ErrCorruption
          else
            (let m = m_del (claim_key (sr_claim_expiry stored) record_id) m;
                 stored = stored\<lparr>sr_state := StateCommitted, sr_committed_at := now,
                                 sr_claim_owner := [], sr_claim_expiry := zero_time\<rparr>;
                 m = m_set (record_key record_id) (encode_stored (j_hash j) stored) m;
                 m = m_set (committed_key (sr_committed_at stored) record_id) [] m
             in mark_loop env j now cs (record_id # seen) m)))"

definition mark_prepare :: "env \<Rightarrow> journal \<Rightarrow> commit_claim list \<Rightarrow> jerr + (mutation \<times> unit)" where
  "mark_prepare env j claims =
     (if claims = [] \<or> max_transition_records < length claims then Inl ErrInvalidInput
      else
        (let now = env_clock env 0
         in if \<not> valid_journal_time now then Inl ErrCorruption
            else if safe_add now (cfg_safety_delay (j_cfg j)) = None then Inl ErrCorruption
            else bind_err (mark_loop env j now claims [] new_mutation) (\<lambda>m. Inr (m, ()))))"

definition mark_committed_batch ::
    "env \<Rightarrow> journal \<Rightarrow> commit_claim list \<Rightarrow> (jerr + unit) \<times> journal" where
  "mark_committed_batch env j claims =
     when_usable env j (commit_prepared env 0 j False (mark_prepare env j claims))"

definition mark_committed :: "env \<Rightarrow> journal \<Rightarrow> bytes \<Rightarrow> bytes \<Rightarrow> (jerr + unit) \<times> journal" where
  "mark_committed env j record_id token =
     mark_committed_batch env j [\<lparr>cc_record_id = record_id, cc_token = token\<rparr>]"

section \<open>Quarantine\<close>

definition quarantine_prepare ::
    "env \<Rightarrow> journal \<Rightarrow> bytes \<Rightarrow> bytes \<Rightarrow> nat \<Rightarrow> jerr + (mutation \<times> unit)" where
  "quarantine_prepare env j record_id token reason =
     (if \<not> valid_record_id record_id \<or> \<not> valid_claim_token token \<or> reason < quarantine_first
         \<or> quarantine_last < reason then Inl ErrInvalidInput
      else
     (case load_record env j record_id of None \<Rightarrow> Inl ErrCorruption
      | Some found \<Rightarrow>
       (let now = env_clock env 0 in
        if \<not> valid_journal_time now then Inl ErrCorruption
        else
       (case found of None \<Rightarrow> Inl ErrStaleClaim
        | Some stored \<Rightarrow>
            if sr_state stored \<noteq> StateClaimed \<or> sr_claim_token stored \<noteq> token
               \<or> \<not> before now (sr_claim_expiry stored) then Inl ErrStaleClaim
            else if \<not> validate_empty_index env j (claim_key (sr_claim_expiry stored) record_id)
            then Inl ErrCorruption
            else if \<not> validate_transition_reserve env j record_id False then Inl ErrCorruption
            else
              (let m = m_del (claim_key (sr_claim_expiry stored) record_id) new_mutation;
                   m = m_del (record_key record_id) m;
                   m = add_priority (sr_priority stored) (- 1) m
               in bind_err (of_opt ErrCorruption (remove_batch_refs env j m record_id)) (\<lambda>m.
                    Inr (m_set (quarantine_key record_id)
                           (encode_quarantine (j_hash j) record_id reason now (sr_attempt stored)
                              (sr_semantic stored) (sr_priority stored)) m, ())))))))"

definition quarantine ::
    "env \<Rightarrow> journal \<Rightarrow> bytes \<Rightarrow> bytes \<Rightarrow> nat \<Rightarrow> (jerr + unit) \<times> journal" where
  "quarantine env j record_id token reason =
     when_usable env j (commit_prepared env 0 j False (quarantine_prepare env j record_id token reason))"

section \<open>Compact\<close>

fun compact_loop ::
    "env \<Rightarrow> journal \<Rightarrow> gtime \<Rightarrow> nat \<Rightarrow> bool \<Rightarrow> (bytes \<times> bytes) list \<Rightarrow> mutation \<Rightarrow> nat
       \<Rightarrow> jerr + (mutation \<times> nat)" where
  "compact_loop env j now limit fault [] m removed =
     (if fault then Inl ErrCorruption else Inr (m, removed))"
| "compact_loop env j now limit fault ((k, v) # es) m removed =
     (if \<not> removed < limit then Inr (m, removed)
      else if v \<noteq> [] then Inl ErrCorruption
      else
     (case parse_timed_key k ns_committed of None \<Rightarrow> Inl ErrCorruption
      | Some (at, record_id) \<Rightarrow>
     (case safe_add at (cfg_safety_delay (j_cfg j)) of None \<Rightarrow> Inl ErrCorruption
      | Some deadline \<Rightarrow>
          if \<not> after now deadline then Inr (m, removed)
          else
     (case load_record env j record_id of
        Some (Some stored) \<Rightarrow>
          if sr_state stored \<noteq> StateCommitted \<or> \<not> same_instant (sr_committed_at stored) at
          then Inl ErrCorruption
          else if \<not> validate_transition_reserve env j record_id False then Inl ErrCorruption
          else
            (let m = m_del k m;
                 m = m_del (record_key record_id) m;
                 m = add_priority (sr_priority stored) (- 1) m
             in case remove_batch_refs env j m record_id of
                  None \<Rightarrow> Inl ErrCorruption
                | Some m \<Rightarrow> compact_loop env j now limit fault es m (removed + 1))
      | _ \<Rightarrow> Inl ErrCorruption))))"

definition compact_prepare :: "env \<Rightarrow> journal \<Rightarrow> nat \<Rightarrow> jerr + (mutation \<times> nat)" where
  "compact_prepare env j limit =
     (if limit < 1 \<or> max_transition_records < limit then Inl ErrInvalidInput
      else
        (let (entries, fault) = scan_namespace env (j_db j) ns_committed;
             now = env_clock env 0
         in if \<not> valid_journal_time now then Inl ErrCorruption
            else compact_loop env j now limit fault entries new_mutation 0))"

definition journal_compact :: "env \<Rightarrow> journal \<Rightarrow> nat \<Rightarrow> (jerr + nat) \<times> journal" where
  "journal_compact env j limit =
     when_usable env j (commit_prepared env 0 j False (compact_prepare env j limit))"

section \<open>Observers\<close>

text \<open>A failing usable check clears the health flag here too: \<open>usable\<close> calls \<open>j.corrupt()\<close>.\<close>

definition journal_capacity :: "env \<Rightarrow> journal \<Rightarrow> capacity_observation \<times> journal" where
  "journal_capacity env j =
     (let observed = \<lparr>co_used = j_usage j, co_total = cfg_max_bytes (j_cfg j),
                      co_can_persist = False\<rparr>
      in case usable env j of
           Inl e \<Rightarrow> (observed, snd (fail_with j e :: (jerr + unit) \<times> journal))
         | Inr _ \<Rightarrow>
             if cfg_max_bytes (j_cfg j) \<le> j_usage j then (observed, j)
             else
               (case env_free_space env of
                  None \<Rightarrow> (observed, j)
                | Some free \<Rightarrow>
                    if free < cfg_min_free_bytes (j_cfg j) then (observed, j)
                    else (observed\<lparr>co_can_persist := True\<rparr>, j)))"

fun stats_loop ::
    "journal \<Rightarrow> bool \<Rightarrow> (bytes \<times> bytes) list \<Rightarrow> stats \<Rightarrow> jerr + stats" where
  "stats_loop j fault [] s = (if fault then Inl ErrCorruption else Inr s)"
| "stats_loop j fault ((k, v) # es) s =
     (case decode_stored (j_hash j) v of None \<Rightarrow> Inl ErrCorruption
      | Some stored \<Rightarrow>
          stats_loop j fault es
            (case sr_state stored of
               StatePending \<Rightarrow> s\<lparr>st_pending := st_pending s + 1\<rparr>
             | StateClaimed \<Rightarrow> s\<lparr>st_claimed := st_claimed s + 1\<rparr>
             | StateCommitted \<Rightarrow> s\<lparr>st_committed := st_committed s + 1\<rparr>))"

definition count_namespace :: "env \<Rightarrow> journal \<Rightarrow> nat \<Rightarrow> nat option" where
  "count_namespace env j namespace =
     (let (entries, fault) = scan_namespace env (j_db j) namespace
      in if fault then None else Some (length entries))"

definition stats_prepare :: "env \<Rightarrow> journal \<Rightarrow> jerr + stats" where
  "stats_prepare env j =
     (let s = \<lparr>st_accounted_bytes = j_usage j, st_by_priority = j_priorities j, st_pending = 0,
               st_claimed = 0, st_committed = 0, st_quarantined = 0\<rparr>;
          (entries, fault) = scan_namespace env (j_db j) ns_record
      in bind_err (stats_loop j fault entries s) (\<lambda>s.
         bind_err (of_opt ErrCorruption (count_namespace env j ns_quarantine)) (\<lambda>q.
         Inr (s\<lparr>st_quarantined := q\<rparr>))))"

definition journal_stats :: "env \<Rightarrow> journal \<Rightarrow> (jerr + stats) \<times> journal" where
  "journal_stats env j =
     when_usable env j
       (case stats_prepare env j of Inl e \<Rightarrow> fail_with j e | Inr s \<Rightarrow> (Inr s, j))"

definition journal_healthy :: "journal \<Rightarrow> bool" where
  "journal_healthy j \<longleftrightarrow> j_healthy j \<and> \<not> j_closed j"

end
