(* ===== verification/JournalVerify.thy ===== *)
theory JournalVerify
  imports JournalCore
begin

text \<open>
  \<open>verify\<close> of \<open>internal/journal/journal.go\<close>: the integrity check of a whole directory that \<open>Open\<close> runs.
  One pass over every entry builds the views of the source's local variables (\<open>verify_scan\<close>), then the
  views are compared with each other and with the manifest. The source ranges over Go maps, whose order
  is unspecified; every loop only looks for a violation, so the order does not matter and key order is
  used here. Sets of batch identifiers (\<open>map[string]bool\<close>) are lists of distinct members.
\<close>

section \<open>The scan\<close>

record verify_scan =
  vs_calculated :: "64 word"
  vs_records :: "(bytes, stored_record) kv"
  vs_pending :: "(bytes, bytes) kv"
  vs_claims :: "(bytes, bytes) kv"
  vs_committed :: "(bytes, bytes) kv"
  vs_batches :: "(bytes, stored_batch) kv"
  vs_refs :: "(bytes, bytes list) kv"
  vs_original_refs :: "(bytes, bytes list) kv"
  vs_reserves :: "bytes list"
  vs_quarantines :: "bytes list"
  vs_manifests :: "nat list"

definition empty_scan :: verify_scan where
  "empty_scan = \<lparr>vs_calculated = 0, vs_records = [], vs_pending = [], vs_claims = [], vs_committed = [],
                 vs_batches = [], vs_refs = [], vs_original_refs = [], vs_reserves = [],
                 vs_quarantines = [], vs_manifests = []\<rparr>"

definition refs_of :: "(bytes, bytes list) kv \<Rightarrow> bytes \<Rightarrow> bytes list" where
  "refs_of refs i = (case kv_get refs i of None \<Rightarrow> [] | Some bs \<Rightarrow> bs)"

definition add_ref :: "bytes \<Rightarrow> bytes \<Rightarrow> (bytes, bytes list) kv \<Rightarrow> (bytes, bytes list) kv" where
  "add_ref i batch refs = kv_put i (List.insert batch (refs_of refs i)) refs"

text \<open>The manifest entries: the index of the entry, or a violation.\<close>

definition scan_manifest :: "journal \<Rightarrow> bytes \<Rightarrow> bytes \<Rightarrow> nat option" where
  "scan_manifest j k v =
     (if k = key_format then (if v \<noteq> format_value (j_hash j) then None else Some 0)
      else if k = key_owner then
        (if v \<noteq> owner_value (j_hash j) (cfg_owner (j_cfg j)) then None else Some 1)
      else if k = key_boundary then
        (if v \<noteq> boundary_value (j_cfg j) (j_policy_version j) then None else Some 2)
      else if k = key_usage then
        (if decode_usage (j_hash j) v \<noteq> Some (j_usage j) then None else Some 3)
      else (if decode_priority (j_hash j) v \<noteq> Some (j_priorities j) then None else Some 4))"

definition manifest_keys :: "bytes list" where
  "manifest_keys = [key_format, key_owner, key_boundary, key_usage, key_priority]"

definition scan_record :: "journal \<Rightarrow> bytes \<Rightarrow> bytes \<Rightarrow> verify_scan \<Rightarrow> verify_scan option" where
  "scan_record j k v s =
     (case read_component (drop 2 k) of None \<Rightarrow> None
      | Some (i, rest) \<Rightarrow>
      if rest \<noteq> [] \<or> \<not> valid_record_id i then None
      else
     (case decode_stored (j_hash j) v of None \<Rightarrow> None
      | Some r \<Rightarrow>
     (case decode_durable (j_lib j) (sr_envelope r) (cfg_tenant_id (j_cfg j))
             (cfg_classification (j_cfg j)) of None \<Rightarrow> None
      | Some record \<Rightarrow>
      if nl_record_id record \<noteq> i \<or> \<not> same_instant (te_received_at (nl_source record)) (sr_received r)
         \<or> \<not> valid_record_boundary record (j_cfg j) (j_policy_version j) then None
      else if semantic_digest_envelope (j_lib j) (sr_envelope r) \<noteq> Some (sr_semantic r) then None
      else Some (s\<lparr>vs_records := kv_put i r (vs_records s)\<rparr>))))"

definition scan_pending :: "bytes \<Rightarrow> bytes \<Rightarrow> verify_scan \<Rightarrow> verify_scan option" where
  "scan_pending k v s =
     (case parse_pending_key k of None \<Rightarrow> None
      | Some (_, _, i) \<Rightarrow>
          if v \<noteq> [] \<or> kv_get (vs_pending s) i \<noteq> None then None
          else Some (s\<lparr>vs_pending := kv_put i k (vs_pending s)\<rparr>))"

definition scan_claim :: "bytes \<Rightarrow> bytes \<Rightarrow> verify_scan \<Rightarrow> verify_scan option" where
  "scan_claim k v s =
     (case parse_timed_key k ns_claim of None \<Rightarrow> None
      | Some (_, i) \<Rightarrow>
          if v \<noteq> [] \<or> kv_get (vs_claims s) i \<noteq> None then None
          else Some (s\<lparr>vs_claims := kv_put i k (vs_claims s)\<rparr>))"

definition scan_committed :: "bytes \<Rightarrow> bytes \<Rightarrow> verify_scan \<Rightarrow> verify_scan option" where
  "scan_committed k v s =
     (case parse_timed_key k ns_committed of None \<Rightarrow> None
      | Some (_, i) \<Rightarrow>
          if v \<noteq> [] \<or> kv_get (vs_committed s) i \<noteq> None then None
          else Some (s\<lparr>vs_committed := kv_put i k (vs_committed s)\<rparr>))"

definition scan_batch :: "journal \<Rightarrow> bytes \<Rightarrow> bytes \<Rightarrow> verify_scan \<Rightarrow> verify_scan option" where
  "scan_batch j k v s =
     (case read_component (drop 2 k) of None \<Rightarrow> None
      | Some (i, rest) \<Rightarrow>
      if rest \<noteq> [] \<or> \<not> valid_identifier i max_boundary_bytes then None
      else
     (case decode_batch (j_hash j) v of None \<Rightarrow> None
      | Some batch \<Rightarrow>
          if sb_live batch = [] then None
          else Some (s\<lparr>vs_batches := kv_put i batch (vs_batches s)\<rparr>)))"

definition scan_batch_ref :: "bytes \<Rightarrow> bytes \<Rightarrow> verify_scan \<Rightarrow> verify_scan option" where
  "scan_batch_ref k v s =
     (case parse_two_component_key k ns_batch_ref of None \<Rightarrow> None
      | Some (i, batch) \<Rightarrow>
          if v \<noteq> [] then None else Some (s\<lparr>vs_refs := add_ref i batch (vs_refs s)\<rparr>))"

definition scan_original_ref :: "bytes \<Rightarrow> bytes \<Rightarrow> verify_scan \<Rightarrow> verify_scan option" where
  "scan_original_ref k v s =
     (case parse_two_component_key k ns_batch_original_ref of None \<Rightarrow> None
      | Some (i, batch) \<Rightarrow>
          if v \<noteq> [] \<or> batch \<in> set (refs_of (vs_original_refs s) i) then None
          else Some (s\<lparr>vs_original_refs := add_ref i batch (vs_original_refs s)\<rparr>))"

definition scan_quarantine :: "journal \<Rightarrow> bytes \<Rightarrow> bytes \<Rightarrow> verify_scan \<Rightarrow> verify_scan option" where
  "scan_quarantine j k v s =
     (case read_component (drop 2 k) of None \<Rightarrow> None
      | Some (i, rest) \<Rightarrow>
      if rest \<noteq> [] \<or> \<not> valid_record_id i then None
      else
     (case decode_quarantine (j_hash j) v of None \<Rightarrow> None
      | Some metadata \<Rightarrow>
          if qm_record_id metadata \<noteq> i \<or> i \<in> set (vs_quarantines s) then None
          else Some (s\<lparr>vs_quarantines := i # vs_quarantines s\<rparr>)))"

definition scan_reserve :: "journal \<Rightarrow> bytes \<Rightarrow> bytes \<Rightarrow> verify_scan \<Rightarrow> verify_scan option" where
  "scan_reserve j k v s =
     (case read_component (drop 2 k) of None \<Rightarrow> None
      | Some (i, rest) \<Rightarrow>
          if rest \<noteq> [] \<or> v \<noteq> reserve_value (j_hash j) \<or> i \<in> set (vs_reserves s) then None
          else Some (s\<lparr>vs_reserves := i # vs_reserves s\<rparr>))"

definition scan_entry :: "journal \<Rightarrow> bytes \<times> bytes \<Rightarrow> verify_scan \<Rightarrow> verify_scan option" where
  "scan_entry j e s =
     (let (k, v) = e in
      if k \<in> set manifest_keys then
        map_option (\<lambda>i. s\<lparr>vs_manifests := i # vs_manifests s\<rparr>) (scan_manifest j k v)
      else
     (case cost (cfg_entry_overhead (j_cfg j)) k v of None \<Rightarrow> None
      | Some c \<Rightarrow>
      if - 1 - c < vs_calculated s then None
      else
       (let s = s\<lparr>vs_calculated := vs_calculated s + c\<rparr> in
        if length k < 2 \<or> k ! 0 \<noteq> byte key_version then None
        else if k ! 1 = byte ns_record then scan_record j k v s
        else if k ! 1 = byte ns_pending then scan_pending k v s
        else if k ! 1 = byte ns_claim then scan_claim k v s
        else if k ! 1 = byte ns_committed then scan_committed k v s
        else if k ! 1 = byte ns_batch then scan_batch j k v s
        else if k ! 1 = byte ns_batch_ref then scan_batch_ref k v s
        else if k ! 1 = byte ns_batch_original_ref then scan_original_ref k v s
        else if k ! 1 = byte ns_quarantine then scan_quarantine j k v s
        else if k ! 1 = byte ns_transition_reserve then scan_reserve j k v s
        else None)))"

fun scan_entries :: "journal \<Rightarrow> (bytes \<times> bytes) list \<Rightarrow> verify_scan \<Rightarrow> verify_scan option" where
  "scan_entries j [] s = Some s"
| "scan_entries j (e # es) s =
     (case scan_entry j e s of None \<Rightarrow> None | Some s' \<Rightarrow> scan_entries j es s')"

section \<open>The cross checks\<close>

definition count_priorities :: "(bytes, stored_record) kv \<Rightarrow> 64 word list" where
  "count_priorities records =
     map (\<lambda>p. word_of_nat (length (filter (\<lambda>e. sr_priority (snd e) = p) records))) [0..<4]"

definition index_key :: "stored_record \<Rightarrow> bytes \<Rightarrow> bytes" where
  "index_key r i =
     (case sr_state r of
        StatePending \<Rightarrow> pending_key (sr_priority r) (sr_received r) i
      | StateClaimed \<Rightarrow> claim_key (sr_claim_expiry r) i
      | StateCommitted \<Rightarrow> committed_key (sr_committed_at r) i)"

definition verify_record :: "journal \<Rightarrow> verify_scan \<Rightarrow> bytes \<Rightarrow> stored_record \<Rightarrow> bool" where
  "verify_record j s i r \<longleftrightarrow>
     (let p = kv_get (vs_pending s) i; c = kv_get (vs_claims s) i; d = kv_get (vs_committed s) i;
          actual = (case sr_state r of StatePending \<Rightarrow> p | StateClaimed \<Rightarrow> c | StateCommitted \<Rightarrow> d)
      in i \<notin> set (vs_quarantines s)
         \<and> length (filter (\<lambda>x. x \<noteq> None) [p, c, d]) = 1
         \<and> (sr_state r = StatePending) = (p \<noteq> None) \<and> (sr_state r = StateClaimed) = (c \<noteq> None)
         \<and> (sr_state r = StateCommitted) = (d \<noteq> None)
         \<and> actual = Some (index_key r i)
         \<and> refs_of (vs_refs s) i \<noteq> []
         \<and> \<not> cfg_max_batch_refs (j_cfg j) < int (length (refs_of (vs_refs s) i))
         \<and> refs_of (vs_original_refs s) i \<noteq> []
         \<and> \<not> cfg_max_batch_refs (j_cfg j) < int (length (refs_of (vs_original_refs s) i))
         \<and> (sr_state r = StatePending) = (i \<in> set (vs_reserves s))
         \<and> \<not> (sr_state r = StateClaimed
               \<and> sr_claim_token r \<noteq> claim_token (j_hash j) (cfg_owner (j_cfg j)) (sr_claim_owner r) i
                                      (sr_attempt r) (sr_claim_expiry r)))"

definition verify_member :: "verify_scan \<Rightarrow> bytes \<Rightarrow> stored_batch \<Rightarrow> batch_member \<Rightarrow> bool" where
  "verify_member s batch_id batch member \<longleftrightarrow>
     (let i = bm_record_id member;
          referenced = (batch_id \<in> set (refs_of (vs_refs s) i));
          agrees = (\<lambda>r. sr_semantic r = bm_semantic member \<and> sr_priority r = bm_priority member)
      in batch_id \<in> set (refs_of (vs_original_refs s) i)
         \<and> (if i \<in> set (sb_live batch) then
              (case kv_get (vs_records s) i of None \<Rightarrow> False | Some r \<Rightarrow> agrees r \<and> referenced)
            else \<not> referenced
              \<and> (case kv_get (vs_records s) i of None \<Rightarrow> True | Some r \<Rightarrow> agrees r)))"

definition verify_refs :: "verify_scan \<Rightarrow> bytes \<Rightarrow> bytes list \<Rightarrow> bool" where
  "verify_refs s i batch_ids \<longleftrightarrow> kv_get (vs_records s) i \<noteq> None
     \<and> list_all (\<lambda>b. case kv_get (vs_batches s) b of
                       None \<Rightarrow> False | Some batch \<Rightarrow> i \<in> set (sb_live batch)) batch_ids"

definition verify_original_refs :: "journal \<Rightarrow> verify_scan \<Rightarrow> bytes \<Rightarrow> bytes list \<Rightarrow> bool" where
  "verify_original_refs j s i batch_ids \<longleftrightarrow>
     \<not> cfg_max_batch_refs (j_cfg j) < int (length batch_ids)
     \<and> list_all (\<lambda>b. case kv_get (vs_batches s) b of
                       None \<Rightarrow> False | Some batch \<Rightarrow> batch_member_by_id batch i \<noteq> None) batch_ids"

definition verify_scanned :: "journal \<Rightarrow> verify_scan \<Rightarrow> bool" where
  "verify_scanned j s \<longleftrightarrow>
     list_all (\<lambda>n. n \<in> set (vs_manifests s)) [0, 1, 2, 3, 4]
     \<and> vs_calculated s = j_usage j
     \<and> count_priorities (vs_records s) = j_priorities j
     \<and> list_all (\<lambda>(i, r). verify_record j s i r) (vs_records s)
     \<and> list_all (\<lambda>i. kv_get (vs_records s) i \<noteq> None) (vs_reserves s)
     \<and> list_all (\<lambda>(b, batch). list_all (verify_member s b batch) (sb_original batch)) (vs_batches s)
     \<and> list_all (\<lambda>(i, bs). verify_refs s i bs) (vs_refs s)
     \<and> list_all (\<lambda>(i, bs). verify_original_refs j s i bs) (vs_original_refs s)"

definition verify :: "env \<Rightarrow> journal \<Rightarrow> bool" where
  "verify env j \<longleftrightarrow>
     (let (entries, fault) = db_scan env (j_db j) [] None
      in case scan_entries j entries empty_scan of
           None \<Rightarrow> False
         | Some s \<Rightarrow> \<not> fault \<and> verify_scanned j s)"

end
