(* ===== verification/JournalOpen.thy ===== *)
theory JournalOpen
  imports JournalOps JournalVerify
begin

text \<open>
  The journal's life cycle (\<open>internal/journal/journal.go\<close>): \<open>Open\<close> with its configuration checks,
  defaults, manifest initialisation and full verification; \<open>Close\<close>; the read-only page of
  \<open>RecoverRetained\<close>; and the accessors. A directory is represented by the contents of its database,
  \<open>open_env\<close> by what the file system and the database library answer while it is opened.
\<close>

section \<open>Opening\<close>

record open_env =
  oe_mkdir_fails :: bool
  oe_lock_fails :: bool
  oe_open_fails :: bool
  oe_env :: env

definition config_defaults :: "config \<Rightarrow> config" where
  "config_defaults cfg =
     cfg\<lparr>cfg_claim_ttl := (if cfg_claim_ttl cfg = 0 then default_claim_ttl else cfg_claim_ttl cfg),
         cfg_safety_delay := (if cfg_safety_delay cfg = 0 then default_safety_delay
                              else cfg_safety_delay cfg),
         cfg_entry_overhead := (if cfg_entry_overhead cfg = 0 then default_entry_overhead
                                else cfg_entry_overhead cfg),
         cfg_max_batch_refs := (if cfg_max_batch_refs cfg = 0 then default_max_batch_refs
                                else cfg_max_batch_refs cfg)\<rparr>"

text \<open>The checks of \<open>openWithOptions\<close> before it touches the directory; the result has the defaults.\<close>

definition check_config :: "gtime \<Rightarrow> config \<Rightarrow> jerr + config" where
  "check_config now cfg =
     (if blank (cfg_dir cfg) \<or> \<not> valid_identifier (cfg_owner cfg) max_owner_bytes
         \<or> \<not> valid_identifier (cfg_tenant_id cfg) max_boundary_bytes
         \<or> \<not> valid_identifier (cfg_region cfg) max_boundary_bytes
         \<or> \<not> valid_classification (cfg_classification cfg) \<or> cfg_clock_nil cfg \<or> cfg_validator_nil cfg
         \<or> cfg_max_bytes cfg = 0 \<or> cfg_min_free_bytes cfg = 0 \<or> cfg_free_space_nil cfg
      then Inl ErrInvalidConfig
      else
        (let cfg = config_defaults cfg in
         if cfg_claim_ttl cfg \<le> 0 \<or> cfg_safety_delay cfg \<le> 0 \<or> cfg_max_batch_refs cfg < 1
         then Inl ErrInvalidConfig
         else if \<not> valid_identifier (cfg_policy_version cfg) max_boundary_bytes then Inl ErrInvalidConfig
         else if \<not> valid_journal_time now then Inl ErrInvalidConfig
         else if safe_add now (cfg_claim_ttl cfg) = None then Inl ErrInvalidConfig
         else if safe_add now (cfg_safety_delay cfg) = None then Inl ErrInvalidConfig
         else Inr cfg))"

definition initial_db :: "journal \<Rightarrow> db" where
  "initial_db j =
     kv_put key_priority (priority_value (j_hash j) [0, 0, 0, 0])
       (kv_put key_usage (usage_value (j_hash j) 0)
         (kv_put key_boundary (boundary_value (j_cfg j) (j_policy_version j))
           (kv_put key_owner (owner_value (j_hash j) (cfg_owner (j_cfg j)))
             (kv_put key_format (format_value (j_hash j)) (j_db j)))))"

text \<open>A directory without a format marker is initialised only when it is empty.\<close>

definition init_manifest :: "env \<Rightarrow> journal \<Rightarrow> (jerr + unit) \<times> journal" where
  "init_manifest env j =
     (let (entries, fault) = db_scan env (j_db j) [] None
      in if entries \<noteq> [] then (Inl ErrIncompatibleFormat, j)
         else if fault then (Inl ErrCorruption, j)
         else
           (case env_commit env 0 of
              CommitFailed applied \<Rightarrow>
                (Inl ErrCorruption, if applied then j\<lparr>j_db := initial_db j\<rparr> else j)
            | CommitOk \<Rightarrow> (Inr (), j\<lparr>j_db := initial_db j, j_usage := 0\<rparr>)))"

definition read_manifest_key :: "env \<Rightarrow> journal \<Rightarrow> bytes \<Rightarrow> jerr + bytes" where
  "read_manifest_key env j k =
     (case db_get env (j_db j) k of Some (Some v) \<Rightarrow> Inr v | _ \<Rightarrow> Inl ErrCorruption)"

text \<open>The manifest of an existing directory, checked against the configuration in the source's order.\<close>

definition load_manifest :: "env \<Rightarrow> journal \<Rightarrow> bytes \<Rightarrow> jerr + (64 word \<times> 64 word list)" where
  "load_manifest env j format =
     (let H = j_hash j in
     (case unchecked_blob H format ''JFM1'' of None \<Rightarrow> Inl ErrCorruption
      | Some payload \<Rightarrow>
      if length payload \<noteq> 4 then Inl ErrCorruption
      else if unbe (take 2 payload) \<noteq> format_major \<or> unbe (drop 2 payload) \<noteq> format_minor
      then Inl ErrIncompatibleFormat
      else
     bind_err (read_manifest_key env j key_owner) (\<lambda>owner.
     bind_err (of_opt ErrCorruption (unchecked_blob H owner ''JOW1'')) (\<lambda>owner_payload.
      if owner_payload \<noteq> cfg_owner (j_cfg j) then Inl ErrOwnerMismatch
      else
     bind_err (read_manifest_key env j key_boundary) (\<lambda>boundary.
     bind_err (of_opt ErrCorruption (unchecked_blob H boundary ''JBD1'')) (\<lambda>boundary_payload.
     bind_err (of_opt ErrCorruption (decode_strings H boundary_payload ''JBS1'')) (\<lambda>boundary_fields.
      if length boundary_fields \<noteq> 4 then Inl ErrCorruption
      else if boundary \<noteq> boundary_value (j_cfg j) (j_policy_version j) then Inl ErrBoundaryMismatch
      else
     bind_err (read_manifest_key env j key_usage) (\<lambda>usage.
     bind_err (of_opt ErrCorruption (decode_usage H usage)) (\<lambda>used.
     bind_err (read_manifest_key env j key_priority) (\<lambda>priority_data.
     bind_err (of_opt ErrCorruption (decode_priority H priority_data)) (\<lambda>priorities.
     Inr (used, priorities))))))))))))"

definition open_manifest :: "env \<Rightarrow> journal \<Rightarrow> (jerr + unit) \<times> journal" where
  "open_manifest env j =
     (case db_get env (j_db j) key_format of
        None \<Rightarrow> (Inl ErrCorruption, j)
      | Some None \<Rightarrow> init_manifest env j
      | Some (Some format) \<Rightarrow>
          (case load_manifest env j format of
             Inl e \<Rightarrow> (Inl e, j)
           | Inr (used, priorities) \<Rightarrow> (Inr (), j\<lparr>j_usage := used, j_priorities := priorities\<rparr>)))"

definition new_journal :: "db \<Rightarrow> config \<Rightarrow> journal" where
  "new_journal db cfg =
     \<lparr>j_db = db, j_cfg = cfg, j_usage = 0, j_priorities = [0, 0, 0, 0], j_healthy = True,
      j_closed = False, j_policy_version = cfg_policy_version cfg\<rparr>"

text \<open>\<open>Open\<close>: the opened journal or an error, and the contents of the directory afterwards.\<close>

definition journal_open :: "open_env \<Rightarrow> db \<Rightarrow> config \<Rightarrow> (jerr + journal) \<times> db" where
  "journal_open oe db cfg =
     (case check_config (env_clock (oe_env oe) 0) cfg of
        Inl e \<Rightarrow> (Inl e, db)
      | Inr cfg \<Rightarrow>
          if oe_mkdir_fails oe then (Inl ErrInvalidConfig, db)
          else if oe_lock_fails oe then (Inl ErrLocked, db)
          else if oe_open_fails oe then (Inl ErrCorruption, db)
          else
            (case open_manifest (oe_env oe) (new_journal db cfg) of
               (Inl e, j) \<Rightarrow> (Inl e, j_db j)
             | (Inr _, j) \<Rightarrow>
                 if verify (oe_env oe) j then (Inr j, j_db j) else (Inl ErrCorruption, j_db j)))"

section \<open>Closing and accessors\<close>

definition journal_close :: "bool \<Rightarrow> bool \<Rightarrow> journal \<Rightarrow> (jerr + unit) \<times> journal" where
  "journal_close db_close_fails lock_close_fails j =
     (if j_closed j then (Inr (), j)
      else
        (let j = j\<lparr>j_closed := True\<rparr>
         in if db_close_fails then (Inl ErrCorruption, j)
            else if lock_close_fails then (Inl ErrCorruption, j)
            else (Inr (), j)))"

definition journal_retention :: "journal \<Rightarrow> int" where
  "journal_retention j = cfg_safety_delay (j_cfg j)"

definition journal_claim_ttl :: "journal \<Rightarrow> int" where
  "journal_claim_ttl j = cfg_claim_ttl (j_cfg j)"

record manifest =
  mf_region :: bytes
  mf_tenant_id :: bytes
  mf_classification :: bytes
  mf_policy_version :: bytes

definition journal_manifest :: "journal \<Rightarrow> manifest" where
  "journal_manifest j =
     \<lparr>mf_region = cfg_region (j_cfg j), mf_tenant_id = cfg_tenant_id (j_cfg j),
      mf_classification = cfg_classification (j_cfg j), mf_policy_version = j_policy_version j\<rparr>"

section \<open>RecoverRetained\<close>

text \<open>The index entry a record of each state must have.\<close>

definition recover_entry :: "env \<Rightarrow> journal \<Rightarrow> bytes \<Rightarrow> bytes \<Rightarrow> (bytes \<times> recovered_record) option" where
  "recover_entry env j k v =
     (case read_component (drop 2 k) of None \<Rightarrow> None
      | Some (i, rest) \<Rightarrow>
      if rest \<noteq> [] \<or> \<not> valid_record_id i then None
      else
     (case decode_stored (j_hash j) v of None \<Rightarrow> None
      | Some stored \<Rightarrow>
     (case decode_durable (j_lib j) (sr_envelope stored) (cfg_tenant_id (j_cfg j))
             (cfg_classification (j_cfg j)) of None \<Rightarrow> None
      | Some record \<Rightarrow>
      if nl_record_id record \<noteq> i \<or> \<not> same_instant (te_received_at (nl_source record)) (sr_received stored)
         \<or> \<not> valid_record_boundary record (j_cfg j) (j_policy_version j)
         \<or> \<not> cfg_accepts (j_cfg j) record then None
      else if semantic_digest_envelope (j_lib j) (sr_envelope stored) \<noteq> Some (sr_semantic stored)
      then None
      else if \<not> validate_empty_index env j (index_key stored i) then None
      else Some (i, \<lparr>rc_record = record, rc_state = sr_state stored\<rparr>))))"

fun recover_loop ::
    "env \<Rightarrow> journal \<Rightarrow> nat \<Rightarrow> bool \<Rightarrow> (bytes \<times> bytes) list \<Rightarrow> recovered_record list \<Rightarrow> bytes
       \<Rightarrow> jerr + (recovered_record list \<times> bytes)" where
  "recover_loop env j limit fault [] recovered last_id =
     (if fault then Inl ErrCorruption else Inr (recovered, []))"
| "recover_loop env j limit fault ((k, v) # es) recovered last_id =
     (if \<not> length recovered < limit then Inr (recovered, last_id)
      else
     (case recover_entry env j k v of None \<Rightarrow> Inl ErrCorruption
      | Some (i, r) \<Rightarrow> recover_loop env j limit fault es (recovered @ [r]) i))"

definition recover_prepare ::
    "env \<Rightarrow> journal \<Rightarrow> bytes \<Rightarrow> nat \<Rightarrow> jerr + (recovered_record list \<times> bytes)" where
  "recover_prepare env j after_id limit =
     (if limit < 1 \<or> max_transition_records < limit \<or> (after_id \<noteq> [] \<and> \<not> valid_record_id after_id)
      then Inl ErrInvalidInput
      else
        (let hi = Some (key_prefix (ns_record + 1));
             (entries, fault) =
               (if after_id = [] then db_scan env (j_db j) (key_prefix ns_record) hi
                else db_scan env (j_db j) (record_key after_id) hi);
             entries =
               (if after_id = [] then entries
                else case entries of
                       (k, v) # es \<Rightarrow> if k = record_key after_id then es else entries
                     | [] \<Rightarrow> [])
         in recover_loop env j limit fault entries [] []))"

definition recover_retained ::
    "env \<Rightarrow> journal \<Rightarrow> bytes \<Rightarrow> nat \<Rightarrow> (jerr + recovered_record list \<times> bytes) \<times> journal" where
  "recover_retained env j after_id limit =
     when_usable env j
       (case recover_prepare env j after_id limit of Inl e \<Rightarrow> fail_with j e | Inr p \<Rightarrow> (Inr p, j))"

end
