(* ===== verification/JournalCommit.thy ===== *)
theory JournalCommit
  imports JournalOpen
begin

text \<open>
  Facts about the journal's one write path. A pending mutation is read as the database it will produce
  (\<open>m_view\<close>), so that setting and deleting keys in a mutation is setting and deleting them in that view;
  \<open>commit_mutation\<close> is then described by its outcome: what the byte counter becomes, that nothing but
  the committed view is ever visible, and that the manifest entries stay in agreement with the journal.
\<close>

section \<open>Ordered maps with the same contents are equal\<close>

lemma kv_ext:
  assumes "kv_wf a" and "kv_wf b" and "\<And>k. kv_get a k = kv_get b k"
  shows "a = b"
proof -
  have s: "set a = set b"
    using assms by (auto simp: kv_entry_iff)
  have "sorted (map fst a)" "distinct (map fst a)" "sorted (map fst b)" "distinct (map fst b)"
    using assms(1,2) by (simp_all add: kv_wf_def kv_wf_distinct strict_sorted_iff)
  with s show ?thesis
    by (intro map_sorted_distinct_set_unique [of fst]) (simp_all add: distinct_map)
qed

lemma kv_get_apply_wf:
  assumes "kv_wf ops"
  shows "kv_get (kv_apply ops db) k = (case kv_get ops k of None \<Rightarrow> kv_get db k | Some ov \<Rightarrow> ov)"
  using kv_get_apply [OF kv_wf_distinct [OF assms]] by (simp add: kv_get_def)

lemma kv_apply_put:
  assumes "kv_wf ops" and "kv_wf db"
  shows "kv_apply (kv_put k (Some v) ops) db = kv_put k v (kv_apply ops db)"
  using assms by (intro kv_ext) (simp_all add: kv_wf_apply kv_wf_put kv_get_apply_wf kv_get_put)

lemma kv_apply_del:
  assumes "kv_wf ops" and "kv_wf db"
  shows "kv_apply (kv_put k None ops) db = kv_del k (kv_apply ops db)"
  using assms
  by (intro kv_ext) (simp_all add: kv_wf_apply kv_wf_put kv_wf_del kv_get_apply_wf kv_get_put kv_get_del)

section \<open>The view of a mutation\<close>

definition m_view :: "mutation \<Rightarrow> db \<Rightarrow> db" where
  "m_view m db = kv_apply (m_ops m) db"

definition m_wf :: "mutation \<Rightarrow> bool" where
  "m_wf m \<longleftrightarrow> kv_wf (m_ops m) \<and> length (m_delta m) = 4"

named_theorems view_simps

lemma m_wf_new [simp]: "m_wf new_mutation"
  by (simp add: m_wf_def new_mutation_def)

lemma m_wf_set [simp]: "m_wf m \<Longrightarrow> m_wf (m_set k v m)"
  by (simp add: m_wf_def m_set_def kv_wf_put)

lemma m_wf_del [simp]: "m_wf m \<Longrightarrow> m_wf (m_del k m)"
  by (simp add: m_wf_def m_del_def kv_wf_put)

lemma m_wf_add_priority [simp]: "m_wf m \<Longrightarrow> m_wf (add_priority p d m)"
  by (simp add: m_wf_def add_priority_def)

lemma m_view_new [view_simps]: "m_view new_mutation db = db"
  by (simp add: m_view_def new_mutation_def)

lemma m_view_set [view_simps]: "m_wf m \<Longrightarrow> kv_wf db \<Longrightarrow> m_view (m_set k v m) db = kv_put k v (m_view m db)"
  by (simp add: m_view_def m_set_def m_wf_def kv_apply_put)

lemma m_view_del [view_simps]: "m_wf m \<Longrightarrow> kv_wf db \<Longrightarrow> m_view (m_del k m) db = kv_del k (m_view m db)"
  by (simp add: m_view_def m_del_def m_wf_def kv_apply_del)

lemma m_view_add_priority [view_simps]: "m_view (add_priority p d m) db = m_view m db"
  by (simp add: m_view_def add_priority_def)

lemma kv_wf_view [simp]: "kv_wf db \<Longrightarrow> kv_wf (m_view m db)"
  by (simp add: m_view_def kv_wf_apply)

lemma m_get_view:
  "m_wf m \<Longrightarrow> m_get env j k m = Some ov \<Longrightarrow> kv_get (m_view m (j_db j)) k = ov"
  by (auto simp: m_get_def m_view_def kv_get_apply_wf m_wf_def db_get_def split: option.splits if_splits)

lemma m_delta_simps [view_simps]:
  "m_delta (m_set k v m) = m_delta m" "m_delta (m_del k m) = m_delta m"
  "m_delta (add_priority p d m) = (m_delta m)[p := m_delta m ! p + d]"
  "m_delta new_mutation = [0, 0, 0, 0]"
  by (simp_all add: m_set_def m_del_def add_priority_def new_mutation_def)

section \<open>Mutations that respect the manifest\<close>

text \<open>
  The only manifest entry an operation may write itself is the format marker, with the value it already
  has; the counters are written by the commit.
\<close>

definition m_good :: "journal \<Rightarrow> mutation \<Rightarrow> bool" where
  "m_good j m \<longleftrightarrow> m_wf m \<and>
     (\<forall>k. is_manifest_key k \<longrightarrow>
        (case kv_get (m_ops m) k of
           None \<Rightarrow> True
         | Some ov \<Rightarrow> k = key_format \<and> ov = Some (format_value (j_hash j))))"

lemma m_good_wf [dest]: "m_good j m \<Longrightarrow> m_wf m"
  by (simp add: m_good_def)

lemma m_good_new [simp]: "m_good j new_mutation"
  by (simp add: m_good_def) (simp add: new_mutation_def)

lemma m_good_set [simp]: "m_good j m \<Longrightarrow> \<not> is_manifest_key k \<Longrightarrow> m_good j (m_set k v m)"
  by (auto simp: m_good_def) (auto simp: m_set_def kv_get_put)

lemma m_good_del [simp]: "m_good j m \<Longrightarrow> \<not> is_manifest_key k \<Longrightarrow> m_good j (m_del k m)"
  by (auto simp: m_good_def) (auto simp: m_del_def kv_get_put)

lemma m_good_add_priority [simp]: "m_good j m \<Longrightarrow> m_good j (add_priority p d m)"
  by (auto simp: m_good_def) (simp add: add_priority_def)

lemma m_good_format [simp]:
  "m_good j m \<Longrightarrow> m_good j (m_set key_format (format_value (j_hash j)) m)"
  by (auto simp: m_good_def) (simp add: m_set_def kv_get_put)

lemma is_manifest_key_shape: "is_manifest_key (byte (Suc 0) # byte n # k) \<longleftrightarrow> n mod 256 = 1"
  by (simp add: is_manifest_key_def ns_defs byte_eq_iff)

lemma not_manifest [simp]:
  "\<not> is_manifest_key (record_key i)" "\<not> is_manifest_key (pending_key p t i)"
  "\<not> is_manifest_key (claim_key t i)" "\<not> is_manifest_key (committed_key t i)"
  "\<not> is_manifest_key (batch_key b)" "\<not> is_manifest_key (batch_ref_key i b)"
  "\<not> is_manifest_key (batch_original_ref_key i b)" "\<not> is_manifest_key (quarantine_key i)"
  "\<not> is_manifest_key (transition_reserve_key i)"
  by (simp_all add: key_simps is_manifest_key_shape)

lemma manifest_keys_manifest [simp]:
  "is_manifest_key key_format" "is_manifest_key key_owner" "is_manifest_key key_boundary"
  "is_manifest_key key_usage" "is_manifest_key key_priority"
  by (simp_all add: key_simps is_manifest_key_shape)

lemma parsed_timed_not_manifest:
  "parse_timed_key k n = Some x \<Longrightarrow> n mod 256 \<noteq> 1 \<Longrightarrow> \<not> is_manifest_key k"
  by (auto simp: parse_timed_key_def is_manifest_key_def ns_defs byte_eq_iff split: if_splits)

lemma parsed_pending_not_manifest: "parse_pending_key k = Some x \<Longrightarrow> \<not> is_manifest_key k"
  by (auto simp: parse_pending_key_def is_manifest_key_def ns_defs byte_eq_iff split: if_splits)

section \<open>Accounting\<close>

definition entry_charge :: "64 word \<Rightarrow> bytes \<Rightarrow> bytes \<Rightarrow> nat" where
  "entry_charge overhead k v =
     (if is_manifest_key k then 0
      else case cost overhead k v of None \<Rightarrow> 0 | Some c \<Rightarrow> unat c)"

definition charged :: "64 word \<Rightarrow> db \<Rightarrow> nat" where
  "charged overhead db = kv_total (entry_charge overhead) db"

lemma word_minus_one_sub: "unat (- 1 - (a :: 64 word)) = 2 ^ 64 - 1 - unat a"
  by (simp add: unat_sub unsigned_minus_1_eq_mask mask_eq_exp_minus_1)

lemma cost_exact:
  assumes "length k < 2 ^ 63" and "length v < 2 ^ 63"
    and "length k + length v + unat overhead < 2 ^ 64"
  shows "cost overhead k v = Some (word_of_nat (length k + length v + unat overhead))"
proof -
  have u: "unat (word_of_nat (length k) :: 64 word) = length k"
    "unat (word_of_nat (length v) :: 64 word) = length v"
    using assms by (simp_all add: unat_of_nat)
  have s: "unat (word_of_nat (length k) + word_of_nat (length v) :: 64 word) = length k + length v"
    using assms u by (simp add: unat_add_lem [THEN iffD1])
  show ?thesis
    using assms unfolding cost_def Let_def word_less_nat_alt word_minus_one_sub u s
    by (simp add: not_less) arith
qed


text \<open>The accounting loop reads only the keys it touches, so it may read any database that agrees there.\<close>

lemma account_cong:
  "(\<And>k. k \<in> fst ` set ops \<Longrightarrow> kv_get db k = kv_get db' k) \<Longrightarrow>
   account env overhead db ops n = account env overhead db' ops n"
proof (induction ops arbitrary: n)
  case (Cons a ops)
  obtain k ov where a: "a = (k, ov)"
    by (cases a)
  have "db_get env db k = db_get env db' k"
    using Cons.prems [of k] by (simp add: db_get_def a)
  moreover have "account env overhead db ops = account env overhead db' ops"
    using Cons.prems by (intro ext Cons.IH) simp
  ultimately show ?case
    by (simp only: a account.simps)
qed simp

lemma account_step:
  assumes wf: "kv_wf db" and k: "\<not> is_manifest_key k" and read: "db_get env db k = Some old"
    and del: "(case old of None \<Rightarrow> Inr n
                | Some prior \<Rightarrow>
                    (case cost overhead k prior of None \<Rightarrow> Inl ErrCorruption
                     | Some c \<Rightarrow> if n < c then Inl ErrCorruption else Inr (n - c))) = Inr n1"
    and set: "(case ov of None \<Rightarrow> Inr n1
                | Some v \<Rightarrow>
                    (case cost overhead k v of None \<Rightarrow> Inl ErrCapacity
                     | Some c \<Rightarrow> if - 1 - c < n1 then Inl ErrCapacity else Inr (n1 + c))) = Inr n2"
  shows "unat n2 + charged overhead db
    = unat n + charged overhead (case ov of None \<Rightarrow> kv_del k db | Some v \<Rightarrow> kv_put k v db)"
proof -
  have old: "old = kv_get db k"
    using read by (simp add: db_get_def split: if_splits)
  have 1: "unat n1 + weight (entry_charge overhead) k (kv_get db k) = unat n"
    using del k unfolding old
    by (auto simp: entry_charge_def not_less unat_sub word_le_nat_alt split: option.splits if_splits)
  have 2: "unat n2 = unat n1 + weight (entry_charge overhead) k ov"
  proof (cases ov)
    case (Some v)
    then obtain c where c: "cost overhead k v = Some c" "n1 \<le> - 1 - c" "n2 = n1 + c"
      using set by (auto simp: not_less split: option.splits if_splits)
    then have "unat n1 + unat c < 2 ^ 64"
      using unat_64_bound [of c] by (simp add: word_le_nat_alt word_minus_one_sub)
    with c Some k show ?thesis
      by (simp add: entry_charge_def unat_add_lem [THEN iffD1])
  qed (use set in simp)
  show ?thesis
  proof (cases ov)
    case None
    with 1 2 kv.total_del [OF wf, of "entry_charge overhead" k] show ?thesis
      by (simp add: charged_def)
  next
    case (Some v)
    with 1 2 kv.total_put [OF wf, of "entry_charge overhead" k v] show ?thesis
      by (simp add: charged_def)
  qed
qed

lemma account_charged:
  assumes "kv_wf ops" and "kv_wf db" and "account env overhead db ops n = Inr n'"
  shows "unat n' + charged overhead db = unat n + charged overhead (kv_apply ops db)"
  using assms
proof (induction ops arbitrary: db n)
  case (Cons a ops)
  obtain k ov where a: "a = (k, ov)"
    by (cases a)
  define db1 where "db1 = (case ov of None \<Rightarrow> kv_del k db | Some v \<Rightarrow> kv_put k v db)"
  have wf: "kv_wf db1" "kv_wf ops" and fresh: "k \<notin> fst ` set ops"
    using Cons.prems(1,2) kv_wf_put [of db k] kv_wf_del [of db k]
    by (auto simp: db1_def kv_wf_def a split: option.splits)
  have same: "account env overhead db ops m = account env overhead db1 ops m" for m
    using fresh by (intro account_cong) (auto simp: db1_def kv_get_put kv_get_del split: option.splits)
  have app: "kv_apply (a # ops) db = kv_apply ops db1"
    by (simp add: a db1_def split: option.splits)
  show ?case
  proof (cases "is_manifest_key k")
    case True
    then have "charged overhead db1 = charged overhead db"
      using kv.total_put [OF Cons.prems(2), of "entry_charge overhead" k]
        kv.total_del [OF Cons.prems(2), of "entry_charge overhead" k]
      by (auto simp: charged_def db1_def entry_charge_def weight_def split: option.splits)
    with True show ?thesis
      using Cons.prems(3) Cons.IH [OF wf(2,1)] by (simp add: a [symmetric] app same) (simp add: a same)
  next
    case False
    obtain old n1 n2 where read: "db_get env db k = Some old"
      and del: "(case old of None \<Rightarrow> Inr n
                | Some prior \<Rightarrow>
                    (case cost overhead k prior of None \<Rightarrow> Inl ErrCorruption
                     | Some c \<Rightarrow> if n < c then Inl ErrCorruption else Inr (n - c))) = Inr n1"
      and set: "(case ov of None \<Rightarrow> Inr n1
                | Some v \<Rightarrow>
                    (case cost overhead k v of None \<Rightarrow> Inl ErrCapacity
                     | Some c \<Rightarrow> if - 1 - c < n1 then Inl ErrCapacity else Inr (n1 + c))) = Inr n2"
      and rest: "account env overhead db1 ops n2 = Inr n'"
      using Cons.prems(3) False by (auto simp: a same)
    from account_step [OF Cons.prems(2) False read del set] Cons.IH [OF wf(2,1) rest]
    show ?thesis
      by (simp add: app) (simp add: db1_def)
  qed
qed simp

section \<open>What a commit does\<close>

lemma commit_mutation_cases [consumes 1, case_names empty committed refused lost]:
  assumes "commit_mutation env n j m capacity = (r, j')"
  obtains "m_ops m = []" and "r = Inr ()" and "j' = j"
  | next_priorities used where "m_ops m \<noteq> []"
      and "apply_deltas (m_delta m) (j_priorities j) = Inr next_priorities"
      and "account env (cfg_entry_overhead (j_cfg j)) (j_db j) (m_ops m) (j_usage j) = Inr used"
      and "capacity \<longrightarrow> check_capacity env j used = Inr ()"
      and "env_commit env n = CommitOk" and "r = Inr ()"
      and "j' = j\<lparr>j_db := committed_db j m used next_priorities, j_usage := used,
                   j_priorities := next_priorities\<rparr>"
  | e where "r = Inl e" and "j' = (if e = ErrCorruption then j\<lparr>j_healthy := False\<rparr> else j)"
  | next_priorities used where "env_commit env n = CommitFailed True" and "r = Inl ErrCorruption"
      and "j' = j\<lparr>j_db := committed_db j m used next_priorities, j_healthy := False\<rparr>"
proof (cases "m_ops m = []")
  case True
  with assms that(1) show thesis
    by (simp add: commit_mutation_def)
next
  case False
  note unfolded = assms [unfolded commit_mutation_def if_not_P [OF False]]
  show thesis
  proof (cases "apply_deltas (m_delta m) (j_priorities j)")
    case (Inl e)
    with unfolded show thesis
      by (intro that(3) [of e]) (auto simp: fail_with_def)
  next
    case ps: (Inr ps)
    show thesis
    proof (cases "account env (cfg_entry_overhead (j_cfg j)) (j_db j) (m_ops m) (j_usage j)")
      case (Inl e)
      with unfolded ps show thesis
        by (intro that(3) [of e]) (auto simp: fail_with_def)
    next
      case used: (Inr used)
      show thesis
      proof (cases "if capacity then check_capacity env j used else Inr ()")
        case (Inl e)
        with unfolded ps used show thesis
          by (intro that(3) [of e]) (auto simp: fail_with_def)
      next
        case cap: (Inr u)
        then have "capacity \<longrightarrow> check_capacity env j used = Inr ()"
          by (auto split: if_splits)
        show thesis
        proof (cases "env_commit env n")
          case CommitOk
          with unfolded ps used cap False show thesis
            by (intro that(2) [of ps used]) auto
        next
          case (CommitFailed applied)
          with unfolded ps used cap show thesis
            by (cases applied; intro that(4) [of used ps] that(3) [of ErrCorruption])
              (auto simp: fail_with_def)
        qed
      qed
    qed
  qed
qed

lemma committed_db_get:
  "kv_get (committed_db j m used ps) k =
     (if k = key_priority then Some (priority_value (j_hash j) ps)
      else if k = key_usage then Some (usage_value (j_hash j) used)
      else kv_get (m_view m (j_db j)) k)"
  by (simp add: committed_db_def kv_get_put m_view_def)

lemma kv_wf_committed_db [simp]: "kv_wf (j_db j) \<Longrightarrow> kv_wf (committed_db j m used ps)"
  by (simp add: committed_db_def kv_wf_put kv_wf_apply)

lemma charged_manifest_put [simp]:
  "kv_wf db \<Longrightarrow> is_manifest_key k \<Longrightarrow> charged overhead (kv_put k v db) = charged overhead db"
  using kv.total_put [of db "entry_charge overhead" k v]
  by (auto simp: charged_def entry_charge_def weight_def split: option.splits)

lemma charged_committed_db:
  "kv_wf (j_db j) \<Longrightarrow> charged overhead (committed_db j m used ps) = charged overhead (m_view m (j_db j))"
  by (simp add: committed_db_def m_view_def kv_wf_put kv_wf_apply)

section \<open>The directory agrees with the journal\<close>

text \<open>
  The counters describe the directory: the byte counter is the charge of every entry outside the
  manifest, there are four priority counters, and each manifest entry has the value \<open>verifyManifest\<close>
  expects.
\<close>

definition accounted :: "journal \<Rightarrow> bool" where
  "accounted j \<longleftrightarrow> unat (j_usage j) = charged (cfg_entry_overhead (j_cfg j)) (j_db j)
     \<and> length (j_priorities j) = 4"

definition manifest_agrees :: "journal \<Rightarrow> bool" where
  "manifest_agrees j \<longleftrightarrow> (\<forall>(k, v) \<in> set (manifest_values j). kv_get (j_db j) k = Some v)"

definition sound :: "journal \<Rightarrow> bool" where
  "sound j \<longleftrightarrow> kv_wf (j_db j) \<and> (j_healthy j \<longrightarrow> accounted j \<and> manifest_agrees j)"

lemma manifest_keys_distinct [simp]:
  "key_format \<noteq> key_owner" "key_format \<noteq> key_boundary" "key_format \<noteq> key_usage"
  "key_format \<noteq> key_priority" "key_owner \<noteq> key_boundary" "key_owner \<noteq> key_usage"
  "key_owner \<noteq> key_priority" "key_boundary \<noteq> key_usage" "key_boundary \<noteq> key_priority"
  "key_usage \<noteq> key_priority"
  by (simp_all add: key_simps comp_inject)

lemma manifest_agrees_iff:
  "manifest_agrees j \<longleftrightarrow>
     kv_get (j_db j) key_format = Some (format_value (j_hash j))
     \<and> kv_get (j_db j) key_owner = Some (owner_value (j_hash j) (cfg_owner (j_cfg j)))
     \<and> kv_get (j_db j) key_boundary = Some (boundary_value (j_cfg j) (j_policy_version j))
     \<and> kv_get (j_db j) key_usage = Some (usage_value (j_hash j) (j_usage j))
     \<and> kv_get (j_db j) key_priority = Some (priority_value (j_hash j) (j_priorities j))"
  by (simp add: manifest_agrees_def manifest_values_def)

lemma m_good_view:
  assumes "m_good j m" and "kv_wf db" and "is_manifest_key k"
    and "k = key_format \<longrightarrow> kv_get db k = Some (format_value (j_hash j))"
  shows "kv_get (m_view m db) k = kv_get db k"
  using assms by (auto simp: m_good_def m_view_def m_wf_def kv_get_apply_wf split: option.splits)

lemma apply_deltas_length: "apply_deltas ds ps = Inr ps' \<Longrightarrow> length ps' = length ps"
  by (induction ds ps arbitrary: ps' rule: apply_deltas.induct) auto

lemma sound_committed:
  assumes "sound j" and "j_healthy j" and "m_good j m"
    and "apply_deltas (m_delta m) (j_priorities j) = Inr ps"
    and "account env (cfg_entry_overhead (j_cfg j)) (j_db j) (m_ops m) (j_usage j) = Inr used"
  shows "sound (j\<lparr>j_db := committed_db j m used ps, j_usage := used, j_priorities := ps\<rparr>)"
proof -
  have wf: "kv_wf (j_db j)" and acc: "accounted j" and man: "manifest_agrees j"
    using assms by (auto simp: sound_def)
  have "unat used + charged (cfg_entry_overhead (j_cfg j)) (j_db j)
      = unat (j_usage j) + charged (cfg_entry_overhead (j_cfg j)) (m_view m (j_db j))"
    unfolding m_view_def using assms wf by (intro account_charged) (auto simp: m_good_def m_wf_def)
  moreover have "kv_get (m_view m (j_db j)) k = kv_get (j_db j) k" if "is_manifest_key k" for k
    using m_good_view [OF assms(3) wf that] man by (auto simp: manifest_agrees_iff)
  ultimately show ?thesis
    using wf acc man apply_deltas_length [OF assms(4)]
    by (simp add: sound_def accounted_def manifest_agrees_iff committed_db_get charged_committed_db
        boundary_value_def)
qed

lemma sound_unhealthy [simp]: "sound j \<Longrightarrow> sound (j\<lparr>j_healthy := False\<rparr>)"
  by (simp add: sound_def)

end
