(* ===== verification/JournalFrame.thy ===== *)
theory JournalFrame
  imports JournalCommit
begin

text \<open>
  What every journal operation preserves. Each loop only produces mutations that respect the manifest
  (\<open>m_good\<close>), and an operation built on them honours the journal's contract: it keeps the configuration,
  the counters keep describing the directory, \<open>ErrCorruption\<close> takes the journal out of service, and any
  other error leaves the journal untouched.
\<close>

section \<open>Mutations of the operations\<close>

lemma del_original_refs_good [simp]: "m_good j m \<Longrightarrow> m_good j (del_original_refs b ms m)"
  by (induction b ms m rule: del_original_refs.induct) simp_all

lemma set_original_refs_good [simp]: "m_good j m \<Longrightarrow> m_good j (set_original_refs b xs m)"
  by (induction b xs m rule: set_original_refs.induct) simp_all

lemma remove_refs_loop_good: "remove_refs_loop env j i refs m = Some m' \<Longrightarrow> m_good j m \<Longrightarrow> m_good j m'"
  by (induction env j i refs m rule: remove_refs_loop.induct)
    (auto simp: Let_def split: option.splits if_splits)

lemma remove_batch_refs_good: "remove_batch_refs env j m i = Some m' \<Longrightarrow> m_good j m \<Longrightarrow> m_good j m'"
  by (auto simp: remove_batch_refs_def dest: remove_refs_loop_good split: option.splits)

lemma append_one_good: "append_one env j b i p m = Inr (m', l) \<Longrightarrow> m_good j m \<Longrightarrow> m_good j m'"
  by (auto simp: append_one_def Let_def split: option.splits if_splits)

lemma append_all_good: "append_all env j b ps m live = Inr (m', live') \<Longrightarrow> m_good j m \<Longrightarrow> m_good j m'"
  by (induction env j b ps m live rule: append_all.induct)
    (auto split: prod.splits dest: append_one_good)

lemma append_prepare_good: "append_prepare env j b as = Inr (m, u) \<Longrightarrow> m_good j m"
  by (auto simp: append_prepare_def Let_def split: option.splits if_splits prod.splits
      dest!: append_all_good)

lemma expire_loop_good:
  "expire_loop env j now limit fault es m n = Inr (m', n') \<Longrightarrow> m_good j m \<Longrightarrow> m_good j m'"
  by (induction env j now limit fault es m n rule: expire_loop.induct)
    (auto simp: Let_def ns_defs dest!: parsed_timed_not_manifest split: option.splits if_splits prod.splits)

lemma claim_loop_good:
  "claim_loop env j owner expiry limit fault es m cs = Inr (m', cs') \<Longrightarrow> m_good j m \<Longrightarrow> m_good j m'"
  by (induction env j owner expiry limit fault es m cs rule: claim_loop.induct)
    (auto simp: Let_def dest!: parsed_pending_not_manifest split: option.splits if_splits prod.splits)

lemma renew_loop_good:
  "renew_loop env j now expiry cs seen m rs = Inr (m', rs') \<Longrightarrow> m_good j m \<Longrightarrow> m_good j m'"
  by (induction env j now expiry cs seen m rs rule: renew_loop.induct)
    (auto simp: Let_def split: option.splits if_splits)

lemma mark_loop_good: "mark_loop env j now cs seen m = Inr m' \<Longrightarrow> m_good j m \<Longrightarrow> m_good j m'"
  by (induction env j now cs seen m rule: mark_loop.induct)
    (auto simp: Let_def split: option.splits if_splits)

lemma compact_loop_good:
  "compact_loop env j now limit fault es m n = Inr (m', n') \<Longrightarrow> m_good j m \<Longrightarrow> m_good j m'"
proof (induction es arbitrary: m n)
  case (Cons e es)
  obtain k v where e: "e = (k, v)"
    by (cases e)
  from Cons.prems show ?case
    by (auto simp: e Let_def ns_defs dest!: parsed_timed_not_manifest
        split: option.splits if_splits prod.splits
        intro!: Cons.IH elim!: remove_batch_refs_good)
qed (simp split: if_splits)

section \<open>The contract of an operation\<close>

definition same_identity :: "journal \<Rightarrow> journal \<Rightarrow> bool" where
  "same_identity j j' \<longleftrightarrow> j_cfg j' = j_cfg j \<and> j_policy_version j' = j_policy_version j
     \<and> j_closed j' = j_closed j \<and> (j_healthy j' \<longrightarrow> j_healthy j)"

definition honours :: "journal \<Rightarrow> (jerr + 'a) \<Rightarrow> journal \<Rightarrow> bool" where
  "honours j r j' \<longleftrightarrow> same_identity j j' \<and> (sound j \<longrightarrow> sound j')
     \<and> (case r of
          Inr _ \<Rightarrow> j_healthy j' = j_healthy j
        | Inl e \<Rightarrow> if e = ErrCorruption then \<not> j_healthy j' else j' = j)"

lemma honours_same [simp]: "honours j (Inr a) j"
  by (simp add: honours_def same_identity_def)

lemma honours_fail: "fail_with j e = (r, j') \<Longrightarrow> honours j r j'"
  by (cases "e = ErrCorruption") (auto simp: fail_with_def honours_def same_identity_def)

text \<open>An operation that only reads.\<close>

lemma honours_read:
  "(case p of Inl e \<Rightarrow> fail_with j e | Inr a \<Rightarrow> (Inr a, j)) = (r, j') \<Longrightarrow> honours j r j'"
  by (cases p) (auto intro: honours_fail)

lemma honours_commit:
  assumes "commit_mutation env n j m capacity = (r, j')" and "m_good j m" and "j_healthy j"
  shows "honours j r j'"
  using assms(1)
proof (cases rule: commit_mutation_cases)
  case (committed next_priorities used)
  then show ?thesis
    using assms sound_committed [of j m next_priorities env used]
    by (auto simp: honours_def same_identity_def)
next
  case (lost next_priorities used)
  then show ?thesis
    by (auto simp: honours_def same_identity_def sound_def)
qed (auto simp: honours_def same_identity_def)

lemma honours_prepared:
  assumes "commit_prepared env n j capacity p = (r, j')" and "j_healthy j"
    and "\<And>m a. p = Inr (m, a) \<Longrightarrow> m_good j m"
  shows "honours j r j'"
proof (cases p)
  case (Inl e)
  with assms(1) show ?thesis
    by (auto simp: commit_prepared_def intro: honours_fail)
next
  case (Inr q)
  then obtain m a where q: "p = Inr (m, a)"
    by (cases q) simp
  obtain c j1 where c: "commit_mutation env n j m capacity = (c, j1)"
    by fastforce
  have "honours j c j1"
    using c assms(3) [OF q] assms(2) by (rule honours_commit)
  with assms(1) q c show ?thesis
    by (cases c) (auto simp: commit_prepared_def honours_def)
qed

lemma usable_Inr: "usable env j = Inr u \<longleftrightarrow> \<not> j_closed j \<and> j_healthy j \<and> verify_manifest env j"
  by (simp add: usable_def)

lemma honours_usable:
  assumes "when_usable env j body = (r, j')"
    and "j_healthy j \<Longrightarrow> \<not> j_closed j \<Longrightarrow> body = (r, j') \<Longrightarrow> honours j r j'"
  shows "honours j r j'"
proof (cases "usable env j")
  case (Inl e)
  with assms(1) show ?thesis
    by (auto simp: when_usable_def intro: honours_fail)
next
  case (Inr u)
  then have "j_healthy j" and "\<not> j_closed j"
    by (auto simp: usable_Inr)
  with Inr assms show ?thesis
    by (simp add: when_usable_def)
qed

lemma append_batch_honours: "append_batch env j b as = (r, j') \<Longrightarrow> honours j r j'"
  unfolding append_batch_def
  by (rule honours_usable, assumption) (auto elim!: honours_prepared dest: append_prepare_good)

lemma adopt_claims_honours: "adopt_claims env j owner limit = (r, j') \<Longrightarrow> honours j r j'"
  unfolding adopt_claims_def
  by (rule honours_usable, assumption) (erule honours_read)

lemma renew_claims_honours: "renew_claims env j cs = (r, j') \<Longrightarrow> honours j r j'"
  unfolding renew_claims_def
  by (rule honours_usable, assumption)
    (auto elim!: honours_prepared simp: renew_prepare_def Let_def
      dest!: renew_loop_good split: if_splits option.splits)

lemma mark_committed_batch_honours: "mark_committed_batch env j cs = (r, j') \<Longrightarrow> honours j r j'"
  unfolding mark_committed_batch_def
  by (rule honours_usable, assumption)
    (auto elim!: honours_prepared simp: mark_prepare_def Let_def
      dest!: mark_loop_good split: if_splits option.splits)

lemma quarantine_honours: "quarantine env j i token reason = (r, j') \<Longrightarrow> honours j r j'"
  unfolding quarantine_def
  by (rule honours_usable, assumption)
    (auto elim!: honours_prepared simp: quarantine_prepare_def Let_def
      dest!: remove_batch_refs_good split: if_splits option.splits)

lemma journal_compact_honours: "journal_compact env j limit = (r, j') \<Longrightarrow> honours j r j'"
  unfolding journal_compact_def
  by (rule honours_usable, assumption)
    (auto elim!: honours_prepared simp: compact_prepare_def Let_def
      dest!: compact_loop_good split: if_splits option.splits prod.splits)

lemma journal_stats_honours: "journal_stats env j = (r, j') \<Longrightarrow> honours j r j'"
  unfolding journal_stats_def
  by (rule honours_usable, assumption) (erule honours_read)

lemma recover_retained_honours: "recover_retained env j a limit = (r, j') \<Longrightarrow> honours j r j'"
  unfolding recover_retained_def
  by (rule honours_usable, assumption) (erule honours_read)

section \<open>Refusals\<close>

text \<open>
  \<open>atomic j res\<close>: an error other than \<open>ErrCorruption\<close> leaves the journal untouched, \<open>ErrCorruption\<close>
  takes it out of service, success keeps it in service with the same configuration.
\<close>

definition atomic :: "journal \<Rightarrow> (jerr + 'a) \<times> journal \<Rightarrow> bool" where
  "atomic j res \<longleftrightarrow>
     (case res of
        (Inl e, j') \<Rightarrow> if e = ErrCorruption then \<not> j_healthy j' else j' = j
      | (Inr _, j') \<Rightarrow> j_healthy j' = j_healthy j \<and> j_closed j' = j_closed j \<and> j_cfg j' = j_cfg j)"

lemma atomic_if_honours:
  assumes "\<And>r j'. res = (r, j') \<Longrightarrow> honours j r j'"
  shows "atomic j res"
proof (cases res)
  case (Pair r j')
  with assms show ?thesis
    by (cases r) (auto simp: honours_def atomic_def same_identity_def)
qed

lemma out_of_service_usable:
  "j_closed j \<or> \<not> j_healthy j \<Longrightarrow>
   usable env j = Inl (if j_closed j then ErrClosed else ErrNotHealthy)"
  by (auto simp: usable_def)

lemma out_of_service_refuses:
  "j_closed j \<or> \<not> j_healthy j \<Longrightarrow>
   when_usable env j body = (Inl (if j_closed j then ErrClosed else ErrNotHealthy), j)"
  by (auto simp: when_usable_def out_of_service_usable fail_with_def)

section \<open>Growth\<close>

definition growth_ok :: "env \<Rightarrow> journal \<Rightarrow> 64 word \<Rightarrow> bool" where
  "growth_ok env j used \<longleftrightarrow> used \<le> j_usage j
     \<or> used \<le> cfg_max_bytes (j_cfg j)
       \<and> (case env_free_space env of
            None \<Rightarrow> False
          | Some free \<Rightarrow>
              unat (cfg_min_free_bytes (j_cfg j)) + (unat used - unat (j_usage j)) \<le> unat free)"

lemma check_capacity_growth:
  assumes "check_capacity env j used = Inr u"
  shows "growth_ok env j used"
proof (cases "j_usage j < used")
  case True
  then obtain free where free: "env_free_space env = Some free"
    and b: "cfg_min_free_bytes (j_cfg j) \<le> free"
      "used - j_usage j \<le> free - cfg_min_free_bytes (j_cfg j)" "used \<le> cfg_max_bytes (j_cfg j)"
    using assms by (auto simp: check_capacity_def Let_def not_less split: if_splits option.splits)
  have "unat (used - j_usage j) = unat used - unat (j_usage j)"
    using True by (simp add: unat_sub order_less_imp_le)
  moreover have "unat (free - cfg_min_free_bytes (j_cfg j)) = unat free - unat (cfg_min_free_bytes (j_cfg j))"
    using b(1) by (simp add: unat_sub)
  ultimately show ?thesis
    using b free by (simp add: growth_ok_def word_le_nat_alt) linarith
qed (simp add: growth_ok_def not_less)

lemma commit_growth:
  "case commit_mutation env n j m True of (Inl _, _) \<Rightarrow> True | (Inr _, j') \<Rightarrow> growth_ok env j (j_usage j')"
proof -
  obtain r j' where c: "commit_mutation env n j m True = (r, j')"
    by fastforce
  then show ?thesis
  proof (cases rule: commit_mutation_cases)
    case (committed ps used)
    with c check_capacity_growth [of env j used] show ?thesis
      by simp
  qed (use c in \<open>simp_all add: growth_ok_def\<close>)
qed

lemma append_batch_growth:
  "case append_batch env j b as of (Inl _, _) \<Rightarrow> True | (Inr _, j') \<Rightarrow> growth_ok env j (j_usage j')"
proof (cases "append_prepare env j b as")
  case (Inl e)
  then show ?thesis
    by (cases "usable env j")
      (simp_all add: append_batch_def when_usable_def commit_prepared_def fail_with_def)
next
  case (Inr p)
  then obtain m where "append_prepare env j b as = Inr (m, ())"
    by (cases p) simp
  then show ?thesis
    using commit_growth [where env = env and n = 0 and j = j and m = m]
    by (cases "usable env j")
      (auto simp: append_batch_def when_usable_def commit_prepared_def fail_with_def
        split: prod.splits sum.splits)
qed

end
