(* ===== verification/JournalReach.thy ===== *)
theory JournalReach
  imports JournalFrame
begin

text \<open>
  The journal as a state machine: the states reachable from an opened directory by any sequence of
  operations, whatever the environment does during each. \<open>Open\<close> establishes the invariant \<open>sound\<close>
  because \<open>verify\<close> recomputes the byte counter and the manifest, and every operation keeps it.
\<close>

section \<open>Claim\<close>

definition honours_weak :: "journal \<Rightarrow> (jerr + 'a) \<Rightarrow> journal \<Rightarrow> bool" where
  "honours_weak j r j' \<longleftrightarrow> same_identity j j' \<and> (sound j \<longrightarrow> sound j')
     \<and> (case r of
          Inr _ \<Rightarrow> j_healthy j' = j_healthy j
        | Inl e \<Rightarrow> j_healthy j' = (j_healthy j \<and> e \<noteq> ErrCorruption))"

lemma honours_weaken: "honours j r j' \<Longrightarrow> honours_weak j r j'"
  by (auto simp: honours_def honours_weak_def split: sum.splits if_splits)

lemma honours_weak_trans:
  "honours_weak j (Inr a) j1 \<Longrightarrow> honours_weak j1 r j' \<Longrightarrow> honours_weak j r j'"
  by (auto simp: honours_weak_def same_identity_def split: sum.splits)

lemma honours_weak_error:
  "honours_weak j (Inl e :: jerr + 'a) j' \<Longrightarrow> honours_weak j (Inl e :: jerr + 'b) j'"
  by (simp add: honours_weak_def)

lemma honours_weak_usable:
  assumes "when_usable env j body = (r, j')"
    and "j_healthy j \<Longrightarrow> \<not> j_closed j \<Longrightarrow> body = (r, j') \<Longrightarrow> honours_weak j r j'"
  shows "honours_weak j r j'"
proof (cases "usable env j")
  case (Inl e)
  with assms(1) show ?thesis
    by (auto simp: when_usable_def intro: honours_weaken honours_fail)
next
  case (Inr u)
  then have "j_healthy j" and "\<not> j_closed j"
    by (auto simp: usable_Inr)
  with Inr assms show ?thesis
    by (simp add: when_usable_def)
qed

lemma expire_claims_good: "expire_claims env j limit = Inr (m, n) \<Longrightarrow> m_good j m"
  by (auto simp: expire_claims_def Let_def dest!: expire_loop_good split: if_splits prod.splits)

lemma claim_pending_good: "claim_pending env j owner limit = Inr (m, cs) \<Longrightarrow> m_good j m"
  by (auto simp: claim_pending_def Let_def dest!: claim_loop_good split: option.splits prod.splits)

lemma claim_honours: "claim env j limit owner = (r, j') \<Longrightarrow> honours_weak j r j'"
  unfolding claim_def
proof (rule honours_weak_usable, assumption)
  let ?expire = "commit_prepared env 0 j False (expire_claims env j max_transition_records)"
  let ?second = "\<lambda>expired j1.
      let budget = max_transition_records - expired
      in if budget = 0 then (Inr [], j1)
         else commit_prepared env 1 j1 False (claim_pending env j1 owner (min limit budget))"
  assume h: "j_healthy j"
    and body: "(if limit < 1 \<or> max_transition_records < limit \<or> blank owner
        then fail_with j ErrInvalidInput
        else if \<not> valid_identifier owner max_owner_bytes then fail_with j ErrInvalidInput
        else case ?expire of (Inl e, j') \<Rightarrow> (Inl e, j') | (Inr expired, j') \<Rightarrow> ?second expired j')
      = (r, j')"
  obtain x j1 where x: "?expire = (x, j1)"
    by fastforce
  have first: "honours_weak j x j1"
    using x h by (intro honours_weaken honours_prepared [OF x h]) (rule expire_claims_good)
  show "honours_weak j r j'"
  proof (cases x)
    case (Inl e)
    with body x first show ?thesis
      by (auto intro: honours_weaken honours_fail honours_weak_error split: if_splits)
  next
    case (Inr expired)
    then have h1: "j_healthy j1"
      using first h by (simp add: honours_weak_def)
    have "honours_weak j1 s j2" if "?second expired j1 = (s, j2)" for s j2
      using that h1
      by (auto simp: Let_def intro!: honours_weaken elim!: honours_prepared
          dest: claim_pending_good split: if_splits)
    with body x Inr first show ?thesis
      by (auto intro: honours_weaken honours_fail honours_weak_trans split: if_splits)
  qed
qed

section \<open>Open\<close>

lemma is_manifest_key_nth:
  "\<not> (length k < 2 \<or> k ! 0 \<noteq> byte key_version) \<Longrightarrow> k ! 1 \<noteq> byte ns_manifest \<Longrightarrow> \<not> is_manifest_key k"
  by (simp add: is_manifest_key_def)

lemma manifest_keys_set: "k \<in> set manifest_keys \<Longrightarrow> is_manifest_key k"
  by (auto simp: manifest_keys_def)

lemma scan_parts_calculated:
  "scan_record j k v s = Some s' \<Longrightarrow> vs_calculated s' = vs_calculated s \<and> vs_manifests s' = vs_manifests s"
  "scan_pending k v s = Some s' \<Longrightarrow> vs_calculated s' = vs_calculated s \<and> vs_manifests s' = vs_manifests s"
  "scan_claim k v s = Some s' \<Longrightarrow> vs_calculated s' = vs_calculated s \<and> vs_manifests s' = vs_manifests s"
  "scan_committed k v s = Some s' \<Longrightarrow> vs_calculated s' = vs_calculated s \<and> vs_manifests s' = vs_manifests s"
  "scan_batch j k v s = Some s' \<Longrightarrow> vs_calculated s' = vs_calculated s \<and> vs_manifests s' = vs_manifests s"
  "scan_batch_ref k v s = Some s' \<Longrightarrow> vs_calculated s' = vs_calculated s \<and> vs_manifests s' = vs_manifests s"
  "scan_original_ref k v s = Some s' \<Longrightarrow> vs_calculated s' = vs_calculated s \<and> vs_manifests s' = vs_manifests s"
  "scan_quarantine j k v s = Some s' \<Longrightarrow> vs_calculated s' = vs_calculated s \<and> vs_manifests s' = vs_manifests s"
  "scan_reserve j k v s = Some s' \<Longrightarrow> vs_calculated s' = vs_calculated s \<and> vs_manifests s' = vs_manifests s"
  unfolding scan_record_def scan_pending_def scan_claim_def scan_committed_def scan_batch_def
    scan_batch_ref_def scan_original_ref_def scan_quarantine_def scan_reserve_def
  by (auto split: option.splits if_splits prod.splits)

lemma scan_entry_other:
  assumes "scan_entry j (k, v) s = Some s'" and "k \<notin> set manifest_keys"
  obtains c where "cost (cfg_entry_overhead (j_cfg j)) k v = Some c"
    and "\<not> - 1 - c < vs_calculated s" and "vs_calculated s' = vs_calculated s + c"
    and "vs_manifests s' = vs_manifests s" and "\<not> is_manifest_key k"
proof -
  obtain c where c: "cost (cfg_entry_overhead (j_cfg j)) k v = Some c"
    "\<not> - 1 - c < vs_calculated s"
    using assms by (auto simp: scan_entry_def split: option.splits if_splits)
  note body = assms(1) [unfolded scan_entry_def Let_def prod.case if_not_P [OF assms(2)] c(1) option.case
      if_not_P [OF c(2)]]
  have "vs_calculated s' = vs_calculated s + c \<and> vs_manifests s' = vs_manifests s"
    using body by (auto dest!: scan_parts_calculated split: if_splits)
  moreover have "\<not> is_manifest_key k"
    using body by (auto simp: is_manifest_key_def ns_defs byte_eq_iff split: if_splits)
  ultimately show thesis
    using c that by blast
qed

lemma scan_entry_manifest:
  assumes "scan_entry j (k, v) s = Some s'" and "k \<in> set manifest_keys"
  obtains i where "scan_manifest j k v = Some i" and "s' = s\<lparr>vs_manifests := i # vs_manifests s\<rparr>"
  using assms by (auto simp: scan_entry_def)

lemma scan_entries_calculated:
  "scan_entries j es s = Some s' \<Longrightarrow>
   unat (vs_calculated s') = unat (vs_calculated s) + charged (cfg_entry_overhead (j_cfg j)) es"
proof (induction es arbitrary: s)
  case (Cons e es)
  obtain k v where e: "e = (k, v)"
    by (cases e)
  obtain s1 where s1: "scan_entry j (k, v) s = Some s1" "scan_entries j es s1 = Some s'"
    using Cons.prems by (auto simp: e split: option.splits)
  have "unat (vs_calculated s1)
      = unat (vs_calculated s) + entry_charge (cfg_entry_overhead (j_cfg j)) k v"
  proof (cases "k \<in> set manifest_keys")
    case True
    then have "entry_charge (cfg_entry_overhead (j_cfg j)) k v = 0"
      by (simp add: entry_charge_def manifest_keys_set)
    with True s1(1) show ?thesis
      by (auto elim!: scan_entry_manifest)
  next
    case False
    then obtain c where c: "cost (cfg_entry_overhead (j_cfg j)) k v = Some c"
      "\<not> - 1 - c < vs_calculated s" "vs_calculated s1 = vs_calculated s + c" "\<not> is_manifest_key k"
      using scan_entry_other [OF s1(1) False] by metis
    then have "unat (vs_calculated s) + unat c < 2 ^ 64"
      using unat_64_bound [of c] by (simp add: not_less word_le_nat_alt word_minus_one_sub)
    with c show ?thesis
      by (simp add: entry_charge_def unat_add_lem [THEN iffD1])
  qed
  with Cons.IH [OF s1(2)] show ?case
    by (simp add: e charged_def kv_total_def)
qed (simp add: charged_def kv_total_def)

lemma scan_entries_manifests:
  "scan_entries j es s = Some s' \<Longrightarrow> n \<in> set (vs_manifests s') \<Longrightarrow>
   n \<in> set (vs_manifests s) \<or>
   (\<exists>k v. (k, v) \<in> set es \<and> k \<in> set manifest_keys \<and> scan_manifest j k v = Some n)"
proof (induction es arbitrary: s)
  case (Cons e es)
  obtain k v where e: "e = (k, v)"
    by (cases e)
  obtain s1 where s1: "scan_entry j (k, v) s = Some s1" "scan_entries j es s1 = Some s'"
    using Cons.prems by (auto simp: e split: option.splits)
  have "n \<in> set (vs_manifests s1) \<Longrightarrow> n \<in> set (vs_manifests s)
      \<or> k \<in> set manifest_keys \<and> scan_manifest j k v = Some n"
  proof (cases "k \<in> set manifest_keys")
    case True
    assume n: "n \<in> set (vs_manifests s1)"
    obtain i where i: "scan_manifest j k v = Some i" "s1 = s\<lparr>vs_manifests := i # vs_manifests s\<rparr>"
      using s1(1) True by (rule scan_entry_manifest)
    with n True show ?thesis
      by auto
  next
    case False
    assume "n \<in> set (vs_manifests s1)"
    moreover have "vs_manifests s1 = vs_manifests s"
      using s1(1) False by (rule scan_entry_other)
    ultimately show ?thesis
      by simp
  qed
  with Cons.IH [OF s1(2) Cons.prems(2)] show ?case
    by (auto simp: e)
qed simp

context digest
begin

lemma decode_usage_Some:
  assumes "decode_usage H v = Some u"
  shows "v = usage_value H u"
proof -
  obtain p where p: "unchecked_blob H v ''JUS1'' = Some p" "length p = 8" "u = word_of_nat (unbe p)"
    using assms by (auto simp: decode_usage_def split: option.splits if_splits)
  have "be 8 (unat u) = p"
    using be_unbe [of p] unbe_less [of p] p by (simp add: unat_of_nat)
  with unchecked_Some [OF p(1)] show ?thesis
    by (simp add: usage_value_def)
qed

lemma decode_usage_value [simp]: "decode_usage H (usage_value H u) = Some u"
  by (simp add: decode_usage_def usage_value_def unchecked_checked_blob unbe_be [OF unat_64_bound])

lemma decode_priority_Some:
  assumes "decode_priority H v = Some ps"
  shows "v = priority_value H ps" and "length ps = 4"
proof -
  obtain p where p: "unchecked_blob H v ''JPA1'' = Some p" "length p = 32"
    "ps = map (\<lambda>i. word_of_nat (unbe (take 8 (drop (i * 8) p)))) [0..<4]"
    using assms by (auto simp: decode_priority_def split: option.splits if_splits)
  have "be 8 (unat (word_of_nat (unbe (take 8 (drop (i * 8) p))) :: 64 word)) = take 8 (drop (i * 8) p)"
    if "i < 4" for i
    using be_unbe [of "take 8 (drop (i * 8) p)"] unbe_less [of "take 8 (drop (i * 8) p)"] p(2) that
    by (simp add: unat_of_nat)
  then have "concat (map be_u64 ps) = concat (map (\<lambda>i. take 8 (drop (i * 8) p)) [0..<4])"
    unfolding p(3) by (intro arg_cong [where f = concat]) (simp add: be_u64_def)
  also have "\<dots> = p"
  proof -
    have "p = take (8 + (8 + (8 + 8))) p"
      using p(2) by simp
    also have "\<dots> = take 8 p @ take 8 (drop 8 p) @ take 8 (drop 16 p) @ take 8 (drop 24 p)"
      unfolding take_add by (simp add: take_drop)
    finally have "take 8 p @ take 8 (drop 8 p) @ take 8 (drop 16 p) @ take 8 (drop 24 p) = p"
      by (rule sym)
    moreover have "[0..<4] = [0, 1, 2, 3 :: nat]"
      by (simp add: upt_rec)
    ultimately show ?thesis
      by simp
  qed
  finally show "v = priority_value H ps"
    using unchecked_Some [OF p(1)] by (simp add: priority_value_def)
  show "length ps = 4"
    by (simp add: p(3))
qed

end

lemma kv_range_all [simp]: "kv_range ([] :: bytes) None db = db"
  by (simp add: kv_range_def)

text \<open>A manifest entry found by the scan has the value the journal expects.\<close>

lemma scan_manifest_values:
  assumes "digest (j_hash j)" and "scan_manifest j k v = Some n"
  shows "n = 0 \<Longrightarrow> k = key_format \<and> v = format_value (j_hash j)"
    and "n = 1 \<Longrightarrow> k = key_owner \<and> v = owner_value (j_hash j) (cfg_owner (j_cfg j))"
    and "n = 2 \<Longrightarrow> k = key_boundary \<and> v = boundary_value (j_cfg j) (j_policy_version j)"
    and "n = 3 \<Longrightarrow> k = key_usage \<and> v = usage_value (j_hash j) (j_usage j)"
    and "n = 4 \<Longrightarrow> v = priority_value (j_hash j) (j_priorities j)"
  using assms
  by (auto simp: scan_manifest_def digest.decode_usage_Some digest.decode_priority_Some
      split: if_splits)

lemma scan_manifest_priority:
  "scan_manifest j k v = Some 4 \<Longrightarrow> k \<in> set manifest_keys \<Longrightarrow> k = key_priority"
  by (auto simp: scan_manifest_def manifest_keys_def split: if_splits)

lemma length_count_priorities: "length (count_priorities records) = 4"
  by (simp add: count_priorities_def)

lemma verify_sound:
  assumes d: "digest (j_hash j)" and wf: "kv_wf (j_db j)" and v: "verify env j"
  shows "accounted j" and "manifest_agrees j"
proof -
  have scan: "db_scan env (j_db j) [] None = (j_db j, False)"
    using v by (auto simp: verify_def db_scan_def split: option.splits prod.splits)
  then obtain s where s: "scan_entries j (j_db j) empty_scan = Some s" "verify_scanned j s"
    using v by (auto simp: verify_def split: option.splits)
  have "length (j_priorities j) = 4"
    using s(2) length_count_priorities [of "vs_records s"] by (simp add: verify_scanned_def)
  then show "accounted j"
    using scan_entries_calculated [OF s(1)] s(2)
    by (simp add: accounted_def verify_scanned_def empty_scan_def)
  have found: "\<exists>k v. kv_get (j_db j) k = Some v \<and> k \<in> set manifest_keys \<and> scan_manifest j k v = Some n"
    if "n \<in> {0, 1, 2, 3, 4}" for n
    using scan_entries_manifests [OF s(1), of n] s(2) that kv_entry_iff [OF wf]
    by (auto simp: verify_scanned_def empty_scan_def)
  show "manifest_agrees j"
    unfolding manifest_agrees_iff
  proof (intro conjI)
    show "kv_get (j_db j) key_format = Some (format_value (j_hash j))"
      using found [of 0] by (auto dest: scan_manifest_values(1) [OF d])
    show "kv_get (j_db j) key_owner = Some (owner_value (j_hash j) (cfg_owner (j_cfg j)))"
      using found [of 1] by (auto dest: scan_manifest_values(2) [OF d])
    show "kv_get (j_db j) key_boundary = Some (boundary_value (j_cfg j) (j_policy_version j))"
      using found [of 2] by (auto dest: scan_manifest_values(3) [OF d])
    show "kv_get (j_db j) key_usage = Some (usage_value (j_hash j) (j_usage j))"
      using found [of 3] by (auto dest: scan_manifest_values(4) [OF d])
    show "kv_get (j_db j) key_priority = Some (priority_value (j_hash j) (j_priorities j))"
      using found [of 4] scan_manifest_priority by (auto dest: scan_manifest_values(5) [OF d])
  qed
qed

lemma kv_wf_initial_db: "kv_wf (j_db j) \<Longrightarrow> kv_wf (initial_db j)"
  by (simp add: initial_db_def kv_wf_put)

lemma open_manifest_wf: "open_manifest env j = (r, j') \<Longrightarrow> kv_wf (j_db j) \<Longrightarrow> kv_wf (j_db j')"
  by (auto simp: open_manifest_def init_manifest_def Let_def kv_wf_initial_db
      split: option.splits sum.splits prod.splits if_splits commit_outcome.splits)

lemma open_manifest_frame:
  "open_manifest env j = (r, j') \<Longrightarrow>
   j_cfg j' = j_cfg j \<and> j_policy_version j' = j_policy_version j \<and> j_healthy j' = j_healthy j
   \<and> j_closed j' = j_closed j"
  by (auto simp: open_manifest_def init_manifest_def Let_def
      split: option.splits sum.splits prod.splits if_splits commit_outcome.splits)

lemma journal_open_Inr:
  assumes "journal_open oe db cfg = (Inr j, db')"
  obtains cfg' where "check_config (env_clock (oe_env oe) 0) cfg = Inr cfg'"
    and "open_manifest (oe_env oe) (new_journal db cfg') = (Inr (), j)"
    and "verify (oe_env oe) j" and "db' = j_db j"
  using assms
  by (auto simp: journal_open_def split: sum.splits prod.splits if_splits)

lemma check_config_lib: "check_config now cfg = Inr cfg' \<Longrightarrow> cfg_lib cfg' = cfg_lib cfg"
  by (auto simp: check_config_def Let_def config_defaults_def split: if_splits)

lemma journal_open_sound:
  assumes o: "journal_open oe db cfg = (Inr j, db')" and wf: "kv_wf db"
    and d: "digest (lib_sha256 (cfg_lib cfg))"
  shows "sound j \<and> j_healthy j \<and> \<not> j_closed j"
proof -
  obtain cfg' where c: "check_config (env_clock (oe_env oe) 0) cfg = Inr cfg'"
    and m: "open_manifest (oe_env oe) (new_journal db cfg') = (Inr (), j)"
    and v: "verify (oe_env oe) j"
    using o by (rule journal_open_Inr)
  have "kv_wf (j_db j)"
    using open_manifest_wf [OF m] wf by (simp add: new_journal_def)
  moreover have "digest (j_hash j)"
    using open_manifest_frame [OF m] check_config_lib [OF c] d by (simp add: new_journal_def)
  ultimately show ?thesis
    using verify_sound [of j "oe_env oe"] v open_manifest_frame [OF m]
    by (simp add: sound_def new_journal_def)
qed

section \<open>The state machine\<close>

inductive journal_step :: "journal \<Rightarrow> journal \<Rightarrow> bool" where
  step_append: "append_batch env j b as = (r, j') \<Longrightarrow> journal_step j j'"
| step_claim: "claim env j limit owner = (rc, j') \<Longrightarrow> journal_step j j'"
| step_adopt: "adopt_claims env j owner limit = (rc, j') \<Longrightarrow> journal_step j j'"
| step_renew: "renew_claims env j cs = (rc, j') \<Longrightarrow> journal_step j j'"
| step_mark: "mark_committed_batch env j cs = (r, j') \<Longrightarrow> journal_step j j'"
| step_quarantine: "quarantine env j i token reason = (r, j') \<Longrightarrow> journal_step j j'"
| step_compact: "journal_compact env j limit = (rn, j') \<Longrightarrow> journal_step j j'"
| step_stats: "journal_stats env j = (rs, j') \<Longrightarrow> journal_step j j'"
| step_recover: "recover_retained env j a limit = (rr, j') \<Longrightarrow> journal_step j j'"
| step_capacity: "journal_capacity env j = (ro, j') \<Longrightarrow> journal_step j j'"
| step_close: "journal_close f1 f2 j = (r, j') \<Longrightarrow> journal_step j j'"

inductive journal_reachable :: "(bytes \<Rightarrow> bytes) \<Rightarrow> journal \<Rightarrow> bool" for H where
  reach_open: "journal_open oe db cfg = (Inr j, db') \<Longrightarrow> kv_wf db \<Longrightarrow> lib_sha256 (cfg_lib cfg) = H \<Longrightarrow>
    journal_reachable H j"
| reach_step: "journal_reachable H j \<Longrightarrow> journal_step j j' \<Longrightarrow> journal_reachable H j'"

inductive_cases journal_stepE: "journal_step j j'"

lemma journal_capacity_honours: "journal_capacity env j = (ob, j') \<Longrightarrow> same_identity j j' \<and> (sound j \<longrightarrow> sound j')"
  by (cases "usable env j")
    (auto simp: journal_capacity_def Let_def fail_with_def same_identity_def
      split: if_splits option.splits)

lemma journal_close_sound: "journal_close f1 f2 j = (r, j') \<Longrightarrow> sound j \<Longrightarrow> sound j'"
  by (auto simp: journal_close_def Let_def sound_def accounted_def manifest_agrees_def manifest_values_def
      split: if_splits)

lemma honours_sound: "honours j r j' \<Longrightarrow> sound j \<Longrightarrow> sound j'"
  by (simp add: honours_def)

lemmas operations_honour = append_batch_honours adopt_claims_honours renew_claims_honours
  mark_committed_batch_honours quarantine_honours journal_compact_honours journal_stats_honours
  recover_retained_honours

lemma journal_step_sound:
  assumes "journal_step j j'" and "sound j"
  shows "sound j'"
  using assms
proof (cases rule: journal_step.cases)
  case (step_claim env limit owner rc)
  with assms(2) show ?thesis
    by (auto dest: claim_honours simp: honours_weak_def)
next
  case (step_capacity env ro)
  with assms(2) show ?thesis
    by (auto dest: journal_capacity_honours)
next
  case (step_close f1 f2 r)
  with assms(2) show ?thesis
    by (auto dest: journal_close_sound)
qed (auto dest!: operations_honour intro: honours_sound)

lemma reachable_sound:
  assumes "journal_reachable H j" and "digest H"
  shows "sound j"
  using assms(1)
  by induction (use assms(2) journal_open_sound journal_step_sound in blast)+

end
