(* ===== verification/JournalFresh.thy ===== *)
theory JournalFresh
  imports JournalReach
begin

text \<open>
  Opening an empty directory, in general and on a sample configuration: the manifest is written, the
  directory verifies, and the journal starts healthy and empty. The sample values also serve as the
  concrete inputs of the witnesses.
\<close>

section \<open>A fresh directory\<close>

definition no_faults :: "env \<Rightarrow> bool" where
  "no_faults env \<longleftrightarrow> (\<forall>k. \<not> env_get_fails env k) \<and> (\<forall>k. env_scan_cut env k = None)
     \<and> (\<forall>n. env_commit env n = CommitOk)"

lemma no_faults_reads [simp]:
  "no_faults env \<Longrightarrow> db_get env db k = Some (kv_get db k)"
  "no_faults env \<Longrightarrow> db_scan env db lo hi = (kv_range lo hi db, False)"
  "no_faults env \<Longrightarrow> env_commit env n = CommitOk"
  by (simp_all add: no_faults_def db_get_def db_scan_def)

lemma manifest_key_order [simp]:
  "key_owner < key_usage" "key_owner < key_format" "key_owner < key_boundary"
  "key_owner < key_priority" "key_usage < key_format" "key_usage < key_boundary"
  "key_usage < key_priority" "key_format < key_boundary" "key_format < key_priority"
  "key_boundary < key_priority"
  by code_simp+

lemma manifest_key_order_not [simp]:
  "\<not> key_usage < key_owner" "key_usage \<noteq> key_owner" "\<not> key_format < key_owner" "key_format \<noteq> key_owner"
  "\<not> key_boundary < key_owner" "key_boundary \<noteq> key_owner" "\<not> key_priority < key_owner" "key_priority \<noteq> key_owner"
  "\<not> key_format < key_usage" "key_format \<noteq> key_usage" "\<not> key_boundary < key_usage" "key_boundary \<noteq> key_usage"
  "\<not> key_priority < key_usage" "key_priority \<noteq> key_usage" "\<not> key_boundary < key_format" "key_boundary \<noteq> key_format"
  "\<not> key_priority < key_format" "key_priority \<noteq> key_format" "\<not> key_priority < key_boundary" "key_priority \<noteq> key_boundary"
  by (simp_all add: less_imp_not_less less_imp_neq [symmetric])

lemma initial_db_entries:
  "j_db j = [] \<Longrightarrow> initial_db j =
     [(key_owner, owner_value (j_hash j) (cfg_owner (j_cfg j))),
      (key_usage, usage_value (j_hash j) 0),
      (key_format, format_value (j_hash j)),
      (key_boundary, boundary_value (j_cfg j) (j_policy_version j)),
      (key_priority, priority_value (j_hash j) [0, 0, 0, 0])]"
  by (simp add: initial_db_def)

context digest
begin

lemma decode_priority_value [simp]:
  "decode_priority H (priority_value H [a, b, c, d]) = Some [a, b, c, d]"
  by (simp add: decode_priority_def priority_value_def be_u64_def unchecked_checked_blob upt_rec
      unbe_be [OF unat_64_bound])

end

lemma verify_initial_db:
  assumes "digest (j_hash j)" and "no_faults env" and "j_usage j = 0" and "j_priorities j = [0, 0, 0, 0]"
    and "j_db j = initial_db (j\<lparr>j_db := []\<rparr>)"
  shows "verify env j"
proof -
  have "verify_scanned j (empty_scan\<lparr>vs_manifests := [4, 2, 0, 3, 1]\<rparr>)"
    using assms(3,4) by (simp add: verify_scanned_def empty_scan_def count_priorities_def upt_rec)
  moreover have "scan_entries j (j_db j) empty_scan = Some (empty_scan\<lparr>vs_manifests := [4, 2, 0, 3, 1]\<rparr>)"
    using assms
    by (simp add: initial_db_entries scan_entry_def manifest_keys_def scan_manifest_def empty_scan_def
        digest.decode_usage_value digest.decode_priority_value boundary_value_def
        manifest_keys_distinct [symmetric])
  ultimately show ?thesis
    using assms(2) by (simp add: verify_def)
qed

lemma journal_open_fresh:
  assumes "digest (lib_sha256 (cfg_lib cfg))" and "no_faults (oe_env oe)"
    and "\<not> oe_mkdir_fails oe" and "\<not> oe_lock_fails oe" and "\<not> oe_open_fails oe"
    and c: "check_config (env_clock (oe_env oe) 0) cfg = Inr cfg'"
  shows "journal_open oe [] cfg =
    (Inr (new_journal (initial_db (new_journal [] cfg')) cfg'), initial_db (new_journal [] cfg'))"
proof -
  let ?j = "new_journal (initial_db (new_journal [] cfg')) cfg'"
  have m: "open_manifest (oe_env oe) (new_journal [] cfg') = (Inr (), ?j)"
    using assms(2) by (simp add: open_manifest_def init_manifest_def new_journal_def kv_range_def)
  have "verify (oe_env oe) ?j"
    using assms(1,2) check_config_lib [OF c]
    by (intro verify_initial_db) (simp_all add: new_journal_def)
  with m show ?thesis
    using assms(3-5) c by (simp add: journal_open_def) (simp add: new_journal_def)
qed

end
