(* ===== verification/JournalSample.thy ===== *)
theory JournalSample
  imports JournalFresh "HOL-Library.Code_Target_Nat"
begin

text \<open>
  A concrete journal on which the theorems' hypotheses hold: one tenant, one record, a digest that
  returns 32 zero bytes and a wire codec that knows the messages of this record. Nothing here models
  the program; the definitions are inputs for the witnesses, evaluated in the kernel.
\<close>

text \<open>Evaluation in the kernel looks into a continuation only once its argument is known.\<close>

declare bind_err_def [code_unfold]

lemma flip_sign_code [code]: "flip_sign w = w + 9223372036854775808"
  by (simp add: flip_sign_add push_bit_eq_mult)

section \<open>A record\<close>

definition sample_time :: "int \<Rightarrow> gtime" where
  "sample_time n = unix_utc (n * go_second)"

definition sample_id :: bytes where "sample_id = replicate 64 (CHR ''a'')"

definition sample_envelope :: trusted_envelope where
  "sample_envelope =
     \<lparr>te_source_type = source_type_otlp, te_source_account = ''acct'', te_region = ''us-east-1'',
      te_allowed_environments = [''prod''], te_allowed_services = [''api''],
      te_source_instance = ''collector-1'', te_credential_identity = ''spiffe:collector'',
      te_received_at = sample_time 100\<rparr>"

definition sample_record :: normalized_log where
  "sample_record =
     \<lparr>nl_schema_version = normalized_log_schema_version, nl_record_id = sample_id,
      nl_record_id_version = ''otlp:v1'', nl_identity_quality = identity_quality_native,
      nl_batch_id = ''batch-1'', nl_source = sample_envelope, nl_region = ''us-east-1'',
      nl_event_time = sample_time 90, nl_observed_time = sample_time 95,
      nl_timestamp_inferred = False, nl_timestamp_inference_reason = [],
      nl_observed_time_inferred = False, nl_observed_time_inference_reason = [],
      nl_severity_number = 17, nl_severity_text = ''ERROR'', nl_severity_class = severity_class_error,
      nl_body = safe_string ''boom'', nl_event_name = [], nl_attributes = None,
      nl_resource_attributes = None, nl_scope_attributes = None,
      nl_service = \<lparr>si_name = ''api'', si_namespace = [], si_instance_id = [],
                     si_environment = ''prod'', si_status = enrichment_available\<rparr>,
      nl_deployment = \<lparr>di_id = ''d1'', di_version = ''1'', di_status = enrichment_available\<rparr>,
      nl_correlation = \<lparr>ci_trace_id = [], ci_span_id = []\<rparr>, nl_exception = None,
      nl_redaction = \<lparr>rm_policy_version = ''policy-1'', rm_rule_ids = [], rm_withheld_fields = []\<rparr>,
      nl_raw_reference = None\<rparr>"

section \<open>Configuration and environment\<close>

definition sample_message :: durable_msg where
  "sample_message =
     \<lparr>dm_schema_version = normalized_log_schema_version,
      dm_message_id = ''journal-record:'' @ sample_id,
      dm_created_at = time_proto (sample_time 100),
      dm_region = ''us-east-1'', dm_tenant_id = ''tenant'', dm_classification = ''SENSITIVE'',
      dm_producer = ''collector-1'', dm_correlation_id = [],
      dm_log = Some (to_proto sample_record), dm_unknown = []\<rparr>"

text \<open>The message \<open>semanticDigestEnvelope\<close> marshals: the same without transport facts.\<close>

definition sample_semantic_message :: durable_msg where
  "sample_semantic_message =
     sample_message\<lparr>dm_created_at := None,
       dm_log := map_option (\<lambda>l. l\<lparr>pl_batch_id := [],
                                    pl_source := map_option (\<lambda>s. s\<lparr>pe_received_at := None\<rparr>) (pl_source l)\<rparr>)
                   (dm_log sample_message)\<rparr>"

definition sample_digest :: "bytes \<Rightarrow> bytes" where
  "sample_digest data = replicate 32 (CHR 0x00)"

definition sample_marshal :: "durable_msg \<Rightarrow> bytes option" where
  "sample_marshal m =
     (if m = sample_message then Some ''wire''
      else if m = sample_semantic_message then Some ''semantic'' else None)"

definition sample_unmarshal :: "bytes \<Rightarrow> durable_msg option" where
  "sample_unmarshal d =
     (if d = ''wire'' then Some sample_message
      else if d = ''semantic'' then Some sample_semantic_message else None)"

definition sample_lib :: lib where
  "sample_lib =
     \<lparr>lib_sha256 = sample_digest, lib_marshal = sample_marshal, lib_unmarshal = sample_unmarshal,
      lib_size = (\<lambda>_. 100), lib_uuid_sha1 = (\<lambda>s. s), lib_uuid_parse = Some\<rparr>"

definition sample_config :: config where
  "sample_config =
     \<lparr>cfg_dir = ''/var/journal'', cfg_owner = ''replica-1'', cfg_tenant_id = ''tenant'',
      cfg_region = ''us-east-1'', cfg_classification = ''SENSITIVE'', cfg_clock_nil = False,
      cfg_validator_nil = False, cfg_free_space_nil = False, cfg_accepts = (\<lambda>_. True),
      cfg_policy_version = ''policy-1'', cfg_max_bytes = 1000000, cfg_min_free_bytes = 1000,
      cfg_claim_ttl = 300 * go_second, cfg_safety_delay = 900 * go_second, cfg_entry_overhead = 64,
      cfg_max_batch_refs = 64, cfg_lib = sample_lib\<rparr>"

definition sample_env :: "int \<Rightarrow> env" where
  "sample_env n =
     \<lparr>env_clock = (\<lambda>_. sample_time n), env_get_fails = (\<lambda>_. False), env_scan_cut = (\<lambda>_. None),
      env_commit = (\<lambda>_. CommitOk), env_free_space = Some 1000000\<rparr>"

definition sample_open_env :: open_env where
  "sample_open_env =
     \<lparr>oe_mkdir_fails = False, oe_lock_fails = False, oe_open_fails = False, oe_env = sample_env 50\<rparr>"

section \<open>The opened journal\<close>

definition sample_opened :: journal where
  "sample_opened = new_journal (initial_db (new_journal [] sample_config)) sample_config"

lemma sample_digest_digest: "digest sample_digest"
  by unfold_locales (simp add: sample_digest_def)

lemma sample_lib_digest: "digest (lib_sha256 (cfg_lib sample_config))"
  by (simp add: sample_config_def sample_lib_def sample_digest_digest)

lemma sample_messages_differ: "sample_message \<noteq> sample_semantic_message"
  by (simp add: sample_semantic_message_def sample_message_def time_proto_def timestamp_new_def
      sample_time_def unix_utc_def is_zero_def go_second_def)

lemma sample_lib_ok: "lib_ok sample_lib"
  using sample_messages_differ
  by (auto simp: lib_ok_def sample_lib_def sample_digest_digest sample_marshal_def sample_unmarshal_def
      split: if_splits)

lemma sample_no_faults: "no_faults (sample_env n)"
  by (simp add: no_faults_def sample_env_def)

lemma sample_config_checked:
  "check_config (env_clock (oe_env sample_open_env) 0) sample_config = Inr sample_config"
proof -
  have "\<not> isl (check_config (env_clock (oe_env sample_open_env) 0) sample_config)"
    by code_simp
  then obtain c where c: "check_config (env_clock (oe_env sample_open_env) 0) sample_config = Inr c"
    by (cases "check_config (env_clock (oe_env sample_open_env) 0) sample_config") auto
  moreover have "c = config_defaults sample_config"
    using c by (auto simp: check_config_def Let_def split: if_splits)
  moreover have "config_defaults sample_config = sample_config"
    by (simp add: config_defaults_def sample_config_def go_second_def)
  ultimately show ?thesis
    by simp
qed

lemma sample_open: "journal_open sample_open_env [] sample_config = (Inr sample_opened, j_db sample_opened)"
proof -
  have "journal_open sample_open_env [] sample_config =
      (Inr sample_opened, initial_db (new_journal [] sample_config))"
    unfolding sample_opened_def
    by (rule journal_open_fresh [OF sample_lib_digest _ _ _ _ sample_config_checked])
      (simp_all add: sample_open_env_def sample_no_faults)
  then show ?thesis
    by (simp add: sample_opened_def new_journal_def)
qed

lemma sample_reachable: "journal_reachable sample_digest sample_opened"
  by (rule reach_open [OF sample_open]) (simp_all add: sample_config_def sample_lib_def)

lemma sample_opened_healthy: "j_healthy sample_opened" "\<not> j_closed sample_opened"
  by (simp_all add: sample_opened_def new_journal_def)

section \<open>The sample record is admissible\<close>

lemma sample_record_valid: "validate sample_record = []"
  by code_simp

lemma sample_record_portable: "portable_record sample_record"
  by (simp add: portable_record_def portable.simps sample_record_def sample_envelope_def sv_is_zero_def safe_string_def
      safe_kind_defs scalar_or_container_kinds_def opt_list_def proto_range_def sample_time_def
      unix_utc_def go_second_def is_zero_def)

lemma sample_record_times: "valid_record_times sample_record"
  by (simp add: valid_record_times_def sample_record_def sample_envelope_def sample_time_def
      valid_journal_time_iff nano_range_def unix_utc_def go_second_def)

lemma sample_record_encoded: "encode_durable sample_lib sample_record ''tenant'' ''SENSITIVE'' = Some ''wire''"
proof -
  have "\<lparr>dm_schema_version = normalized_log_schema_version,
         dm_message_id = durable_message_id sample_lib (nl_record_id sample_record),
         dm_created_at = time_proto (te_received_at (nl_source sample_record)),
         dm_region = nl_region sample_record, dm_tenant_id = ''tenant'', dm_classification = ''SENSITIVE'',
         dm_producer = te_source_instance (nl_source sample_record),
         dm_correlation_id = ci_trace_id (nl_correlation sample_record),
         dm_log = Some (to_proto sample_record), dm_unknown = []\<rparr> = sample_message"
    unfolding sample_message_def
    by (simp add: durable_message_id_def sample_lib_def sample_record_def sample_envelope_def)
  then show ?thesis
    using sample_record_valid by (simp add: encode_durable_def sample_marshal_def sample_lib_def)
qed

end
