(* ===== verification/JournalTheorems.thy ===== *)
theory JournalTheorems
  imports JournalSample
begin

text \<open>
  The properties of the journal, each with its witness: what holds in every reachable state, how the
  operations fail, and what the encodings guarantee.
\<close>

section \<open>States and failures\<close>

text \<open>
  C1. In every state the journal can reach from an opened directory, under any sequence of operations
  and any environment, a healthy journal's counters describe its directory: the byte counter is exactly
  the charge of every entry outside the manifest, and every manifest entry has the value the health
  check expects.
\<close>

theorem journal_invariant:
  assumes "journal_reachable H j" and "digest H"
  shows "kv_wf (j_db j) \<and>
    (j_healthy j \<longrightarrow>
       unat (j_usage j) = charged (cfg_entry_overhead (j_cfg j)) (j_db j)
       \<and> length (j_priorities j) = 4
       \<and> (\<forall>(k, v) \<in> set (manifest_values j). kv_get (j_db j) k = Some v))"
  using reachable_sound [OF assms] by (auto simp: sound_def accounted_def manifest_agrees_def)

theorem journal_invariant_witness:
  "unat (j_usage sample_opened) = charged (cfg_entry_overhead (j_cfg sample_opened)) (j_db sample_opened)"
  using journal_invariant [OF sample_reachable sample_digest_digest] sample_opened_healthy by simp


text \<open>
  C11. Once out of service, the journal stays as it is: a closed or unhealthy journal answers every
  operation with ErrClosed or ErrNotHealthy and none of them touches the directory.
\<close>

theorem journal_out_of_service:
  assumes "j_closed j \<or> \<not> j_healthy j"
  defines "refusal \<equiv> if j_closed j then ErrClosed else ErrNotHealthy"
  shows "append_batch env j b as = (Inl refusal, j) \<and> claim env j limit owner = (Inl refusal, j)
    \<and> adopt_claims env j owner limit = (Inl refusal, j) \<and> renew_claims env j cs = (Inl refusal, j)
    \<and> mark_committed_batch env j cs = (Inl refusal, j)
    \<and> quarantine env j i token reason = (Inl refusal, j)
    \<and> journal_compact env j limit = (Inl refusal, j) \<and> journal_stats env j = (Inl refusal, j)
    \<and> recover_retained env j a limit = (Inl refusal, j)
    \<and> journal_capacity env j =
        (\<lparr>co_used = j_usage j, co_total = cfg_max_bytes (j_cfg j), co_can_persist = False\<rparr>, j)"
  unfolding refusal_def
  by (simp add: out_of_service_refuses [OF assms(1)] append_batch_def claim_def adopt_claims_def renew_claims_def mark_committed_batch_def
      quarantine_def journal_compact_def journal_stats_def recover_retained_def journal_capacity_def
      out_of_service_usable [OF assms(1)] fail_with_def)

theorem journal_out_of_service_witness:
  "fst (claim (sample_env 1) (sample_opened\<lparr>j_healthy := False\<rparr>) 1 ''worker'') = Inl ErrNotHealthy"
  using journal_out_of_service [of "sample_opened\<lparr>j_healthy := False\<rparr>"] sample_opened_healthy by simp

text \<open>
  C10. An admitted batch never takes the journal over its limits: after AppendBatch succeeds, either the
  byte counter did not grow, or it is within the configured maximum and the growth fitted into the free
  space above the configured headroom.
\<close>

theorem append_batch_within_limits:
  "case append_batch env j b as of
     (Inl _, _) \<Rightarrow> True
   | (Inr _, j') \<Rightarrow>
       j_usage j' \<le> j_usage j
       \<or> j_usage j' \<le> cfg_max_bytes (j_cfg j)
         \<and> (case env_free_space env of
              None \<Rightarrow> False
            | Some free \<Rightarrow>
                unat (cfg_min_free_bytes (j_cfg j)) + (unat (j_usage j') - unat (j_usage j)) \<le> unat free)"
  using append_batch_growth [of env j b as] unfolding growth_ok_def .

section \<open>Encodings\<close>

text \<open>
  C16. A stored record survives the disk: decoding the encoding of any well-formed record gives the record
  back, for any 32-byte digest.
\<close>

theorem stored_record_roundtrip:
  assumes "digest H" and "stored_ok r"
  shows "decode_stored H (encode_stored H r) = Some r"
  using assms by (rule digest.decode_encode_stored)

definition sample_stored :: stored_record where
  "sample_stored =
     \<lparr>sr_state = StatePending, sr_priority = 1, sr_received = sample_time 100,
      sr_claim_expiry = zero_time, sr_committed_at = zero_time, sr_attempt = 0, sr_claim_owner = [],
      sr_claim_token = [], sr_semantic = replicate 32 (CHR 0x00), sr_envelope = ''wire''\<rparr>"

theorem stored_record_roundtrip_witness:
  "decode_stored sample_digest (encode_stored sample_digest sample_stored) = Some sample_stored"
proof -
  have "t_utc zero_time"
    by (simp add: zero_time_def)
  then have "stored_ok sample_stored"
    by (simp add: stored_ok_def stored_fields_ok_def sample_stored_def priority_low_def sample_time_def
        valid_journal_time_iff nano_range_def unix_utc_def go_second_def)
  then show ?thesis
    by (rule stored_record_roundtrip [OF sample_digest_digest])
qed

text \<open>
  C17. A stored batch survives the disk, and whatever decodes is a well-formed batch: its members are
  valid, sorted and distinct, and every live identifier is a member.
\<close>

theorem stored_batch_roundtrip:
  assumes "digest H"
  shows "(batch_ok b \<longrightarrow> decode_batch H (encode_batch H b) = Some b)
    \<and> (decode_batch H data = Some b \<longrightarrow> batch_ok b)"
  using digest.decode_encode_batch [OF assms] decode_batch_ok by blast

theorem stored_batch_roundtrip_witness:
  "decode_batch sample_digest (encode_batch sample_digest
     \<lparr>sb_original = [\<lparr>bm_record_id = sample_id, bm_priority = 1,
                      bm_semantic = replicate 32 (CHR 0x00)\<rparr>], sb_live = [sample_id]\<rparr>)
   = Some \<lparr>sb_original = [\<lparr>bm_record_id = sample_id, bm_priority = 1,
                      bm_semantic = replicate 32 (CHR 0x00)\<rparr>], sb_live = [sample_id]\<rparr>"
proof -
  have "batch_ok \<lparr>sb_original = [\<lparr>bm_record_id = sample_id, bm_priority = 1,
      bm_semantic = replicate 32 (CHR 0x00)\<rparr>], sb_live = [sample_id]\<rparr>"
    by (simp add: batch_ok_def member_ok_def valid_record_id_def sample_id_def priority_low_def
        max_append_records_def batch_original_ids_def is_lower_hex_def list_all_iff)
  then show ?thesis
    using stored_batch_roundtrip [OF sample_digest_digest] by blast
qed

text \<open>
  C18. A quarantine tombstone survives the disk in the current and in the legacy format, and the decoder
  tells the two apart: a legacy tombstone comes back marked as such, with no replay identity.
\<close>

theorem quarantine_roundtrip:
  assumes "digest H" and "quarantine_ok q"
  shows "decode_quarantine H
      (encode_quarantine H (qm_record_id q) (qm_reason q) (qm_at q) (qm_attempt q) (qm_semantic q)
        (qm_priority q)) = Some (q\<lparr>qm_legacy := False\<rparr>)
    \<and> decode_quarantine H
      (encode_legacy_quarantine H (qm_record_id q) (qm_reason q) (qm_at q) (qm_attempt q)) =
        Some (q\<lparr>qm_semantic := replicate 32 (byte 0), qm_priority := 0, qm_legacy := True\<rparr>)"
  using assms digest.decode_encode_quarantine [of H "q\<lparr>qm_legacy := False\<rparr>"]
    digest.decode_encode_legacy_quarantine [of H "qm_record_id q" "qm_reason q" "qm_at q" "qm_attempt q"]
  by (cases q) (simp add: quarantine_ok_def)

definition sample_tombstone :: quarantine_metadata where
  "sample_tombstone =
     \<lparr>qm_record_id = sample_id, qm_reason = 2, qm_at = sample_time 200, qm_attempt = 1,
      qm_semantic = replicate 32 (CHR 0x00), qm_priority = 1, qm_legacy = False\<rparr>"

theorem quarantine_roundtrip_witness:
  "decode_quarantine sample_digest (encode_quarantine sample_digest sample_id 2 (sample_time 200) 1
     (replicate 32 (CHR 0x00)) 1) = Some sample_tombstone"
proof -
  have "quarantine_ok sample_tombstone"
    by (simp add: quarantine_ok_def sample_tombstone_def valid_record_id_def sample_id_def
        quarantine_first_def quarantine_last_def priority_low_def sample_time_def
        valid_journal_time_iff nano_range_def unix_utc_def go_second_def is_lower_hex_def list_all_iff)
  from quarantine_roundtrip [OF sample_digest_digest this] show ?thesis
    by (simp add: sample_tombstone_def)
qed



section \<open>Index order\<close>

text \<open>
  C19. The byte order of the pending index is the order records are claimed in: by priority, then by
  the time they were received, then by identifier.
\<close>

theorem pending_index_order:
  assumes "p < 256" and "q < 256" and "valid_journal_time a" and "valid_journal_time b"
    and "valid_record_id i" and "valid_record_id j"
  shows "pending_key p a i < pending_key q b j \<longleftrightarrow>
    p < q \<or> p = q \<and> (before a b \<or> same_instant a b \<and> i < j)"
  using assms
  by (simp add: pending_key_less valid_journal_timeD before_def same_instant_def)

theorem pending_index_order_witness:
  "pending_key 0 (sample_time 200) sample_id < pending_key 1 (sample_time 100) sample_id"
  using pending_index_order [of 0 1 "sample_time 200" "sample_time 100" sample_id sample_id]
  by (simp add: sample_time_def valid_journal_time_iff nano_range_def unix_utc_def go_second_def
      valid_record_id_def sample_id_def is_lower_hex_def list_all_iff)

end
