(* ===== verification/ModelTheorems.thy ===== *)
theory ModelTheorems
  imports ModelFacts PbCodec JournalSample
begin

text \<open>
  The properties of the canonical record: its schema version text, the nesting bound and the structural
  validation every durable boundary relies on, and its protobuf image.
\<close>

text \<open>
  C23. ParseSchemaVersion accepts exactly the texts String prints for versions whose parts fit a Go int,
  and returns that version; every other text is refused.
\<close>

theorem schema_version_parse_print:
  "parse_schema_version s = Some v \<longleftrightarrow>
     s = schema_version_string v \<and> sver_major v < 2 ^ 63 \<and> sver_minor v < 2 ^ 63"
  by (rule parse_schema_version_iff)

text \<open>
  C22. A value that passes validation is nested at most 65 deep, so every later recursion over a validated
  value is bounded.
\<close>

theorem validated_value_depth:
  assumes "validate_depth pre v 0 = []"
  shows "sv_depth v \<le> 65"
  using validate_depth_bound [OF assms] by simp

theorem validated_value_depth_witness: "sv_depth (safe_string ''boom'') \<le> 65"
proof -
  have "validate_depth [] (safe_string ''boom'') 0 = []"
    by code_simp
  then show ?thesis
    by (rule validated_value_depth)
qed

text \<open>
  C21. A record that validates carries an identifier of 64 lower-case hex characters, a region equal to
  the region that authenticated it, a batch, and set UTC event, observed and receive times.
\<close>

theorem validated_record_identity:
  assumes "validate r = []"
  shows "length (nl_record_id r) = 64 \<and> list_all is_lower_hex (nl_record_id r)
    \<and> nl_region r \<noteq> [] \<and> te_region (nl_source r) = nl_region r \<and> \<not> blank (nl_batch_id r)
    \<and> list_all (\<lambda>t. t_utc t \<and> \<not> is_zero t)
        [nl_event_time r, nl_observed_time r, te_received_at (nl_source r)]"
  using validate_record_id [OF assms] validate_region [OF assms] validate_batch_id [OF assms]
    validate_times [OF assms] by simp

theorem validated_record_identity_witness: "length (nl_record_id sample_record) = 64"
  by (rule validated_record_identity [OF sample_record_valid, THEN conjunct1])

text \<open>
  C20. Nothing is lost on the wire: the protobuf image of a record that validates and whose values are built
  the way the constructors build them converts back to exactly that record.
\<close>

theorem protobuf_record_roundtrip:
  assumes "validate r = []" and "portable_record r"
  shows "from_proto (to_proto r) = Some r"
  using assms by (rule record_roundtrip)

theorem protobuf_record_roundtrip_witness: "from_proto (to_proto sample_record) = Some sample_record"
  by (rule protobuf_record_roundtrip [OF sample_record_valid sample_record_portable])

end
