(* ===== verification/Identity.thy ===== *)
theory Identity
  imports ModelFacts Binary Sha256
begin

text \<open>
  Record identity (\<open>internal/identity\<close>), the identifier check of \<open>internal/ids\<close>, and the error
  fingerprint (\<open>internal/fingerprint\<close>). Each derives a SHA-256 digest from a canonical encoding; the
  digest function is an argument, so that the encodings, which carry the guarantees, are what is shown
  unambiguous. The UUID library is the record \<open>uuid_lib\<close> of the four calls the source makes.
\<close>

section \<open>Identifiers\<close>

record uuid_lib =
  ul_parse :: "bytes \<Rightarrow> bytes option"
  ul_string :: "bytes \<Rightarrow> bytes"
  ul_version :: "bytes \<Rightarrow> nat"
  ul_rfc4122 :: "bytes \<Rightarrow> bool"

datatype id_error = NotUuid | NotCanonical | WrongVersion | WrongVariant

definition ids_validate :: "uuid_lib \<Rightarrow> bytes \<Rightarrow> id_error + unit" where
  "ids_validate u s =
     (case ul_parse u s of None \<Rightarrow> Inl NotUuid
      | Some i \<Rightarrow>
          if ul_string u i \<noteq> s then Inl NotCanonical
          else if ul_version u i \<noteq> 7 then Inl WrongVersion
          else if \<not> ul_rfc4122 u i then Inl WrongVariant
          else Inr ())"

section \<open>Native identities\<close>

datatype identity_error =
    SourceInstanceRequired
  | ErrInvalidRecordUID
  | ErrIncompleteLocator bytes
  | ErrInvalidDerivedInput

definition otlp_preimage :: "bytes \<Rightarrow> bytes \<Rightarrow> bytes" where
  "otlp_preimage source_instance record_uid = ''otlp:v1'' @ source_instance @ record_uid"

definition otlp_v1 ::
    "(bytes \<Rightarrow> bytes) \<Rightarrow> uuid_lib \<Rightarrow> bytes \<Rightarrow> bytes \<Rightarrow> identity_error + bytes" where
  "otlp_v1 H u source_instance record_uid =
     (if blank source_instance then Inl SourceInstanceRequired
      else if isl (ids_validate u record_uid) then Inl ErrInvalidRecordUID
      else Inr (fmt_hex (H (otlp_preimage source_instance record_uid))))"

record cloudwatch_locator =
  cl_account :: bytes
  cl_region :: bytes
  cl_log_group :: bytes
  cl_log_stream :: bytes
  cl_event_id :: bytes

definition locator_components :: "cloudwatch_locator \<Rightarrow> (bytes \<times> bytes) list" where
  "locator_components l =
     [(''account'', cl_account l), (''region'', cl_region l), (''log group'', cl_log_group l),
      (''log stream'', cl_log_stream l), (''event id'', cl_event_id l)]"

text \<open>\<open>binary.BigEndian.PutUint32(length, uint32(len(s)))\<close> followed by the text.\<close>

definition delimited :: "bytes \<Rightarrow> bytes" where
  "delimited s = be 4 (length s) @ s"

fun write_components :: "bytes \<Rightarrow> (bytes \<times> bytes) list \<Rightarrow> identity_error + bytes" where
  "write_components written [] = Inr written"
| "write_components written ((name, v) # cs) =
     (if blank v then Inl (ErrIncompleteLocator name)
      else write_components (written @ delimited v) cs)"

definition cloudwatch_v1 :: "(bytes \<Rightarrow> bytes) \<Rightarrow> cloudwatch_locator \<Rightarrow> identity_error + bytes" where
  "cloudwatch_v1 H l =
     bind_err (write_components ''cw:v1'' (locator_components l)) (\<lambda>written. Inr (fmt_hex (H written)))"

section \<open>The derived identity\<close>

definition valid_safe_map :: "(bytes \<times> safe_value) list option \<Rightarrow> bool" where
  "valid_safe_map m \<longleftrightarrow> list_all (\<lambda>(k, v). \<not> blank k \<and> validate_value [] v = []) (opt_list m)"

definition enc_length :: "nat \<Rightarrow> bytes" where
  "enc_length n = be 8 n"

definition enc_string :: "bytes \<Rightarrow> bytes" where
  "enc_string s = enc_length (length s) @ s"

definition enc_signed :: "64 word \<Rightarrow> bytes" where
  "enc_signed w = be 8 (unat w)"

definition enc_timestamp :: "gtime \<Rightarrow> bytes" where
  "enc_timestamp t = enc_signed (unix_nano t)"

text \<open>\<open>stringsAsSet\<close>: the in-place loop that keeps the first of each run of equal strings.\<close>

fun unique_runs :: "bytes list \<Rightarrow> bytes list \<Rightarrow> bytes list" where
  "unique_runs [] unique = unique"
| "unique_runs (v # vs) unique =
     unique_runs vs (if unique = [] \<or> last unique \<noteq> v then unique @ [v] else unique)"

definition enc_strings_as_set :: "bytes list \<Rightarrow> bytes" where
  "enc_strings_as_set values =
     (let unique = unique_runs (sort values) []
      in enc_length (length unique) @ concat (map enc_string unique))"

fun enc_value :: "safe_value \<Rightarrow> bytes"
  and enc_entries :: "(bytes \<times> safe_value) list \<Rightarrow> bytes"
  and enc_children :: "safe_value list \<Rightarrow> bytes" where
  "enc_value (SafeValue kind s i d b m sl w) =
     enc_string kind
     @ (if kind = safe_kind_empty then []
        else if kind = safe_kind_string then enc_string s
        else if kind = safe_kind_int then enc_signed i
        else if kind = safe_kind_double then be 8 (unat d)
        else if kind = safe_kind_bool then (if b then [byte 1] else [byte 0])
        else if kind = safe_kind_map then
          (case m of None \<Rightarrow> enc_length 0 | Some es \<Rightarrow> enc_length (length es) @ enc_entries es)
        else if kind = safe_kind_slice then
          (case sl of None \<Rightarrow> enc_length 0 | Some vs \<Rightarrow> enc_length (length vs) @ enc_children vs)
        else if kind = safe_kind_withheld then enc_string w
        else [])"
| "enc_entries [] = []"
| "enc_entries ((k, v) # es) = enc_string k @ enc_value v @ enc_entries es"
| "enc_children [] = []"
| "enc_children (v # vs) = enc_value v @ enc_children vs"

definition enc_map :: "(bytes \<times> safe_value) list option \<Rightarrow> bytes" where
  "enc_map m = enc_length (length (opt_list m)) @ enc_entries (opt_list m)"

definition derived_preimage :: "normalized_log \<Rightarrow> bytes" where
  "derived_preimage r =
     (let src = nl_source r; svc = nl_service r in
      ''derived:v1''
      @ enc_string (te_source_type src)
      @ enc_string (te_source_account src)
      @ enc_string (te_region src)
      @ enc_strings_as_set (te_allowed_environments src)
      @ enc_strings_as_set (te_allowed_services src)
      @ enc_string (te_source_instance src)
      @ enc_string (te_credential_identity src)
      @ enc_string (si_name svc)
      @ enc_string (si_namespace svc)
      @ enc_string (si_instance_id svc)
      @ enc_string (si_environment svc)
      @ enc_timestamp (nl_event_time r)
      @ enc_timestamp (nl_observed_time r)
      @ enc_signed (scast (nl_severity_number r))
      @ enc_string (ci_trace_id (nl_correlation r))
      @ enc_string (ci_span_id (nl_correlation r))
      @ enc_value (nl_body r)
      @ enc_string (nl_event_name r)
      @ enc_map (nl_attributes r)
      @ enc_map (nl_resource_attributes r)
      @ enc_map (nl_scope_attributes r))"

definition derived_v1 :: "(bytes \<Rightarrow> bytes) \<Rightarrow> normalized_log \<Rightarrow> identity_error + bytes" where
  "derived_v1 H r =
     (if validate_envelope [] (nl_source r) \<noteq> []
         \<or> (is_zero (nl_event_time r) \<and> is_zero (nl_observed_time r))
         \<or> (sv_is_zero (nl_body r) \<and> nl_event_name r = [])
         \<or> validate_value [] (nl_body r) \<noteq> []
         \<or> \<not> valid_safe_map (nl_attributes r)
         \<or> \<not> valid_safe_map (nl_resource_attributes r)
         \<or> \<not> valid_safe_map (nl_scope_attributes r)
      then Inl ErrInvalidDerivedInput
      else Inr (fmt_hex (H (derived_preimage r))))"

section \<open>The error fingerprint\<close>

record part =
  pt_field :: bytes
  pt_value :: bytes

record fingerprint =
  fp_version :: bytes
  fp_digest :: bytes
  fp_parts :: "part list"

datatype fingerprint_error = FpInvalidLog "violation list" | FpServiceRequired

definition error_v1 :: bytes where "error_v1 = ''error:v1''"

definition explanation :: "fingerprint \<Rightarrow> bytes" where
  "explanation r = join_strings ''; '' (map (\<lambda>p. pt_field p @ ''='' @ pt_value p) (fp_parts r))"

definition add_part :: "bytes \<Rightarrow> bytes \<Rightarrow> part list" where
  "add_part field v = (if blank v then [] else [\<lparr>pt_field = field, pt_value = v\<rparr>])"

definition format_int :: "64 word \<Rightarrow> bytes" where
  "format_int w = (let n = sint w in if n < 0 then CHR ''-'' # dec (nat (- n)) else dec (nat n))"

text \<open>\<open>record.Attributes[key]\<close> followed by \<open>scalar\<close>: an absent key yields the zero value.\<close>

definition scalar :: "safe_value \<Rightarrow> bytes option" where
  "scalar v =
     (if sv_kind v = safe_kind_string then Some (sv_string v)
      else if sv_kind v = safe_kind_int then Some (format_int (sv_int v))
      else None)"

definition scalar_attribute :: "normalized_log \<Rightarrow> bytes \<Rightarrow> bytes option" where
  "scalar_attribute r key =
     (case map_of (opt_list (nl_attributes r)) key of None \<Rightarrow> scalar safe_empty | Some v \<Rightarrow> scalar v)"

text \<open>
  \<open>(?::\d+)+$\<close>: \<open>line_suffix s\<close> says that all of \<open>s\<close> is one or more groups of a colon and digits;
  the leftmost such suffix is removed.
\<close>

fun line_groups :: "bytes \<Rightarrow> bool \<Rightarrow> bool" where
  "line_groups [] in_digits = in_digits"
| "line_groups (c # s) in_digits =
     (if is_digit c then line_groups s True
      else c = CHR '':'' \<and> in_digits \<and> line_groups s False)"

definition line_suffix :: "bytes \<Rightarrow> bool" where
  "line_suffix s = (case s of [] \<Rightarrow> False | c # t \<Rightarrow> c = CHR '':'' \<and> line_groups t False)"

fun without_line_number :: "bytes \<Rightarrow> bytes" where
  "without_line_number [] = []"
| "without_line_number (c # s) =
     (if line_suffix (c # s) then [] else c # without_line_number s)"

fun frame_parts :: "stack_frame list \<Rightarrow> part list" where
  "frame_parts [] = []"
| "frame_parts (f # fs) =
     (if \<not> sf_in_application f then []
      else add_part ''application_frame.function'' (sf_function f)
           @ add_part ''application_frame.module'' (sf_module f)
           @ add_part ''application_frame.file'' (without_line_number (sf_file f)))
     @ frame_parts fs"

definition exception_parts :: "normalized_exception option \<Rightarrow> part list" where
  "exception_parts ex =
     (case ex of
        None \<Rightarrow> []
      | Some x \<Rightarrow>
          add_part ''exception.type'' (ne_type x)
          @ add_part ''exception.message_template'' (ne_safe_message x)
          @ frame_parts (ne_stack_frames x))"

definition operation_keys :: "bytes list" where
  "operation_keys = [''http.route'', ''rpc.method'', ''db.operation.name'', ''code.function'']"

fun operation_parts :: "normalized_log \<Rightarrow> bytes list \<Rightarrow> part list" where
  "operation_parts r [] = []"
| "operation_parts r (key # ks) =
     (case scalar_attribute r key of
        None \<Rightarrow> operation_parts r ks
      | Some op \<Rightarrow> add_part (''operation.'' @ key) op)"

definition fingerprint_parts :: "normalized_log \<Rightarrow> part list" where
  "fingerprint_parts r =
     [\<lparr>pt_field = ''service.name'', pt_value = si_name (nl_service r)\<rparr>]
     @ add_part ''service.environment'' (si_environment (nl_service r))
     @ (case scalar_attribute r ''error.code'' of None \<Rightarrow> [] | Some code \<Rightarrow> add_part ''error.code'' code)
     @ exception_parts (nl_exception r)
     @ (if sv_kind (nl_body r) = safe_kind_string
        then add_part ''body.message_template'' (sv_string (nl_body r))
        else add_part ''event.name'' (nl_event_name r))
     @ operation_parts r operation_keys"

definition part_preimage :: "part \<Rightarrow> bytes" where
  "part_preimage p = delimited (pt_field p) @ delimited (pt_value p)"

definition fingerprint_preimage :: "part list \<Rightarrow> bytes" where
  "fingerprint_preimage ps = delimited error_v1 @ concat (map part_preimage ps)"

definition fingerprint_of :: "(bytes \<Rightarrow> bytes) \<Rightarrow> normalized_log \<Rightarrow> fingerprint_error + fingerprint" where
  "fingerprint_of H r =
     (if validate r \<noteq> [] then Inl (FpInvalidLog (validate r))
      else if blank (si_name (nl_service r)) then Inl FpServiceRequired
      else
        (let parts = fingerprint_parts r
         in Inr \<lparr>fp_version = error_v1, fp_digest = fmt_hex (H (fingerprint_preimage parts)),
                 fp_parts = parts\<rparr>))"

section \<open>The encodings are unambiguous\<close>

text \<open>A length prefix makes an encoding self-delimiting, so concatenations can be split one way only.\<close>

lemma delimited_split:
  assumes "length a < 2 ^ 32" and "length b < 2 ^ 32"
  shows "delimited a @ x = delimited b @ y \<longleftrightarrow> a = b \<and> x = y"
proof
  assume e: "delimited a @ x = delimited b @ y"
  then have "be 4 (length a) = be 4 (length b)" and r: "a @ x = b @ y"
    by (auto simp: delimited_def append_eq_append_conv)
  then have "length a = length b"
    using assms by (simp add: be_inject)
  with r show "a = b \<and> x = y"
    by simp
qed simp

lemma components_written:
  "write_components w cs = Inr out \<longleftrightarrow>
     list_all (\<lambda>(n, v). \<not> blank v) cs \<and> out = w @ concat (map (\<lambda>(n, v). delimited v) cs)"
  by (induction w cs rule: write_components.induct) auto

definition locator_fits :: "cloudwatch_locator \<Rightarrow> bool" where
  "locator_fits l \<longleftrightarrow> list_all (\<lambda>(n, v). length v < 2 ^ 32) (locator_components l)"

lemma components_inject:
  assumes "length as = length bs"
    and "list_all (\<lambda>v. length v < 2 ^ 32) as" and "list_all (\<lambda>v. length v < 2 ^ 32) bs"
    and "concat (map delimited as) = concat (map delimited bs)"
  shows "as = bs"
  using assms by (induction as bs rule: list_induct2) (simp_all add: delimited_split)

lemma locator_values:
  "concat (map (\<lambda>(n, v). delimited v) cs) = concat (map delimited (map snd cs))"
  by (simp add: comp_def case_prod_unfold)

lemma cloudwatch_preimage_inject:
  assumes "locator_fits a" and "locator_fits b"
    and "write_components w (locator_components a) = Inr p"
    and "write_components w (locator_components b) = Inr p"
  shows "a = b"
proof -
  have "map snd (locator_components a) = map snd (locator_components b)"
  proof (rule components_inject)
    have "p = w @ concat (map delimited (map snd (locator_components a)))"
      "p = w @ concat (map delimited (map snd (locator_components b)))"
      using assms(3,4) by (simp_all only: components_written locator_values)
    then show "concat (map delimited (map snd (locator_components a)))
        = concat (map delimited (map snd (locator_components b)))"
      by simp
  qed (use assms(1,2) in \<open>simp_all add: locator_fits_def locator_components_def\<close>)
  then show ?thesis
    by (cases a, cases b) (simp add: locator_components_def)
qed

definition part_fits :: "part \<Rightarrow> bool" where
  "part_fits p \<longleftrightarrow> length (pt_field p) < 2 ^ 32 \<and> length (pt_value p) < 2 ^ 32"

lemma delimited_not_Nil [simp]: "delimited s \<noteq> []"
  using length_be [of 4 "length s"] by (auto simp: delimited_def simp del: length_be)

lemma part_preimage_split:
  assumes "part_fits p" and "part_fits q"
  shows "part_preimage p @ x = part_preimage q @ y \<longleftrightarrow> p = q \<and> x = y"
  using assms by (cases p, cases q) (auto simp: part_preimage_def part_fits_def delimited_split)

lemma part_preimage_not_Nil [simp]: "part_preimage p \<noteq> []"
  by (simp add: part_preimage_def)

lemma parts_preimage_inject:
  "list_all part_fits ps \<Longrightarrow> list_all part_fits qs \<Longrightarrow>
   concat (map part_preimage ps) = concat (map part_preimage qs) \<Longrightarrow> ps = qs"
proof (induction ps arbitrary: qs)
  case Nil
  then show ?case
    by (cases qs) simp_all
next
  case (Cons p ps)
  from Cons.prems(3) obtain q qs' where q: "qs = q # qs'"
    by (cases qs) simp_all
  with Cons.prems have "p = q" and "concat (map part_preimage ps) = concat (map part_preimage qs')"
    by (simp_all add: part_preimage_split)
  with Cons.IH [of qs'] Cons.prems(1,2) q show ?case
    by simp
qed

lemma fingerprint_preimage_inject:
  "list_all part_fits ps \<Longrightarrow> list_all part_fits qs \<Longrightarrow>
   fingerprint_preimage ps = fingerprint_preimage qs \<Longrightarrow> ps = qs"
  by (simp add: fingerprint_preimage_def parts_preimage_inject)

lemma otlp_preimage_inject:
  "length u = length v \<Longrightarrow> otlp_preimage i u = otlp_preimage j v \<longleftrightarrow> i = j \<and> u = v"
  by (simp add: otlp_preimage_def)

section \<open>The shape of an identity\<close>

lemma digest_hex_shape:
  "digest H \<Longrightarrow> validate_hex_digest field (fmt_hex (H p)) 64 = []"
  by (simp add: validate_hex_digest_def digest.length_digest fmt_hex_lower_hex length_0_conv [symmetric] del: length_0_conv)

lemma cloudwatch_v1_shape:
  "digest H \<Longrightarrow> cloudwatch_v1 H l = Inr i \<Longrightarrow> validate_hex_digest field i 64 = []"
  by (auto simp: cloudwatch_v1_def digest_hex_shape)

lemma otlp_v1_shape:
  "digest H \<Longrightarrow> otlp_v1 H u s n = Inr i \<Longrightarrow> validate_hex_digest field i 64 = []"
  by (auto simp: otlp_v1_def digest_hex_shape split: if_splits)

lemma derived_v1_shape:
  "digest H \<Longrightarrow> derived_v1 H r = Inr i \<Longrightarrow> validate_hex_digest field i 64 = []"
  by (auto simp: derived_v1_def digest_hex_shape split: if_splits)

end
