(* ===== verification/IdentityTheorems.thy ===== *)
theory IdentityTheorems
  imports Identity JournalSample
begin

text \<open>
  Identities tell records apart. No digest function is injective, so the statements are disjunctions: two
  inputs with one identity are equal, or the digest function collides on two different preimages.
\<close>

lemma hex_digits_inject:
  assumes "a < 16" and "b < 16" and "hex_digits ! a = hex_digits ! b"
  shows "a = b"
proof -
  have "distinct hex_digits" "length hex_digits = 16"
    by (simp_all add: hex_digits_def)
  with assms show ?thesis
    by (simp add: nth_eq_iff_index_eq)
qed

lemma fmt_hex_inject: "fmt_hex a = fmt_hex b \<Longrightarrow> a = b"
proof (induction a arbitrary: b)
  case Nil
  then show ?case
    by (cases b) simp_all
next
  case (Cons c a)
  then obtain d b' where b: "b = d # b'"
    by (cases b) simp_all
  have "ord_byte c div 16 = ord_byte d div 16" "ord_byte c mod 16 = ord_byte d mod 16"
    using Cons.prems by (auto simp: b less_mult_imp_div_less intro: hex_digits_inject)
  then have "ord_byte c = ord_byte d"
    by (metis mult_div_mod_eq)
  with Cons show ?case
    by (simp add: b)
qed

definition collides :: "(bytes \<Rightarrow> bytes) \<Rightarrow> bool" where
  "collides H \<longleftrightarrow> (\<exists>p q. p \<noteq> q \<and> H p = H q)"

lemma digest_inject: "fmt_hex (H p) = fmt_hex (H q) \<Longrightarrow> p = q \<or> collides H"
  using fmt_hex_inject unfolding collides_def by blast

text \<open>
  C30. Two CloudWatch events have the same identity only when their account, region, group, stream and
  event id agree, unless the digest function collides: the length prefixes keep text from moving between
  the fields.
\<close>

theorem cloudwatch_identity_separates:
  assumes "cloudwatch_v1 H a = Inr i" and "cloudwatch_v1 H b = Inr i"
    and "locator_fits a" and "locator_fits b"
  shows "a = b \<or> collides H"
proof -
  obtain p q where p: "write_components ''cw:v1'' (locator_components a) = Inr p" "i = fmt_hex (H p)"
    and q: "write_components ''cw:v1'' (locator_components b) = Inr q" "i = fmt_hex (H q)"
    using assms(1,2) by (auto simp: cloudwatch_v1_def bind_err_def split: sum.splits)
  have "p = q \<or> collides H"
    using p(2) q(2) by (intro digest_inject) simp
  with cloudwatch_preimage_inject [OF assms(3,4) p(1)] q(1) show ?thesis
    by blast
qed

definition sample_locator :: cloudwatch_locator where
  "sample_locator = \<lparr>cl_account = ''1'', cl_region = ''r'', cl_log_group = ''g'', cl_log_stream = ''s'', cl_event_id = ''e''\<rparr>"

theorem cloudwatch_identity_separates_witness:
  "\<exists>i. cloudwatch_v1 (\<lambda>p. p) sample_locator = Inr i
     \<and> (\<forall>b. locator_fits b \<longrightarrow> cloudwatch_v1 (\<lambda>p. p) b = Inr i \<longrightarrow> b = sample_locator)"
proof -
  have "\<not> isl (cloudwatch_v1 (\<lambda>p. p) sample_locator)"
    by code_simp
  have f: "locator_fits sample_locator"
    by (simp add: locator_fits_def locator_components_def sample_locator_def)
  from \<open>\<not> isl (cloudwatch_v1 (\<lambda>p. p) sample_locator)\<close>
  obtain i where i: "cloudwatch_v1 (\<lambda>p. p) sample_locator = Inr i"
    by (cases "cloudwatch_v1 (\<lambda>p. p) sample_locator") auto
  have "\<not> collides (\<lambda>p. p)"
    by (simp add: collides_def)
  with cloudwatch_identity_separates [OF _ i _ f] i show ?thesis
    by blast
qed

text \<open>
  C31. Two records have the same error fingerprint only when the fingerprint components extracted from
  them agree, unless the digest function collides; the components are those the result explains itself with.
\<close>

theorem fingerprint_separates:
  assumes "fingerprint_of H r = Inr x" and "fingerprint_of H s = Inr y" and "fp_digest x = fp_digest y"
    and "list_all part_fits (fp_parts x)" and "list_all part_fits (fp_parts y)"
  shows "(fp_parts x = fp_parts y \<or> collides H) \<and> fp_parts x = fingerprint_parts r"
proof -
  have x: "x = \<lparr>fp_version = error_v1, fp_digest = fmt_hex (H (fingerprint_preimage (fingerprint_parts r))),
      fp_parts = fingerprint_parts r\<rparr>"
    "y = \<lparr>fp_version = error_v1, fp_digest = fmt_hex (H (fingerprint_preimage (fingerprint_parts s))),
      fp_parts = fingerprint_parts s\<rparr>"
    using assms(1,2) by (auto simp: fingerprint_of_def Let_def split: if_splits)
  with assms(3) have "fingerprint_preimage (fp_parts x) = fingerprint_preimage (fp_parts y) \<or> collides H"
    by (intro digest_inject) simp
  with fingerprint_preimage_inject [OF assms(4,5)] x show ?thesis
    by auto
qed

theorem fingerprint_separates_witness:
  "\<exists>x. fingerprint_of sample_digest sample_record = Inr x \<and> fp_parts x = fingerprint_parts sample_record"
proof -
  have "\<not> isl (fingerprint_of sample_digest sample_record)"
    by code_simp
  then obtain x where x: "fingerprint_of sample_digest sample_record = Inr x"
    by (cases "fingerprint_of sample_digest sample_record") auto
  have "list_all (\<lambda>p. length (pt_field p) < 100 \<and> length (pt_value p) < 100) (fingerprint_parts sample_record)"
    by code_simp
  then have "list_all part_fits (fingerprint_parts sample_record)"
    by (rule list.pred_mono_strong) (simp add: part_fits_def)
  then have "list_all part_fits (fp_parts x)"
    using x by (auto simp: fingerprint_of_def Let_def split: if_splits)
  from fingerprint_separates [OF x x refl this this] x show ?thesis
    by blast
qed

end
