(* ===== verification/Search.thy ===== *)
theory Search
  imports Main
begin

text \<open>
  Binary search as the program uses it: Go's \<open>sort.Search(n, f)\<close> halves the interval until it finds the
  least index at which \<open>f\<close> holds, for an \<open>f\<close> that stays true once it is. The lemmas reduce a search
  over a list to the length of its longest prefix on which the condition fails, and relate inserting at
  that index to keeping the list sorted.
\<close>

function search_loop :: "(nat \<Rightarrow> bool) \<Rightarrow> nat \<Rightarrow> nat \<Rightarrow> nat" where
  "search_loop f i j =
     (if i < j then
        (let h = (i + j) div 2
         in if \<not> f h then search_loop f (h + 1) j else search_loop f i h)
      else i)"
  by pat_completeness auto
termination
  by (relation "measure (\<lambda>(f, i, j). j - i)") auto

declare search_loop.simps [simp del]

definition sort_search :: "nat \<Rightarrow> (nat \<Rightarrow> bool) \<Rightarrow> nat" where
  "sort_search n f = search_loop f 0 n"

lemma search_loop_least:
  assumes "\<And>a b. a \<le> b \<Longrightarrow> b < n \<Longrightarrow> f a \<Longrightarrow> f b" and "i \<le> j" and "j \<le> n"
    and "\<And>k. k < i \<Longrightarrow> \<not> f k" and "j < n \<Longrightarrow> f j"
  shows "search_loop f i j \<le> n \<and> (\<forall>k < search_loop f i j. \<not> f k)
    \<and> (search_loop f i j < n \<longrightarrow> f (search_loop f i j))"
  using assms
proof (induction f i j rule: search_loop.induct)
  case (1 f i j)
  show ?case
  proof (cases "i < j")
    case False
    then have "search_loop f i j = i"
      by (simp add: search_loop.simps [of f i j])
    with False 1(4-7) show ?thesis
      by auto
  next
    case True
    define h where "h = (i + j) div 2"
    have h: "i \<le> h" "h < j" "h < n"
      using True 1(5) by (auto simp: h_def)
    show ?thesis
    proof (cases "f h")
      case t: True
      then have "search_loop f i j = search_loop f i h"
        using True by (simp add: search_loop.simps [of f i j] h_def)
      moreover have "h \<le> n" using h by simp
      ultimately show ?thesis
        using 1(2) [OF True h_def _ 1(3) h(1) _ 1(6)] t by simp
    next
      case f: False
      then have "search_loop f i j = search_loop f (h + 1) j"
        using True by (simp add: search_loop.simps [of f i j] h_def)
      moreover have k: "\<not> f k" if "k < h + 1" for k
        using f 1(3) [of k h] that h by auto
      moreover have "h + 1 \<le> j" using h by simp
      ultimately show ?thesis
        using 1(1) [OF True h_def f 1(3) _ 1(5) k 1(7)] by simp
    qed
  qed
qed

lemma sort_search_least:
  assumes "\<And>a b. a \<le> b \<Longrightarrow> b < n \<Longrightarrow> f a \<Longrightarrow> f b"
  shows "sort_search n f \<le> n" and "k < sort_search n f \<Longrightarrow> \<not> f k"
    and "sort_search n f < n \<Longrightarrow> f (sort_search n f)"
  using search_loop_least [of n f 0 n] assms by (auto simp: sort_search_def)

lemma sort_search_takeWhile:
  assumes "\<And>a b. a \<le> b \<Longrightarrow> b < length xs \<Longrightarrow> P (xs ! a) \<Longrightarrow> P (xs ! b)"
  shows "sort_search (length xs) (\<lambda>i. P (xs ! i)) = length (takeWhile (\<lambda>x. \<not> P x) xs)"
proof -
  define n where "n = sort_search (length xs) (\<lambda>i. P (xs ! i))"
  have n: "n \<le> length xs" "\<And>k. k < n \<Longrightarrow> \<not> P (xs ! k)" "n < length xs \<Longrightarrow> P (xs ! n)"
    unfolding n_def using sort_search_least [of "length xs" "\<lambda>i. P (xs ! i)"] assms by blast+
  have "takeWhile (\<lambda>x. \<not> P x) xs = take n xs"
    using n by (intro takeWhile_eq_take_P_nth) auto
  with n(1) show ?thesis
    by (simp add: n_def)
qed

text \<open>On a list sorted by a transitive relation along which \<open>P\<close> persists.\<close>

lemma sorted_wrt_persist:
  assumes "sorted_wrt R xs" and "\<And>x y. R x y \<Longrightarrow> P x \<Longrightarrow> P y"
    and "a \<le> b" and "b < length xs" and "P (xs ! a)"
  shows "P (xs ! b)"
proof (cases "a = b")
  case False
  with assms(3,4) have "R (xs ! a) (xs ! b)"
    by (intro sorted_wrt_nth_less [OF assms(1)]) auto
  then show ?thesis
    using assms(2,5) by blast
qed (use assms(5) in simp)

lemma search_sorted:
  assumes "sorted_wrt R xs" and "\<And>x y. R x y \<Longrightarrow> P x \<Longrightarrow> P y"
  shows "sort_search (length xs) (\<lambda>i. P (xs ! i)) = length (takeWhile (\<lambda>x. \<not> P x) xs)"
  using sorted_wrt_persist [OF assms(1), of P] assms(2) by (intro sort_search_takeWhile) blast

lemma takeWhile_sorted_filter:
  assumes "sorted_wrt R xs" and p: "\<And>x y. R x y \<Longrightarrow> P x \<Longrightarrow> P y"
  shows "takeWhile (\<lambda>x. \<not> P x) xs = filter (\<lambda>x. \<not> P x) xs
    \<and> dropWhile (\<lambda>x. \<not> P x) xs = filter P xs"
  using assms(1)
proof (induction xs)
  case (Cons x xs)
  show ?case
  proof (cases "P x")
    case True
    with Cons.prems have "\<forall>y\<in>set xs. P y"
      using p by auto
    with True show ?thesis
      by (auto intro!: filter_False [symmetric] filter_True [symmetric])
  qed (use Cons in simp)
qed simp

text \<open>\<open>append\<close>, \<open>copy\<close> and store: the source's insertion of \<open>x\<close> at an index.\<close>

definition insert_at :: "nat \<Rightarrow> 'a \<Rightarrow> 'a list \<Rightarrow> 'a list" where
  "insert_at i x xs = take i xs @ [x] @ drop i xs"

lemma set_insert_at [simp]: "set (insert_at i x xs) = insert x (set xs)"
  unfolding insert_at_def
  by (subst append_take_drop_id [of i xs, symmetric]) (simp only: set_append, auto)

lemma length_insert_at [simp]: "i \<le> length xs \<Longrightarrow> length (insert_at i x xs) = Suc (length xs)"
  by (simp add: insert_at_def)

lemma insert_at_takeWhile:
  "insert_at (length (takeWhile Q xs)) x xs = takeWhile Q xs @ [x] @ dropWhile Q xs"
  by (simp add: insert_at_def flip: takeWhile_eq_take dropWhile_eq_drop)

lemma insert_at_search:
  assumes "sorted_wrt R xs" and "\<And>x y. R x y \<Longrightarrow> P x \<Longrightarrow> P y"
  shows "insert_at (sort_search (length xs) (\<lambda>i. P (xs ! i))) x xs
    = filter (\<lambda>y. \<not> P y) xs @ [x] @ filter P xs"
proof -
  have "sort_search (length xs) (\<lambda>i. P (xs ! i)) = length (takeWhile (\<lambda>x. \<not> P x) xs)"
    using assms by (rule search_sorted)
  moreover have "takeWhile (\<lambda>x. \<not> P x) xs = filter (\<lambda>x. \<not> P x) xs
      \<and> dropWhile (\<lambda>x. \<not> P x) xs = filter P xs"
    using assms by (rule takeWhile_sorted_filter)
  ultimately show ?thesis
    using insert_at_takeWhile [of "\<lambda>x. \<not> P x" xs x] by simp
qed

lemma sorted_insert_at:
  assumes "sorted_wrt R xs" and "\<And>x y. R x y \<Longrightarrow> P x \<Longrightarrow> P y"
    and "\<And>y. y \<in> set xs \<Longrightarrow> \<not> P y \<Longrightarrow> R y x" and "\<And>y. y \<in> set xs \<Longrightarrow> P y \<Longrightarrow> R x y"
  shows "sorted_wrt R (insert_at (sort_search (length xs) (\<lambda>i. P (xs ! i))) x xs)"
proof -
  have "takeWhile (\<lambda>x. \<not> P x) xs = filter (\<lambda>x. \<not> P x) xs
      \<and> dropWhile (\<lambda>x. \<not> P x) xs = filter P xs"
    using assms(1,2) by (rule takeWhile_sorted_filter)
  then have "sorted_wrt R (filter (\<lambda>y. \<not> P y) xs @ filter P xs)"
    using assms(1) takeWhile_dropWhile_id [of "\<lambda>x. \<not> P x" xs] by simp
  moreover have "insert_at (sort_search (length xs) (\<lambda>i. P (xs ! i))) x xs
      = filter (\<lambda>y. \<not> P y) xs @ [x] @ filter P xs"
    using assms(1,2) by (rule insert_at_search)
  ultimately show ?thesis
    using assms(3,4) by (simp add: sorted_wrt_append)
qed

end
