(* ===== verification/Incident.thy ===== *)
theory Incident
  imports Identity Search KvStore "HOL-Library.Product_Lexorder"
begin

text \<open>
  The incident engine (\<open>internal/incident/incident.go\<close>): records of one error family are folded into
  episodes (generations) of one deployment each, late records become evidence, and a cluster of enough
  eligible errors requests an investigation once the family's frontier has passed it.

  A Go map is an ordered association list (\<open>kv\<close>); the source's loops over maps do not depend on their
  order. A pointer to a generation is its index in the family's list, so \<open>currentGeneration\<close> is an
  index too. The engine's mutex makes every exported method one step. Counters are Go ints counting
  objects held in memory and are modelled as unbounded integers.
\<close>

section \<open>Constants and identities\<close>

definition default_investigation_threshold :: nat where "default_investigation_threshold = 5"
definition default_investigation_window :: int where "default_investigation_window = 5 * go_minute"
definition default_allowed_lateness :: int where "default_allowed_lateness = 2 * go_minute"
definition default_quiet_period :: int where "default_quiet_period = 15 * go_minute"
definition default_reopen_window :: int where "default_reopen_window = 2 * go_hour"
definition default_state_retention :: int where
  "default_state_retention =
     default_investigation_window + default_allowed_lateness + default_reopen_window"
definition default_reinvestigation_interval :: int where
  "default_reinvestigation_interval = 24 * go_hour"

lemmas incident_limits = default_investigation_window_def default_allowed_lateness_def
  default_quiet_period_def default_reopen_window_def default_state_retention_def
  default_reinvestigation_interval_def duration_defs

definition detection_active :: bytes where "detection_active = ''active''"
definition detection_quiet :: bytes where "detection_quiet = ''quiet''"

lemma detection_neq [simp]: "detection_active \<noteq> detection_quiet" "detection_quiet \<noteq> detection_active"
  by (simp_all add: detection_active_def detection_quiet_def)

definition deployment_of :: "normalized_log \<Rightarrow> bytes" where
  "deployment_of r =
     (if blank (di_id (nl_deployment r)) then unknown_deployment else di_id (nl_deployment r))"

definition bounded_activity :: "normalized_log \<Rightarrow> gtime" where
  "bounded_activity r =
     (if after (nl_event_time r) (nl_observed_time r) then nl_observed_time r else nl_event_time r)"

definition investigation_eligible :: "normalized_log \<Rightarrow> bool" where
  "investigation_eligible r \<longleftrightarrow>
     nl_severity_class r = severity_class_error
     \<and> si_status (nl_service r) = enrichment_available
     \<and> \<not> blank (si_name (nl_service r)) \<and> \<not> blank (si_environment (nl_service r))"

definition sorts_before :: "normalized_log \<Rightarrow> normalized_log \<Rightarrow> bool" where
  "sorts_before l r \<longleftrightarrow>
     (if \<not> same_instant (nl_event_time l) (nl_event_time r)
      then before (nl_event_time l) (nl_event_time r)
      else if deployment_of l \<noteq> deployment_of r then deployment_of l < deployment_of r
      else nl_record_id l < nl_record_id r)"

definition incident_preimage :: "normalized_log \<Rightarrow> fingerprint \<Rightarrow> bytes" where
  "incident_preimage r fp =
     join_strings [byte 0]
       [''incident:v1'', te_source_account (nl_source r), nl_region r, si_name (nl_service r),
        si_environment (nl_service r), fp_version fp, fp_digest fp]"

definition incident_id :: "(bytes \<Rightarrow> bytes) \<Rightarrow> normalized_log \<Rightarrow> fingerprint \<Rightarrow> bytes" where
  "incident_id H r fp = fmt_hex (H (incident_preimage r fp))"

definition deterministic_id :: "(bytes \<Rightarrow> bytes) \<Rightarrow> normalized_log \<Rightarrow> fingerprint_error + bytes" where
  "deterministic_id H r = bind_err (fingerprint_of H r) (\<lambda>result. Inr (incident_id H r result))"

definition generation_key :: "(bytes \<Rightarrow> bytes) \<Rightarrow> bytes \<Rightarrow> gtime \<Rightarrow> 64 word option" where
  "generation_key H deployment episode_start =
     (if blank deployment \<or> is_zero episode_start \<or> \<not> t_utc episode_start then None
      else
        (let hash = H (delimited deployment @ be 8 (unat (unix_nano episode_start)));
             key = word_of_nat (unbe (take 8 hash)) AND mask 63
         in Some (if key = 0 then 1 else key)))"

definition in_half_open_window :: "gtime \<Rightarrow> gtime \<Rightarrow> int \<Rightarrow> bool" where
  "in_half_open_window event watermark duration \<longleftrightarrow>
     (if duration \<le> 0 \<or> after event watermark then False
      else after event (add_time watermark (- duration)))"

definition strict_successor :: "gtime \<Rightarrow> gtime" where
  "strict_successor t = (let s = add_time t 1 in if after s t then s else t)"

section \<open>State\<close>

type_synonym record_map = "(bytes, normalized_log) kv"

record record_location =
  lo_incident :: bytes
  lo_generation :: int
  lo_late :: bool
  lo_evidence :: bool

record evidence_record =
  ev_record :: normalized_log
  ev_attach :: bool
  ev_late :: bool

record generation =
  ge_number :: int
  ge_deployment :: bytes
  ge_status :: bytes
  ge_first :: gtime
  ge_latest :: gtime
  ge_last_activity :: gtime
  ge_max_event :: gtime
  ge_records :: record_map
  ge_evidence :: record_map
  ge_times :: "gtime list"
  ge_evidence_times :: "gtime list"
  ge_eligible :: "gtime list"
  ge_satisfied_at :: gtime

record family =
  fa_id :: bytes
  fa_events :: record_map
  fa_evidence :: "(bytes, evidence_record) kv"
  fa_ordered :: "normalized_log list"
  fa_generations :: "generation list"
  fa_current :: "nat option"
  fa_active :: bool
  fa_context :: int
  fa_max_event :: gtime
  fa_watermark :: gtime
  fa_finalized :: gtime
  fa_advanced :: gtime
  fa_last_activity :: gtime
  fa_pruned :: int

type_synonym seen_map = "(bytes, record_location) kv"

record engine =
  en_families :: "(bytes, family) kv"
  en_seen :: seen_map
  en_pruned_seen :: int
  en_pinned :: "bytes list"

definition new_engine :: engine where
  "new_engine = \<lparr>en_families = [], en_seen = [], en_pruned_seen = 0, en_pinned = []\<rparr>"

text \<open>\<open>Pin\<close> replaces the set of exempt identities.\<close>

definition pin :: "engine \<Rightarrow> bytes list \<Rightarrow> engine" where
  "pin e record_ids = e\<lparr>en_pinned := record_ids\<rparr>"

definition is_pinned :: "engine \<Rightarrow> bytes \<Rightarrow> bool" where
  "is_pinned e record_id \<longleftrightarrow> record_id \<in> set (en_pinned e)"

definition new_generation :: "int \<Rightarrow> bytes \<Rightarrow> generation" where
  "new_generation number deployment =
     \<lparr>ge_number = number, ge_deployment = deployment, ge_status = detection_active,
      ge_first = zero_time, ge_latest = zero_time, ge_last_activity = zero_time,
      ge_max_event = zero_time, ge_records = [], ge_evidence = [], ge_times = [],
      ge_evidence_times = [], ge_eligible = [], ge_satisfied_at = zero_time\<rparr>"

definition new_family :: "bytes \<Rightarrow> family" where
  "new_family i =
     \<lparr>fa_id = i, fa_events = [], fa_evidence = [], fa_ordered = [], fa_generations = [],
      fa_current = None, fa_active = False, fa_context = 0, fa_max_event = zero_time,
      fa_watermark = zero_time, fa_finalized = zero_time, fa_advanced = zero_time,
      fa_last_activity = zero_time, fa_pruned = 0\<rparr>"

section \<open>One episode\<close>

definition note_eligible :: "gtime \<Rightarrow> generation \<Rightarrow> generation" where
  "note_eligible t g =
     (let eligible = ge_eligible g @ [t] in
      if is_zero (ge_satisfied_at g) then
        (let lower = add_time t (- default_investigation_window);
             earliest = sort_search (length eligible) (\<lambda>i. after (eligible ! i) lower)
         in if default_investigation_threshold \<le> length eligible - earliest
            then g\<lparr>ge_eligible := eligible, ge_satisfied_at := t\<rparr>
            else g\<lparr>ge_eligible := eligible\<rparr>)
      else g\<lparr>ge_eligible := eligible\<rparr>)"

definition earliest_of :: "gtime \<Rightarrow> gtime \<Rightarrow> gtime" where
  "earliest_of old t = (if is_zero old \<or> before t old then t else old)"

definition latest_of :: "gtime \<Rightarrow> gtime \<Rightarrow> gtime" where
  "latest_of old t = (if is_zero old \<or> after t old then t else old)"

definition add_contribution :: "generation \<Rightarrow> normalized_log \<Rightarrow> generation" where
  "add_contribution g0 r =
     (let t = nl_event_time r;
          g = g0\<lparr>ge_records := kv_put (nl_record_id r) r (ge_records g0), ge_times := ge_times g0 @ [t]\<rparr>;
          g = (if investigation_eligible r then note_eligible t g else g)
      in g\<lparr>ge_first := earliest_of (ge_first g) t, ge_latest := latest_of (ge_latest g) t,
           ge_max_event := latest_of (ge_max_event g) t,
           ge_last_activity := latest_of (ge_last_activity g) (bounded_activity r)\<rparr>)"

definition generation_satisfies_threshold :: "generation \<Rightarrow> gtime \<Rightarrow> bool" where
  "generation_satisfies_threshold g finalized \<longleftrightarrow>
     \<not> is_zero (ge_satisfied_at g) \<and> before (ge_satisfied_at g) finalized"

definition count_in_sorted_window :: "gtime list \<Rightarrow> gtime \<Rightarrow> nat" where
  "count_in_sorted_window ts watermark =
     (if is_zero watermark then 0
      else
        (let lower = add_time watermark (- default_investigation_window);
             earliest = sort_search (length ts) (\<lambda>i. after (ts ! i) lower);
             past = sort_search (length ts) (\<lambda>i. after (ts ! i) watermark)
         in if past < earliest then 0 else past - earliest))"

definition count_in_window :: "generation \<Rightarrow> gtime \<Rightarrow> nat" where
  "count_in_window g watermark =
     count_in_sorted_window (ge_times g) watermark + count_in_sorted_window (ge_evidence_times g) watermark"

definition occurrence_count :: "generation \<Rightarrow> nat" where
  "occurrence_count g = length (ge_records g) + length (ge_evidence g)"

definition insert_time :: "gtime list \<Rightarrow> gtime \<Rightarrow> gtime list" where
  "insert_time ts t = insert_at (sort_search (length ts) (\<lambda>i. after (ts ! i) t)) t ts"

definition add_evidence :: "normalized_log \<Rightarrow> generation \<Rightarrow> generation" where
  "add_evidence r g =
     g\<lparr>ge_evidence := kv_put (nl_record_id r) r (ge_evidence g),
       ge_evidence_times := insert_time (ge_evidence_times g) (nl_event_time r)\<rparr>"

definition adopt :: "generation \<Rightarrow> generation \<Rightarrow> generation" where
  "adopt g prior =
     (if \<not> is_zero (ge_first prior) \<and> (is_zero (ge_first g) \<or> before (ge_first prior) (ge_first g))
      then g\<lparr>ge_first := ge_first prior\<rparr> else g)"

definition shell_of :: "generation \<Rightarrow> generation" where
  "shell_of prior =
     (new_generation 0 (ge_deployment prior))
       \<lparr>ge_first := ge_first prior, ge_latest := ge_latest prior, ge_max_event := ge_max_event prior,
        ge_last_activity := ge_last_activity prior\<rparr>"

section \<open>The episodes of a family\<close>

definition generation_count :: "family \<Rightarrow> int" where
  "generation_count f = fa_pruned f + int (length (fa_generations f))"

definition generation_at :: "family \<Rightarrow> int \<Rightarrow> generation option" where
  "generation_at f number =
     (let index = number - 1 - fa_pruned f
      in if index < 0 \<or> int (length (fa_generations f)) \<le> index then None
         else Some (fa_generations f ! nat index))"

fun find_containing :: "generation list \<Rightarrow> bytes \<Rightarrow> generation option" where
  "find_containing [] record_id = None"
| "find_containing (g # gs) record_id =
     (if kv_get (ge_records g) record_id \<noteq> None then Some g
      else if kv_get (ge_evidence g) record_id \<noteq> None then Some g
      else find_containing gs record_id)"

definition generation_containing :: "family \<Rightarrow> bytes \<Rightarrow> generation option" where
  "generation_containing f record_id = find_containing (fa_generations f) record_id"

fun find_for_evidence :: "generation list \<Rightarrow> bytes \<Rightarrow> gtime \<Rightarrow> nat \<Rightarrow> nat option \<Rightarrow> nat option" where
  "find_for_evidence gs deployment t 0 earliest = earliest"
| "find_for_evidence gs deployment t (Suc i) earliest =
     (if ge_deployment (gs ! i) \<noteq> deployment then find_for_evidence gs deployment t i earliest
      else if \<not> before t (ge_first (gs ! i)) then Some i
      else find_for_evidence gs deployment t i (Some i))"

definition generation_for_evidence :: "generation list \<Rightarrow> normalized_log \<Rightarrow> nat option" where
  "generation_for_evidence gs r =
     find_for_evidence gs (deployment_of r) (nl_event_time r) (length gs) None"

definition topology :: "family \<Rightarrow> bytes" where
  "topology f = join_strings [byte 0] (map ge_deployment (fa_generations f))"

fun find_threshold :: "generation list \<Rightarrow> gtime \<Rightarrow> nat \<Rightarrow> nat option" where
  "find_threshold [] finalized i = None"
| "find_threshold (g # gs) finalized i =
     (if generation_satisfies_threshold g finalized then Some i else find_threshold gs finalized (Suc i))"

definition threshold_generation :: "family \<Rightarrow> nat option" where
  "threshold_generation f = find_threshold (fa_generations f) (fa_finalized f) 0"

fun refresh_list :: "gtime \<Rightarrow> generation list \<Rightarrow> generation list" where
  "refresh_list advanced [] = []"
| "refresh_list advanced (g # gs) =
     g\<lparr>ge_status :=
         if gs \<noteq> [] \<or> (\<not> is_zero advanced
              \<and> \<not> before advanced (add_time (ge_last_activity g) default_quiet_period))
         then detection_quiet else detection_active\<rparr>
     # refresh_list advanced gs"

definition refresh_statuses :: "family \<Rightarrow> family" where
  "refresh_statuses f = f\<lparr>fa_generations := refresh_list (fa_advanced f) (fa_generations f)\<rparr>"

definition finalize_through :: "gtime \<Rightarrow> family \<Rightarrow> family" where
  "finalize_through t f =
     (if is_zero (fa_finalized f) \<or> after t (fa_finalized f) then f\<lparr>fa_finalized := t\<rparr> else f)"

section \<open>Evidence\<close>

definition clear_evidence :: "generation \<Rightarrow> generation" where
  "clear_evidence g =
     (if length (ge_evidence g) \<noteq> 0 then g\<lparr>ge_evidence := [], ge_evidence_times := []\<rparr> else g)"

definition attach_one :: "generation list \<Rightarrow> normalized_log \<Rightarrow> generation list" where
  "attach_one gs r =
     (case generation_for_evidence gs r of None \<Rightarrow> gs
      | Some i \<Rightarrow> gs[i := add_evidence r (gs ! i)])"

fun attach_each :: "(bytes \<times> evidence_record) list \<Rightarrow> generation list \<Rightarrow> generation list" where
  "attach_each [] gs = gs"
| "attach_each ((k, ev) # es) gs =
     attach_each es (if \<not> ev_attach ev then gs else attach_one gs (ev_record ev))"

definition attach_retained_evidence :: "family \<Rightarrow> family" where
  "attach_retained_evidence f =
     f\<lparr>fa_generations := attach_each (fa_evidence f) (map clear_evidence (fa_generations f))\<rparr>"

definition number_of :: "generation option \<Rightarrow> int" where
  "number_of g = (case g of None \<Rightarrow> 0 | Some g \<Rightarrow> ge_number g)"

fun index_evidence_loop ::
    "family \<Rightarrow> (bytes \<times> evidence_record) list \<Rightarrow> seen_map \<Rightarrow> seen_map" where
  "index_evidence_loop f [] seen = seen"
| "index_evidence_loop f ((k, ev) # es) seen =
     index_evidence_loop f es
       (kv_put k \<lparr>lo_incident = fa_id f, lo_generation = number_of (generation_containing f k),
                  lo_late = ev_late ev, lo_evidence = True\<rparr> seen)"

definition index_evidence :: "family \<Rightarrow> seen_map \<Rightarrow> seen_map" where
  "index_evidence f seen = index_evidence_loop f (fa_evidence f) seen"

definition attach_all_evidence :: "family \<Rightarrow> seen_map \<Rightarrow> family \<times> seen_map" where
  "attach_all_evidence f seen =
     (let f = attach_retained_evidence f in (f, index_evidence f seen))"

definition attach_evidence :: "family \<Rightarrow> evidence_record \<Rightarrow> seen_map \<Rightarrow> family \<times> seen_map" where
  "attach_evidence f ev seen =
     (let r = ev_record ev;
          target = (if ev_attach ev then generation_for_evidence (fa_generations f) r else None);
          number = (case target of None \<Rightarrow> 0 | Some i \<Rightarrow> ge_number (fa_generations f ! i));
          f' = (case target of None \<Rightarrow> f
                | Some i \<Rightarrow> f\<lparr>fa_generations := (fa_generations f)[i := add_evidence r (fa_generations f ! i)]\<rparr>)
      in (f', kv_put (nl_record_id r)
                \<lparr>lo_incident = fa_id f, lo_generation = number, lo_late = ev_late ev, lo_evidence = True\<rparr>
                seen))"

end
