(* ===== verification/IncidentEngine.thy ===== *)
theory IncidentEngine
  imports Incident
begin

text \<open>
  Reconstruction of a family's episodes, compaction, and the engine's operations \<open>Observe\<close>, \<open>Advance\<close>,
  \<open>Incident\<close>, \<open>Retained\<close>, \<open>PersistenceDecision\<close> and \<open>ValidatePersistenceDecision\<close>
  (\<open>internal/incident/incident.go\<close>).
\<close>

section \<open>Folding records into episodes\<close>

text \<open>The test both \<open>extend\<close> and \<open>foldEpisodes\<close> make before folding a record: does it begin an episode?\<close>

definition opens_episode :: "generation option \<Rightarrow> normalized_log \<Rightarrow> bool" where
  "opens_episode current r \<longleftrightarrow>
     (case current of None \<Rightarrow> True
      | Some g \<Rightarrow> ge_deployment g \<noteq> deployment_of r
          \<or> \<not> before (bounded_activity r) (add_time (ge_last_activity g) default_reopen_window))"

definition last_generation :: "generation list \<Rightarrow> generation option" where
  "last_generation gs = (if gs = [] then None else Some (last gs))"

definition fold_step :: "generation list \<Rightarrow> normalized_log \<Rightarrow> generation list" where
  "fold_step gs r =
     (let gs = (if opens_episode (last_generation gs) r
                then gs @ [new_generation 0 (deployment_of r)] else gs)
      in butlast gs @ [add_contribution (last gs) r])"

fun assign_records :: "nat \<Rightarrow> (bytes \<times> normalized_log) list \<Rightarrow> (bytes, nat) kv \<Rightarrow> (bytes, nat) kv" where
  "assign_records index [] assigned = assigned"
| "assign_records index ((k, r) # es) assigned = assign_records index es (kv_put k index assigned)"

fun assign_prior :: "nat \<Rightarrow> generation list \<Rightarrow> (bytes, nat) kv \<Rightarrow> (bytes, nat) kv" where
  "assign_prior index [] assigned = assigned"
| "assign_prior index (p # ps) assigned =
     assign_prior (Suc index) ps (assign_records index (ge_records p) assigned)"

fun pick_index ::
    "(bytes, nat) kv \<Rightarrow> nat \<Rightarrow> (bytes \<times> normalized_log) list \<Rightarrow> nat option \<Rightarrow> nat option" where
  "pick_index assigned cursor [] index = index"
| "pick_index assigned cursor ((k, r) # es) index =
     pick_index assigned cursor es
       (case kv_get assigned k of None \<Rightarrow> index
        | Some at \<Rightarrow>
            if cursor \<le> at \<and> (case index of None \<Rightarrow> True | Some i \<Rightarrow> at < i) then Some at else index)"

text \<open>The folded episodes with their adopted identities, and the indexes of the assignments adopted.\<close>

fun adopt_episode_loop ::
    "generation list \<Rightarrow> (bytes, nat) kv \<Rightarrow> nat \<Rightarrow> generation list \<Rightarrow> generation list \<times> nat list" where
  "adopt_episode_loop prior assigned cursor [] = ([], [])"
| "adopt_episode_loop prior assigned cursor (g # gs) =
     (case pick_index assigned cursor (ge_records g) None of
        None \<Rightarrow> (case adopt_episode_loop prior assigned cursor gs of (gs', adopted) \<Rightarrow> (g # gs', adopted))
      | Some index \<Rightarrow>
          (case adopt_episode_loop prior assigned (index + 1) gs of
             (gs', adopted) \<Rightarrow> (adopt g (prior ! index) # gs', index # adopted)))"

definition retains_any_of :: "record_map \<Rightarrow> generation \<Rightarrow> bool" where
  "retains_any_of events g \<longleftrightarrow> list_ex (\<lambda>(k, r). kv_get events k \<noteq> None) (ge_records g)"

fun shells_loop :: "record_map \<Rightarrow> nat list \<Rightarrow> nat \<Rightarrow> generation list \<Rightarrow> generation list" where
  "shells_loop events adopted index [] = []"
| "shells_loop events adopted index (p # ps) =
     (if index \<in> set adopted \<or> retains_any_of events p then [] else [shell_of p])
     @ shells_loop events adopted (Suc index) ps"

definition adopt_assigned_identities ::
    "family \<Rightarrow> generation list \<Rightarrow> generation list \<times> generation list" where
  "adopt_assigned_identities f folded =
     (let prior = fa_generations f in
      if prior = [] then (folded, [])
      else
        (case adopt_episode_loop prior (assign_prior 0 prior []) 0 folded of
           (folded', adopted) \<Rightarrow> (folded', shells_loop (fa_events f) adopted 0 prior)))"

text \<open>\<open>sort.SliceStable\<close> by assigned start, then deployment.\<close>

definition episode_order :: "generation \<Rightarrow> int \<times> bytes" where
  "episode_order g = (t_inst (ge_first g), ge_deployment g)"

definition fold_episodes :: "family \<Rightarrow> generation list" where
  "fold_episodes f =
     (case adopt_assigned_identities f (foldl fold_step [] (fa_ordered f)) of
        (folded, shells) \<Rightarrow> sort_key episode_order (folded @ shells))"

definition is_empty_episode :: "generation \<Rightarrow> bool" where
  "is_empty_episode g \<longleftrightarrow> length (ge_records g) = 0 \<and> length (ge_evidence g) = 0"

fun count_leading_empty :: "generation list \<Rightarrow> nat" where
  "count_leading_empty [] = 0"
| "count_leading_empty (g # gs) = (if is_empty_episode g then Suc (count_leading_empty gs) else 0)"

definition release_leading_empty_episodes :: "family \<Rightarrow> family \<times> nat" where
  "release_leading_empty_episodes f =
     (let released = count_leading_empty (fa_generations f)
      in (f\<lparr>fa_generations := drop released (fa_generations f)\<rparr>, released))"

fun renumber :: "int \<Rightarrow> generation list \<Rightarrow> generation list" where
  "renumber n [] = []"
| "renumber n (g # gs) = g\<lparr>ge_number := n\<rparr> # renumber (n + 1) gs"

fun index_records ::
    "bytes \<Rightarrow> int \<Rightarrow> (bytes \<times> normalized_log) list \<Rightarrow> seen_map \<Rightarrow> seen_map" where
  "index_records i n [] seen = seen"
| "index_records i n ((k, r) # es) seen =
     index_records i n es
       (kv_put k \<lparr>lo_incident = i, lo_generation = n, lo_late = False, lo_evidence = False\<rparr> seen)"

fun index_generations :: "bytes \<Rightarrow> generation list \<Rightarrow> seen_map \<Rightarrow> seen_map" where
  "index_generations i [] seen = seen"
| "index_generations i (g # gs) seen =
     index_generations i gs (index_records i (ge_number g) (ge_records g) seen)"

definition index_locations :: "family \<Rightarrow> seen_map \<Rightarrow> seen_map" where
  "index_locations f seen = index_evidence f (index_generations (fa_id f) (fa_generations f) seen)"

definition rebuild_family :: "family \<Rightarrow> seen_map \<Rightarrow> family \<times> seen_map" where
  "rebuild_family f seen =
     (let f = f\<lparr>fa_generations := fold_episodes f\<rparr>;
          f = attach_retained_evidence f;
          (f, released) = release_leading_empty_episodes f;
          f = f\<lparr>fa_pruned := fa_pruned f + int released\<rparr>;
          f = f\<lparr>fa_generations := renumber (fa_pruned f + 1) (fa_generations f)\<rparr>;
          f = f\<lparr>fa_current := if fa_generations f = [] then None
                              else Some (length (fa_generations f) - 1)\<rparr>;
          f = refresh_statuses f
      in (f, index_locations f seen))"

definition current_generation :: "family \<Rightarrow> generation option" where
  "current_generation f = map_option (\<lambda>i. fa_generations f ! i) (fa_current f)"

definition extend_family :: "family \<Rightarrow> normalized_log \<Rightarrow> seen_map \<Rightarrow> family \<times> seen_map" where
  "extend_family f r seen =
     (let created = opens_episode (current_generation f) r;
          index = (if created then length (fa_generations f)
                   else case fa_current f of None \<Rightarrow> 0 | Some i \<Rightarrow> i);
          f = (if created
               then f\<lparr>fa_generations :=
                        fa_generations f @ [new_generation (generation_count f + 1) (deployment_of r)],
                      fa_current := Some index\<rparr>
               else f);
          f = f\<lparr>fa_generations :=
                  (fa_generations f)[index := add_contribution (fa_generations f ! index) r]\<rparr>;
          f = refresh_statuses f;
          (f, seen) = (if created then attach_all_evidence f seen else (f, seen))
      in (f, kv_put (nl_record_id r)
               \<lparr>lo_incident = fa_id f, lo_generation = ge_number (fa_generations f ! index),
                lo_late = False, lo_evidence = False\<rparr> seen))"

definition insert_ordered :: "family \<Rightarrow> normalized_log \<Rightarrow> family \<times> bool" where
  "insert_ordered f r =
     (let ordered = fa_ordered f;
          index = sort_search (length ordered) (\<lambda>i. \<not> sorts_before (ordered ! i) r);
          ordered' = insert_at index r ordered
      in (f\<lparr>fa_ordered := ordered'\<rparr>, index = length ordered' - 1))"

section \<open>Updates\<close>

record engine_update =
  up_incident_id :: bytes
  up_generation :: int
  up_generation_count :: int
  up_deployment_id :: bytes
  up_occurrence_count :: nat
  up_window_count :: nat
  up_watermark_window_count :: nat
  up_detection_status :: bytes
  up_duplicate :: bool
  up_investigation_requested :: bool
  up_active_investigation :: bool
  up_context_version :: int
  up_context_updated :: bool
  up_watermark :: gtime
  up_late :: bool
  up_evidence_only :: bool

definition make_update ::
    "family \<Rightarrow> generation option \<Rightarrow> bool \<Rightarrow> bool \<Rightarrow> bool \<Rightarrow> bool \<Rightarrow> bool \<Rightarrow> engine_update" where
  "make_update f target duplicate requested context_updated late evidence_only =
     (let u = \<lparr>up_incident_id = fa_id f, up_generation = 0,
               up_generation_count = generation_count f, up_deployment_id = [],
               up_occurrence_count = 0, up_window_count = 0, up_watermark_window_count = 0,
               up_detection_status = [], up_duplicate = duplicate,
               up_investigation_requested = requested, up_active_investigation = fa_active f,
               up_context_version = fa_context f, up_context_updated = context_updated,
               up_watermark = fa_watermark f, up_late = late, up_evidence_only = evidence_only\<rparr>
      in case target of None \<Rightarrow> u
         | Some g \<Rightarrow> u\<lparr>up_generation := ge_number g, up_deployment_id := ge_deployment g,
                       up_occurrence_count := occurrence_count g,
                       up_window_count := count_in_window g (ge_max_event g),
                       up_watermark_window_count := count_in_window g (fa_watermark f),
                       up_detection_status := ge_status g\<rparr>)"

section \<open>Observe\<close>

text \<open>
  \<open>MissingFamily\<close> is the nil dereference the duplicate path would make if a seen identity named a family
  that is gone; it is shown never to happen.
\<close>

datatype observe_error = InvalidObservation fingerprint_error | MissingFamily

definition observe_frontier :: "normalized_log \<Rightarrow> family \<Rightarrow> family" where
  "observe_frontier r f0 =
     (let f = (if is_zero (fa_max_event f0) \<or> after (nl_event_time r) (fa_max_event f0)
               then (let f = f0\<lparr>fa_max_event := nl_event_time r,
                                fa_watermark := add_time (nl_event_time r) (- default_allowed_lateness)\<rparr>
                     in finalize_through (fa_watermark f) f)
               else f0);
          activity = bounded_activity r
      in if after activity (fa_last_activity f) then f\<lparr>fa_last_activity := activity\<rparr> else f)"

definition observed_late :: "family \<Rightarrow> normalized_log \<Rightarrow> bool" where
  "observed_late f r \<longleftrightarrow> \<not> is_zero (fa_watermark f) \<and> before (nl_event_time r) (fa_watermark f)"

definition very_late :: "family \<Rightarrow> normalized_log \<Rightarrow> bool" where
  "very_late f r \<longleftrightarrow> before (nl_event_time r) (add_time (fa_watermark f) (- default_state_retention))"

definition quiet_evidence :: "family \<Rightarrow> normalized_log \<Rightarrow> bool" where
  "quiet_evidence f r \<longleftrightarrow> \<not> is_zero (fa_advanced f)
     \<and> \<not> before (fa_advanced f) (add_time (bounded_activity r) default_quiet_period)"

definition behind_frontier :: "family \<Rightarrow> normalized_log \<Rightarrow> bool" where
  "behind_frontier f r \<longleftrightarrow> \<not> is_zero (fa_finalized f) \<and> before (nl_event_time r) (fa_finalized f)"

definition observe_evidence :: "family \<Rightarrow> normalized_log \<Rightarrow> seen_map \<Rightarrow> engine_update \<times> family \<times> seen_map" where
  "observe_evidence f r seen =
     (let late = observed_late f r;
          target = generation_for_evidence (fa_generations f) r;
          ev = \<lparr>ev_record = r, ev_attach = \<not> very_late f r \<and> target \<noteq> None, ev_late = late\<rparr>;
          f = f\<lparr>fa_evidence := kv_put (nl_record_id r) ev (fa_evidence f)\<rparr>;
          (f, seen) = attach_evidence f ev seen
      in (make_update f (generation_containing f (nl_record_id r)) False False False late True, f, seen))"

definition observe_contribution ::
    "family \<Rightarrow> normalized_log \<Rightarrow> seen_map \<Rightarrow> engine_update \<times> family \<times> seen_map" where
  "observe_contribution f r seen =
     (let old_topology = topology f;
          old_context = fa_context f;
          f = f\<lparr>fa_events := kv_put (nl_record_id r) r (fa_events f)\<rparr>;
          (f, at_end) = insert_ordered f r;
          (f, seen) = (if at_end then extend_family f r seen else rebuild_family f seen);
          requested = (\<not> fa_active f \<and> threshold_generation f \<noteq> None);
          f = (if requested then f\<lparr>fa_active := True\<rparr> else f);
          f = (if fa_active f then f\<lparr>fa_context := generation_count f\<rparr> else f);
          context_updated = (\<not> requested \<and> fa_active f
                             \<and> (old_topology \<noteq> topology f \<or> old_context \<noteq> fa_context f))
      in (make_update f (generation_containing f (nl_record_id r)) False requested context_updated
            False False, f, seen))"

definition observe_family :: "family \<Rightarrow> normalized_log \<Rightarrow> seen_map \<Rightarrow> engine_update \<times> family \<times> seen_map" where
  "observe_family f0 r seen =
     (let f = observe_frontier r f0
      in if behind_frontier f r \<or> quiet_evidence f r
         then observe_evidence f r seen else observe_contribution f r seen)"

definition observe ::
    "(bytes \<Rightarrow> bytes) \<Rightarrow> engine \<Rightarrow> normalized_log \<Rightarrow> (observe_error + engine_update) \<times> engine" where
  "observe H e r =
     (case fingerprint_of H r of Inl err \<Rightarrow> (Inl (InvalidObservation err), e)
      | Inr result \<Rightarrow>
     (case kv_get (en_seen e) (nl_record_id r) of
        Some lo \<Rightarrow>
          (case kv_get (en_families e) (lo_incident lo) of
             None \<Rightarrow> (Inl MissingFamily, e)
           | Some f \<Rightarrow>
               (Inr (make_update f (generation_at f (lo_generation lo)) True False False
                       (lo_late lo) (lo_evidence lo)), e))
      | None \<Rightarrow>
          (let i = incident_id H r result;
               f0 = (case kv_get (en_families e) i of None \<Rightarrow> new_family i | Some f \<Rightarrow> f);
               (u, f, seen) = observe_family f0 r (en_seen e)
           in (Inr u, e\<lparr>en_families := kv_put i f (en_families e), en_seen := seen\<rparr>))))"

section \<open>Advance\<close>

definition retention_horizon :: "family \<Rightarrow> gtime \<Rightarrow> gtime" where
  "retention_horizon f now =
     (let idle = add_time now (- default_allowed_lateness);
          frontier = (if \<not> is_zero now \<and> after idle (fa_watermark f) then idle else fa_watermark f)
      in if is_zero frontier then zero_time else add_time frontier (- default_state_retention))"

definition forget :: "bytes \<Rightarrow> engine \<Rightarrow> engine" where
  "forget record_id e =
     e\<lparr>en_seen := kv_del record_id (en_seen e), en_pruned_seen := en_pruned_seen e + 1\<rparr>"

fun prune_ordered ::
    "nat \<Rightarrow> nat \<Rightarrow> normalized_log list \<Rightarrow> normalized_log list \<Rightarrow> record_map \<Rightarrow> engine \<Rightarrow> nat
       \<Rightarrow> normalized_log list \<times> record_map \<times> engine \<times> nat" where
  "prune_ordered bound i [] kept events e pruned = (kept, events, e, pruned)"
| "prune_ordered bound i (r # rs) kept events e pruned =
     (if i < bound \<and> \<not> is_pinned e (nl_record_id r)
      then prune_ordered bound (Suc i) rs kept (kv_del (nl_record_id r) events)
             (forget (nl_record_id r) e) (pruned + 1)
      else prune_ordered bound (Suc i) rs (kept @ [r]) events e pruned)"

fun prune_evidence ::
    "gtime \<Rightarrow> (bytes \<times> evidence_record) list \<Rightarrow> (bytes, evidence_record) kv \<Rightarrow> engine \<Rightarrow> nat
       \<Rightarrow> (bytes, evidence_record) kv \<times> engine \<times> nat" where
  "prune_evidence horizon [] evidence e pruned = (evidence, e, pruned)"
| "prune_evidence horizon ((k, ev) # es) evidence e pruned =
     (if before (nl_event_time (ev_record ev)) horizon \<and> \<not> is_pinned e k
      then prune_evidence horizon es (kv_del k evidence) (forget k e) (pruned + 1)
      else prune_evidence horizon es evidence e pruned)"

definition prune :: "engine \<Rightarrow> family \<Rightarrow> gtime \<Rightarrow> bool \<times> family \<times> engine" where
  "prune e f now =
     (let horizon = retention_horizon f now in
      if is_zero horizon then (False, f, e)
      else
        (let ordered = fa_ordered f;
             bound = sort_search (length ordered) (\<lambda>i. \<not> before (nl_event_time (ordered ! i)) horizon);
             (kept, events, e, pruned) = prune_ordered bound 0 ordered [] (fa_events f) e 0;
             f = f\<lparr>fa_ordered := kept, fa_events := events\<rparr>;
             (evidence, e, pruned) = prune_evidence horizon (fa_evidence f) (fa_evidence f) e pruned;
             f = f\<lparr>fa_evidence := evidence\<rparr>
         in (pruned \<noteq> 0, f, e)))"

definition compact :: "family \<Rightarrow> bytes \<Rightarrow> gtime \<Rightarrow> engine \<Rightarrow> engine" where
  "compact f0 i now e0 =
     (let (released, f, e) = prune e0 f0 now;
          (f, seen) = (if released then rebuild_family f (en_seen e) else (f, en_seen e));
          e = e\<lparr>en_seen := seen\<rparr>
      in if length (fa_events f) \<noteq> 0 \<or> length (fa_evidence f) \<noteq> 0
            \<or> (fa_active f
               \<and> before now (add_time (fa_last_activity f) default_reinvestigation_interval))
         then e\<lparr>en_families := kv_put i f (en_families e)\<rparr>
         else e\<lparr>en_families := kv_del i (en_families e)\<rparr>)"

definition advance_frontier :: "gtime \<Rightarrow> family \<Rightarrow> family" where
  "advance_frontier now f0 =
     (let f = (if is_zero (fa_advanced f0) \<or> after now (fa_advanced f0)
               then f0\<lparr>fa_advanced := now\<rparr> else f0)
      in if is_zero (fa_max_event f) then f
         else
           (let deadline = add_time now (- default_allowed_lateness);
                maximum = strict_successor (fa_max_event f)
            in finalize_through (if after deadline maximum then maximum else deadline) f))"

fun status_by_number :: "generation list \<Rightarrow> (int \<times> bytes) list" where
  "status_by_number [] = []"
| "status_by_number (g # gs) = status_by_number gs @ [(ge_number g, ge_status g)]"

fun quiet_updates ::
    "family \<Rightarrow> (int \<times> bytes) list \<Rightarrow> nat option \<Rightarrow> nat \<Rightarrow> generation list \<Rightarrow> engine_update list" where
  "quiet_updates f old requested i [] = []"
| "quiet_updates f old requested i (g # gs) =
     (if map_of old (ge_number g) = Some detection_active \<and> ge_status g = detection_quiet
         \<and> requested \<noteq> Some i
      then [make_update f (Some g) False False False False False] else [])
     @ quiet_updates f old requested (Suc i) gs"

definition advance_family :: "gtime \<Rightarrow> family \<Rightarrow> engine_update list \<times> family" where
  "advance_family now f0 =
     (let old = status_by_number (fa_generations f0);
          f = refresh_statuses (advance_frontier now f0);
          requested = (if fa_active f then None else threshold_generation f);
          f = (if requested = None then f else f\<lparr>fa_active := True, fa_context := generation_count f\<rparr>);
          launched = (case requested of None \<Rightarrow> []
                      | Some i \<Rightarrow> [make_update f (Some (fa_generations f ! i)) False True False False False])
      in (launched @ quiet_updates f old requested 0 (fa_generations f), f))"

fun advance_loop :: "gtime \<Rightarrow> bytes list \<Rightarrow> engine \<Rightarrow> engine_update list \<Rightarrow> engine_update list \<times> engine" where
  "advance_loop now [] e changed = (changed, e)"
| "advance_loop now (i # is) e changed =
     (case kv_get (en_families e) i of
        None \<Rightarrow> advance_loop now is e changed
      | Some f0 \<Rightarrow>
          (case advance_family now f0 of
             (us, f) \<Rightarrow> advance_loop now is (compact f i now e) (changed @ us)))"

definition compact_seen :: "engine \<Rightarrow> engine" where
  "compact_seen e =
     (if en_pruned_seen e < 1024 \<or> en_pruned_seen e \<le> int (length (en_seen e)) then e
      else e\<lparr>en_pruned_seen := 0\<rparr>)"

definition advance :: "engine \<Rightarrow> gtime \<Rightarrow> engine_update list \<times> engine" where
  "advance e now =
     (case advance_loop now (sort (map fst (en_families e))) e [] of
        (changed, e') \<Rightarrow> (changed, compact_seen e'))"

end
