(* ===== verification/IncidentDecision.thy ===== *)
theory IncidentDecision
  imports IncidentEngine
begin

text \<open>
  What the engine reports: snapshots, retention counts, and the persistence decision that carries one
  record's finalized place in the topology to storage, with the check storage makes of it
  (\<open>internal/incident/incident.go\<close>).
\<close>

section \<open>Snapshots\<close>

record generation_view =
  gv_number :: int
  gv_deployment_id :: bytes
  gv_occurrence_count :: nat
  gv_window_count :: nat
  gv_watermark_window_count :: nat
  gv_detection_status :: bytes
  gv_first :: gtime
  gv_latest :: gtime

definition empty_generation_view :: generation_view where
  "empty_generation_view =
     \<lparr>gv_number = 0, gv_deployment_id = [], gv_occurrence_count = 0, gv_window_count = 0,
      gv_watermark_window_count = 0, gv_detection_status = [], gv_first = zero_time,
      gv_latest = zero_time\<rparr>"

definition generation_snapshot :: "generation option \<Rightarrow> gtime \<Rightarrow> generation_view" where
  "generation_snapshot target watermark =
     (case target of None \<Rightarrow> empty_generation_view
      | Some g \<Rightarrow>
          \<lparr>gv_number = ge_number g, gv_deployment_id = ge_deployment g,
           gv_occurrence_count = occurrence_count g,
           gv_window_count = count_in_window g (ge_max_event g),
           gv_watermark_window_count = count_in_window g watermark,
           gv_detection_status = ge_status g, gv_first = ge_first g, gv_latest = ge_latest g\<rparr>)"

record incident_view =
  iv_incident_id :: bytes
  iv_generation_count :: int
  iv_generations :: "generation_view list"
  iv_current :: generation_view
  iv_active :: bool
  iv_context_version :: int
  iv_watermark :: gtime

definition incident_snapshot :: "engine \<Rightarrow> bytes \<Rightarrow> incident_view" where
  "incident_snapshot e i =
     (case kv_get (en_families e) i of
        None \<Rightarrow>
          \<lparr>iv_incident_id = [], iv_generation_count = 0, iv_generations = [],
           iv_current = empty_generation_view, iv_active = False, iv_context_version = 0,
           iv_watermark = zero_time\<rparr>
      | Some f \<Rightarrow>
          \<lparr>iv_incident_id = fa_id f, iv_generation_count = generation_count f,
           iv_generations = map (\<lambda>g. generation_snapshot (Some g) (fa_watermark f)) (fa_generations f),
           iv_current = generation_snapshot (current_generation f) (fa_watermark f),
           iv_active = fa_active f, iv_context_version = fa_context f,
           iv_watermark = fa_watermark f\<rparr>)"

record retention =
  rt_families :: nat
  rt_records :: nat
  rt_evidence :: nat
  rt_seen :: nat

definition retained :: "engine \<Rightarrow> retention" where
  "retained e =
     \<lparr>rt_families = length (en_families e),
      rt_records = sum_list (map (\<lambda>(i, f). length (fa_events f)) (en_families e)),
      rt_evidence = sum_list (map (\<lambda>(i, f). length (fa_evidence f)) (en_families e)),
      rt_seen = length (en_seen e)\<rparr>"

section \<open>Persistence decisions\<close>

definition persistence_decision_version :: bytes where
  "persistence_decision_version = ''incident:persistence:v1''"

record persistence_decision =
  pd_version :: bytes
  pd_incident_id :: bytes
  pd_record_id :: bytes
  pd_deployment_id :: bytes
  pd_episode_start :: gtime
  pd_generation_key :: "64 word"
  pd_finalized_through :: gtime
  pd_evidence_only :: bool
  pd_detection_status :: bytes
  pd_quiet_at :: gtime
  pd_reopen_until :: gtime
  pd_late :: bool

text \<open>The retained record a location names; evidence only counts once it is attached.\<close>

definition retained_record :: "family \<Rightarrow> bytes \<Rightarrow> record_location \<Rightarrow> normalized_log option" where
  "retained_record f record_id lo =
     (if lo_evidence lo then
        (case kv_get (fa_evidence f) record_id of None \<Rightarrow> None
         | Some ev \<Rightarrow> if ev_attach ev then Some (ev_record ev) else None)
      else kv_get (fa_events f) record_id)"

definition decide_persistence ::
    "(bytes \<Rightarrow> bytes) \<Rightarrow> engine \<Rightarrow> bytes \<Rightarrow> persistence_decision option" where
  "decide_persistence H e record_id =
     (case kv_get (en_seen e) record_id of None \<Rightarrow> None
      | Some lo \<Rightarrow>
     (case kv_get (en_families e) (lo_incident lo) of None \<Rightarrow> None
      | Some f \<Rightarrow>
     (if is_zero (fa_finalized f) then None
      else
     (case retained_record f record_id lo of None \<Rightarrow> None
      | Some r \<Rightarrow>
     (if \<not> before (nl_event_time r) (fa_finalized f) then None
      else
     (case generation_containing f record_id of None \<Rightarrow> None
      | Some g \<Rightarrow>
     (if \<not> before (ge_first g) (fa_finalized f) then None
      else
     (case generation_key H (ge_deployment g) (ge_first g) of None \<Rightarrow> None
      | Some key \<Rightarrow>
          (let quiet_at = add_time (ge_last_activity g) default_quiet_period
           in Some \<lparr>pd_version = persistence_decision_version, pd_incident_id = fa_id f,
                    pd_record_id = record_id, pd_deployment_id = ge_deployment g,
                    pd_episode_start = ge_first g, pd_generation_key = key,
                    pd_finalized_through = fa_finalized f, pd_evidence_only = lo_evidence lo,
                    pd_detection_status = ge_status g, pd_quiet_at = quiet_at,
                    pd_reopen_until = add_time quiet_at default_reopen_window,
                    pd_late = lo_late lo\<rparr>)))))))))"

definition valid_persistence_decision ::
    "(bytes \<Rightarrow> bytes) \<Rightarrow> normalized_log \<Rightarrow> persistence_decision \<Rightarrow> bool" where
  "valid_persistence_decision H r d \<longleftrightarrow>
     (if validate r \<noteq> [] \<or> pd_version d \<noteq> persistence_decision_version
         \<or> pd_record_id d \<noteq> nl_record_id r \<or> is_zero (pd_finalized_through d)
         \<or> \<not> t_utc (pd_finalized_through d) \<or> \<not> before (nl_event_time r) (pd_finalized_through d)
         \<or> pd_deployment_id d \<noteq> deployment_of r then False
      else if deterministic_id H r \<noteq> Inr (pd_incident_id d) then False
      else if generation_key H (pd_deployment_id d) (pd_episode_start d) \<noteq> Some (pd_generation_key d)
      then False
      else if pd_detection_status d \<noteq> detection_active \<and> pd_detection_status d \<noteq> detection_quiet
      then False
      else if is_zero (pd_quiet_at d) \<or> \<not> t_utc (pd_quiet_at d)
              \<or> \<not> same_instant (pd_reopen_until d) (add_time (pd_quiet_at d) default_reopen_window)
      then False
      else if pd_late d \<and> \<not> pd_evidence_only d then False
      else if \<not> pd_evidence_only d then
        (if before (nl_event_time r) (pd_episode_start d) then False
         else if before (pd_quiet_at d) (add_time (bounded_activity r) default_quiet_period) then False
         else True)
      else True)"

end
