(* ===== verification/IncidentFacts.thy ===== *)
theory IncidentFacts
  imports IncidentDecision
begin

text \<open>
  What the incident engine keeps true of a family. Reconstruction is described by what it does to one
  episode (\<open>gen_holds\<close>: its records, their deployment, its bounds), so that folding, adopting,
  sorting, attaching and renumbering each need one lemma.
\<close>

lemma kv_get_single [simp]: "kv_get [(k, v)] k' = (if k' = k then Some v else None)"
  by (simp add: kv_get_def)

section \<open>Times\<close>

text \<open>A UTC instant that a 64-bit nanosecond count can hold, so not the zero time nor near it.\<close>

definition sane :: "gtime \<Rightarrow> bool" where
  "sane t \<longleftrightarrow> t_utc t \<and> - 9223372036854775808 \<le> t_inst t"

lemma sane_not_zero [simp]: "sane t \<Longrightarrow> \<not> is_zero t"
  by (simp add: sane_def is_zero_def)

lemma add_time_sel [simp]: "t_inst (add_time t d) = t_inst t + d" "t_utc (add_time t d) = t_utc t"
  by (simp_all add: add_time_def)

lemma zero_time_is_zero [simp]: "is_zero zero_time"
  by (simp add: is_zero_def zero_time_def)

lemma zero_time_utc [simp]: "t_utc zero_time"
  by (simp add: zero_time_def)

lemma sane_later: "sane t \<Longrightarrow> 0 \<le> d \<Longrightarrow> sane (add_time t d)"
  by (simp add: sane_def)

definition record_times :: "normalized_log \<Rightarrow> bool" where
  "record_times r \<longleftrightarrow> sane (nl_event_time r) \<and> sane (nl_observed_time r)"

lemma sane_activity [simp]: "record_times r \<Longrightarrow> sane (bounded_activity r)"
  by (simp add: record_times_def bounded_activity_def)

lemma activity_le_event: "t_inst (bounded_activity r) \<le> t_inst (nl_event_time r)"
  by (simp add: bounded_activity_def after_def)

lemma earliest_of_sane:
  "sane t \<Longrightarrow> is_zero x \<or> sane x \<Longrightarrow>
     sane (earliest_of x t) \<and> \<not> before t (earliest_of x t)
     \<and> (sane x \<longrightarrow> \<not> before x (earliest_of x t))"
  by (auto simp: earliest_of_def before_def)

lemma latest_of_sane:
  "sane t \<Longrightarrow> is_zero x \<or> sane x \<Longrightarrow>
     sane (latest_of x t) \<and> \<not> before (latest_of x t) t
     \<and> (sane x \<longrightarrow> \<not> before (latest_of x t) x)"
  by (auto simp: latest_of_def before_def after_def)

section \<open>One episode\<close>

lemma note_eligible_sel [simp]:
  "ge_records (note_eligible t g) = ge_records g" "ge_deployment (note_eligible t g) = ge_deployment g"
  "ge_first (note_eligible t g) = ge_first g" "ge_last_activity (note_eligible t g) = ge_last_activity g"
  "ge_latest (note_eligible t g) = ge_latest g" "ge_max_event (note_eligible t g) = ge_max_event g"
  "ge_evidence (note_eligible t g) = ge_evidence g" "ge_status (note_eligible t g) = ge_status g"
  "ge_number (note_eligible t g) = ge_number g" "ge_times (note_eligible t g) = ge_times g"
  "ge_evidence_times (note_eligible t g) = ge_evidence_times g"
  by (simp_all add: note_eligible_def Let_def)

lemma add_contribution_sel [simp]:
  "ge_records (add_contribution g r) = kv_put (nl_record_id r) r (ge_records g)"
  "ge_deployment (add_contribution g r) = ge_deployment g"
  "ge_first (add_contribution g r) = earliest_of (ge_first g) (nl_event_time r)"
  "ge_last_activity (add_contribution g r) = latest_of (ge_last_activity g) (bounded_activity r)"
  "ge_evidence (add_contribution g r) = ge_evidence g" "ge_status (add_contribution g r) = ge_status g"
  "ge_number (add_contribution g r) = ge_number g"
  by (simp_all add: add_contribution_def Let_def)

lemma add_evidence_sel [simp]:
  "ge_records (add_evidence r g) = ge_records g" "ge_deployment (add_evidence r g) = ge_deployment g"
  "ge_first (add_evidence r g) = ge_first g" "ge_last_activity (add_evidence r g) = ge_last_activity g"
  "ge_evidence (add_evidence r g) = kv_put (nl_record_id r) r (ge_evidence g)"
  "ge_status (add_evidence r g) = ge_status g" "ge_number (add_evidence r g) = ge_number g"
  by (simp_all add: add_evidence_def)

lemma adopt_sel [simp]:
  "ge_records (adopt g p) = ge_records g" "ge_deployment (adopt g p) = ge_deployment g"
  "ge_last_activity (adopt g p) = ge_last_activity g" "ge_evidence (adopt g p) = ge_evidence g"
  "ge_status (adopt g p) = ge_status g" "ge_number (adopt g p) = ge_number g"
  by (simp_all add: adopt_def)

lemma clear_evidence_sel [simp]:
  "ge_records (clear_evidence g) = ge_records g" "ge_deployment (clear_evidence g) = ge_deployment g"
  "ge_first (clear_evidence g) = ge_first g" "ge_last_activity (clear_evidence g) = ge_last_activity g"
  "ge_evidence (clear_evidence g) = []" "ge_status (clear_evidence g) = ge_status g"
  "ge_number (clear_evidence g) = ge_number g"
  by (simp_all add: clear_evidence_def)

lemma new_generation_sel [simp]:
  "ge_records (new_generation n d) = []" "ge_evidence (new_generation n d) = []"
  "ge_deployment (new_generation n d) = d" "ge_first (new_generation n d) = zero_time"
  "ge_last_activity (new_generation n d) = zero_time" "ge_number (new_generation n d) = n"
  "ge_status (new_generation n d) = detection_active"
  by (simp_all add: new_generation_def)

lemma shell_of_sel [simp]:
  "ge_records (shell_of p) = []" "ge_evidence (shell_of p) = []"
  "ge_deployment (shell_of p) = ge_deployment p" "ge_first (shell_of p) = ge_first p"
  "ge_last_activity (shell_of p) = ge_last_activity p"
  "ge_status (shell_of p) = detection_active"
  by (simp_all add: shell_of_def)

text \<open>The bounds of an episode, and the relation of the episode to the records it contains.\<close>

definition gen_times :: "generation \<Rightarrow> bool" where
  "gen_times g \<longleftrightarrow> sane (ge_first g) \<and> sane (ge_last_activity g)"

definition gen_holds :: "record_map \<Rightarrow> generation \<Rightarrow> bool" where
  "gen_holds events g \<longleftrightarrow>
     (\<forall>k r. kv_get (ge_records g) k = Some r \<longrightarrow>
        kv_get events k = Some r \<and> deployment_of r = ge_deployment g
        \<and> \<not> before (nl_event_time r) (ge_first g)
        \<and> \<not> before (ge_last_activity g) (bounded_activity r))"

lemma gen_holds_empty [simp]: "ge_records g = [] \<Longrightarrow> gen_holds events g"
  by (simp add: gen_holds_def)

lemma gen_add_contribution:
  assumes "gen_holds events g" and "kv_get events (nl_record_id r) = Some r" and "record_times r"
    and "deployment_of r = ge_deployment g"
    and "gen_times g \<or> ge_first g = zero_time \<and> ge_last_activity g = zero_time \<and> ge_records g = []"
  shows "gen_holds events (add_contribution g r)" and "gen_times (add_contribution g r)"
proof -
  have t: "sane (nl_event_time r)" "sane (bounded_activity r)"
    using assms(3) by (auto simp: record_times_def)
  have z: "is_zero (ge_first g) \<or> sane (ge_first g)" "is_zero (ge_last_activity g) \<or> sane (ge_last_activity g)"
    using assms(5) by (auto simp: gen_times_def)
  note e = earliest_of_sane [OF t(1) z(1)] latest_of_sane [OF t(2) z(2)]
  then show "gen_times (add_contribution g r)"
    by (simp add: gen_times_def)
  show "gen_holds events (add_contribution g r)"
    unfolding gen_holds_def
  proof (intro allI impI)
    fix k r'
    assume "kv_get (ge_records (add_contribution g r)) k = Some r'"
    then have "k = nl_record_id r \<and> r' = r \<or> kv_get (ge_records g) k = Some r'"
      by (simp add: kv_get_put split: if_splits)
    then consider "k = nl_record_id r" "r' = r" | "kv_get (ge_records g) k = Some r'"
      by blast
    then show "kv_get events k = Some r' \<and> deployment_of r' = ge_deployment (add_contribution g r)
        \<and> \<not> before (nl_event_time r') (ge_first (add_contribution g r))
        \<and> \<not> before (ge_last_activity (add_contribution g r)) (bounded_activity r')"
    proof cases
      case 1
      then show ?thesis
        using e(1) [THEN conjunct2, THEN conjunct1] e(2) [THEN conjunct2, THEN conjunct1] assms(2,4) by simp
    next
      case 2
      then have "ge_records g \<noteq> []"
        by auto
      with assms(5) have "sane (ge_first g)" "sane (ge_last_activity g)"
        by (auto simp: gen_times_def)
      with e have b: "t_inst (earliest_of (ge_first g) (nl_event_time r)) \<le> t_inst (ge_first g)"
        "t_inst (ge_last_activity g) \<le> t_inst (latest_of (ge_last_activity g) (bounded_activity r))"
        by (auto simp: before_def)
      have "kv_get events k = Some r' \<and> deployment_of r' = ge_deployment g
          \<and> \<not> before (nl_event_time r') (ge_first g) \<and> \<not> before (ge_last_activity g) (bounded_activity r')"
        using assms(1) 2 by (simp add: gen_holds_def)
      with b show ?thesis
        by (simp add: before_def)
    qed
  qed
qed

section \<open>Folding\<close>

definition gens_hold :: "record_map \<Rightarrow> generation list \<Rightarrow> bool" where
  "gens_hold events gs \<longleftrightarrow> list_all (\<lambda>g. gen_holds events g \<and> gen_times g) gs"

lemma gens_hold_simps [simp]:
  "gens_hold events []"
  "gens_hold events (g # gs) \<longleftrightarrow> gen_holds events g \<and> gen_times g \<and> gens_hold events gs"
  "gens_hold events (gs @ hs) \<longleftrightarrow> gens_hold events gs \<and> gens_hold events hs"
  by (auto simp: gens_hold_def)

lemma opens_None [simp]: "opens_episode None r"
  by (simp add: opens_episode_def)

lemma fold_step_cases:
  obtains (new) "opens_episode (last_generation gs) r"
      "fold_step gs r = gs @ [add_contribution (new_generation 0 (deployment_of r)) r]"
  | (same) hs g where "gs = hs @ [g]" "ge_deployment g = deployment_of r"
      "before (bounded_activity r) (add_time (ge_last_activity g) default_reopen_window)"
      "fold_step gs r = hs @ [add_contribution g r]"
proof (cases "opens_episode (last_generation gs) r")
  case True
  then show ?thesis
    by (intro new) (simp_all add: fold_step_def)
next
  case False
  then have "gs \<noteq> []"
    by (auto simp: last_generation_def)
  then obtain hs g where "gs = hs @ [g]"
    by (cases gs rule: rev_cases) auto
  with False show ?thesis
    by (intro same [of hs g]) (auto simp: fold_step_def last_generation_def opens_episode_def)
qed

lemma fold_step_holds:
  assumes "gens_hold events gs" and "kv_get events (nl_record_id r) = Some r" and "record_times r"
  shows "gens_hold events (fold_step gs r)"
proof (cases gs r rule: fold_step_cases)
  case new
  then show ?thesis
    using assms gen_add_contribution [of events "new_generation 0 (deployment_of r)" r] by simp
next
  case (same hs g)
  then show ?thesis
    using assms gen_add_contribution [of events g r] by simp
qed

lemma foldl_fold_step_holds:
  "gens_hold events gs \<Longrightarrow> \<forall>r\<in>set rs. kv_get events (nl_record_id r) = Some r \<and> record_times r \<Longrightarrow>
   gens_hold events (foldl fold_step gs rs)"
  by (induction rs arbitrary: gs) (auto intro: fold_step_holds)

definition contains_record :: "generation list \<Rightarrow> bytes \<Rightarrow> bool" where
  "contains_record gs k \<longleftrightarrow> (\<exists>g\<in>set gs. kv_get (ge_records g) k \<noteq> None)"

lemma fold_step_contains:
  "contains_record (fold_step gs r) k \<longleftrightarrow> contains_record gs k \<or> k = nl_record_id r"
  by (cases gs r rule: fold_step_cases) (auto simp: contains_record_def kv_get_put)

lemma foldl_fold_step_contains:
  "contains_record (foldl fold_step gs rs) k \<longleftrightarrow> contains_record gs k \<or> k \<in> nl_record_id ` set rs"
  by (induction rs arbitrary: gs) (auto simp: fold_step_contains)

lemma contains_record_cong: "map ge_records gs = map ge_records hs \<Longrightarrow> contains_record gs k = contains_record hs k"
proof -
  assume "map ge_records gs = map ge_records hs"
  then have "ge_records ` set gs = ge_records ` set hs"
    by (metis set_map)
  moreover have "contains_record xs k \<longleftrightarrow> (\<exists>m\<in>ge_records ` set xs. kv_get m k \<noteq> None)" for xs
    by (auto simp: contains_record_def)
  ultimately show ?thesis
    by (simp only:)
qed

section \<open>Adopting identities\<close>

lemma assign_records_range:
  "kv_get (assign_records i es m) k = Some j \<Longrightarrow> j = i \<or> kv_get m k = Some j"
  by (induction i es m rule: assign_records.induct) (auto simp: kv_get_put split: if_splits)

lemma assign_prior_range:
  "kv_get (assign_prior i ps m) k = Some j \<Longrightarrow> j < i + length ps \<or> kv_get m k = Some j"
  by (induction i ps m rule: assign_prior.induct) (auto dest: assign_records_range)

lemma pick_index_range:
  "pick_index a c es i = Some j \<Longrightarrow> i = Some j \<or> (\<exists>k. kv_get a k = Some j)"
  by (induction a c es i rule: pick_index.induct) (auto split: option.splits if_splits)

lemma adopt_holds:
  "gen_holds events g \<Longrightarrow> gen_times g \<Longrightarrow> gen_times p \<Longrightarrow>
   gen_holds events (adopt g p) \<and> gen_times (adopt g p)"
  by (fastforce simp: gen_holds_def gen_times_def adopt_def before_def)

lemma adopt_episode_loop_holds:
  "(\<And>k j. kv_get assigned k = Some j \<Longrightarrow> gen_times (prior ! j)) \<Longrightarrow> gens_hold events gs \<Longrightarrow>
   gens_hold events (fst (adopt_episode_loop prior assigned c gs))
    \<and> map ge_records (fst (adopt_episode_loop prior assigned c gs)) = map ge_records gs"
proof (induction prior assigned c gs rule: adopt_episode_loop.induct)
  case (2 prior assigned c g gs)
  show ?case
  proof (cases "pick_index assigned c (ge_records g) None")
    case None
    with 2 show ?thesis
      by (auto split: prod.splits)
  next
    case (Some i)
    then have "gen_times (prior ! i)"
      using 2(3) by (auto dest!: pick_index_range)
    with 2 Some show ?thesis
      using adopt_holds [of events g "prior ! i"] by (auto split: prod.splits)
  qed
qed simp

lemma shells_loop_holds:
  "\<forall>p\<in>set ps. gen_times p \<Longrightarrow> gens_hold events (shells_loop evs adopted i ps)"
  by (induction evs adopted i ps rule: shells_loop.induct) (auto simp: gen_times_def)

lemma shells_loop_records: "g \<in> set (shells_loop evs adopted i ps) \<Longrightarrow> ge_records g = []"
  by (induction evs adopted i ps rule: shells_loop.induct) (auto split: if_splits)

lemma adopt_assigned_holds:
  assumes "adopt_assigned_identities f gs = (gs', shells)" and "gens_hold events gs"
    and "\<forall>p\<in>set (fa_generations f). gen_times p"
  shows "gens_hold events (gs' @ shells) \<and> map ge_records gs' = map ge_records gs
    \<and> (\<forall>g\<in>set shells. ge_records g = [])"
proof (cases "fa_generations f = []")
  case False
  let ?p = "fa_generations f" and ?a = "assign_prior 0 (fa_generations f) []"
  have a: "gen_times (?p ! j)" if "kv_get ?a k = Some j" for k j
    using assms(3) assign_prior_range [OF that] by simp
  obtain adopted where "adopt_episode_loop ?p ?a 0 gs = (gs', adopted)"
    "shells = shells_loop (fa_events f) adopted 0 ?p"
    using assms(1) False by (auto simp: adopt_assigned_identities_def Let_def split: prod.splits)
  with adopt_episode_loop_holds [of ?a ?p events gs 0] a assms show ?thesis
    by (auto dest: shells_loop_records intro: shells_loop_holds)
qed (use assms in \<open>simp add: adopt_assigned_identities_def\<close>)

lemma gens_hold_set: "set gs = set hs \<Longrightarrow> gens_hold events gs = gens_hold events hs"
  by (simp add: gens_hold_def list_all_iff)

lemma fold_episodes_holds:
  assumes "\<forall>r\<in>set (fa_ordered f). kv_get events (nl_record_id r) = Some r \<and> record_times r"
    and "\<forall>p\<in>set (fa_generations f). gen_times p"
  shows "gens_hold events (fold_episodes f)"
    and "contains_record (fold_episodes f) k \<longleftrightarrow> k \<in> nl_record_id ` set (fa_ordered f)"
proof -
  let ?gs = "foldl fold_step [] (fa_ordered f)"
  obtain gs shells where a: "adopt_assigned_identities f ?gs = (gs, shells)"
    by fastforce
  then have e: "fold_episodes f = sort_key episode_order (gs @ shells)"
    by (simp add: fold_episodes_def)
  have h: "gens_hold events (gs @ shells)" "map ge_records gs = map ge_records ?gs"
    "\<forall>g\<in>set shells. ge_records g = []"
    using adopt_assigned_holds [OF a foldl_fold_step_holds assms(2)] assms(1) by auto
  show "gens_hold events (fold_episodes f)"
    using h(1) gens_hold_set [of "fold_episodes f" "gs @ shells"] by (simp add: e)
  have "contains_record (fold_episodes f) k \<longleftrightarrow> contains_record gs k"
    using h(3) by (auto simp: contains_record_def e)
  then show "contains_record (fold_episodes f) k \<longleftrightarrow> k \<in> nl_record_id ` set (fa_ordered f)"
    using contains_record_cong [OF h(2)] by (simp add: foldl_fold_step_contains) (simp add: contains_record_def)
qed

section \<open>Statuses and numbers\<close>

lemma refresh_list_maps [simp]:
  "map ge_records (refresh_list a gs) = map ge_records gs"
  "map ge_evidence (refresh_list a gs) = map ge_evidence gs"
  "map ge_number (refresh_list a gs) = map ge_number gs"
  "map ge_deployment (refresh_list a gs) = map ge_deployment gs"
  "length (refresh_list a gs) = length gs"
  by (induction gs) simp_all

lemma renumber_maps [simp]:
  "map ge_records (renumber n gs) = map ge_records gs"
  "map ge_evidence (renumber n gs) = map ge_evidence gs"
  "map ge_deployment (renumber n gs) = map ge_deployment gs"
  "length (renumber n gs) = length gs"
  by (induction gs arbitrary: n) simp_all

lemma gen_holds_update [simp]:
  "gen_holds events (g\<lparr>ge_status := s\<rparr>) = gen_holds events g"
  "gen_holds events (g\<lparr>ge_number := n\<rparr>) = gen_holds events g"
  "gen_times (g\<lparr>ge_status := s\<rparr>) = gen_times g" "gen_times (g\<lparr>ge_number := n\<rparr>) = gen_times g"
  by (simp_all add: gen_holds_def gen_times_def)

lemma gens_hold_refresh [simp]: "gens_hold events (refresh_list a gs) = gens_hold events gs"
  by (induction gs) simp_all

lemma gens_hold_renumber [simp]: "gens_hold events (renumber n gs) = gens_hold events gs"
  by (induction gs arbitrary: n) simp_all

definition statuses_ok :: "generation list \<Rightarrow> bool" where
  "statuses_ok gs \<longleftrightarrow>
     list_all (\<lambda>g. ge_status g = detection_quiet) (butlast gs)
     \<and> list_all (\<lambda>g. ge_status g = detection_quiet \<or> ge_status g = detection_active) gs"

lemma statuses_ok_map:
  "map ge_status gs = map ge_status hs \<Longrightarrow> statuses_ok gs = statuses_ok hs"
proof -
  assume e: "map ge_status gs = map ge_status hs"
  have "statuses_ok xs \<longleftrightarrow> list_all (\<lambda>s. s = detection_quiet) (butlast (map ge_status xs))
      \<and> list_all (\<lambda>s. s = detection_quiet \<or> s = detection_active) (map ge_status xs)" for xs
    by (simp add: statuses_ok_def list.pred_map comp_def flip: map_butlast)
  with e show ?thesis
    by simp
qed

lemma refresh_list_statuses [simp]: "statuses_ok (refresh_list a gs)"
proof (induction gs)
  case (Cons g gs)
  then show ?case
    by (cases gs) (auto simp: statuses_ok_def)
qed (simp add: statuses_ok_def)

section \<open>Evidence\<close>

text \<open>The evidence an episode holds is retained evidence of the episode's deployment.\<close>

definition evidence_holds :: "(bytes, evidence_record) kv \<Rightarrow> generation \<Rightarrow> bool" where
  "evidence_holds evs g \<longleftrightarrow>
     (\<forall>k r. kv_get (ge_evidence g) k = Some r \<longrightarrow>
        (\<exists>ev. kv_get evs k = Some ev \<and> ev_record ev = r) \<and> deployment_of r = ge_deployment g)"

lemma evidence_holds_empty [simp]: "ge_evidence g = [] \<Longrightarrow> evidence_holds evs g"
  by (simp add: evidence_holds_def)

lemma evidence_holds_update [simp]:
  "evidence_holds evs (g\<lparr>ge_status := s\<rparr>) = evidence_holds evs g"
  "evidence_holds evs (g\<lparr>ge_number := n\<rparr>) = evidence_holds evs g"
  "evidence_holds evs (add_contribution g r) = evidence_holds evs g"
  by (simp_all add: evidence_holds_def)

lemma gen_holds_add_evidence [simp]:
  "gen_holds events (add_evidence r g) = gen_holds events g" "gen_times (add_evidence r g) = gen_times g"
  "gen_holds events (clear_evidence g) = gen_holds events g" "gen_times (clear_evidence g) = gen_times g"
  by (simp_all add: gen_holds_def gen_times_def)

lemma evidence_holds_add:
  "evidence_holds evs g \<Longrightarrow> deployment_of r = ge_deployment g \<Longrightarrow>
   kv_get evs (nl_record_id r) = Some ev \<Longrightarrow> ev_record ev = r \<Longrightarrow> evidence_holds evs (add_evidence r g)"
  by (auto simp: evidence_holds_def kv_get_put)

lemma find_for_evidence_Some:
  "find_for_evidence gs d t n earliest = Some i \<Longrightarrow> n \<le> length gs \<Longrightarrow>
   (\<And>j. earliest = Some j \<Longrightarrow> j < length gs \<and> ge_deployment (gs ! j) = d) \<Longrightarrow>
   i < length gs \<and> ge_deployment (gs ! i) = d"
  by (induction gs d t n earliest rule: find_for_evidence.induct) (auto split: if_splits)

lemma generation_for_evidence_Some:
  "generation_for_evidence gs r = Some i \<Longrightarrow> i < length gs \<and> ge_deployment (gs ! i) = deployment_of r"
  unfolding generation_for_evidence_def by (erule find_for_evidence_Some) simp_all

definition gens_full :: "record_map \<Rightarrow> (bytes, evidence_record) kv \<Rightarrow> generation list \<Rightarrow> bool" where
  "gens_full events evs gs \<longleftrightarrow> gens_hold events gs \<and> list_all (evidence_holds evs) gs"

lemma list_all_update: "list_all P xs \<Longrightarrow> (i < length xs \<Longrightarrow> P x) \<Longrightarrow> list_all P (xs[i := x])"
  by (cases "i < length xs") (auto simp: list_all_length nth_list_update)

lemma attach_one_full:
  assumes "gens_full events evs gs" and "kv_get evs (nl_record_id r) = Some ev" and "ev_record ev = r"
  shows "gens_full events evs (attach_one gs r)"
proof (cases "generation_for_evidence gs r")
  case (Some i)
  then have i: "i < length gs" "ge_deployment (gs ! i) = deployment_of r"
    using generation_for_evidence_Some by blast+
  then have "gen_holds events (gs ! i)" "gen_times (gs ! i)" "evidence_holds evs (gs ! i)"
    using assms(1) by (auto simp: gens_full_def gens_hold_def list_all_length)
  then show ?thesis
    using assms i Some
    by (auto simp: gens_full_def gens_hold_def attach_one_def intro!: list_all_update evidence_holds_add)
qed (use assms in \<open>simp add: attach_one_def\<close>)

lemma map_update_same: "f x = f (xs ! i) \<Longrightarrow> map f (xs[i := x]) = map f xs"
  by (metis list_update_beyond list_update_id map_update not_less)

lemma attach_one_maps [simp]:
  "map ge_records (attach_one gs r) = map ge_records gs"
  "map ge_number (attach_one gs r) = map ge_number gs"
  "map ge_deployment (attach_one gs r) = map ge_deployment gs"
  "map ge_status (attach_one gs r) = map ge_status gs"
  "length (attach_one gs r) = length gs"
  by (auto simp: attach_one_def map_update_same split: option.splits)

lemma attach_each_maps [simp]:
  "map ge_records (attach_each es gs) = map ge_records gs"
  "map ge_number (attach_each es gs) = map ge_number gs"
  "map ge_deployment (attach_each es gs) = map ge_deployment gs"
  "map ge_status (attach_each es gs) = map ge_status gs"
  "length (attach_each es gs) = length gs"
  by (induction es gs rule: attach_each.induct) auto

lemma attach_each_full:
  "gens_full events evs gs \<Longrightarrow>
   \<forall>(k, ev)\<in>set es. kv_get evs k = Some ev \<and> nl_record_id (ev_record ev) = k \<Longrightarrow>
   gens_full events evs (attach_each es gs)"
proof (induction es gs rule: attach_each.induct)
  case (2 k ev es gs)
  then have "gens_full events evs (attach_one gs (ev_record ev))"
    by (intro attach_one_full) auto
  with 2 show ?case
    by (cases "ev_attach ev") auto
qed simp

lemma cleared_full: "gens_hold events gs \<Longrightarrow> gens_full events evs (map clear_evidence gs)"
  by (simp add: gens_full_def gens_hold_def list_all_iff)

end
