(* ===== verification/IncidentInvariant.thy ===== *)
theory IncidentInvariant
  imports IncidentFacts
begin

text \<open>
  The invariant of a family, and what reconstruction, contribution, evidence and pruning do to it. An
  operation on a family also rewrites the engine's identity index; its effect there is described by
  \<open>location_ok\<close> for the identities the family retains.
\<close>

section \<open>The invariant\<close>

definition record_ok :: "(bytes \<Rightarrow> bytes) \<Rightarrow> bytes \<Rightarrow> bytes \<Rightarrow> normalized_log \<Rightarrow> bool" where
  "record_ok H i k r \<longleftrightarrow>
     nl_record_id r = k \<and> validate r = [] \<and> record_times r \<and> deterministic_id H r = Inr i"

definition retains :: "family \<Rightarrow> bytes \<Rightarrow> bool" where
  "retains f k \<longleftrightarrow> kv_get (fa_events f) k \<noteq> None \<or> kv_get (fa_evidence f) k \<noteq> None"

definition frontiers_ok :: "family \<Rightarrow> bool" where
  "frontiers_ok f \<longleftrightarrow> t_utc (fa_max_event f) \<and> t_utc (fa_watermark f) \<and> t_utc (fa_finalized f)
     \<and> t_utc (fa_advanced f)"

definition family_base :: "(bytes \<Rightarrow> bytes) \<Rightarrow> family \<Rightarrow> bool" where
  "family_base H f \<longleftrightarrow>
     kv_wf (fa_events f) \<and> kv_wf (fa_evidence f)
     \<and> (\<forall>k r. kv_get (fa_events f) k = Some r \<longrightarrow> record_ok H (fa_id f) k r)
     \<and> (\<forall>k ev. kv_get (fa_evidence f) k = Some ev \<longrightarrow> record_ok H (fa_id f) k (ev_record ev))
     \<and> (\<forall>k. kv_get (fa_events f) k = None \<or> kv_get (fa_evidence f) k = None)
     \<and> sorted_wrt sorts_before (fa_ordered f)
     \<and> (\<forall>r. r \<in> set (fa_ordered f) \<longleftrightarrow> kv_get (fa_events f) (nl_record_id r) = Some r)
     \<and> frontiers_ok f"

lemma base_ordered:
  "family_base H f \<Longrightarrow> r \<in> set (fa_ordered f) \<longleftrightarrow> kv_get (fa_events f) (nl_record_id r) = Some r"
  unfolding family_base_def by blast

lemma base_event: "family_base H f \<Longrightarrow> kv_get (fa_events f) k = Some r \<Longrightarrow> record_ok H (fa_id f) k r"
  unfolding family_base_def by blast

lemma base_evidence:
  "family_base H f \<Longrightarrow> kv_get (fa_evidence f) k = Some ev \<Longrightarrow> record_ok H (fa_id f) k (ev_record ev)"
  unfolding family_base_def by blast

lemma base_ordered_ids:
  assumes "family_base H f"
  shows "k \<in> nl_record_id ` set (fa_ordered f) \<longleftrightarrow> kv_get (fa_events f) k \<noteq> None"
proof
  assume "k \<in> nl_record_id ` set (fa_ordered f)"
  then show "kv_get (fa_events f) k \<noteq> None"
    using base_ordered [OF assms] by auto
next
  assume "kv_get (fa_events f) k \<noteq> None"
  then obtain r where r: "kv_get (fa_events f) k = Some r"
    by auto
  with base_event [OF assms r] have "r \<in> set (fa_ordered f)" "nl_record_id r = k"
    using base_ordered [OF assms] by (auto simp: record_ok_def)
  then show "k \<in> nl_record_id ` set (fa_ordered f)"
    by blast
qed

definition numbered :: "int \<Rightarrow> generation list \<Rightarrow> bool" where
  "numbered n gs \<longleftrightarrow> map ge_number gs = map (\<lambda>i. n + int i) [0..<length gs]"

definition family_gens :: "family \<Rightarrow> bool" where
  "family_gens f \<longleftrightarrow>
     gens_full (fa_events f) (fa_evidence f) (fa_generations f)
     \<and> statuses_ok (fa_generations f)
     \<and> numbered (fa_pruned f + 1) (fa_generations f)
     \<and> fa_current f = (if fa_generations f = [] then None else Some (length (fa_generations f) - 1))
     \<and> (\<forall>k. kv_get (fa_events f) k \<noteq> None \<longrightarrow> contains_record (fa_generations f) k)"

definition family_ok :: "(bytes \<Rightarrow> bytes) \<Rightarrow> family \<Rightarrow> bool" where
  "family_ok H f \<longleftrightarrow> family_base H f \<and> family_gens f"

definition location_ok :: "family \<Rightarrow> bytes \<Rightarrow> record_location \<Rightarrow> bool" where
  "location_ok f k lo \<longleftrightarrow> lo_incident lo = fa_id f
     \<and> (if lo_evidence lo then kv_get (fa_evidence f) k \<noteq> None
        else kv_get (fa_events f) k \<noteq> None \<and> \<not> lo_late lo)"

lemma location_retains: "location_ok f k lo \<Longrightarrow> retains f k"
  by (auto simp: location_ok_def retains_def split: if_splits)

section \<open>The order of records\<close>

lemma sorts_before_total:
  "nl_record_id a \<noteq> nl_record_id b \<Longrightarrow> \<not> sorts_before a b \<Longrightarrow> sorts_before b a"
  by (auto simp: sorts_before_def same_instant_def before_def split: if_splits)

lemma sorts_before_trans: "sorts_before a b \<Longrightarrow> sorts_before b c \<Longrightarrow> sorts_before a c"
  by (auto simp: sorts_before_def same_instant_def before_def split: if_splits)

lemma sorts_before_irrefl: "\<not> sorts_before a a"
  by (simp add: sorts_before_def same_instant_def)

lemma insert_ordered_sorted:
  assumes "sorted_wrt sorts_before (fa_ordered f)"
    and "\<forall>y\<in>set (fa_ordered f). nl_record_id y \<noteq> nl_record_id r"
    and "insert_ordered f r = (f', at_end)"
  shows "\<exists>ordered. f' = f\<lparr>fa_ordered := ordered\<rparr> \<and> sorted_wrt sorts_before ordered
    \<and> set ordered = insert r (set (fa_ordered f)) \<and> (at_end \<longrightarrow> ordered = fa_ordered f @ [r])"
proof -
  let ?xs = "fa_ordered f"
  let ?i = "sort_search (length ?xs) (\<lambda>i. \<not> sorts_before (?xs ! i) r)"
  have i: "?i \<le> length ?xs"
    using search_sorted [OF assms(1), of "\<lambda>y. \<not> sorts_before y r"] sorts_before_trans length_takeWhile_le
    by metis
  have "sorted_wrt sorts_before (insert_at ?i r ?xs)"
    using assms(2)
    by (intro sorted_insert_at [OF assms(1)]) (auto intro: sorts_before_trans sorts_before_total)
  moreover have "at_end \<longrightarrow> insert_at ?i r ?xs = ?xs @ [r]"
    using assms(3) i by (auto simp: insert_ordered_def Let_def insert_at_def)
  moreover have "f' = f\<lparr>fa_ordered := insert_at ?i r ?xs\<rparr>"
    using assms(3) by (simp add: insert_ordered_def Let_def)
  ultimately show ?thesis
    by (intro exI [of _ "insert_at ?i r ?xs"]) simp
qed

section \<open>The identity index\<close>

definition index_ok :: "family \<Rightarrow> seen_map \<Rightarrow> seen_map \<Rightarrow> bool" where
  "index_ok f seen seen' \<longleftrightarrow>
     (\<forall>k. kv_get seen' k = kv_get seen k
          \<or> (\<exists>lo. kv_get seen' k = Some lo \<and> location_ok f k lo))"

lemma index_ok_refl [simp]: "index_ok f seen seen"
  by (simp add: index_ok_def)

lemma index_ok_trans: "index_ok f a b \<Longrightarrow> index_ok f b c \<Longrightarrow> index_ok f a c"
  unfolding index_ok_def by metis

lemma index_ok_put: "index_ok f a b \<Longrightarrow> location_ok f k lo \<Longrightarrow> index_ok f a (kv_put k lo b)"
  by (auto simp: index_ok_def kv_get_put)

lemma kv_get_keys: "k \<in> fst ` set m \<longleftrightarrow> kv_get m k \<noteq> None"
  by (metis kv_get_def map_of_eq_None_iff)

lemma index_records_indexed:
  "\<forall>k\<in>fst ` set es. kv_get (fa_events f) k \<noteq> None \<Longrightarrow> i = fa_id f \<Longrightarrow> index_ok f a b \<Longrightarrow>
   index_ok f a (index_records i n es b)"
proof (induction i n es b rule: index_records.induct)
  case (2 i n k r es b)
  then have "index_ok f a (kv_put k \<lparr>lo_incident = i, lo_generation = n, lo_late = False, lo_evidence = False\<rparr> b)"
    by (intro index_ok_put) (auto simp: location_ok_def)
  with 2 show ?case
    by simp
qed simp

lemma index_records_keeps:
  "kv_get b k \<noteq> None \<Longrightarrow> kv_get (index_records i n es b) k \<noteq> None"
  by (induction i n es b rule: index_records.induct) (auto simp: kv_get_put)

lemma index_records_sets:
  "k \<in> fst ` set es \<Longrightarrow> kv_get (index_records i n es b) k \<noteq> None"
proof (induction i n es b rule: index_records.induct)
  case (2 i n k' r es b)
  then show ?case
    using index_records_keeps [where k = k] by (cases "k = k'") (auto simp: kv_get_put simp del: not_None_eq)
qed simp

lemma index_generations_indexed:
  "\<forall>k. contains_record gs k \<longrightarrow> kv_get (fa_events f) k \<noteq> None \<Longrightarrow> i = fa_id f \<Longrightarrow> index_ok f a b \<Longrightarrow>
   index_ok f a (index_generations i gs b)"
proof (induction i gs b rule: index_generations.induct)
  case (2 i g gs b)
  have "\<forall>k\<in>fst ` set (ge_records g). kv_get (fa_events f) k \<noteq> None"
    using 2(2) by (simp add: contains_record_def kv_get_keys del: not_None_eq)
  with 2 have "index_ok f a (index_records i (ge_number g) (ge_records g) b)"
    by (intro index_records_indexed)
  with 2 show ?case
    by (auto simp: contains_record_def)
qed simp

lemma index_generations_keeps:
  "kv_get b k \<noteq> None \<Longrightarrow> kv_get (index_generations i gs b) k \<noteq> None"
  by (induction i gs b rule: index_generations.induct) (simp_all add: index_records_keeps)

lemma index_generations_sets:
  "contains_record gs k \<Longrightarrow> kv_get (index_generations i gs b) k \<noteq> None"
proof (induction i gs b rule: index_generations.induct)
  case (2 i g gs b)
  show ?case
  proof (cases "kv_get (ge_records g) k = None")
    case True
    with 2 show ?thesis
      by (simp add: contains_record_def)
  next
    case False
    then have "kv_get (index_records i (ge_number g) (ge_records g) b) k \<noteq> None"
      by (intro index_records_sets) (simp add: kv_get_keys)
    then show ?thesis
      by (simp add: index_generations_keeps del: not_None_eq)
  qed
qed (simp add: contains_record_def)

lemma index_evidence_loop_indexed:
  "\<forall>k\<in>fst ` set es. kv_get (fa_evidence f) k \<noteq> None \<Longrightarrow> index_ok f a b \<Longrightarrow>
   index_ok f a (index_evidence_loop f es b)"
proof (induction f es b rule: index_evidence_loop.induct)
  case (2 f k ev es b)
  then have "index_ok f a
      (kv_put k \<lparr>lo_incident = fa_id f, lo_generation = number_of (generation_containing f k),
                 lo_late = ev_late ev, lo_evidence = True\<rparr> b)"
    by (intro index_ok_put) (auto simp: location_ok_def)
  with 2 show ?case
    by simp
qed simp

lemma index_evidence_loop_keeps:
  "kv_get b k \<noteq> None \<Longrightarrow> kv_get (index_evidence_loop f es b) k \<noteq> None"
  by (induction f es b rule: index_evidence_loop.induct) (auto simp: kv_get_put)

lemma index_evidence_loop_sets:
  "k \<in> fst ` set es \<Longrightarrow> kv_get (index_evidence_loop f es b) k \<noteq> None"
proof (induction f es b rule: index_evidence_loop.induct)
  case (2 f k' ev es b)
  then show ?case
    using index_evidence_loop_keeps [where k = k]
    by (cases "k = k'") (auto simp: kv_get_put simp del: not_None_eq)
qed simp

lemma index_evidence_indexed: "index_ok f a b \<Longrightarrow> index_ok f a (index_evidence f b)"
  unfolding index_evidence_def
  by (rule index_evidence_loop_indexed) (rule ballI, simp only: kv_get_keys not_False_eq_True)

lemma index_evidence_keeps: "kv_get b k \<noteq> None \<Longrightarrow> kv_get (index_evidence f b) k \<noteq> None"
  by (simp add: index_evidence_def index_evidence_loop_keeps)

lemma index_evidence_sets: "kv_get (fa_evidence f) k \<noteq> None \<Longrightarrow> kv_get (index_evidence f b) k \<noteq> None"
  unfolding index_evidence_def by (rule index_evidence_loop_sets) (simp add: kv_get_keys)

section \<open>Reconstruction\<close>

text \<open>Everything of a family that reconstruction leaves alone.\<close>

definition same_records :: "family \<Rightarrow> family \<Rightarrow> bool" where
  "same_records f f' \<longleftrightarrow> fa_id f' = fa_id f \<and> fa_events f' = fa_events f \<and> fa_evidence f' = fa_evidence f
     \<and> fa_ordered f' = fa_ordered f \<and> fa_max_event f' = fa_max_event f
     \<and> fa_watermark f' = fa_watermark f \<and> fa_finalized f' = fa_finalized f
     \<and> fa_advanced f' = fa_advanced f \<and> fa_last_activity f' = fa_last_activity f"

lemma same_records_base: "same_records f f' \<Longrightarrow> family_base H f' = family_base H f"
  by (simp add: same_records_def family_base_def frontiers_ok_def)

lemma same_records_trans: "same_records a b \<Longrightarrow> same_records b c \<Longrightarrow> same_records a c"
  by (simp add: same_records_def)

lemma same_records_location: "same_records f f' \<Longrightarrow> location_ok f' k lo = location_ok f k lo"
  by (simp add: same_records_def location_ok_def)

lemma gens_full_set: "set gs \<subseteq> set hs \<Longrightarrow> gens_full ev evs hs \<Longrightarrow> gens_full ev evs gs"
  by (auto simp: gens_full_def gens_hold_def list_all_iff)

lemma gens_full_refresh [simp]: "gens_full ev evs (refresh_list a gs) = gens_full ev evs gs"
proof -
  have "list_all (evidence_holds evs) (refresh_list a gs) = list_all (evidence_holds evs) gs"
    by (induction gs) simp_all
  then show ?thesis
    by (simp add: gens_full_def)
qed

lemma gens_full_renumber [simp]: "gens_full ev evs (renumber n gs) = gens_full ev evs gs"
proof -
  have "list_all (evidence_holds evs) (renumber n gs) = list_all (evidence_holds evs) gs"
    by (induction gs arbitrary: n) simp_all
  then show ?thesis
    by (simp add: gens_full_def)
qed

lemma numbered_renumber: "numbered n (renumber n gs)"
proof -
  have "map ge_number (renumber n gs) ! i = n + int i" if "i < length gs" for i
    using that by (induction gs arbitrary: n i) (auto simp: less_Suc_eq_0_disj)
  then show ?thesis
    by (auto simp: numbered_def intro!: nth_equalityI)
qed

lemma numbered_refresh [simp]: "numbered n (refresh_list a gs) = numbered n gs"
  by (simp add: numbered_def)

lemma drop_leading_empty_contains:
  "contains_record (drop (count_leading_empty gs) gs) k = contains_record gs k"
proof (induction gs)
  case (Cons g gs)
  show ?case
  proof (cases "is_empty_episode g")
    case True
    then have "kv_get (ge_records g) k = None"
      by (simp add: is_empty_episode_def)
    with True Cons show ?thesis
      by (simp add: contains_record_def)
  qed simp
qed simp

lemma contains_record_records:
  "contains_record (refresh_list a gs) k = contains_record gs k"
  "contains_record (renumber n gs) k = contains_record gs k"
  "contains_record (attach_each es gs) k = contains_record gs k"
  "contains_record (map clear_evidence gs) k = contains_record gs k"
  by (rule contains_record_cong; simp)+

lemma attach_retained_full:
  assumes "family_base H f" and "gens_hold (fa_events f) (fa_generations f)"
  shows "gens_full (fa_events f) (fa_evidence f) (fa_generations (attach_retained_evidence f))"
proof -
  have "\<forall>(k, ev)\<in>set (fa_evidence f). kv_get (fa_evidence f) k = Some ev \<and> nl_record_id (ev_record ev) = k"
    using assms(1) kv_entry_iff [of "fa_evidence f"] by (auto simp: family_base_def record_ok_def)
  with attach_each_full [OF cleared_full [OF assms(2)]] show ?thesis
    by (simp add: attach_retained_evidence_def)
qed

lemma index_locations_ok:
  assumes "\<forall>k. contains_record (fa_generations f) k \<longrightarrow> kv_get (fa_events f) k \<noteq> None"
  shows "index_ok f seen (index_locations f seen)"
    and "contains_record (fa_generations f) k \<Longrightarrow> kv_get (index_locations f seen) k \<noteq> None"
    and "kv_get (fa_evidence f) k \<noteq> None \<Longrightarrow> kv_get (index_locations f seen) k \<noteq> None"
  using assms
  by (simp_all add: index_locations_def index_evidence_indexed index_generations_indexed index_evidence_sets
      index_evidence_keeps index_generations_sets del: not_None_eq)

lemma gens_hold_contains:
  "gens_hold events gs \<Longrightarrow> contains_record gs k \<Longrightarrow> kv_get events k \<noteq> None"
  by (fastforce simp: gens_hold_def contains_record_def list_all_iff gen_holds_def)

lemma list_maps_Nil [simp]:
  "renumber n gs = [] \<longleftrightarrow> gs = []" "refresh_list a gs = [] \<longleftrightarrow> gs = []"
  by (cases gs; simp)+

definition reindexed :: "family \<Rightarrow> seen_map \<Rightarrow> seen_map \<Rightarrow> bool" where
  "reindexed f seen seen' \<longleftrightarrow> index_ok f seen seen' \<and> (\<forall>k. retains f k \<longrightarrow> kv_get seen' k \<noteq> None)"

lemma rebuild_family_ok:
  assumes "rebuild_family f seen = (f', seen')" and "family_base H f"
    and "\<forall>p\<in>set (fa_generations f). gen_times p"
  shows "same_records f f' \<and> family_ok H f' \<and> reindexed f' seen seen'
    \<and> fa_active f' = fa_active f \<and> fa_context f' = fa_context f"
proof -
  define f1 where "f1 = f\<lparr>fa_generations := fold_episodes f\<rparr>"
  define f2 where "f2 = attach_retained_evidence f1"
  define n where "n = count_leading_empty (fa_generations f2)"
  define gs where "gs = drop n (fa_generations f2)"
  define gs' where "gs' = refresh_list (fa_advanced f) (renumber (fa_pruned f + int n + 1) gs)"
  define F where "F = f\<lparr>fa_pruned := fa_pruned f + int n,
      fa_current := if gs = [] then None else Some (length gs - 1), fa_generations := gs'\<rparr>"
  have "rebuild_family f seen = (F, index_locations F seen)"
    by (simp add: rebuild_family_def Let_def F_def f1_def f2_def n_def gs_def gs'_def refresh_statuses_def
        release_leading_empty_episodes_def attach_retained_evidence_def cong: if_cong)
  with assms(1) have e: "f' = F" "seen' = index_locations F seen"
    by auto
  have f': "f' = f\<lparr>fa_pruned := fa_pruned f + int n,
      fa_current := if gs = [] then None else Some (length gs - 1), fa_generations := gs'\<rparr>"
    using e(1) unfolding F_def .
  have seen': "seen' = index_locations f' seen"
    unfolding e ..
  have o: "\<forall>r\<in>set (fa_ordered f). kv_get (fa_events f) (nl_record_id r) = Some r \<and> record_times r"
    using base_ordered [OF assms(2)] base_event [OF assms(2)] unfolding record_ok_def by blast
  have b1: "family_base H f1"
    using assms(2) by (simp add: family_base_def frontiers_ok_def f1_def)
  have h1: "gens_hold (fa_events f1) (fa_generations f1)"
    using fold_episodes_holds(1) [OF o assms(3)] by (simp add: f1_def)
  have full: "gens_full (fa_events f) (fa_evidence f) (fa_generations f2)"
    using attach_retained_full [OF b1 h1] by (simp add: f2_def f1_def)
  have c: "contains_record gs' k \<longleftrightarrow> kv_get (fa_events f) k \<noteq> None" for k
  proof -
    have "contains_record gs' k = contains_record (fold_episodes f) k"
      by (simp add: gs'_def gs_def n_def drop_leading_empty_contains contains_record_records f2_def f1_def
          attach_retained_evidence_def)
    also have "\<dots> \<longleftrightarrow> k \<in> nl_record_id ` set (fa_ordered f)"
      by (rule fold_episodes_holds(2) [OF o assms(3)])
    also have "\<dots> \<longleftrightarrow> kv_get (fa_events f) k \<noteq> None"
      by (rule base_ordered_ids [OF assms(2)])
    finally show ?thesis .
  qed
  have g: "gens_full (fa_events f) (fa_evidence f) gs'"
    using gens_full_set [OF set_drop_subset full, of n] by (simp add: gs'_def gs_def)
  have "numbered (fa_pruned f + int n + 1) gs'"
    by (simp add: gs'_def numbered_renumber)
  moreover have "statuses_ok gs'" "length gs' = length gs" "gs' = [] \<longleftrightarrow> gs = []"
    by (simp_all add: gs'_def)
  ultimately have "family_gens f'"
    using g c by (simp add: family_gens_def f')
  moreover have sr: "same_records f f'"
    by (simp add: same_records_def f')
  moreover have "reindexed f' seen seen'"
  proof -
    have "contains_record (fa_generations f') k \<longleftrightarrow> kv_get (fa_events f') k \<noteq> None" for k
      using c by (simp add: f')
    then show ?thesis
      using index_locations_ok [where f = f' and seen = seen] unfolding reindexed_def retains_def seen' by blast
  qed
  ultimately show ?thesis
    using assms(2) by (simp add: family_ok_def same_records_base f')
qed

section \<open>Folding one more record\<close>

text \<open>The record just stored in \<open>events\<close> and \<open>ordered\<close>, before the episodes follow.\<close>

definition pending_contribution :: "(bytes \<Rightarrow> bytes) \<Rightarrow> family \<Rightarrow> normalized_log \<Rightarrow> bool" where
  "pending_contribution H f r \<longleftrightarrow>
     family_base H f \<and> kv_get (fa_events f) (nl_record_id r) = Some r \<and> record_times r
     \<and> gens_full (fa_events f) (fa_evidence f) (fa_generations f)
     \<and> numbered (fa_pruned f + 1) (fa_generations f)
     \<and> fa_current f = (if fa_generations f = [] then None else Some (length (fa_generations f) - 1))
     \<and> (\<forall>k. kv_get (fa_events f) k \<noteq> None \<longrightarrow> k \<noteq> nl_record_id r \<longrightarrow> contains_record (fa_generations f) k)"

text \<open>The episodes after \<open>extend\<close>, before evidence is attached again: one more step of the fold.\<close>

definition extended :: "family \<Rightarrow> normalized_log \<Rightarrow> generation list" where
  "extended f r =
     (if opens_episode (last_generation (fa_generations f)) r
      then fa_generations f
           @ [add_contribution (new_generation (generation_count f + 1) (deployment_of r)) r]
      else butlast (fa_generations f) @ [add_contribution (last (fa_generations f)) r])"

lemma current_is_last:
  "fa_current f = (if fa_generations f = [] then None else Some (length (fa_generations f) - 1)) \<Longrightarrow>
   current_generation f = last_generation (fa_generations f)"
  by (simp add: current_generation_def last_generation_def last_conv_nth)

lemma clear_evidence_comp [simp]:
  "ge_number \<circ> clear_evidence = ge_number" "ge_status \<circ> clear_evidence = ge_status"
  "ge_records \<circ> clear_evidence = ge_records" "ge_deployment \<circ> clear_evidence = ge_deployment"
  by (simp_all add: fun_eq_iff)

lemma attach_retained_id [simp]: "fa_id (attach_retained_evidence f) = fa_id f"
  by (simp add: attach_retained_evidence_def)

lemma extend_family_cases:
  assumes "extend_family f r seen = (f', seen')"
    and "fa_current f = (if fa_generations f = [] then None else Some (length (fa_generations f) - 1))"
  obtains (created) g where "opens_episode (last_generation (fa_generations f)) r"
      "g = f\<lparr>fa_current := Some (length (fa_generations f)),
            fa_generations := refresh_list (fa_advanced f) (extended f r)\<rparr>"
      "f' = attach_retained_evidence g"
      "seen' = kv_put (nl_record_id r)
         \<lparr>lo_incident = fa_id f, lo_generation = ge_number (fa_generations f' ! length (fa_generations f)),
          lo_late = False, lo_evidence = False\<rparr> (index_evidence f' seen)"
  | (joined) "\<not> opens_episode (last_generation (fa_generations f)) r" "fa_generations f \<noteq> []"
      "f' = f\<lparr>fa_generations := refresh_list (fa_advanced f) (extended f r)\<rparr>"
      "seen' = kv_put (nl_record_id r)
         \<lparr>lo_incident = fa_id f, lo_generation = ge_number (fa_generations f' ! (length (fa_generations f) - 1)),
          lo_late = False, lo_evidence = False\<rparr> seen"
proof (cases "opens_episode (last_generation (fa_generations f)) r")
  case True
  let ?g = "f\<lparr>fa_current := Some (length (fa_generations f)),
            fa_generations := refresh_list (fa_advanced f) (extended f r)\<rparr>"
  have "extend_family f r seen =
      (attach_retained_evidence ?g,
       kv_put (nl_record_id r)
         \<lparr>lo_incident = fa_id f,
          lo_generation = ge_number (fa_generations (attach_retained_evidence ?g) ! length (fa_generations f)),
          lo_late = False, lo_evidence = False\<rparr> (index_evidence (attach_retained_evidence ?g) seen))"
    using True
    by (simp add: extend_family_def current_is_last [OF assms(2)] Let_def refresh_statuses_def
        attach_all_evidence_def extended_def)
  then show ?thesis
    using assms(1) True by (intro created [of ?g]) simp_all
next
  case False
  then have "fa_generations f \<noteq> []"
    by (auto simp: last_generation_def)
  moreover from this obtain gs g where "fa_generations f = gs @ [g]"
    by (cases "fa_generations f" rule: rev_cases) auto
  ultimately show ?thesis
    using assms(1) False
    by (intro joined) (auto simp: extend_family_def current_is_last [OF assms(2)] assms(2) Let_def
        refresh_statuses_def extended_def)
qed

lemma extended_contains:
  "contains_record (extended f r) k \<longleftrightarrow> contains_record (fa_generations f) k \<or> k = nl_record_id r"
proof (cases "opens_episode (last_generation (fa_generations f)) r")
  case False
  then obtain gs g where "fa_generations f = gs @ [g]"
    by (cases "fa_generations f" rule: rev_cases) (auto simp: last_generation_def)
  with False show ?thesis
    by (auto simp: extended_def contains_record_def kv_get_put)
qed (auto simp: extended_def contains_record_def kv_get_put)

lemma extended_full:
  assumes "gens_full events evs (fa_generations f)" and "kv_get events (nl_record_id r) = Some r"
    and "record_times r"
  shows "gens_full events evs (extended f r)"
proof (cases "opens_episode (last_generation (fa_generations f)) r")
  case True
  then show ?thesis
    using assms gen_add_contribution [of events "new_generation (generation_count f + 1) (deployment_of r)" r]
    by (simp add: extended_def gens_full_def)
next
  case False
  then obtain gs g where "fa_generations f = gs @ [g]"
    by (cases "fa_generations f" rule: rev_cases) (auto simp: last_generation_def)
  with False show ?thesis
    using assms gen_add_contribution [of events g r]
    by (auto simp: extended_def gens_full_def last_generation_def opens_episode_def)
qed

lemma extended_numbered:
  assumes "numbered (fa_pruned f + 1) (fa_generations f)"
  shows "numbered (fa_pruned f + 1) (extended f r)"
proof (cases "opens_episode (last_generation (fa_generations f)) r")
  case True
  then show ?thesis
    using assms by (simp add: extended_def numbered_def generation_count_def)
next
  case False
  then obtain gs g where "fa_generations f = gs @ [g]"
    by (cases "fa_generations f" rule: rev_cases) (auto simp: last_generation_def)
  with False show ?thesis
    using assms by (simp add: extended_def numbered_def)
qed

lemma extend_family_ok:
  assumes "extend_family f r seen = (f', seen')" and "pending_contribution H f r"
  shows "same_records f f' \<and> family_ok H f' \<and> index_ok f' seen seen'
    \<and> kv_get seen' (nl_record_id r) \<noteq> None \<and> fa_active f' = fa_active f \<and> fa_context f' = fa_context f"
proof -
  note p = assms(2) [unfolded pending_contribution_def]
  have cur: "fa_current f = (if fa_generations f = [] then None else Some (length (fa_generations f) - 1))"
    using p by blast
  let ?gs = "refresh_list (fa_advanced f) (extended f r)"
  have full: "gens_full (fa_events f) (fa_evidence f) ?gs"
    using p extended_full [of "fa_events f" "fa_evidence f" f r] by simp
  have num: "numbered (fa_pruned f + 1) ?gs"
    using p extended_numbered by simp
  have con: "contains_record ?gs k" if "kv_get (fa_events f) k \<noteq> None" for k
    using p that by (simp add: contains_record_records extended_contains) blast
  have loc: "location_ok f' (nl_record_id r)
      \<lparr>lo_incident = fa_id f, lo_generation = n, lo_late = False, lo_evidence = False\<rparr>"
    if "same_records f f'" for n
    using p that by (simp add: location_ok_def same_records_def)
  from assms(1) cur show ?thesis
  proof (cases rule: extend_family_cases)
    case (created g)
    have sr: "same_records f f'"
      by (simp add: created(2,3) same_records_def attach_retained_evidence_def)
    have bg: "family_base H g"
      using p by (simp add: created(2) family_base_def frontiers_ok_def)
    have "gens_hold (fa_events g) (fa_generations g)"
      using full by (simp add: created(2) gens_full_def)
    then have "gens_full (fa_events f) (fa_evidence f) (fa_generations f')"
      using attach_retained_full [OF bg] by (simp add: created(2,3))
    moreover have st: "map ge_status (fa_generations f') = map ge_status ?gs"
      by (simp add: created(2,3) attach_retained_evidence_def)
    moreover have "statuses_ok (fa_generations f')"
      using refresh_list_statuses [of "fa_advanced f" "extended f r"] st
      by (simp add: statuses_ok_map)
    moreover have "numbered (fa_pruned f' + 1) (fa_generations f')"
      using num by (simp add: created(2,3) attach_retained_evidence_def numbered_def)
    moreover have "length (fa_generations f') = Suc (length (fa_generations f))"
      using created(1) by (simp add: created(2,3) attach_retained_evidence_def extended_def)
    moreover from calculation have "fa_generations f' \<noteq> []"
      by auto
    moreover have "fa_current f' = Some (length (fa_generations f))"
      by (simp add: created(2,3) attach_retained_evidence_def)
    moreover have "contains_record (fa_generations f') k" if "kv_get (fa_events f) k \<noteq> None" for k
      using con [OF that] by (simp add: created(2,3) attach_retained_evidence_def contains_record_records)
    ultimately have "family_gens f'"
      using sr by (simp add: family_gens_def same_records_def)
    moreover have "index_ok f' seen seen'"
      unfolding created(4) using loc [OF sr] by (intro index_ok_put index_evidence_indexed index_ok_refl)
    moreover have "family_base H f'"
      using p by (simp add: same_records_base [OF sr])
    moreover have "kv_get seen' (nl_record_id r) \<noteq> None"
      by (simp add: created(4) kv_get_put)
    moreover have "fa_active f' = fa_active f" "fa_context f' = fa_context f"
      by (simp_all add: created(2,3) attach_retained_evidence_def)
    ultimately show ?thesis
      using sr by (simp only: family_ok_def simp_thms)
  next
    case joined
    have sr: "same_records f f'"
      by (simp add: joined same_records_def)
    have "family_gens f'"
      using full num con joined cur
      by (auto simp: family_gens_def extended_def simp del: not_None_eq)
    moreover have "index_ok f' seen seen'"
      unfolding joined(4) using loc [OF sr] by (intro index_ok_put index_ok_refl)
    moreover have "family_base H f'"
      using p by (simp add: same_records_base [OF sr])
    moreover have "kv_get seen' (nl_record_id r) \<noteq> None"
      by (simp add: joined(4) kv_get_put)
    moreover have "fa_active f' = fa_active f" "fa_context f' = fa_context f"
      by (simp_all add: joined(3))
    ultimately show ?thesis
      using sr by (simp only: family_ok_def simp_thms)
  qed
qed

end
