(* ===== verification/IncidentObserve.thy ===== *)
theory IncidentObserve
  imports IncidentInvariant
begin

text \<open>
  \<open>Observe\<close> and \<open>prune\<close> keep a family's invariant, and what each does to the identities it retains.
\<close>

section \<open>Observing\<close>

lemma finalize_through_sel [simp]:
  "fa_id (finalize_through t f) = fa_id f" "fa_events (finalize_through t f) = fa_events f"
  "fa_evidence (finalize_through t f) = fa_evidence f" "fa_ordered (finalize_through t f) = fa_ordered f"
  "fa_generations (finalize_through t f) = fa_generations f"
  "fa_current (finalize_through t f) = fa_current f" "fa_active (finalize_through t f) = fa_active f"
  "fa_context (finalize_through t f) = fa_context f" "fa_pruned (finalize_through t f) = fa_pruned f"
  "fa_advanced (finalize_through t f) = fa_advanced f"
  "fa_watermark (finalize_through t f) = fa_watermark f"
  "fa_max_event (finalize_through t f) = fa_max_event f"
  "fa_last_activity (finalize_through t f) = fa_last_activity f"
  by (simp_all add: finalize_through_def)

lemma observe_frontier_sel [simp]:
  "fa_id (observe_frontier r f) = fa_id f" "fa_events (observe_frontier r f) = fa_events f"
  "fa_evidence (observe_frontier r f) = fa_evidence f" "fa_ordered (observe_frontier r f) = fa_ordered f"
  "fa_generations (observe_frontier r f) = fa_generations f"
  "fa_current (observe_frontier r f) = fa_current f" "fa_active (observe_frontier r f) = fa_active f"
  "fa_context (observe_frontier r f) = fa_context f" "fa_pruned (observe_frontier r f) = fa_pruned f"
  "fa_advanced (observe_frontier r f) = fa_advanced f"
  by (simp_all add: observe_frontier_def Let_def)

lemma observe_frontier_frontiers:
  "frontiers_ok f \<Longrightarrow> record_times r \<Longrightarrow> frontiers_ok (observe_frontier r f)"
  by (auto simp: frontiers_ok_def observe_frontier_def Let_def finalize_through_def record_times_def sane_def)

lemma observe_frontier_ok:
  "family_ok H f \<Longrightarrow> record_times r \<Longrightarrow> family_ok H (observe_frontier r f)"
  by (simp add: family_ok_def family_base_def family_gens_def observe_frontier_frontiers)

lemma observe_frontier_retains [simp]:
  "retains (observe_frontier r f) k = retains f k"
  "location_ok (observe_frontier r f) k lo = location_ok f k lo"
  by (simp_all add: retains_def location_ok_def)

text \<open>A family only ever gains the observed record.\<close>

definition gains :: "family \<Rightarrow> bytes \<Rightarrow> family \<Rightarrow> bool" where
  "gains f k0 f' \<longleftrightarrow> fa_id f' = fa_id f
     \<and> (\<forall>k. kv_get (fa_events f) k \<noteq> None \<longrightarrow> kv_get (fa_events f') k \<noteq> None)
     \<and> (\<forall>k. kv_get (fa_evidence f) k \<noteq> None \<longrightarrow> kv_get (fa_evidence f') k \<noteq> None)
     \<and> (\<forall>k. retains f' k \<longleftrightarrow> retains f k \<or> k = k0)"

lemma gains_location: "gains f k0 f' \<Longrightarrow> location_ok f k lo \<Longrightarrow> location_ok f' k lo"
  by (simp add: gains_def location_ok_def del: not_None_eq split: if_splits)

lemma evidence_holds_mono:
  "evidence_holds evs g \<Longrightarrow> kv_get evs k = None \<Longrightarrow> evidence_holds (kv_put k ev evs) g"
  by (fastforce simp: evidence_holds_def kv_get_put)

lemma gen_holds_mono:
  "gen_holds events g \<Longrightarrow> kv_get events k = None \<Longrightarrow> gen_holds (kv_put k r events) g"
  by (auto simp: gen_holds_def kv_get_put)

lemma gens_full_mono:
  "gens_full events evs gs \<Longrightarrow> kv_get evs k = None \<Longrightarrow> gens_full events (kv_put k ev evs) gs"
  "gens_full events evs gs \<Longrightarrow> kv_get events k = None \<Longrightarrow> gens_full (kv_put k r events) evs gs"
  by (auto simp: gens_full_def gens_hold_def list_all_iff intro: evidence_holds_mono gen_holds_mono)

lemma retains_None: "\<not> retains f k \<longleftrightarrow> kv_get (fa_events f) k = None \<and> kv_get (fa_evidence f) k = None"
  by (simp add: retains_def)

lemma evidence_base:
  assumes "family_base H f" and "record_ok H (fa_id f) k (ev_record ev)" and "\<not> retains f k"
  shows "family_base H (f\<lparr>fa_evidence := kv_put k ev (fa_evidence f)\<rparr>)"
  using assms by (auto simp: family_base_def frontiers_ok_def kv_wf_put kv_get_put retains_None)

lemma observe_evidence_ok:
  assumes "observe_evidence f r seen = (u, f', seen')" and "family_ok H f"
    and "record_ok H (fa_id f) (nl_record_id r) r" and "\<not> retains f (nl_record_id r)"
  shows "family_ok H f' \<and> gains f (nl_record_id r) f' \<and> index_ok f' seen seen'
    \<and> kv_get seen' (nl_record_id r) \<noteq> None"
proof -
  let ?k = "nl_record_id r"
  define ev where "ev = \<lparr>ev_record = r, ev_attach = \<not> very_late f r \<and> generation_for_evidence (fa_generations f) r \<noteq> None,
                         ev_late = observed_late f r\<rparr>"
  define f1 where "f1 = f\<lparr>fa_evidence := kv_put ?k ev (fa_evidence f)\<rparr>"
  define gs where "gs = (if ev_attach ev then attach_one (fa_generations f) r else fa_generations f)"
  have at: "attach_evidence f1 ev seen = (f', seen')"
    using assms(1) by (auto simp: observe_evidence_def Let_def ev_def f1_def split: prod.splits)
  then have f': "f' = f1\<lparr>fa_generations := gs\<rparr>"
    by (auto simp: attach_evidence_def Let_def gs_def attach_one_def f1_def ev_def split: option.splits)
  have b: "family_base H f" and g: "family_gens f"
    using assms(2) by (simp_all add: family_ok_def)
  have n: "kv_get (fa_evidence f) ?k = None"
    using assms(4) by (simp add: retains_None)
  have er: "ev_record ev = r"
    by (simp add: ev_def)
  have b1: "family_base H f1"
    using evidence_base [OF b _ assms(4), of ev] assms(3) by (simp add: f1_def er)
  have "gens_full (fa_events f) (fa_evidence f1) (fa_generations f)"
    using g n by (simp add: f1_def family_gens_def gens_full_mono)
  then have "gens_full (fa_events f) (fa_evidence f1) gs"
    using attach_one_full [of "fa_events f" "fa_evidence f1" "fa_generations f" r ev]
    by (simp add: gs_def f1_def kv_get_put er)
  moreover have m: "map ge_records gs = map ge_records (fa_generations f)"
    "map ge_status gs = map ge_status (fa_generations f)"
    "map ge_number gs = map ge_number (fa_generations f)" "length gs = length (fa_generations f)"
    by (simp_all add: gs_def)
  ultimately have "family_gens f'"
    using g statuses_ok_map [OF m(2)] contains_record_cong [OF m(1)]
    by (auto simp: family_gens_def f' f1_def numbered_def)
  moreover have "family_base H f'"
    using b1 by (simp add: f' family_base_def frontiers_ok_def)
  moreover have "gains f ?k f'"
    by (auto simp: gains_def f' f1_def kv_get_put retains_def)
  moreover have "\<exists>lo. seen' = kv_put ?k lo seen \<and> location_ok f' ?k lo"
    using at by (auto simp: attach_evidence_def Let_def location_ok_def f' f1_def er kv_get_put)
  ultimately show ?thesis
    by (auto simp: family_ok_def kv_get_put intro!: index_ok_put)
qed

lemma contribution_base:
  assumes "family_base H f" and "record_ok H (fa_id f) k r" and "\<not> retains f k"
    and "sorted_wrt sorts_before ordered" and "set ordered = insert r (set (fa_ordered f))"
  shows "family_base H (f\<lparr>fa_events := kv_put k r (fa_events f), fa_ordered := ordered\<rparr>)"
proof -
  have k: "nl_record_id r = k" "kv_get (fa_events f) k = None" "kv_get (fa_evidence f) k = None"
    using assms(2,3) by (auto simp: record_ok_def retains_None)
  have "r' \<in> set ordered \<longleftrightarrow> kv_get (kv_put k r (fa_events f)) (nl_record_id r') = Some r'" for r'
    using base_ordered [OF assms(1), of r'] assms(5) k by (auto simp: kv_get_put)
  then show ?thesis
    using assms(1,2,4) k by (auto simp: family_base_def frontiers_ok_def kv_wf_put kv_get_put)
qed

lemma observe_contribution_cases:
  assumes "observe_contribution f r seen = (u, f', seen')"
  obtains at_end f2 f3 requested where
    "insert_ordered (f\<lparr>fa_events := kv_put (nl_record_id r) r (fa_events f)\<rparr>) r = (f2, at_end)"
    "(if at_end then extend_family f2 r seen else rebuild_family f2 seen) = (f3, seen')"
    "requested = (\<not> fa_active f3 \<and> threshold_generation f3 \<noteq> None)"
    "f' = f3\<lparr>fa_active := fa_active f3 \<or> requested,
             fa_context := if fa_active f3 \<or> requested then generation_count f3 else fa_context f3\<rparr>"
    "up_investigation_requested u = requested"
proof -
  obtain f2 at_end where i: "insert_ordered (f\<lparr>fa_events := kv_put (nl_record_id r) r (fa_events f)\<rparr>) r = (f2, at_end)"
    by fastforce
  obtain f3 s where e: "(if at_end then extend_family f2 r seen else rebuild_family f2 seen) = (f3, s)"
    by fastforce
  have "s = seen'"
    "f' = f3\<lparr>fa_active := fa_active f3 \<or> (\<not> fa_active f3 \<and> threshold_generation f3 \<noteq> None),
             fa_context := if fa_active f3 \<or> (\<not> fa_active f3 \<and> threshold_generation f3 \<noteq> None)
                           then generation_count f3 else fa_context f3\<rparr>"
    "up_investigation_requested u = (\<not> fa_active f3 \<and> threshold_generation f3 \<noteq> None)"
    using assms
    by (auto simp: observe_contribution_def Let_def i e make_update_def generation_count_def
        split: if_splits option.splits)
  with i e show ?thesis
    by (intro that) auto
qed

lemma contribution_prepared:
  assumes "insert_ordered (f\<lparr>fa_events := kv_put (nl_record_id r) r (fa_events f)\<rparr>) r = (f2, at_end)"
    and "family_ok H f" and "record_ok H (fa_id f) (nl_record_id r) r" and "\<not> retains f (nl_record_id r)"
  shows "pending_contribution H f2 r"
    and "f2 = f\<lparr>fa_events := kv_put (nl_record_id r) r (fa_events f), fa_ordered := fa_ordered f2\<rparr>"
    and "at_end \<Longrightarrow> fa_ordered f2 = fa_ordered f @ [r]"
proof -
  let ?k = "nl_record_id r"
  let ?f1 = "f\<lparr>fa_events := kv_put ?k r (fa_events f)\<rparr>"
  have b: "family_base H f" and g: "family_gens f"
    using assms(2) by (simp_all add: family_ok_def)
  have n: "kv_get (fa_events f) ?k = None" "kv_get (fa_evidence f) ?k = None"
    using assms(4) by (simp_all add: retains_None)
  have new: "\<forall>y\<in>set (fa_ordered ?f1). nl_record_id y \<noteq> ?k"
    using base_ordered [OF b] n(1) by auto
  have s: "sorted_wrt sorts_before (fa_ordered ?f1)"
    using b by (simp add: family_base_def)
  obtain ordered where o: "f2 = ?f1\<lparr>fa_ordered := ordered\<rparr>" "sorted_wrt sorts_before ordered"
    "set ordered = insert r (set (fa_ordered f))" "at_end \<longrightarrow> ordered = fa_ordered f @ [r]"
    using insert_ordered_sorted [OF s new assms(1)] by auto
  have b2: "family_base H f2"
    unfolding o(1) using contribution_base [OF b assms(3,4) o(2,3)] by simp
  have rt: "record_times r"
    using assms(3) by (simp add: record_ok_def)
  have full: "gens_full (fa_events f2) (fa_evidence f2) (fa_generations f2)"
    using g n by (simp add: o(1) family_gens_def gens_full_mono)
  show "pending_contribution H f2 r"
    using b2 rt full g by (auto simp: pending_contribution_def o(1) kv_get_put family_gens_def)
  show "f2 = f\<lparr>fa_events := kv_put ?k r (fa_events f), fa_ordered := fa_ordered f2\<rparr>"
    by (simp add: o(1))
  show "fa_ordered f2 = fa_ordered f @ [r]" if at_end
    using that o by simp
qed

lemma observe_contribution_ok:
  assumes "observe_contribution f r seen = (u, f', seen')" and "family_ok H f"
    and "record_ok H (fa_id f) (nl_record_id r) r" and "\<not> retains f (nl_record_id r)"
  shows "family_ok H f' \<and> gains f (nl_record_id r) f' \<and> index_ok f' seen seen'
    \<and> kv_get seen' (nl_record_id r) \<noteq> None"
  using assms(1)
proof (cases rule: observe_contribution_cases)
  case (1 at_end f2 f3 requested)
  let ?k = "nl_record_id r"
  note p = contribution_prepared(1) [OF 1(1) assms(2-4)]
  note f2 = contribution_prepared(2) [OF 1(1) assms(2-4)]
  have k2: "fa_id f2 = fa_id f" "fa_events f2 = kv_put ?k r (fa_events f)" "fa_evidence f2 = fa_evidence f"
    by (subst f2, simp)+
  have "same_records f2 f3 \<and> family_ok H f3 \<and> index_ok f3 seen seen' \<and> kv_get seen' ?k \<noteq> None"
  proof (cases at_end)
    case True
    with extend_family_ok [of f2 r seen f3 seen' H] 1(2) p show ?thesis
      by simp
  next
    case False
    have "family_base H f2" "\<forall>g\<in>set (fa_generations f2). gen_times g"
      using p by (simp_all add: pending_contribution_def gens_full_def gens_hold_def list_all_iff)
    with rebuild_family_ok [of f2 seen f3 seen' H] 1(2) False
    have "same_records f2 f3" "family_ok H f3" "reindexed f3 seen seen'"
      by simp_all
    moreover from this(1) have "retains f3 ?k"
      by (simp add: retains_def same_records_def k2 kv_get_put)
    ultimately show ?thesis
      by (simp add: reindexed_def del: not_None_eq)
  qed
  then have r3: "same_records f2 f3" "family_ok H f3" "index_ok f3 seen seen'" "kv_get seen' ?k \<noteq> None"
    by blast+
  have "family_ok H f'"
    using r3(2) by (simp add: 1(4) family_ok_def family_base_def frontiers_ok_def family_gens_def)
  moreover have "gains f ?k f'"
    using r3(1) by (auto simp: gains_def 1(4) same_records_def k2 kv_get_put retains_def)
  moreover have "index_ok f' seen seen'"
  proof -
    have "location_ok f' k lo = location_ok f3 k lo" for k lo
      by (simp add: location_ok_def 1(4))
    with r3(3) show ?thesis
      by (simp only: index_ok_def simp_thms)
  qed
  ultimately show ?thesis
    using r3(4) by blast
qed

lemma observe_family_ok:
  assumes "observe_family f r seen = (u, f', seen')" and "family_ok H f"
    and "record_ok H (fa_id f) (nl_record_id r) r" and "\<not> retains f (nl_record_id r)"
  shows "family_ok H f' \<and> gains f (nl_record_id r) f' \<and> index_ok f' seen seen'
    \<and> kv_get seen' (nl_record_id r) \<noteq> None"
proof -
  let ?f = "observe_frontier r f"
  have ok: "family_ok H ?f"
    using assms(2,3) by (simp add: observe_frontier_ok record_ok_def)
  have "family_ok H f' \<and> gains ?f (nl_record_id r) f' \<and> index_ok f' seen seen'
    \<and> kv_get seen' (nl_record_id r) \<noteq> None"
    using assms observe_evidence_ok [OF _ ok, of r seen u f' seen'] observe_contribution_ok [OF _ ok, of r seen u f' seen']
    by (simp add: observe_family_def Let_def split: if_splits)
  then show ?thesis
    by (simp add: gains_def)
qed

end
