(* ===== verification/IncidentReach.thy ===== *)
theory IncidentReach
  imports IncidentObserve
begin

text \<open>
  The engine as a state machine. \<open>engine_ok\<close> ties the identity index to the families: an identity is
  indexed exactly when its family retains it, as evidence or as a contribution. Observing, pinning and
  advancing keep it in every reachable engine.
\<close>

section \<open>Pruning\<close>

definition del_keys :: "bytes list \<Rightarrow> (bytes, 'v) kv \<Rightarrow> (bytes, 'v) kv" where
  "del_keys ks m = fold kv_del ks m"

lemma kv_get_del_keys: "kv_get (del_keys ks m) k = (if k \<in> set ks then None else kv_get m k)"
  by (induction ks arbitrary: m) (simp_all add: del_keys_def kv_get_del)

lemma kv_wf_del_keys: "kv_wf m \<Longrightarrow> kv_wf (del_keys ks m)"
  by (induction ks arbitrary: m) (simp_all add: del_keys_def kv_wf_del)

definition forget_all :: "bytes list \<Rightarrow> engine \<Rightarrow> engine" where
  "forget_all ks e =
     e\<lparr>en_seen := del_keys ks (en_seen e), en_pruned_seen := en_pruned_seen e + int (length ks)\<rparr>"

lemma forget_all_Nil [simp]: "forget_all [] e = e"
  by (simp add: forget_all_def del_keys_def)

lemma forget_all_forget: "forget_all ks (forget k e) = forget_all (k # ks) e"
  by (simp add: forget_all_def forget_def del_keys_def)

lemma is_pinned_forget [simp]: "is_pinned (forget k e) = is_pinned e"
  by (simp add: fun_eq_iff is_pinned_def forget_def)

lemma is_pinned_forget_all [simp]: "is_pinned (forget_all ks e) = is_pinned e"
  by (simp add: fun_eq_iff is_pinned_def forget_all_def)

lemma prune_ordered_result:
  "prune_ordered bound i rs kept events e n =
     (let out = filter (\<lambda>r. \<not> is_pinned e (nl_record_id r)) (take (bound - i) rs)
      in (kept @ filter (\<lambda>r. is_pinned e (nl_record_id r)) (take (bound - i) rs) @ drop (bound - i) rs,
          del_keys (map nl_record_id out) events, forget_all (map nl_record_id out) e, n + length out))"
proof (induction rs arbitrary: i kept events e n)
  case (Cons r rs)
  show ?case
  proof (cases "i < bound")
    case True
    then have b: "bound - i = Suc (bound - Suc i)"
      by simp
    show ?thesis
      using True Cons.IH by (simp add: b Let_def forget_all_forget) (simp add: del_keys_def)
  next
    case False
    then show ?thesis
      using Cons.IH [of "Suc i" "kept @ [r]"] by (simp add: Let_def)
  qed
qed (simp add: Let_def del_keys_def)

lemma prune_evidence_result:
  "prune_evidence horizon es evidence e n =
     (let out = map fst (filter (\<lambda>(k, ev). before (nl_event_time (ev_record ev)) horizon \<and> \<not> is_pinned e k) es)
      in (del_keys out evidence, forget_all out e, n + length out))"
proof (induction es arbitrary: evidence e n)
  case (Cons x es)
  obtain k ev where x: "x = (k, ev)"
    by fastforce
  show ?case
    using Cons.IH by (simp add: x Let_def forget_all_forget) (simp add: del_keys_def)
qed (simp add: Let_def del_keys_def)

definition expired :: "engine \<Rightarrow> gtime \<Rightarrow> normalized_log \<Rightarrow> bool" where
  "expired e horizon r \<longleftrightarrow> before (nl_event_time r) horizon \<and> \<not> is_pinned e (nl_record_id r)"

lemma expired_prefix:
  assumes "sorted_wrt sorts_before xs"
  shows "take (sort_search (length xs) (\<lambda>i. \<not> before (nl_event_time (xs ! i)) h)) xs
      = filter (\<lambda>r. before (nl_event_time r) h) xs"
    and "drop (sort_search (length xs) (\<lambda>i. \<not> before (nl_event_time (xs ! i)) h)) xs
      = filter (\<lambda>r. \<not> before (nl_event_time r) h) xs"
proof -
  have p: "\<not> before (nl_event_time b) h" if "sorts_before a b" "\<not> before (nl_event_time a) h" for a b
    using that by (auto simp: sorts_before_def before_def same_instant_def split: if_splits)
  let ?P = "\<lambda>r. \<not> before (nl_event_time r) h"
  have l: "sort_search (length xs) (\<lambda>i. ?P (xs ! i)) = length (takeWhile (\<lambda>r. \<not> ?P r) xs)"
    using assms p by (rule search_sorted)
  have w: "takeWhile (\<lambda>r. \<not> ?P r) xs = filter (\<lambda>r. \<not> ?P r) xs \<and> dropWhile (\<lambda>r. \<not> ?P r) xs = filter ?P xs"
    using assms p by (rule takeWhile_sorted_filter)
  show "take (sort_search (length xs) (\<lambda>i. ?P (xs ! i))) xs = filter (\<lambda>r. before (nl_event_time r) h) xs"
    unfolding l takeWhile_eq_take [symmetric] using w by simp
  show "drop (sort_search (length xs) (\<lambda>i. ?P (xs ! i))) xs = filter ?P xs"
    unfolding l dropWhile_eq_drop [symmetric] using w by simp
qed

text \<open>What \<open>prune\<close> removes, and that it leaves the rest of the family and engine alone.\<close>

lemma prune_result:
  assumes "prune e f now = (released, f', e')" and "family_base H f"
  obtains (kept) "f' = f" "e' = e" "\<not> released"
  | (pruned) ks evs ordered where
      "f' = f\<lparr>fa_ordered := ordered, fa_events := del_keys ks (fa_events f), fa_evidence := del_keys evs (fa_evidence f)\<rparr>"
      "released \<longleftrightarrow> ks @ evs \<noteq> []"
      "e' = e\<lparr>en_seen := del_keys (ks @ evs) (en_seen e), en_pruned_seen := en_pruned_seen e + int (length (ks @ evs))\<rparr>"
      "ordered = filter (\<lambda>r. nl_record_id r \<notin> set ks) (fa_ordered f)"
      "\<forall>k\<in>set ks. \<exists>r. kv_get (fa_events f) k = Some r \<and> expired e (retention_horizon f now) r"
      "\<forall>k\<in>set evs. \<exists>ev. kv_get (fa_evidence f) k = Some ev \<and> expired e (retention_horizon f now) (ev_record ev)"
proof (cases "is_zero (retention_horizon f now)")
  case True
  then show ?thesis
    using assms(1) by (intro kept) (simp_all add: prune_def)
next
  case False
  let ?h = "retention_horizon f now"
  define old where "old = filter (\<lambda>r. before (nl_event_time r) ?h) (fa_ordered f)"
  define ks where "ks = map nl_record_id (filter (\<lambda>r. \<not> is_pinned e (nl_record_id r)) old)"
  define ordered where "ordered = filter (\<lambda>r. is_pinned e (nl_record_id r)) old
      @ filter (\<lambda>r. \<not> before (nl_event_time r) ?h) (fa_ordered f)"
  define evs where "evs = map fst (filter (\<lambda>(k, ev). before (nl_event_time (ev_record ev)) ?h
      \<and> \<not> is_pinned e k) (fa_evidence f))"
  have s: "sorted_wrt sorts_before (fa_ordered f)"
    using assms(2) by (simp add: family_base_def)
  have r: "f' = f\<lparr>fa_ordered := ordered, fa_events := del_keys ks (fa_events f), fa_evidence := del_keys evs (fa_evidence f)\<rparr>"
    "e' = forget_all evs (forget_all ks e)" "released \<longleftrightarrow> ks @ evs \<noteq> []"
    using assms(1) False
    by (auto simp: prune_def Let_def prune_ordered_result prune_evidence_result expired_prefix [OF s]
        ks_def old_def ordered_def evs_def)
  have "e' = e\<lparr>en_seen := del_keys (ks @ evs) (en_seen e), en_pruned_seen := en_pruned_seen e + int (length (ks @ evs))\<rparr>"
    by (simp add: r(2) forget_all_def del_keys_def)
  moreover have "ordered = filter (\<lambda>r. nl_record_id r \<notin> set ks) (fa_ordered f)"
  proof -
    have q: "nl_record_id r \<notin> set ks \<longleftrightarrow> \<not> (before (nl_event_time r) ?h \<and> \<not> is_pinned e (nl_record_id r))"
      if "r \<in> set (fa_ordered f)" for r
      using that base_ordered [OF assms(2)] by (auto simp: ks_def old_def)
    have x: "fa_ordered f = old @ filter (\<lambda>r. \<not> before (nl_event_time r) ?h) (fa_ordered f)"
      unfolding old_def expired_prefix [OF s, of ?h, symmetric] by simp
    have "filter (\<lambda>r. nl_record_id r \<notin> set ks) (fa_ordered f)
        = filter (\<lambda>r. nl_record_id r \<notin> set ks) old
          @ filter (\<lambda>r. nl_record_id r \<notin> set ks) (filter (\<lambda>r. \<not> before (nl_event_time r) ?h) (fa_ordered f))"
      by (subst x) (simp only: filter_append)
    also have "\<dots> = ordered"
      unfolding ordered_def using q by (auto simp: old_def intro!: arg_cong2 [where f = append] filter_cong)
    finally show ?thesis ..
  qed
  moreover have "\<forall>k\<in>set ks. \<exists>r. kv_get (fa_events f) k = Some r \<and> expired e ?h r"
    using base_ordered [OF assms(2)] by (auto simp: ks_def old_def expired_def)
  moreover have "\<forall>k\<in>set evs. \<exists>ev. kv_get (fa_evidence f) k = Some ev \<and> expired e ?h (ev_record ev)"
  proof
    fix k
    assume "k \<in> set evs"
    then obtain ev where ev: "(k, ev) \<in> set (fa_evidence f)" "before (nl_event_time (ev_record ev)) ?h"
      "\<not> is_pinned e k"
      by (auto simp: evs_def)
    moreover have "kv_wf (fa_evidence f)"
      using assms(2) by (simp add: family_base_def)
    ultimately have g: "kv_get (fa_evidence f) k = Some ev"
      by (simp add: kv_entry_iff)
    with base_evidence [OF assms(2) g] ev show "\<exists>ev. kv_get (fa_evidence f) k = Some ev \<and> expired e ?h (ev_record ev)"
      by (auto simp: expired_def record_ok_def)
  qed
  ultimately show ?thesis
    by (rule pruned [OF r(1) r(3)])
qed

lemma base_disjoint:
  assumes "family_base H f"
  shows "kv_get (fa_events f) k = None \<or> kv_get (fa_evidence f) k = None"
proof -
  have "\<forall>k. kv_get (fa_events f) k = None \<or> kv_get (fa_evidence f) k = None"
    using assms by (simp add: family_base_def)
  then show ?thesis ..
qed

section \<open>Compaction of one family\<close>

text \<open>How the identity index follows a family from \<open>f0\<close> to \<open>f\<close>.\<close>

definition follows :: "family \<Rightarrow> family \<Rightarrow> seen_map \<Rightarrow> seen_map \<Rightarrow> bool" where
  "follows f0 f seen seen' \<longleftrightarrow>
     (\<forall>k. \<not> retains f0 k \<longrightarrow> \<not> retains f k \<longrightarrow> kv_get seen' k = kv_get seen k)
     \<and> (\<forall>k. retains f k \<longrightarrow> (\<exists>lo. kv_get seen' k = Some lo \<and> location_ok f k lo))
     \<and> (\<forall>k. retains f0 k \<longrightarrow> \<not> retains f k \<longrightarrow> kv_get seen' k = None)
     \<and> (\<forall>k. retains f k \<longrightarrow> \<not> retains f0 k \<longrightarrow> kv_get seen k = None)"

definition located :: "family \<Rightarrow> seen_map \<Rightarrow> bool" where
  "located f seen \<longleftrightarrow> (\<forall>k. retains f k \<longrightarrow> (\<exists>lo. kv_get seen k = Some lo \<and> location_ok f k lo))"

lemma follows_same:
  "located f seen \<Longrightarrow> follows f f seen seen"
  by (simp add: follows_def located_def)

lemma pruned_base:
  assumes "family_base H f" and "ordered = filter (\<lambda>r. nl_record_id r \<notin> set ks) (fa_ordered f)"
  shows "family_base H (f\<lparr>fa_ordered := ordered, fa_events := del_keys ks (fa_events f),
    fa_evidence := del_keys evs (fa_evidence f)\<rparr>)"
proof -
  have "r \<in> set ordered \<longleftrightarrow> kv_get (del_keys ks (fa_events f)) (nl_record_id r) = Some r" for r
    using base_ordered [OF assms(1), of r] by (simp add: assms(2) kv_get_del_keys)
  then show ?thesis
    using assms(1) unfolding family_base_def
    by (simp add: kv_wf_del_keys kv_get_del_keys frontiers_ok_def assms(2) sorted_wrt_filter)
qed

lemma compact_family_ok:
  assumes "prune e f0 now = (released, f1, e1)"
    and "(if released then rebuild_family f1 (en_seen e1) else (f1, en_seen e1)) = (f, seen')"
    and "family_ok H f0" and "located f0 (en_seen e)"
  shows "family_ok H f \<and> fa_id f = fa_id f0 \<and> follows f0 f (en_seen e) seen'
    \<and> en_families e1 = en_families e \<and> en_pinned e1 = en_pinned e
    \<and> fa_active f = fa_active f0 \<and> fa_last_activity f = fa_last_activity f0"
proof -
  have b: "family_base H f0" and g: "family_gens f0"
    using assms(3) by (simp_all add: family_ok_def)
  from assms(1) b show ?thesis
  proof (cases rule: prune_result)
    case kept
    with assms follows_same show ?thesis
      by simp
  next
    case (pruned ks evs ordered)
    have b1: "family_base H f1"
      unfolding pruned(1) by (rule pruned_base [OF b pruned(4)])
    show ?thesis
    proof (cases released)
      case False
      then have "ks = []" "evs = []"
        using pruned(2) by simp_all
      then have "f1 = f0" "e1 = e"
        by (simp_all add: pruned(1,3,4) del_keys_def)
      with False assms follows_same show ?thesis
        by simp
    next
      case True
      have "\<forall>p\<in>set (fa_generations f1). gen_times p"
        using g by (simp add: pruned(1) family_gens_def gens_full_def gens_hold_def list_all_iff)
      with rebuild_family_ok [of f1 "en_seen e1" f seen' H] assms(2) True b1
      have r: "same_records f1 f" "family_ok H f" "reindexed f (en_seen e1) seen'" "fa_active f = fa_active f1"
        by simp_all
      have s1: "kv_get (en_seen e1) k = (if k \<in> set ks \<union> set evs then None else kv_get (en_seen e) k)" for k
        by (simp add: pruned(3) kv_get_del_keys)
      have ev: "kv_get (fa_events f) k = (if k \<in> set ks then None else kv_get (fa_events f0) k)"
        "kv_get (fa_evidence f) k = (if k \<in> set evs then None else kv_get (fa_evidence f0) k)" for k
        using r(1) by (simp_all add: same_records_def pruned(1) kv_get_del_keys)
      have dis: "kv_get (fa_events f0) k = None \<or> kv_get (fa_evidence f0) k = None" for k
        using base_disjoint [OF b] .
      have ks: "k \<in> set ks \<Longrightarrow> kv_get (fa_events f0) k \<noteq> None" "k \<in> set evs \<Longrightarrow> kv_get (fa_evidence f0) k \<noteq> None" for k
        using pruned(5,6) by fastforce+
      have ret: "retains f k \<longleftrightarrow> retains f0 k \<and> k \<notin> set ks \<union> set evs" for k
        using ev [of k] dis [of k] ks [of k] by (auto simp: retains_def)
      have loc: "location_ok f k lo" if "location_ok f0 k lo" "retains f k" for k lo
        using that ret [of k] ev [of k] r(1) by (simp add: location_ok_def same_records_def pruned(1) split: if_splits)
      have idx: "kv_get seen' k = kv_get (en_seen e1) k \<or> (\<exists>lo. kv_get seen' k = Some lo \<and> location_ok f k lo)" for k
        using r(3) by (simp add: reindexed_def index_ok_def)
      have a: "kv_get seen' k = kv_get (en_seen e) k" if "\<not> retains f0 k" for k
        using that idx [of k] s1 [of k] ret [of k] ks [of k] location_retains by (fastforce simp: retains_def)
      have bb: "\<exists>lo. kv_get seen' k = Some lo \<and> location_ok f k lo" if "retains f k" for k
      proof -
        have "retains f0 k"
          using that ret [of k] by blast
        then obtain lo where lo: "kv_get (en_seen e) k = Some lo" "location_ok f0 k lo"
          using assms(4) unfolding located_def by blast
        have "k \<notin> set ks \<union> set evs"
          using that ret [of k] by blast
        with lo(1) have "kv_get (en_seen e1) k = Some lo"
          unfolding s1 by (simp only: if_False)
        then show ?thesis
          using idx [of k] loc [OF lo(2) that] by auto
      qed
      have cc: "kv_get seen' k = None" if "retains f0 k" "\<not> retains f k" for k
      proof -
        have "kv_get (en_seen e1) k = None"
          using that ret [of k] by (simp add: s1)
        then show ?thesis
          using idx [of k] that(2) location_retains by fastforce
      qed
      have "follows f0 f (en_seen e) seen'"
        unfolding follows_def using a bb cc ret by blast
      then show ?thesis
        using r pruned(3) by (simp add: same_records_def pruned(1))
    qed
  qed
qed

section \<open>The engine invariant\<close>

definition engine_ok :: "(bytes \<Rightarrow> bytes) \<Rightarrow> engine \<Rightarrow> bool" where
  "engine_ok H e \<longleftrightarrow>
     (\<forall>i f. kv_get (en_families e) i = Some f \<longrightarrow> fa_id f = i \<and> family_ok H f \<and> located f (en_seen e))
     \<and> (\<forall>k lo. kv_get (en_seen e) k = Some lo \<longrightarrow>
          (\<exists>f. kv_get (en_families e) (lo_incident lo) = Some f \<and> location_ok f k lo))"

lemma engine_ok_family:
  "engine_ok H e \<Longrightarrow> kv_get (en_families e) i = Some f \<Longrightarrow> fa_id f = i \<and> family_ok H f \<and> located f (en_seen e)"
  unfolding engine_ok_def by blast

lemma engine_ok_seen:
  "engine_ok H e \<Longrightarrow> kv_get (en_seen e) k = Some lo \<Longrightarrow>
   \<exists>f. kv_get (en_families e) (lo_incident lo) = Some f \<and> location_ok f k lo"
  unfolding engine_ok_def by blast

text \<open>One family is replaced by another of the same identity, and the index follows.\<close>

lemma engine_ok_replace:
  assumes "engine_ok H e" and "fa_id f0 = i" and "fa_id f = i"
    and "kv_get (en_families e) i = Some fo \<and> (\<forall>k. retains fo k = retains f0 k)
         \<or> kv_get (en_families e) i = None \<and> (\<forall>k. \<not> retains f0 k)"
    and "family_ok H f" and "follows f0 f (en_seen e) seen'"
    and "\<And>j. kv_get families' j = (if j = i then Some f else kv_get (en_families e) j)
          \<or> j = i \<and> kv_get families' j = None \<and> (\<forall>k. \<not> retains f k)"
    and "en_families e' = families'" and "en_seen e' = seen'"
  shows "engine_ok H e'"
proof -
  note fl = assms(6) [unfolded follows_def]
  have inc: "lo_incident lo = i" if "kv_get (en_seen e) k = Some lo" "retains f0 k" for k lo
  proof -
    from that(2) assms(4) have "kv_get (en_families e) i = Some fo" "retains fo k"
      by auto
    with engine_ok_family [OF assms(1)] that(1) show ?thesis
      unfolding located_def location_ok_def by (metis option.inject)
  qed
  have noinc: "lo_incident lo \<noteq> i" if s: "kv_get (en_seen e) k = Some lo" and n: "\<not> retains f0 k" for k lo
  proof (rule notI)
    assume i: "lo_incident lo = i"
    obtain f' where "kv_get (en_families e) i = Some f'" "location_ok f' k lo"
      using engine_ok_seen [OF assms(1) s] i by auto
    then have "retains f' k" "kv_get (en_families e) i = Some f'"
      by (simp_all add: location_retains)
    then show False
      using assms(4) n by auto
  qed
  show ?thesis
    unfolding engine_ok_def assms(8,9)
  proof (intro conjI allI impI)
    fix j g
    assume g: "kv_get families' j = Some g"
    show "fa_id g = j"
      using g assms(3) assms(7) [of j] engine_ok_family [OF assms(1)] by (auto split: if_splits)
    show "family_ok H g"
      using g assms(5) assms(7) [of j] engine_ok_family [OF assms(1)] by (auto split: if_splits)
    show "located g seen'"
    proof (cases "j = i")
      case True
      with g assms(7) [of j] have "g = f"
        by auto
      then show ?thesis
        using fl by (simp add: located_def)
    next
      case False
      with g assms(7) [of j] have o: "kv_get (en_families e) j = Some g"
        by auto
      show ?thesis
        unfolding located_def
      proof (intro allI impI)
        fix k
        assume k: "retains g k"
        then obtain lo where lo: "kv_get (en_seen e) k = Some lo" "location_ok g k lo"
          using engine_ok_family [OF assms(1) o] unfolding located_def by blast
        have "lo_incident lo = j"
          using lo(2) engine_ok_family [OF assms(1) o] by (simp add: location_ok_def)
        with False inc [OF lo(1)] have "\<not> retains f0 k"
          by auto
        moreover from this lo(1) fl have "\<not> retains f k"
          by fastforce
        ultimately show "\<exists>lo. kv_get seen' k = Some lo \<and> location_ok g k lo"
          using fl lo by auto
      qed
    qed
  next
    fix k lo
    assume lo: "kv_get seen' k = Some lo"
    show "\<exists>g. kv_get families' (lo_incident lo) = Some g \<and> location_ok g k lo"
    proof (cases "retains f k")
      case True
      then have "location_ok f k lo"
        using fl lo by fastforce
      moreover from this have "lo_incident lo = i"
        using assms(3) by (simp add: location_ok_def)
      ultimately show ?thesis
        using assms(7) [of i] True by auto
    next
      case False
      with lo fl have n: "\<not> retains f0 k"
        by fastforce
      with False lo fl have s: "kv_get (en_seen e) k = Some lo"
        by auto
      have "lo_incident lo \<noteq> i"
        by (rule noinc [OF s n])
      then show ?thesis
        using engine_ok_seen [OF assms(1) s] assms(7) [of "lo_incident lo"] by auto
    qed
  qed
qed

section \<open>Advancing\<close>

lemma advance_frontier_sel [simp]:
  "fa_id (advance_frontier now f) = fa_id f" "fa_events (advance_frontier now f) = fa_events f"
  "fa_evidence (advance_frontier now f) = fa_evidence f" "fa_ordered (advance_frontier now f) = fa_ordered f"
  "fa_generations (advance_frontier now f) = fa_generations f"
  "fa_current (advance_frontier now f) = fa_current f" "fa_active (advance_frontier now f) = fa_active f"
  "fa_context (advance_frontier now f) = fa_context f" "fa_pruned (advance_frontier now f) = fa_pruned f"
  "fa_max_event (advance_frontier now f) = fa_max_event f"
  "fa_watermark (advance_frontier now f) = fa_watermark f"
  "fa_last_activity (advance_frontier now f) = fa_last_activity f"
  by (simp_all add: advance_frontier_def Let_def)

lemma advance_frontier_frontiers:
  "frontiers_ok f \<Longrightarrow> t_utc now \<Longrightarrow> frontiers_ok (advance_frontier now f)"
  by (auto simp: frontiers_ok_def advance_frontier_def Let_def finalize_through_def strict_successor_def)

lemma refresh_statuses_sel [simp]:
  "fa_id (refresh_statuses f) = fa_id f" "fa_events (refresh_statuses f) = fa_events f"
  "fa_evidence (refresh_statuses f) = fa_evidence f" "fa_ordered (refresh_statuses f) = fa_ordered f"
  "fa_generations (refresh_statuses f) = refresh_list (fa_advanced f) (fa_generations f)"
  "fa_current (refresh_statuses f) = fa_current f" "fa_active (refresh_statuses f) = fa_active f"
  "fa_context (refresh_statuses f) = fa_context f" "fa_pruned (refresh_statuses f) = fa_pruned f"
  "fa_advanced (refresh_statuses f) = fa_advanced f" "fa_finalized (refresh_statuses f) = fa_finalized f"
  "fa_max_event (refresh_statuses f) = fa_max_event f"
  "fa_watermark (refresh_statuses f) = fa_watermark f"
  "fa_last_activity (refresh_statuses f) = fa_last_activity f"
  by (simp_all add: refresh_statuses_def)

definition advanced_family :: "gtime \<Rightarrow> family \<Rightarrow> family" where
  "advanced_family now f = refresh_statuses (advance_frontier now f)"

lemma advance_family_result:
  assumes "advance_family now f0 = (us, f)"
  obtains (idle) "f = advanced_family now f0"
  | (launched) i where "\<not> fa_active f0" "threshold_generation (advanced_family now f0) = Some i"
      "f = (advanced_family now f0)\<lparr>fa_active := True, fa_context := generation_count (advanced_family now f0)\<rparr>"
proof (cases "fa_active f0 \<or> threshold_generation (advanced_family now f0) = None")
  case True
  then have "f = advanced_family now f0"
    using assms by (auto simp: advance_family_def Let_def advanced_family_def)
  then show ?thesis
    by (rule idle)
next
  case False
  then obtain i where i: "threshold_generation (advanced_family now f0) = Some i" "\<not> fa_active f0"
    by auto
  then have "f = (advanced_family now f0)\<lparr>fa_active := True, fa_context := generation_count (advanced_family now f0)\<rparr>"
    using assms by (auto simp: advance_family_def Let_def advanced_family_def)
  with i show ?thesis
    by (intro launched)
qed

lemma advanced_family_ok:
  assumes "family_ok H f" and "t_utc now"
  shows "family_ok H (advanced_family now f)"
proof -
  have "frontiers_ok (advance_frontier now f)"
    using assms by (simp add: family_ok_def family_base_def advance_frontier_frontiers)
  then show ?thesis
    using assms(1)
    by (simp add: advanced_family_def family_ok_def family_base_def family_gens_def frontiers_ok_def
        contains_record_records)
qed

lemma advance_family_ok:
  assumes "advance_family now f0 = (us, f)" and "family_ok H f0" and "t_utc now"
  shows "family_ok H f \<and> fa_id f = fa_id f0 \<and> retains f = retains f0 \<and> location_ok f = location_ok f0"
  using assms(1)
proof (cases rule: advance_family_result)
  case idle
  with advanced_family_ok [OF assms(2,3)] show ?thesis
    by (simp add: fun_eq_iff retains_def location_ok_def advanced_family_def)
next
  case (launched i)
  have "family_ok H f"
    using advanced_family_ok [OF assms(2,3)]
    by (simp add: launched family_ok_def family_base_def family_gens_def frontiers_ok_def)
  then show ?thesis
    by (simp add: fun_eq_iff retains_def location_ok_def launched advanced_family_def)
qed

lemma located_cong: "retains f = retains g \<Longrightarrow> location_ok f = location_ok g \<Longrightarrow> located f = located g"
  by (simp add: fun_eq_iff located_def)

lemma compact_ok:
  assumes "engine_ok H e" and "kv_get (en_families e) i = Some fo" and "family_ok H f0" and "fa_id f0 = i"
    and "retains f0 = retains fo" and "location_ok f0 = location_ok fo"
  shows "engine_ok H (compact f0 i now e) \<and> en_pinned (compact f0 i now e) = en_pinned e"
proof -
  obtain released f1 e1 where p: "prune e f0 now = (released, f1, e1)"
    by (metis prod_cases3)
  obtain f seen' where r: "(if released then rebuild_family f1 (en_seen e1) else (f1, en_seen e1)) = (f, seen')"
    by fastforce
  have "located f0 (en_seen e)"
    using engine_ok_family [OF assms(1,2)] located_cong [OF assms(5,6)] by simp
  then have c: "family_ok H f" "fa_id f = fa_id f0" "follows f0 f (en_seen e) seen'"
    "en_families e1 = en_families e" "en_pinned e1 = en_pinned e"
    using compact_family_ok [OF p r assms(3)] by blast+
  define e' where "e' = compact f0 i now e"
  have e': "en_seen e' = seen'" "en_pinned e' = en_pinned e"
    "en_families e' = kv_put i f (en_families e)
     \<or> en_families e' = kv_del i (en_families e) \<and> (\<forall>k. \<not> retains f k)"
    using c(4,5) by (auto simp: e'_def compact_def p r Let_def retains_def)
  have "engine_ok H e'"
  proof (rule engine_ok_replace [where fo = fo, OF assms(1,4) _ _ c(1,3)])
    show "kv_get (en_families e') j = (if j = i then Some f else kv_get (en_families e) j)
        \<or> j = i \<and> kv_get (en_families e') j = None \<and> (\<forall>k. \<not> retains f k)" for j
      using e'(3) by (auto simp: kv_get_put kv_get_del)
  qed (use assms c e' in \<open>simp_all\<close>)
  with e'(2) show ?thesis
    by (simp add: e'_def)
qed

lemma advance_loop_ok:
  assumes "t_utc now"
  shows "advance_loop now is e changed = (us, e') \<Longrightarrow> engine_ok H e \<Longrightarrow>
    engine_ok H e' \<and> en_pinned e' = en_pinned e"
proof (induction "is" arbitrary: e changed)
  case (Cons i "is")
  show ?case
  proof (cases "kv_get (en_families e) i")
    case None
    with Cons show ?thesis
      by simp
  next
    case (Some f0)
    obtain vs f where a: "advance_family now f0 = (vs, f)"
      by fastforce
    have f0: "fa_id f0 = i" "family_ok H f0"
      using engine_ok_family [OF Cons.prems(2) Some] by auto
    note f = advance_family_ok [OF a f0(2) assms]
    have "engine_ok H (compact f i now e) \<and> en_pinned (compact f i now e) = en_pinned e"
      using f f0 by (intro compact_ok [OF Cons.prems(2) Some]) auto
    with Cons.IH [of "compact f i now e" "changed @ vs"] Cons.prems(1) Some a show ?thesis
      by simp
  qed
qed simp

lemma advance_ok:
  assumes "engine_ok H e" and "t_utc now"
  shows "engine_ok H (snd (advance e now))"
proof -
  obtain us e1 where l: "advance_loop now (sort (map fst (en_families e))) e [] = (us, e1)"
    by fastforce
  then have "engine_ok H e1"
    using advance_loop_ok [OF assms(2)] assms(1) by blast
  moreover have "snd (advance e now) = compact_seen e1"
    by (simp add: advance_def l)
  ultimately show ?thesis
    by (simp add: compact_seen_def engine_ok_def)
qed

section \<open>Reachable engines\<close>

lemma new_family_ok: "family_ok H (new_family i)"
  by (simp add: new_family_def family_ok_def family_base_def family_gens_def frontiers_ok_def gens_full_def
      statuses_ok_def numbered_def)

lemma new_family_retains: "\<not> retains (new_family i) k"
  by (simp add: new_family_def retains_def)

lemma observe_cases:
  assumes "observe H e r = (res, e')"
  obtains (refused) err where "res = Inl (InvalidObservation err)" "e' = e" "fingerprint_of H r = Inl err"
  | (missing) lo where "kv_get (en_seen e) (nl_record_id r) = Some lo"
      "kv_get (en_families e) (lo_incident lo) = None" "res = Inl MissingFamily" "e' = e"
  | (duplicate) lo f where "kv_get (en_seen e) (nl_record_id r) = Some lo"
      "kv_get (en_families e) (lo_incident lo) = Some f" "e' = e"
      "res = Inr (make_update f (generation_at f (lo_generation lo)) True False False (lo_late lo) (lo_evidence lo))"
  | (fresh) i f0 u f seen where "kv_get (en_seen e) (nl_record_id r) = None" "deterministic_id H r = Inr i"
      "validate r = []"
      "f0 = (case kv_get (en_families e) i of None \<Rightarrow> new_family i | Some f \<Rightarrow> f)"
      "observe_family f0 r (en_seen e) = (u, f, seen)" "res = Inr u"
      "e' = e\<lparr>en_families := kv_put i f (en_families e), en_seen := seen\<rparr>"
proof (cases "fingerprint_of H r")
  case (Inl err)
  with assms show ?thesis
    by (intro refused) (auto simp: observe_def)
next
  case (Inr result)
  show ?thesis
  proof (cases "kv_get (en_seen e) (nl_record_id r)")
    case None
    define i where "i = incident_id H r result"
    define f0 where "f0 = (case kv_get (en_families e) i of None \<Rightarrow> new_family i | Some f \<Rightarrow> f)"
    obtain u f seen where o: "observe_family f0 r (en_seen e) = (u, f, seen)"
      by (metis prod_cases3)
    have "validate r = []"
      using Inr by (simp add: fingerprint_of_def split: if_splits)
    moreover have "deterministic_id H r = Inr i"
      using Inr by (simp add: deterministic_id_def i_def)
    moreover have "observe H e r = (Inr u, e\<lparr>en_families := kv_put i f (en_families e), en_seen := seen\<rparr>)"
      by (simp add: observe_def Let_def Inr None o i_def [symmetric] f0_def [symmetric])
    ultimately show ?thesis
      using assms None o f0_def by (intro fresh [of i f0 u f seen]) auto
  next
    case (Some lo)
    with assms Inr show ?thesis
      by (cases "kv_get (en_families e) (lo_incident lo)")
        (auto simp: observe_def intro: missing duplicate)
  qed
qed

lemma observe_ok:
  assumes "engine_ok H e" and "observe H e r = (res, e')" and "record_times r"
  shows "engine_ok H e'"
  using assms(2)
proof (cases rule: observe_cases)
  case (fresh i f0 u f seen)
  let ?k = "nl_record_id r"
  have f0: "family_ok H f0" "fa_id f0 = i" "located f0 (en_seen e)"
    using engine_ok_family [OF assms(1)] new_family_ok new_family_retains
    by (auto simp: fresh(4) located_def new_family_def split: option.splits)
  have n: "\<not> retains f0 ?k"
    using f0(3) fresh(1) by (auto simp: located_def)
  have "record_ok H (fa_id f0) ?k r"
    using fresh(2,3) assms(3) f0(2) by (simp add: record_ok_def)
  then have f: "family_ok H f" "gains f0 ?k f" "index_ok f (en_seen e) seen" "kv_get seen ?k \<noteq> None"
    using observe_family_ok [OF fresh(5) f0(1) _ n] by blast+
  have ret: "retains f k \<longleftrightarrow> retains f0 k \<or> k = ?k" for k
    using f(2) by (simp add: gains_def)
  have idx: "kv_get seen k = kv_get (en_seen e) k \<or> (\<exists>lo. kv_get seen k = Some lo \<and> location_ok f k lo)" for k
    using f(3) by (simp add: index_ok_def)
  have loc: "\<exists>lo. kv_get seen k = Some lo \<and> location_ok f k lo" if k: "retains f k" for k
  proof (cases "k = ?k")
    case True
    then show ?thesis
      using idx [of k] f(4) fresh(1) by auto
  next
    case False
    with k ret obtain lo where "kv_get (en_seen e) k = Some lo" "location_ok f0 k lo"
      using f0(3) unfolding located_def by blast
    then show ?thesis
      using idx [of k] gains_location [OF f(2)] by auto
  qed
  have "follows f0 f (en_seen e) seen"
    unfolding follows_def
  proof (intro conjI allI impI)
    fix k
    show "\<not> retains f0 k \<Longrightarrow> \<not> retains f k \<Longrightarrow> kv_get seen k = kv_get (en_seen e) k"
      using idx [of k] location_retains by fastforce
    show "retains f k \<Longrightarrow> \<exists>lo. kv_get seen k = Some lo \<and> location_ok f k lo"
      by (rule loc)
    show "retains f0 k \<Longrightarrow> \<not> retains f k \<Longrightarrow> kv_get seen k = None"
      by (simp add: ret)
    show "retains f k \<Longrightarrow> \<not> retains f0 k \<Longrightarrow> kv_get (en_seen e) k = None"
      using fresh(1) by (simp add: ret)
  qed
  moreover have "fa_id f = i"
    using f(2) f0(2) by (simp add: gains_def)
  moreover have "kv_get (en_families e) i = Some f0 \<or> kv_get (en_families e) i = None \<and> (\<forall>k. \<not> retains f0 k)"
    using new_family_retains by (auto simp: fresh(4) split: option.splits)
  moreover have "en_families e' = kv_put i f (en_families e)" "en_seen e' = seen"
    by (simp_all add: fresh(7))
  ultimately show ?thesis
    using engine_ok_replace [OF assms(1) f0(2), of f f0 seen "en_families e'" e'] f(1) by (simp add: kv_get_put)
qed (use assms(1) in simp_all)

inductive engine_reachable :: "(bytes \<Rightarrow> bytes) \<Rightarrow> engine \<Rightarrow> bool" for H where
  reach_new: "engine_reachable H new_engine"
| reach_observe: "engine_reachable H e \<Longrightarrow> record_times r \<Longrightarrow> observe H e r = (res, e') \<Longrightarrow>
    engine_reachable H e'"
| reach_advance: "engine_reachable H e \<Longrightarrow> t_utc now \<Longrightarrow> advance e now = (us, e') \<Longrightarrow>
    engine_reachable H e'"
| reach_pin: "engine_reachable H e \<Longrightarrow> engine_reachable H (pin e ids)"

theorem engine_reachable_ok: "engine_reachable H e \<Longrightarrow> engine_ok H e"
proof (induction rule: engine_reachable.induct)
  case reach_new
  show ?case
    by (simp add: engine_ok_def new_engine_def)
next
  case (reach_observe e r res e')
  show ?case
    by (rule observe_ok [OF reach_observe.IH reach_observe.hyps(3,2)])
next
  case (reach_advance e now us e')
  then show ?case
    using advance_ok [of H e now] by simp
next
  case (reach_pin e ids)
  then show ?case
    by (simp add: engine_ok_def pin_def)
qed

end
