(* ===== verification/IncidentCount.thy ===== *)
theory IncidentCount
  imports IncidentReach "HOL-Library.Multiset"
begin

text \<open>
  The sorted projections of an episode. An episode keeps the event times of its records, of its eligible
  records and of its evidence as sorted lists and answers window counts by binary search; \<open>gen_counted\<close>
  says that the lists hold exactly those times, so the counts are the numbers of records in the window
  and \<open>satisfiedAt\<close> is only set by a whole threshold.
\<close>

section \<open>Counting in a sorted list\<close>

definition by_instant :: "gtime list \<Rightarrow> bool" where
  "by_instant ts \<longleftrightarrow> sorted_wrt (\<lambda>a b. t_inst a \<le> t_inst b) ts"

definition window_size :: "gtime list \<Rightarrow> gtime \<Rightarrow> nat" where
  "window_size ts w = length (filter (\<lambda>t. in_half_open_window t w default_investigation_window) ts)"

lemma window_positive [simp]: "0 < default_investigation_window" "\<not> default_investigation_window \<le> 0"
  by (simp_all add: incident_limits)

lemma in_window_iff:
  "in_half_open_window t w default_investigation_window \<longleftrightarrow>
     \<not> after t w \<and> after t (add_time w (- default_investigation_window))"
  by (simp add: in_half_open_window_def)

lemma search_after:
  assumes "by_instant ts"
  shows "sort_search (length ts) (\<lambda>i. after (ts ! i) t) = length (filter (\<lambda>x. \<not> after x t) ts)"
proof -
  have p: "after b t" if "t_inst a \<le> t_inst b" "after a t" for a b
    using that by (simp add: after_def)
  have s: "sorted_wrt (\<lambda>a b. t_inst a \<le> t_inst b) ts"
    using assms by (simp add: by_instant_def)
  have "sort_search (length ts) (\<lambda>i. after (ts ! i) t) = length (takeWhile (\<lambda>x. \<not> after x t) ts)"
    using s p by (rule search_sorted)
  moreover have "takeWhile (\<lambda>x. \<not> after x t) ts = filter (\<lambda>x. \<not> after x t) ts
      \<and> dropWhile (\<lambda>x. \<not> after x t) ts = filter (\<lambda>x. after x t) ts"
    using s p by (rule takeWhile_sorted_filter)
  ultimately show ?thesis
    by simp
qed

lemma filter_split_length:
  "length (filter (\<lambda>x. P x) xs) + length (filter (\<lambda>x. \<not> P x) xs) = length xs"
  by (induction xs) simp_all

lemma count_in_sorted_window_exact:
  assumes "by_instant ts" and "\<not> is_zero w"
  shows "count_in_sorted_window ts w = window_size ts w"
proof -
  let ?l = "add_time w (- default_investigation_window)"
  have le: "\<not> after x w" if "\<not> after x ?l" for x
    using that by (simp add: after_def) (use window_positive in linarith)
  have "length (filter (\<lambda>x. \<not> after x w) ts)
      = length (filter (\<lambda>x. \<not> after x ?l) ts) + window_size ts w"
    using le by (induction ts) (auto simp: window_size_def in_window_iff)
  then show ?thesis
    using assms(2) by (simp add: count_in_sorted_window_def Let_def search_after [OF assms(1)])
qed

lemma insert_time_sorted:
  assumes "by_instant ts"
  shows "by_instant (insert_time ts t)" and "mset (insert_time ts t) = add_mset t (mset ts)"
proof -
  have p: "after b t" if "t_inst a \<le> t_inst b" "after a t" for a b
    using that by (simp add: after_def)
  have s: "sorted_wrt (\<lambda>a b. t_inst a \<le> t_inst b) ts"
    using assms by (simp add: by_instant_def)
  show "by_instant (insert_time ts t)"
    unfolding by_instant_def insert_time_def
    using s p by (rule sorted_insert_at) (auto simp: after_def)
  have "insert_time ts t = filter (\<lambda>y. \<not> after y t) ts @ [t] @ filter (\<lambda>y. after y t) ts"
    unfolding insert_time_def using s p by (rule insert_at_search)
  moreover have "mset (filter (\<lambda>y. \<not> after y t) ts) + mset (filter (\<lambda>y. after y t) ts) = mset ts"
    by (induction ts) auto
  ultimately show "mset (insert_time ts t) = add_mset t (mset ts)"
    by simp
qed

section \<open>One episode\<close>

definition event_times :: "record_map \<Rightarrow> gtime multiset" where
  "event_times m = mset (map (\<lambda>(k, r). nl_event_time r) m)"

definition eligible_times :: "record_map \<Rightarrow> gtime multiset" where
  "eligible_times m = event_times (filter (\<lambda>(k, r). investigation_eligible r) m)"

definition gen_counted :: "generation \<Rightarrow> bool" where
  "gen_counted g \<longleftrightarrow>
     kv_wf (ge_records g) \<and> by_instant (ge_times g) \<and> mset (ge_times g) = event_times (ge_records g)
     \<and> by_instant (ge_eligible g) \<and> mset (ge_eligible g) = eligible_times (ge_records g)
     \<and> by_instant (ge_evidence_times g) \<and> mset (ge_evidence_times g) = event_times (ge_evidence g)
     \<and> (is_zero (ge_satisfied_at g)
        \<or> default_investigation_threshold \<le> window_size (ge_eligible g) (ge_satisfied_at g))"

lemma mset_kv_put:
  "kv_get m k = None \<Longrightarrow> mset (kv_put k v m) = add_mset (k, v) (mset m)"
  by (induction k v m rule: kv_put.induct) (auto simp: kv_get_def split: if_splits)

lemma event_times_put:
  "kv_get m k = None \<Longrightarrow> event_times (kv_put k r m) = add_mset (nl_event_time r) (event_times m)"
  by (simp add: event_times_def mset_kv_put)

lemma eligible_times_put:
  "kv_get m k = None \<Longrightarrow> eligible_times (kv_put k r m) =
     (if investigation_eligible r then add_mset (nl_event_time r) (eligible_times m) else eligible_times m)"
  by (simp add: eligible_times_def event_times_def mset_filter [symmetric] mset_kv_put del: mset_filter)
    (simp add: mset_filter mset_kv_put)

lemma set_event_times: "set_mset (event_times m) = (\<lambda>(k, r). nl_event_time r) ` set m"
  by (simp add: event_times_def)

lemma eligible_subset: "set_mset (eligible_times m) \<subseteq> set_mset (event_times m)"
  by (auto simp: eligible_times_def event_times_def)

lemma by_instant_snoc:
  "by_instant (ts @ [t]) \<longleftrightarrow> by_instant ts \<and> (\<forall>x\<in>set ts. t_inst x \<le> t_inst t)"
  by (simp add: by_instant_def sorted_wrt_append)

lemma window_size_snoc_le: "window_size ts w \<le> window_size (ts @ [t]) w"
  by (simp add: window_size_def)

lemma note_eligible_counted:
  assumes "by_instant (ge_eligible g @ [t])"
    and "is_zero (ge_satisfied_at g)
        \<or> default_investigation_threshold \<le> window_size (ge_eligible g) (ge_satisfied_at g)"
  shows "ge_eligible (note_eligible t g) = ge_eligible g @ [t]"
    and "is_zero (ge_satisfied_at (note_eligible t g))
        \<or> default_investigation_threshold \<le> window_size (ge_eligible g @ [t]) (ge_satisfied_at (note_eligible t g))"
proof -
  let ?ts = "ge_eligible g @ [t]" and ?l = "add_time t (- default_investigation_window)"
  show "ge_eligible (note_eligible t g) = ?ts"
    by (simp add: note_eligible_def Let_def)
  have past: "\<not> after x t" if "x \<in> set ?ts" for x
    using that assms(1) by (auto simp: by_instant_snoc after_def)
  have "length ?ts - length (filter (\<lambda>x. \<not> after x ?l) ?ts) = length (filter (\<lambda>x. after x ?l) ?ts)"
    using filter_split_length [of "\<lambda>x. after x ?l" ?ts] by linarith
  also have "\<dots> = window_size ?ts t"
    unfolding window_size_def
    by (rule arg_cong [of _ _ length], rule filter_cong) (use past in \<open>auto simp: in_window_iff\<close>)
  finally have w: "length ?ts - sort_search (length ?ts) (\<lambda>i. after (?ts ! i) ?l) = window_size ?ts t"
    by (simp only: search_after [OF assms(1)])
  show "is_zero (ge_satisfied_at (note_eligible t g))
      \<or> default_investigation_threshold \<le> window_size ?ts (ge_satisfied_at (note_eligible t g))"
    using assms(2) w window_size_snoc_le [of "ge_eligible g" "ge_satisfied_at g" t]
    by (auto simp: note_eligible_def Let_def)
qed

lemma add_contribution_counted:
  assumes "gen_counted g" and "kv_get (ge_records g) (nl_record_id r) = None"
    and "\<forall>(k, r')\<in>set (ge_records g). t_inst (nl_event_time r') \<le> t_inst (nl_event_time r)"
  shows "gen_counted (add_contribution g r)"
proof -
  let ?t = "nl_event_time r"
  define g1 where "g1 = g\<lparr>ge_records := kv_put (nl_record_id r) r (ge_records g), ge_times := ge_times g @ [?t]\<rparr>"
  define g2 where "g2 = (if investigation_eligible r then note_eligible ?t g1 else g1)"
  have a: "ge_times (add_contribution g r) = ge_times g @ [?t]"
    "ge_eligible (add_contribution g r) = ge_eligible g2"
    "ge_satisfied_at (add_contribution g r) = ge_satisfied_at g2"
    "ge_evidence_times (add_contribution g r) = ge_evidence_times g"
    by (simp_all add: add_contribution_def Let_def g1_def g2_def)
  have le: "t_inst x \<le> t_inst ?t" if "x \<in># event_times (ge_records g)" for x
    using that assms(3) by (auto simp: set_event_times)
  have "set (ge_times g) = set_mset (event_times (ge_records g))"
    "set (ge_eligible g) \<subseteq> set_mset (event_times (ge_records g))"
    using assms(1) eligible_subset [of "ge_records g"] by (auto simp: gen_counted_def simp flip: set_mset_mset)
  with le assms(1) have s: "by_instant (ge_times g @ [?t])" "by_instant (ge_eligible g @ [?t])"
    by (auto simp: by_instant_snoc gen_counted_def)
  have "ge_eligible g1 = ge_eligible g" "ge_satisfied_at g1 = ge_satisfied_at g"
    by (simp_all add: g1_def)
  with note_eligible_counted [of g1 ?t] s(2) assms(1)
  have "ge_eligible g2 = (if investigation_eligible r then ge_eligible g @ [?t] else ge_eligible g)"
    "is_zero (ge_satisfied_at g2) \<or> default_investigation_threshold \<le> window_size (ge_eligible g2) (ge_satisfied_at g2)"
    by (auto simp: g2_def gen_counted_def)
  then show ?thesis
    using assms(1,2) s by (auto simp: gen_counted_def a event_times_put eligible_times_put kv_wf_put)
qed

lemma add_evidence_counted:
  "gen_counted g \<Longrightarrow> kv_get (ge_evidence g) (nl_record_id r) = None \<Longrightarrow> gen_counted (add_evidence r g)"
  by (simp add: gen_counted_def add_evidence_def insert_time_sorted event_times_put)

lemma gen_counted_update [simp]:
  "gen_counted (g\<lparr>ge_status := s\<rparr>) = gen_counted g" "gen_counted (g\<lparr>ge_number := n\<rparr>) = gen_counted g"
  "gen_counted (adopt g p) = gen_counted g"
  by (simp_all add: gen_counted_def adopt_def)

lemma gen_counted_empty [simp]: "gen_counted (new_generation n d)" "gen_counted (shell_of p)"
  by (simp_all add: gen_counted_def new_generation_def shell_of_def by_instant_def event_times_def eligible_times_def)

lemma clear_evidence_counted: "gen_counted g \<Longrightarrow> gen_counted (clear_evidence g)"
  by (auto simp: gen_counted_def clear_evidence_def by_instant_def event_times_def)

text \<open>What the counted projections say of the window counts the engine reports.\<close>

lemma window_size_mset: "window_size ts w = size (filter_mset (\<lambda>t. in_half_open_window t w default_investigation_window) (mset ts))"
  by (simp add: window_size_def flip: mset_filter)

definition records_in_window :: "record_map \<Rightarrow> gtime \<Rightarrow> nat" where
  "records_in_window m w =
     length (filter (\<lambda>(k, r). in_half_open_window (nl_event_time r) w default_investigation_window) m)"

lemma records_in_window_mset:
  "size (filter_mset (\<lambda>t. in_half_open_window t w default_investigation_window) (event_times m)) = records_in_window m w"
  by (induction m) (auto simp: event_times_def records_in_window_def)

lemma count_in_window_exact:
  assumes "gen_counted g" and "\<not> is_zero w"
  shows "count_in_window g w = records_in_window (ge_records g) w + records_in_window (ge_evidence g) w"
  using assms
  by (simp add: count_in_window_def gen_counted_def count_in_sorted_window_exact window_size_mset
      records_in_window_mset)

lemma satisfied_counts:
  assumes "gen_counted g" and "\<not> is_zero (ge_satisfied_at g)"
  shows "default_investigation_threshold \<le>
    records_in_window (filter (\<lambda>(k, r). investigation_eligible r) (ge_records g)) (ge_satisfied_at g)"
proof -
  have e: "mset (ge_eligible g) = eligible_times (ge_records g)"
    and "default_investigation_threshold \<le> window_size (ge_eligible g) (ge_satisfied_at g)"
    using assms by (simp_all add: gen_counted_def)
  then show ?thesis
    by (simp add: window_size_mset e) (simp add: eligible_times_def records_in_window_mset)
qed

section \<open>Reconstruction\<close>

lemma fold_step_counted:
  assumes "list_all gen_counted gs"
    and "\<forall>g\<in>set gs. kv_get (ge_records g) (nl_record_id r) = None"
    and "\<forall>g\<in>set gs. \<forall>(k, r')\<in>set (ge_records g). t_inst (nl_event_time r') \<le> t_inst (nl_event_time r)"
  shows "list_all gen_counted (fold_step gs r)"
proof (cases gs r rule: fold_step_cases)
  case new
  then show ?thesis
    using assms(1) add_contribution_counted [of "new_generation 0 (deployment_of r)" r] by simp
next
  case (same hs g)
  then show ?thesis
    using assms add_contribution_counted [of g r] by simp
qed

lemma kv_put_entries: "set (kv_put k v m) \<subseteq> insert (k, v) (set m)"
  by (induction k v m rule: kv_put.induct) auto

lemma fold_step_entries:
  "\<forall>g\<in>set gs. \<forall>(k, r')\<in>set (ge_records g). k = nl_record_id r' \<and> r' \<in> R \<Longrightarrow>
   \<forall>g\<in>set (fold_step gs r). \<forall>(k, r')\<in>set (ge_records g). k = nl_record_id r' \<and> r' \<in> insert r R"
proof (cases gs r rule: fold_step_cases)
  case new
  moreover assume "\<forall>g\<in>set gs. \<forall>(k, r')\<in>set (ge_records g). k = nl_record_id r' \<and> r' \<in> R"
  ultimately show ?thesis
    by auto
next
  case (same hs g)
  moreover assume *: "\<forall>g\<in>set gs. \<forall>(k, r')\<in>set (ge_records g). k = nl_record_id r' \<and> r' \<in> R"
  moreover have "\<forall>(k, r')\<in>set (kv_put (nl_record_id r) r (ge_records g)). k = nl_record_id r' \<and> r' \<in> insert r R"
    using * same(1) kv_put_entries [of "nl_record_id r" r "ge_records g"] by fastforce
  ultimately show ?thesis
    by auto
qed

lemma sorts_before_event: "sorts_before a b \<Longrightarrow> t_inst (nl_event_time a) \<le> t_inst (nl_event_time b)"
  by (auto simp: sorts_before_def same_instant_def before_def split: if_splits)

lemma foldl_fold_step_counted:
  assumes "sorted_wrt sorts_before rs" and "distinct (map nl_record_id rs)"
  shows "list_all gen_counted (foldl fold_step [] rs)
    \<and> (\<forall>g\<in>set (foldl fold_step [] rs). \<forall>(k, r)\<in>set (ge_records g). k = nl_record_id r \<and> r \<in> set rs)"
  using assms
proof (induction rs rule: rev_induct)
  case (snoc r rs)
  let ?gs = "foldl fold_step [] rs"
  have ih: "list_all gen_counted ?gs"
    "\<forall>g\<in>set ?gs. \<forall>(k, r)\<in>set (ge_records g). k = nl_record_id r \<and> r \<in> set rs"
    using snoc by (auto simp: sorted_wrt_append)
  have "\<forall>x\<in>set rs. t_inst (nl_event_time x) \<le> t_inst (nl_event_time r)"
    using snoc.prems(1) sorts_before_event by (auto simp: sorted_wrt_append)
  with ih(2) have t: "\<forall>g\<in>set ?gs. \<forall>(k, r')\<in>set (ge_records g). t_inst (nl_event_time r') \<le> t_inst (nl_event_time r)"
    by fastforce
  have "nl_record_id r \<notin> nl_record_id ` set rs"
    using snoc.prems(2) by simp
  with ih(2) have "nl_record_id r \<notin> fst ` set (ge_records g)" if "g \<in> set ?gs" for g
    using that by fastforce
  then have n: "\<forall>g\<in>set ?gs. kv_get (ge_records g) (nl_record_id r) = None"
    by (simp only: kv_get_keys) simp
  have "list_all gen_counted (fold_step ?gs r)"
    using ih(1) n t by (rule fold_step_counted)
  moreover have "\<forall>g\<in>set (fold_step ?gs r). \<forall>(k, r')\<in>set (ge_records g). k = nl_record_id r' \<and> r' \<in> insert r (set rs)"
    using ih(2) by (rule fold_step_entries)
  ultimately show ?case
    by simp
qed simp

lemma adopt_episode_loop_counted:
  "list_all gen_counted gs \<Longrightarrow> list_all gen_counted (fst (adopt_episode_loop prior assigned c gs))"
  by (induction prior assigned c gs rule: adopt_episode_loop.induct) (auto split: option.splits prod.splits)

lemma shells_loop_counted: "list_all gen_counted (shells_loop evs adopted i ps)"
  by (induction evs adopted i ps rule: shells_loop.induct) auto

lemma adopt_assigned_counted:
  assumes "adopt_assigned_identities f gs = (gs', shells)" and "list_all gen_counted gs"
  shows "list_all gen_counted (gs' @ shells)"
proof (cases "fa_generations f = []")
  case False
  let ?p = "fa_generations f"
  obtain adopted where "adopt_episode_loop ?p (assign_prior 0 ?p []) 0 gs = (gs', adopted)"
    "shells = shells_loop (fa_events f) adopted 0 ?p"
    using assms(1) False by (auto simp: adopt_assigned_identities_def Let_def split: prod.splits)
  then show ?thesis
    using adopt_episode_loop_counted [OF assms(2), of ?p "assign_prior 0 ?p []" 0] shells_loop_counted by simp
qed (use assms in \<open>simp add: adopt_assigned_identities_def\<close>)

lemma sorted_wrt_irrefl_distinct: "sorted_wrt R xs \<Longrightarrow> (\<And>x. \<not> R x x) \<Longrightarrow> distinct xs"
  by (induction xs) auto

lemma base_distinct:
  assumes "family_base H f"
  shows "distinct (map nl_record_id (fa_ordered f))"
proof -
  have s: "sorted_wrt sorts_before (fa_ordered f)"
    using assms by (simp add: family_base_def)
  then have "distinct (fa_ordered f)"
    using sorts_before_irrefl by (rule sorted_wrt_irrefl_distinct)
  moreover have "inj_on nl_record_id (set (fa_ordered f))"
    using base_ordered [OF assms] by (auto simp: inj_on_def)
  ultimately show ?thesis
    by (simp add: distinct_map)
qed

lemma fold_episodes_counted:
  assumes "family_base H f"
  shows "list_all gen_counted (fold_episodes f)"
proof -
  let ?gs = "foldl fold_step [] (fa_ordered f)"
  obtain gs shells where a: "adopt_assigned_identities f ?gs = (gs, shells)"
    by fastforce
  have "sorted_wrt sorts_before (fa_ordered f)"
    using assms by (simp add: family_base_def)
  then have "list_all gen_counted (gs @ shells)"
    using adopt_assigned_counted [OF a] foldl_fold_step_counted base_distinct [OF assms] by blast
  then show ?thesis
    by (simp add: fold_episodes_def a list_all_iff)
qed

lemma attach_one_counted:
  assumes "list_all gen_counted gs" and "\<forall>g\<in>set gs. kv_get (ge_evidence g) (nl_record_id r) = None"
  shows "list_all gen_counted (attach_one gs r)"
proof (cases "generation_for_evidence gs r")
  case (Some i)
  then have "i < length gs"
    using generation_for_evidence_Some by blast
  with assms have "gen_counted (add_evidence r (gs ! i))"
    by (intro add_evidence_counted) (auto simp: list_all_length)
  with assms(1) Some show ?thesis
    by (auto simp: attach_one_def intro: list_all_update)
qed (use assms in \<open>simp add: attach_one_def\<close>)

lemma attach_one_evidence:
  "g \<in> set (attach_one gs r) \<Longrightarrow> kv_get (ge_evidence g) k \<noteq> None \<Longrightarrow>
   k = nl_record_id r \<or> (\<exists>g'\<in>set gs. kv_get (ge_evidence g') k \<noteq> None)"
  by (auto simp: attach_one_def kv_get_put dest!: generation_for_evidence_Some set_update_subset_insert [THEN subsetD]
      split: option.splits if_splits)

lemma attach_each_counted:
  "list_all gen_counted gs \<Longrightarrow> distinct (map fst es) \<Longrightarrow>
   \<forall>(k, ev)\<in>set es. nl_record_id (ev_record ev) = k \<Longrightarrow>
   \<forall>g\<in>set gs. \<forall>k\<in>fst ` set es. kv_get (ge_evidence g) k = None \<Longrightarrow>
   list_all gen_counted (attach_each es gs)"
proof (induction es gs rule: attach_each.induct)
  case (2 k ev es gs)
  let ?gs = "if ev_attach ev then attach_one gs (ev_record ev) else gs"
  have "list_all gen_counted ?gs"
    using 2(2,4,5) by (auto intro: attach_one_counted)
  moreover have "\<forall>g\<in>set ?gs. \<forall>k\<in>fst ` set es. kv_get (ge_evidence g) k = None"
  proof (intro ballI)
    fix g k'
    assume g: "g \<in> set ?gs" and k': "k' \<in> fst ` set es"
    have "nl_record_id (ev_record ev) = k" "k \<notin> fst ` set es"
      using 2(3,4) by simp_all
    with k' have "k' \<noteq> nl_record_id (ev_record ev)"
      by metis
    moreover have "\<forall>g\<in>set gs. kv_get (ge_evidence g) k' = None"
      using 2(5) k' by (metis imageI image_insert insertCI list.simps(15))
    ultimately show "kv_get (ge_evidence g) k' = None"
      using g attach_one_evidence [of g gs "ev_record ev" k']
      by (cases "kv_get (ge_evidence g) k'") (auto split: if_splits)
  qed
  ultimately show ?case
    using 2(1,3,4) by (cases "ev_attach ev") auto
qed simp

lemma attach_retained_counted:
  assumes "family_base H f" and "list_all gen_counted (fa_generations f)"
  shows "list_all gen_counted (fa_generations (attach_retained_evidence f))"
proof -
  have wf: "kv_wf (fa_evidence f)"
    using assms(1) by (simp add: family_base_def)
  have "\<forall>(k, ev)\<in>set (fa_evidence f). nl_record_id (ev_record ev) = k"
    using base_evidence [OF assms(1)] kv_entry_iff [OF wf] by (auto simp: record_ok_def)
  moreover have "list_all gen_counted (map clear_evidence (fa_generations f))"
    using assms(2) by (auto simp: list_all_iff intro: clear_evidence_counted)
  ultimately show ?thesis
    using attach_each_counted [of "map clear_evidence (fa_generations f)" "fa_evidence f"] kv_wf_distinct [OF wf]
    by (simp add: attach_retained_evidence_def)
qed

lemma refresh_list_counted [simp]: "list_all gen_counted (refresh_list a gs) = list_all gen_counted gs"
  by (induction gs) simp_all

lemma renumber_counted [simp]: "list_all gen_counted (renumber n gs) = list_all gen_counted gs"
  by (induction gs arbitrary: n) simp_all

lemma rebuild_family_counted:
  assumes "rebuild_family f seen = (f', seen')" and "family_base H f"
  shows "list_all gen_counted (fa_generations f')"
proof -
  define f1 where "f1 = f\<lparr>fa_generations := fold_episodes f\<rparr>"
  have "family_base H f1"
    using assms(2) by (simp add: family_base_def frontiers_ok_def f1_def)
  then have "list_all gen_counted (fa_generations (attach_retained_evidence f1))"
    using fold_episodes_counted [OF assms(2)] by (intro attach_retained_counted) (simp_all add: f1_def)
  then have "list_all gen_counted (drop n (fa_generations (attach_retained_evidence f1)))" for n
    by (auto simp: list_all_iff dest: in_set_dropD)
  then show ?thesis
    using assms(1)
    by (auto simp: rebuild_family_def Let_def f1_def refresh_statuses_def release_leading_empty_episodes_def
        attach_retained_evidence_def)
qed

section \<open>Every reachable episode is counted\<close>

definition counted :: "family \<Rightarrow> bool" where
  "counted f \<longleftrightarrow> list_all gen_counted (fa_generations f)"

lemma extended_counted:
  assumes "pending_contribution H f r" and "list_all gen_counted (fa_generations f)"
    and "\<forall>g\<in>set (fa_generations f). kv_get (ge_records g) (nl_record_id r) = None"
    and "\<forall>x\<in>set (fa_ordered f). t_inst (nl_event_time x) \<le> t_inst (nl_event_time r)"
  shows "list_all gen_counted (extended f r)"
proof (cases "opens_episode (last_generation (fa_generations f)) r")
  case True
  then show ?thesis
    using assms(2) add_contribution_counted [of "new_generation (generation_count f + 1) (deployment_of r)" r]
    by (simp add: extended_def)
next
  case False
  then obtain gs g where g: "fa_generations f = gs @ [g]"
    by (cases "fa_generations f" rule: rev_cases) (auto simp: last_generation_def)
  have h: "gen_holds (fa_events f) g" and b: "family_base H f" and wf: "gen_counted g"
    using assms(1,2) g by (simp_all add: pending_contribution_def gens_full_def)
  have "t_inst (nl_event_time r') \<le> t_inst (nl_event_time r)" if "(k, r') \<in> set (ge_records g)" for k r'
  proof -
    have "kv_get (ge_records g) k = Some r'"
      using that wf by (simp add: gen_counted_def kv_entry_iff)
    with h have e: "kv_get (fa_events f) k = Some r'"
      by (simp add: gen_holds_def)
    with base_event [OF b e] have "r' \<in> set (fa_ordered f)"
      using base_ordered [OF b] by (simp add: record_ok_def)
    with assms(4) show ?thesis ..
  qed
  then show ?thesis
    using False g assms(2,3) add_contribution_counted [of g r] by (auto simp: extended_def)
qed

lemma attached_keys_free:
  assumes "family_gens f" and "\<not> retains f k" and "g \<in> set (fa_generations f)"
  shows "kv_get (ge_records g) k = None" and "kv_get (ge_evidence g) k = None"
proof -
  have "gen_holds (fa_events f) g" "evidence_holds (fa_evidence f) g"
    using assms(1,3) by (auto simp: family_gens_def gens_full_def gens_hold_def list_all_iff)
  then show "kv_get (ge_records g) k = None" "kv_get (ge_evidence g) k = None"
    using assms(2) unfolding gen_holds_def evidence_holds_def retains_None
    by (metis not_Some_eq option.distinct(1))+
qed

lemma extend_family_counted:
  assumes "extend_family f r seen = (f', seen')" and "pending_contribution H f r"
    and "list_all gen_counted (fa_generations f)"
    and "\<forall>g\<in>set (fa_generations f). kv_get (ge_records g) (nl_record_id r) = None"
    and "\<forall>x\<in>set (fa_ordered f). t_inst (nl_event_time x) \<le> t_inst (nl_event_time r)"
  shows "counted f'"
proof -
  have e: "list_all gen_counted (extended f r)"
    using assms(2-5) by (rule extended_counted)
  have b: "family_base H f"
    and cur: "fa_current f = (if fa_generations f = [] then None else Some (length (fa_generations f) - 1))"
    using assms(2) by (simp_all only: pending_contribution_def)
  from assms(1) cur show ?thesis
  proof (cases rule: extend_family_cases)
    case (created g)
    have "family_base H g"
      using b by (simp add: created(2) family_base_def frontiers_ok_def)
    then show ?thesis
      using attach_retained_counted [of H g] e by (simp add: counted_def created(2,3))
  next
    case joined
    with e show ?thesis
      by (simp add: counted_def)
  qed
qed

lemma observe_evidence_counted:
  assumes "observe_evidence f r seen = (u, f', seen')" and "family_ok H f" and "\<not> retains f (nl_record_id r)"
    and "counted f"
  shows "counted f'"
proof -
  have "\<forall>g\<in>set (fa_generations f). kv_get (ge_evidence g) (nl_record_id r) = None"
    using attached_keys_free [OF _ assms(3)] assms(2) by (simp add: family_ok_def)
  then have "list_all gen_counted (attach_one (fa_generations f) r)"
    using assms(4) by (intro attach_one_counted) (simp_all add: counted_def)
  moreover have "fa_generations f' = fa_generations f \<or> fa_generations f' = attach_one (fa_generations f) r"
    using assms(1)
    by (auto simp: observe_evidence_def attach_evidence_def Let_def attach_one_def split: option.splits prod.splits if_splits)
  ultimately show ?thesis
    using assms(4) by (auto simp: counted_def)
qed

lemma observe_contribution_counted:
  assumes "observe_contribution f r seen = (u, f', seen')" and "family_ok H f"
    and "record_ok H (fa_id f) (nl_record_id r) r" and "\<not> retains f (nl_record_id r)" and "counted f"
  shows "counted f'"
  using assms(1)
proof (cases rule: observe_contribution_cases)
  case (1 at_end f2 f3 requested)
  note p = contribution_prepared(1) [OF 1(1) assms(2-4)]
  note f2 = contribution_prepared(2) [OF 1(1) assms(2-4)]
  have g2: "fa_generations f2 = fa_generations f"
    by (subst f2) simp
  have b2: "family_base H f2"
    using p by (simp add: pending_contribution_def)
  have "counted f3"
  proof (cases at_end)
    case True
    have x: "extend_family f2 r seen = (f3, seen')"
      using 1(2) True by simp
    have "sorted_wrt sorts_before (fa_ordered f @ [r])"
      using b2 contribution_prepared(3) [OF 1(1) assms(2-4) True] by (simp add: family_base_def)
    then have le: "\<forall>x\<in>set (fa_ordered f2). t_inst (nl_event_time x) \<le> t_inst (nl_event_time r)"
      using contribution_prepared(3) [OF 1(1) assms(2-4) True]
      by (auto simp: sorted_wrt_append intro: sorts_before_event)
    have "\<forall>g\<in>set (fa_generations f2). kv_get (ge_records g) (nl_record_id r) = None"
      using attached_keys_free [OF _ assms(4)] assms(2) by (simp add: g2 family_ok_def)
    with extend_family_counted [OF x p] le assms(5) show ?thesis
      by (simp add: counted_def g2)
  next
    case False
    then have "rebuild_family f2 seen = (f3, seen')"
      using 1(2) by simp
    then show ?thesis
      using b2 rebuild_family_counted by (simp add: counted_def)
  qed
  then show ?thesis
    by (simp add: counted_def 1(4))
qed

lemma observe_family_counted:
  assumes "observe_family f r seen = (u, f', seen')" and "family_ok H f"
    and "record_ok H (fa_id f) (nl_record_id r) r" and "\<not> retains f (nl_record_id r)" and "counted f"
  shows "counted f'"
proof -
  let ?f = "observe_frontier r f"
  have ok: "family_ok H ?f"
    using assms(2,3) by (simp add: observe_frontier_ok record_ok_def)
  have c: "counted ?f"
    using assms(5) by (simp add: counted_def)
  show ?thesis
    using assms observe_evidence_counted [OF _ ok _ c, of r seen u f' seen']
      observe_contribution_counted [OF _ ok _ _ c, of r seen u f' seen']
    by (simp add: observe_family_def Let_def split: if_splits)
qed

definition engine_counted :: "engine \<Rightarrow> bool" where
  "engine_counted e \<longleftrightarrow> (\<forall>i f. kv_get (en_families e) i = Some f \<longrightarrow> counted f)"

lemma observe_counted:
  assumes "engine_ok H e" and "engine_counted e" and "observe H e r = (res, e')" and "record_times r"
  shows "engine_counted e'"
  using assms(3)
proof (cases rule: observe_cases)
  case (fresh i f0 u f seen)
  have f0: "family_ok H f0" "fa_id f0 = i" "located f0 (en_seen e)" "counted f0"
    using engine_ok_family [OF assms(1)] new_family_ok new_family_retains assms(2)
    by (auto simp: fresh(4) located_def new_family_def counted_def engine_counted_def split: option.splits)
  then have "\<not> retains f0 (nl_record_id r)"
    using fresh(1) by (auto simp: located_def)
  moreover have "record_ok H (fa_id f0) (nl_record_id r) r"
    using fresh(2,3) assms(4) f0(2) by (simp add: record_ok_def)
  ultimately have "counted f"
    using observe_family_counted [OF fresh(5) f0(1)] f0(4) by blast
  then show ?thesis
    using assms(2) by (simp add: engine_counted_def fresh(7) kv_get_put)
qed (use assms(2) in simp_all)

lemma compact_counted:
  assumes "engine_counted e" and "family_base H f0" and "counted f0"
  shows "engine_counted (compact f0 i now e)"
proof -
  obtain released f1 e1 where p: "prune e f0 now = (released, f1, e1)"
    by (metis prod_cases3)
  obtain f seen' where r: "(if released then rebuild_family f1 (en_seen e1) else (f1, en_seen e1)) = (f, seen')"
    by fastforce
  have "counted f \<and> en_families e1 = en_families e"
    using p assms(2)
  proof (cases rule: prune_result)
    case kept
    with r assms(3) show ?thesis
      by simp
  next
    case (pruned ks evs ordered)
    have "family_base H f1"
      unfolding pruned(1) by (rule pruned_base [OF assms(2) pruned(4)])
    moreover have "counted f1"
      using assms(3) by (simp add: pruned(1) counted_def)
    ultimately show ?thesis
      using r rebuild_family_counted [of f1 "en_seen e1" f seen' H]
      by (cases released) (simp_all add: pruned(3) counted_def)
  qed
  then show ?thesis
    using assms(1) by (auto simp: engine_counted_def compact_def p r Let_def kv_get_put kv_get_del)
qed

lemma advance_family_counted:
  assumes "advance_family now f0 = (us, f)" and "counted f0"
  shows "counted f"
  using assms(1)
  by (cases rule: advance_family_result) (use assms(2) in \<open>simp_all add: counted_def advanced_family_def\<close>)

lemma advance_loop_counted:
  assumes "t_utc now"
  shows "advance_loop now is e changed = (us, e') \<Longrightarrow> engine_ok H e \<Longrightarrow> engine_counted e \<Longrightarrow>
    engine_counted e'"
proof (induction "is" arbitrary: e changed)
  case (Cons i "is")
  show ?case
  proof (cases "kv_get (en_families e) i")
    case None
    with Cons show ?thesis
      by simp
  next
    case (Some f0)
    obtain vs f where a: "advance_family now f0 = (vs, f)"
      by fastforce
    have f0: "fa_id f0 = i" "family_ok H f0"
      using engine_ok_family [OF Cons.prems(2) Some] by auto
    note f = advance_family_ok [OF a f0(2) assms]
    have ok: "engine_ok H (compact f i now e)"
      using f f0 compact_ok [OF Cons.prems(2) Some, of f] by auto
    have "counted f0"
      using Cons.prems(3) Some by (simp add: engine_counted_def)
    with f have "engine_counted (compact f i now e)"
      by (intro compact_counted [OF Cons.prems(3)] advance_family_counted [OF a]) (auto simp: family_ok_def)
    with Cons.IH [of "compact f i now e" "changed @ vs"] Cons.prems(1) Some a ok show ?thesis
      by simp
  qed
qed simp

lemma engine_reachable_counted: "engine_reachable H e \<Longrightarrow> engine_counted e"
proof (induction rule: engine_reachable.induct)
  case reach_new
  show ?case
    by (simp add: engine_counted_def new_engine_def)
next
  case (reach_observe e r res e')
  show ?case
    by (rule observe_counted [OF engine_reachable_ok [OF reach_observe.hyps(1)] reach_observe.IH
          reach_observe.hyps(3,2)])
next
  case (reach_advance e now us e')
  obtain us1 e1 where l: "advance_loop now (sort (map fst (en_families e))) e [] = (us1, e1)"
    by fastforce
  have "engine_counted e1"
    by (rule advance_loop_counted [OF reach_advance.hyps(2) l engine_reachable_ok [OF reach_advance.hyps(1)]
          reach_advance.IH])
  then show ?case
    using reach_advance.hyps(3) by (auto simp: advance_def l compact_seen_def engine_counted_def split: if_splits)
next
  case (reach_pin e ids)
  then show ?case
    by (simp add: engine_counted_def pin_def)
qed

end
