(* ===== verification/IncidentTheorems.thy ===== *)
theory IncidentTheorems
  imports IncidentCount JournalSample
begin

text \<open>
  The properties of the incident engine, each over the engines reachable from the empty one by any
  sequence of observations, advances and pins.
\<close>

section \<open>Sample engines\<close>

definition sample_observed :: engine where
  "sample_observed = snd (observe sample_digest new_engine sample_record)"

definition sample_advanced :: engine where
  "sample_advanced = snd (advance sample_observed (sample_time 300))"

lemma sample_record_sane: "record_times sample_record"
  by (simp add: record_times_def sane_def sample_record_def sample_time_def go_second_def)

lemma sample_observed_reachable: "engine_reachable sample_digest sample_observed"
  unfolding sample_observed_def
  by (rule reach_observe [OF reach_new sample_record_sane, of _ "fst (observe sample_digest new_engine sample_record)"])
    simp

lemma sample_advanced_reachable: "engine_reachable sample_digest sample_advanced"
  unfolding sample_advanced_def
  by (rule reach_advance [OF sample_observed_reachable, of "sample_time 300" "fst (advance sample_observed (sample_time 300))"])
    (simp_all add: sample_time_def)

section \<open>Decisions\<close>

lemma find_containing_Some:
  "find_containing gs k = Some g \<Longrightarrow>
   g \<in> set gs \<and> (kv_get (ge_records g) k \<noteq> None \<or> kv_get (ge_evidence g) k \<noteq> None)"
  by (induction gs k rule: find_containing.induct) (auto split: if_splits)

lemma generation_member:
  assumes "family_base H f" and "family_gens f" and "g \<in> set (fa_generations f)"
  shows "gen_times g" and "ge_status g = detection_active \<or> ge_status g = detection_quiet"
    and "gen_holds (fa_events f) g" and "evidence_holds (fa_evidence f) g"
  using assms(2,3) by (auto simp: family_gens_def gens_full_def gens_hold_def statuses_ok_def list_all_iff)

lemma contained_record:
  assumes "family_base H f" and "family_gens f" and "g \<in> set (fa_generations f)"
    and "kv_get (ge_records g) k \<noteq> None \<or> kv_get (ge_evidence g) k \<noteq> None"
    and "retained_record f k lo = Some r"
  shows "record_ok H (fa_id f) k r \<and> deployment_of r = ge_deployment g
    \<and> (\<not> lo_evidence lo \<longrightarrow> \<not> before (nl_event_time r) (ge_first g)
         \<and> \<not> before (ge_last_activity g) (bounded_activity r))"
proof (cases "lo_evidence lo")
  case True
  then obtain ev where ev: "kv_get (fa_evidence f) k = Some ev" "ev_record ev = r"
    using assms(5) by (auto simp: retained_record_def split: option.splits if_splits)
  then have "kv_get (fa_events f) k = None"
    using base_disjoint [OF assms(1), of k] by simp
  then have "kv_get (ge_records g) k = None"
    using generation_member(3) [OF assms(1-3)] unfolding gen_holds_def by (metis not_Some_eq option.distinct(1))
  then obtain r' where r': "kv_get (ge_evidence g) k = Some r'"
    using assms(4) by auto
  have "(\<exists>ev. kv_get (fa_evidence f) k = Some ev \<and> ev_record ev = r') \<and> deployment_of r' = ge_deployment g"
    using generation_member(4) [OF assms(1-3)] r' by (simp add: evidence_holds_def)
  then have "r' = r" "deployment_of r' = ge_deployment g"
    using ev by auto
  then show ?thesis
    using True base_evidence [OF assms(1) ev(1)] ev(2) by simp
next
  case False
  then have ev: "kv_get (fa_events f) k = Some r"
    using assms(5) by (simp add: retained_record_def)
  then have "kv_get (fa_evidence f) k = None"
    using base_disjoint [OF assms(1), of k] by simp
  then have "kv_get (ge_evidence g) k = None"
    using generation_member(4) [OF assms(1-3)] unfolding evidence_holds_def
    by (metis not_Some_eq option.distinct(1))
  then obtain r' where r': "kv_get (ge_records g) k = Some r'"
    using assms(4) by auto
  then have "r' = r"
    using generation_member(3) [OF assms(1-3)] ev by (simp add: gen_holds_def)
  then show ?thesis
    using False generation_member(3) [OF assms(1-3)] r' base_event [OF assms(1) ev] by (simp add: gen_holds_def)
qed

text \<open>
  C9. Every persistence decision the engine gives for a record is one that storage accepts for that
  record: the check made before a storage transaction never refuses what the engine decided.
\<close>

theorem decision_accepted:
  assumes "engine_reachable H e" and "decide_persistence H e k = Some d"
  shows "\<exists>lo f r. kv_get (en_seen e) k = Some lo \<and> kv_get (en_families e) (lo_incident lo) = Some f
    \<and> retained_record f k lo = Some r \<and> nl_record_id r = k \<and> valid_persistence_decision H r d"
proof -
  obtain lo f r g key where
    lo: "kv_get (en_seen e) k = Some lo" and f: "kv_get (en_families e) (lo_incident lo) = Some f"
    and fin: "\<not> is_zero (fa_finalized f)" and r: "retained_record f k lo = Some r"
    and rt: "before (nl_event_time r) (fa_finalized f)" and g: "generation_containing f k = Some g"
    and key: "generation_key H (ge_deployment g) (ge_first g) = Some key"
    and d: "d = \<lparr>pd_version = persistence_decision_version, pd_incident_id = fa_id f, pd_record_id = k,
      pd_deployment_id = ge_deployment g, pd_episode_start = ge_first g, pd_generation_key = key,
      pd_finalized_through = fa_finalized f, pd_evidence_only = lo_evidence lo,
      pd_detection_status = ge_status g, pd_quiet_at = add_time (ge_last_activity g) default_quiet_period,
      pd_reopen_until = add_time (add_time (ge_last_activity g) default_quiet_period) default_reopen_window,
      pd_late = lo_late lo\<rparr>"
    using assms(2) by (auto simp: decide_persistence_def Let_def split: option.splits if_splits)
  have ok: "fa_id f = lo_incident lo" "family_base H f" "family_gens f" "location_ok f k lo"
    using engine_reachable_ok [OF assms(1)] engine_ok_family [of H e "lo_incident lo" f] lo f
      engine_ok_seen [of H e k lo] by (auto simp: family_ok_def)
  have gm: "g \<in> set (fa_generations f)" "kv_get (ge_records g) k \<noteq> None \<or> kv_get (ge_evidence g) k \<noteq> None"
    using g find_containing_Some by (auto simp: generation_containing_def)
  note gf = generation_member [OF ok(2,3) gm(1)]
  have rec: "record_ok H (fa_id f) k r" and dep: "deployment_of r = ge_deployment g"
    and bounds: "\<not> lo_evidence lo \<Longrightarrow> \<not> before (nl_event_time r) (ge_first g)
       \<and> \<not> before (ge_last_activity g) (bounded_activity r)"
    using contained_record [OF ok(2,3) gm r] by blast+
  have quiet: "\<not> is_zero (add_time (ge_last_activity g) default_quiet_period)"
    "t_utc (add_time (ge_last_activity g) default_quiet_period)"
    using gf(1) sane_later [of "ge_last_activity g" default_quiet_period]
    by (simp_all add: gen_times_def sane_def incident_limits is_zero_def)
  have "t_utc (fa_finalized f)"
    using ok(2) by (simp add: family_base_def frontiers_ok_def)
  moreover have "lo_late lo \<Longrightarrow> lo_evidence lo"
    using ok(4) by (auto simp: location_ok_def split: if_splits)
  moreover have "\<not> lo_evidence lo \<Longrightarrow> \<not> before (add_time (ge_last_activity g) default_quiet_period)
      (add_time (bounded_activity r) default_quiet_period)"
    using bounds by (simp add: before_def)
  ultimately have "valid_persistence_decision H r d"
    using rec fin rt dep key gf(2) quiet bounds
    by (auto simp: valid_persistence_decision_def d record_ok_def same_instant_def)
  with lo f r rec show ?thesis
    by (auto simp: record_ok_def)
qed

theorem decision_accepted_witness:
  "\<exists>d lo f r. decide_persistence sample_digest sample_advanced sample_id = Some d
    \<and> retained_record f sample_id lo = Some r \<and> valid_persistence_decision sample_digest r d"
proof -
  have "decide_persistence sample_digest sample_advanced sample_id \<noteq> None"
    by code_simp
  then obtain d where d: "decide_persistence sample_digest sample_advanced sample_id = Some d"
    by auto
  with decision_accepted [OF sample_advanced_reachable d] show ?thesis
    by blast
qed

lemma make_update_sel [simp]:
  "up_incident_id (make_update f g d q c l o') = fa_id f" "up_duplicate (make_update f g d q c l o') = d"
  "up_investigation_requested (make_update f g d q c l o') = q"
  "up_evidence_only (make_update f g d q c l o') = o'" "up_late (make_update f g d q c l o') = l"
  "up_active_investigation (make_update f g d q c l o') = fa_active f"
  by (simp_all add: make_update_def Let_def split: option.splits)

lemma observe_family_update:
  assumes "observe_family f0 r seen = (u, f, seen')"
  shows "up_incident_id u = fa_id f"
proof -
  let ?f = "observe_frontier r f0"
  show ?thesis
  proof (cases "behind_frontier ?f r \<or> quiet_evidence ?f r")
    case True
    with assms have "observe_evidence ?f r seen = (u, f, seen')"
      by (simp add: observe_family_def)
    then show ?thesis
      by (auto simp: observe_evidence_def Let_def split: prod.splits)
  next
    case False
    with assms have "observe_contribution ?f r seen = (u, f, seen')"
      by (simp add: observe_family_def)
    then show ?thesis
      by (auto simp: observe_contribution_def Let_def split: prod.splits)
  qed
qed

lemma fresh_family:
  assumes "engine_ok H e"
    and "f0 = (case kv_get (en_families e) i of None \<Rightarrow> new_family i | Some f \<Rightarrow> f)"
    and "kv_get (en_seen e) k = None"
  shows "family_ok H f0 \<and> fa_id f0 = i \<and> \<not> retains f0 k"
proof (cases "kv_get (en_families e) i")
  case None
  then show ?thesis
    using assms(2) new_family_ok new_family_retains by (simp add: new_family_def)
next
  case (Some f)
  then have "f0 = f" "fa_id f = i" "family_ok H f" "located f (en_seen e)"
    using assms(2) engine_ok_family [OF assms(1) Some] by simp_all
  then show ?thesis
    using assms(3) by (auto simp: located_def)
qed

lemma observe_indexes:
  assumes "engine_ok H e" and "observe H e r = (Inr u, e')" and "record_times r"
  shows "\<exists>lo. kv_get (en_seen e') (nl_record_id r) = Some lo \<and> lo_incident lo = up_incident_id u"
  using assms(2)
proof (cases rule: observe_cases)
  case (duplicate lo f)
  moreover have "fa_id f = lo_incident lo"
    using engine_ok_family [OF assms(1) duplicate(2)] by simp
  ultimately show ?thesis
    by simp
next
  case (fresh i f0 u' f seen)
  have e': "engine_ok H e'"
    by (rule observe_ok [OF assms])
  have f: "kv_get (en_families e') i = Some f"
    by (simp add: fresh(7) kv_get_put)
  have f0: "family_ok H f0" "fa_id f0 = i" "\<not> retains f0 (nl_record_id r)"
    using fresh_family [OF assms(1) fresh(4) fresh(1)] by simp_all
  have "record_ok H (fa_id f0) (nl_record_id r) r"
    using fresh(2,3) assms(3) f0(2) by (simp add: record_ok_def)
  then have "gains f0 (nl_record_id r) f"
    using observe_family_ok [OF fresh(5) f0(1) _ f0(3)] by blast
  then have "retains f (nl_record_id r)" "fa_id f = i"
    using f0(2) by (simp_all add: gains_def)
  moreover have "up_incident_id u = fa_id f"
    using fresh(6) observe_family_update [OF fresh(5)] by simp
  ultimately show ?thesis
    using engine_ok_family [OF e' f] by (auto simp: located_def location_ok_def)
qed auto

text \<open>
  C29. Observing never follows an identity to a family that is gone: the nil dereference on the duplicate
  path is unreachable, because compaction forgets an identity with its payload.
\<close>

theorem observe_finds_family:
  assumes "engine_reachable H e"
  shows "fst (observe H e r) \<noteq> Inl MissingFamily"
proof
  assume "fst (observe H e r) = Inl MissingFamily"
  then have "observe H e r = (Inl MissingFamily, snd (observe H e r))"
    by (metis prod.collapse)
  then show False
  proof (cases rule: observe_cases)
    case (missing lo)
    with engine_reachable_ok [OF assms] engine_ok_seen [of H e "nl_record_id r" lo] show False
      by auto
  qed simp_all
qed

theorem observe_finds_family_witness:
  "fst (observe sample_digest sample_observed sample_record) \<noteq> Inl MissingFamily"
  by (rule observe_finds_family [OF sample_observed_reachable])

text \<open>
  C14. A record contributes once: delivering it again changes nothing, is reported as a duplicate and names
  the same incident.
\<close>

theorem observe_again:
  assumes "engine_reachable H e" and "record_times r" and "observe H e r = (Inr u, e')"
  shows "\<exists>u'. observe H e' r = (Inr u', e') \<and> up_duplicate u'
    \<and> up_incident_id u' = up_incident_id u \<and> \<not> up_investigation_requested u'"
proof -
  have e': "engine_reachable H e'"
    using assms by (rule reach_observe)
  obtain fp where fp: "fingerprint_of H r = Inr fp"
    using assms(3) by (cases "fingerprint_of H r") (auto simp: observe_def)
  have "\<exists>lo. kv_get (en_seen e') (nl_record_id r) = Some lo \<and> lo_incident lo = up_incident_id u"
    using observe_indexes [OF engine_reachable_ok [OF assms(1)] assms(3,2)] .
  then obtain lo f where lo: "kv_get (en_seen e') (nl_record_id r) = Some lo" "lo_incident lo = up_incident_id u"
    "kv_get (en_families e') (lo_incident lo) = Some f"
    using engine_ok_seen [OF engine_reachable_ok [OF e']] by blast
  moreover have "fa_id f = lo_incident lo"
    using engine_ok_family [OF engine_reachable_ok [OF e'] lo(3)] by simp
  ultimately show ?thesis
    using fp by (simp add: observe_def)
qed

theorem observe_again_witness:
  "\<exists>u'. observe sample_digest sample_observed sample_record = (Inr u', sample_observed) \<and> up_duplicate u'"
proof -
  have "\<not> isl (fst (observe sample_digest new_engine sample_record))"
    by code_simp
  then obtain u where "observe sample_digest new_engine sample_record = (Inr u, sample_observed)"
    unfolding sample_observed_def
    by (cases "fst (observe sample_digest new_engine sample_record)") (auto simp: prod_eq_iff)
  from observe_again [OF reach_new sample_record_sane this] show ?thesis
    by blast
qed

end
