(* ===== verification/IncidentSafety.thy ===== *)
theory IncidentSafety
  imports IncidentTheorems
begin

text \<open>
  Safety of the incident engine: what starts an investigation, what the frontier closes, and what
  retention may forget.
\<close>

section \<open>Code equations for evaluation\<close>

text \<open>
  The stages of compaction and of a contribution as functions by pattern matching, so that evaluation by
  rewriting does not expand a stage before its input is known.
\<close>

fun compacted :: "bytes \<Rightarrow> gtime \<Rightarrow> engine \<Rightarrow> family \<times> seen_map \<Rightarrow> engine" where
  "compacted i now e (f, seen) =
     (let e = e\<lparr>en_seen := seen\<rparr>
      in if length (fa_events f) \<noteq> 0 \<or> length (fa_evidence f) \<noteq> 0
            \<or> (fa_active f
               \<and> before now (add_time (fa_last_activity f) default_reinvestigation_interval))
         then e\<lparr>en_families := kv_put i f (en_families e)\<rparr>
         else e\<lparr>en_families := kv_del i (en_families e)\<rparr>)"

fun compact_pruned :: "bytes \<Rightarrow> gtime \<Rightarrow> bool \<times> family \<times> engine \<Rightarrow> engine" where
  "compact_pruned i now (True, f, e) = compacted i now e (rebuild_family f (en_seen e))"
| "compact_pruned i now (False, f, e) = compacted i now e (f, en_seen e)"

lemma compact_stages [code]: "compact f i now e = compact_pruned i now (prune e f now)"
  by (cases "prune e f now" rule: prod_cases3) (auto simp: compact_def Let_def split: prod.splits bool.splits)

fun contributed :: "normalized_log \<Rightarrow> bytes \<Rightarrow> int \<Rightarrow> family \<times> seen_map \<Rightarrow> engine_update \<times> family \<times> seen_map" where
  "contributed r old_topology old_context (f, seen) =
     (let requested = (\<not> fa_active f \<and> threshold_generation f \<noteq> None);
          f = (if requested then f\<lparr>fa_active := True\<rparr> else f);
          f = (if fa_active f then f\<lparr>fa_context := generation_count f\<rparr> else f);
          context_updated = (\<not> requested \<and> fa_active f
                             \<and> (old_topology \<noteq> topology f \<or> old_context \<noteq> fa_context f))
      in (make_update f (generation_containing f (nl_record_id r)) False requested context_updated
            False False, f, seen))"

fun placed :: "normalized_log \<Rightarrow> seen_map \<Rightarrow> family \<times> bool \<Rightarrow> family \<times> seen_map" where
  "placed r seen (f, True) = extend_family f r seen"
| "placed r seen (f, False) = rebuild_family f seen"

lemma contribution_stages [code]:
  "observe_contribution f r seen =
     contributed r (topology f) (fa_context f)
       (placed r seen (insert_ordered (f\<lparr>fa_events := kv_put (nl_record_id r) r (fa_events f)\<rparr>) r))"
  by (auto simp: observe_contribution_def Let_def split: prod.splits bool.splits)

section \<open>Investigations\<close>




lemma counted_family:
  "engine_reachable H e \<Longrightarrow> kv_get (en_families e) i = Some f \<Longrightarrow> g \<in> set (fa_generations f) \<Longrightarrow> gen_counted g"
  using engine_reachable_counted by (auto simp: engine_counted_def counted_def list_all_iff)













section \<open>Counts\<close>

text \<open>
  C13. The window counts the engine reports are exact: for every episode of every reachable engine the
  binary searches over the sorted projections count the records and the evidence of the episode whose
  event time lies in the half-open window.
\<close>

theorem window_counts:
  assumes "engine_reachable H e" and "kv_get (en_families e) i = Some f" and "g \<in> set (fa_generations f)"
    and "\<not> is_zero w"
  shows "count_in_window g w = records_in_window (ge_records g) w + records_in_window (ge_evidence g) w"
  using counted_family [OF assms(1-3)] assms(4) by (rule count_in_window_exact)

theorem window_counts_witness:
  "\<exists>f g. kv_get (en_families sample_observed) (concat (replicate 32 ''00'')) = Some f \<and> g \<in> set (fa_generations f)
    \<and> count_in_window g (sample_time 95) = records_in_window (ge_records g) (sample_time 95)
        + records_in_window (ge_evidence g) (sample_time 95)"
proof -
  have "case kv_get (en_families sample_observed) (concat (replicate 32 ''00'')) of
      Some f \<Rightarrow> fa_generations f \<noteq> [] | None \<Rightarrow> False"
    by code_simp
  then obtain f where f: "kv_get (en_families sample_observed) (concat (replicate 32 ''00'')) = Some f"
    "hd (fa_generations f) \<in> set (fa_generations f)"
    by (auto split: option.splits)
  have "\<not> is_zero (sample_time 95)"
    by code_simp
  from window_counts [OF sample_observed_reachable f this] f show ?thesis
    by blast
qed

section \<open>The frontier\<close>



lemma attach_one_first [simp]: "map ge_first (attach_one gs r) = map ge_first gs"
  by (simp add: attach_one_def map_update_same split: option.splits)




section \<open>Episodes\<close>

text \<open>
  C12. The episodes of every incident of every reachable engine are well formed: they are numbered
  consecutively from the first retained ordinal, only the last one can be active, each holds records of one
  deployment inside its bounds, and together they hold every contributing record of the incident.
\<close>

theorem episodes_well_formed:
  assumes "engine_reachable H e" and "kv_get (en_families e) i = Some f"
  shows "(\<forall>n < length (fa_generations f). ge_number (fa_generations f ! n) = fa_pruned f + 1 + int n)
    \<and> (\<forall>n. Suc n < length (fa_generations f) \<longrightarrow> ge_status (fa_generations f ! n) = detection_quiet)
    \<and> (\<forall>g\<in>set (fa_generations f). \<forall>k r. kv_get (ge_records g) k = Some r \<longrightarrow>
         kv_get (fa_events f) k = Some r \<and> deployment_of r = ge_deployment g
         \<and> \<not> before (nl_event_time r) (ge_first g) \<and> \<not> before (ge_last_activity g) (bounded_activity r))
    \<and> (\<forall>k r. kv_get (fa_events f) k = Some r \<longrightarrow>
         (\<exists>g\<in>set (fa_generations f). kv_get (ge_records g) k = Some r))"
proof -
  have ok: "family_base H f" "family_gens f"
    using engine_ok_family [OF engine_reachable_ok [OF assms(1)] assms(2)] by (auto simp: family_ok_def)
  let ?gs = "fa_generations f"
  have "ge_number (?gs ! n) = fa_pruned f + 1 + int n" if "n < length ?gs" for n
  proof -
    have "map ge_number ?gs ! n = map (\<lambda>i. fa_pruned f + 1 + int i) [0..<length ?gs] ! n"
      using ok(2) by (simp only: family_gens_def numbered_def)
    with that show ?thesis
      by simp
  qed
  moreover have "ge_status (?gs ! n) = detection_quiet" if "Suc n < length ?gs" for n
    using ok(2) that nth_mem [of n "butlast ?gs"]
    by (simp add: family_gens_def statuses_ok_def list_all_iff nth_butlast)
  moreover have h: "gen_holds (fa_events f) g" if "g \<in> set ?gs" for g
    using generation_member(3) [OF ok that] .
  moreover have "\<exists>g\<in>set ?gs. kv_get (ge_records g) k = Some r" if k: "kv_get (fa_events f) k = Some r" for k r
  proof -
    from ok(2) k obtain g r' where g: "g \<in> set ?gs" "kv_get (ge_records g) k = Some r'"
      unfolding family_gens_def contains_record_def by fastforce
    with h [OF g(1)] k have "r' = r"
      by (simp add: gen_holds_def)
    with g show ?thesis
      by blast
  qed
  ultimately show ?thesis
    by (simp add: gen_holds_def)
qed

theorem episodes_well_formed_witness:
  "\<exists>f. kv_get (en_families sample_observed) (concat (replicate 32 ''00'')) = Some f
    \<and> (\<forall>n < length (fa_generations f). ge_number (fa_generations f ! n) = fa_pruned f + 1 + int n)"
proof -
  have "kv_get (en_families sample_observed) (concat (replicate 32 ''00'')) \<noteq> None"
    by code_simp
  then obtain f where "kv_get (en_families sample_observed) (concat (replicate 32 ''00'')) = Some f"
    by auto
  with episodes_well_formed [OF sample_observed_reachable this] show ?thesis
    by blast
qed

section \<open>Retention\<close>

definition family_record :: "family \<Rightarrow> bytes \<Rightarrow> normalized_log option" where
  "family_record f k =
     (case kv_get (fa_events f) k of Some r \<Rightarrow> Some r
      | None \<Rightarrow> map_option ev_record (kv_get (fa_evidence f) k))"

text \<open>A family after compaction steps: some records gone, the watermark where it was.\<close>

definition shrunk :: "family \<Rightarrow> family \<Rightarrow> bool" where
  "shrunk f f' \<longleftrightarrow> fa_watermark f' = fa_watermark f
     \<and> (\<forall>k r. family_record f' k = Some r \<longrightarrow> family_record f k = Some r)"

definition engine_shrunk :: "engine \<Rightarrow> engine \<Rightarrow> bool" where
  "engine_shrunk e e' \<longleftrightarrow>
     (\<forall>i f'. kv_get (en_families e') i = Some f' \<longrightarrow>
        (\<exists>f. kv_get (en_families e) i = Some f \<and> shrunk f f'))"

lemma shrunk_trans: "shrunk a b \<Longrightarrow> shrunk b c \<Longrightarrow> shrunk a c"
  by (simp add: shrunk_def)

lemma engine_shrunk_refl [simp]: "engine_shrunk e e"
  by (simp add: engine_shrunk_def shrunk_def)

lemma engine_shrunk_trans: "engine_shrunk a b \<Longrightarrow> engine_shrunk b c \<Longrightarrow> engine_shrunk a c"
  unfolding engine_shrunk_def using shrunk_trans by blast

text \<open>Why an identity may be forgotten: the record it names in \<open>e\<close> is expired there.\<close>

definition may_forget :: "engine \<Rightarrow> gtime \<Rightarrow> bytes \<Rightarrow> bool" where
  "may_forget e now k \<longleftrightarrow>
     (\<exists>i f r. kv_get (en_families e) i = Some f \<and> family_record f k = Some r
        \<and> expired e (retention_horizon f now) r)"

lemma family_record_same:
  "fa_events f = fa_events g \<Longrightarrow> fa_evidence f = fa_evidence g \<Longrightarrow> family_record f = family_record g"
  by (rule ext) (simp only: family_record_def)

lemma horizon_same: "fa_watermark f = fa_watermark g \<Longrightarrow> retention_horizon f now = retention_horizon g now"
  by (simp only: retention_horizon_def)

lemma shrunk_same:
  "fa_events g = fa_events f \<Longrightarrow> fa_evidence g = fa_evidence f \<Longrightarrow> fa_watermark g = fa_watermark f \<Longrightarrow> shrunk f g"
  using family_record_same [of f g] by (simp add: shrunk_def)

lemma may_forget_shrunk:
  assumes "engine_shrunk e e'" and "en_pinned e' = en_pinned e" and "may_forget e' now k"
  shows "may_forget e now k"
proof -
  obtain i f' r where f': "kv_get (en_families e') i = Some f'" "family_record f' k = Some r"
    "expired e' (retention_horizon f' now) r"
    using assms(3) unfolding may_forget_def by blast
  then obtain f where f: "kv_get (en_families e) i = Some f" "shrunk f f'"
    using assms(1) unfolding engine_shrunk_def by blast
  have "retention_horizon f' now = retention_horizon f now"
    using f(2) by (intro horizon_same) (simp add: shrunk_def)
  then have "expired e (retention_horizon f now) r" "family_record f k = Some r"
    using f' f(2) assms(2) by (simp_all add: expired_def is_pinned_def shrunk_def)
  with f(1) show ?thesis
    unfolding may_forget_def by blast
qed

lemma compact_forgets:
  assumes "kv_get (en_families e) i = Some fo" and "shrunk fo f0" and "family_ok H f0"
  shows "engine_shrunk e (compact f0 i now e)"
    and "kv_get (en_seen e) k \<noteq> None \<Longrightarrow> kv_get (en_seen (compact f0 i now e)) k = None \<Longrightarrow> may_forget e now k"
proof -
  have b: "family_base H f0" and g: "family_gens f0"
    using assms(3) by (simp_all add: family_ok_def)
  obtain released f1 e1 where p: "prune e f0 now = (released, f1, e1)"
    by (metis prod_cases3)
  obtain f seen' where r: "(if released then rebuild_family f1 (en_seen e1) else (f1, en_seen e1)) = (f, seen')"
    by fastforce
  have key: "shrunk f0 f \<and> en_families e1 = en_families e
      \<and> (kv_get (en_seen e) k \<noteq> None \<longrightarrow> kv_get seen' k = None \<longrightarrow>
           (\<exists>r. family_record f0 k = Some r \<and> expired e (retention_horizon f0 now) r))"
    using p b
  proof (cases rule: prune_result)
    case kept
    with r show ?thesis
      by (auto simp: shrunk_def)
  next
    case (pruned ks evs ordered)
    have b1: "family_base H f1"
      unfolding pruned(1) by (rule pruned_base [OF b pruned(4)])
    have "\<forall>p\<in>set (fa_generations f1). gen_times p"
      using g by (simp add: pruned(1) family_gens_def gens_full_def gens_hold_def list_all_iff)
    then have s: "same_records f1 f \<and> index_ok f (en_seen e1) seen'"
      using rebuild_family_ok [of f1 "en_seen e1" f seen' H] r b1
      by (cases released) (simp_all add: reindexed_def same_records_def)
    have ev: "kv_get (fa_events f) k' = (if k' \<in> set ks then None else kv_get (fa_events f0) k')"
      "kv_get (fa_evidence f) k' = (if k' \<in> set evs then None else kv_get (fa_evidence f0) k')" for k'
      using s by (simp_all add: same_records_def pruned(1) kv_get_del_keys)
    have "family_record f0 k' = Some x" if "family_record f k' = Some x" for k' x
    proof (cases "k' \<in> set ks")
      case True
      then have "kv_get (fa_evidence f0) k' = None"
        using pruned(5) base_disjoint [OF b, of k'] by fastforce
      with True that show ?thesis
        by (simp add: family_record_def ev split: if_splits)
    next
      case False
      with that show ?thesis
        by (simp add: family_record_def ev split: option.splits if_splits)
    qed
    then have "shrunk f0 f"
      using s by (simp add: shrunk_def same_records_def pruned(1))
    moreover have "\<exists>r. family_record f0 k = Some r \<and> expired e (retention_horizon f0 now) r"
      if "kv_get (en_seen e) k \<noteq> None" "kv_get seen' k = None"
    proof -
      have "kv_get (en_seen e1) k = None"
        using s that(2) by (auto simp: index_ok_def) (metis option.distinct(1))
      then have "k \<in> set ks \<union> set evs"
        using that(1) by (simp add: pruned(3) kv_get_del_keys split: if_splits)
      then show ?thesis
        using pruned(5,6) base_disjoint [OF b, of k] by (fastforce simp: family_record_def)
    qed
    ultimately show ?thesis
      by (simp add: pruned(3))
  qed
  have e': "en_seen (compact f0 i now e) = seen'"
    "en_families (compact f0 i now e) = kv_put i f (en_families e)
     \<or> en_families (compact f0 i now e) = kv_del i (en_families e)"
    using key by (auto simp: compact_def p r Let_def)
  show "engine_shrunk e (compact f0 i now e)"
    using e'(2) key assms(1,2) shrunk_trans [of fo f0 f]
    by (auto simp: engine_shrunk_def kv_get_put kv_get_del shrunk_def split: if_splits)
  show "may_forget e now k" if "kv_get (en_seen e) k \<noteq> None" "kv_get (en_seen (compact f0 i now e)) k = None"
  proof -
    have "\<exists>r. family_record f0 k = Some r \<and> expired e (retention_horizon f0 now) r"
      using key that by (simp only: e'(1)) blast
    then obtain r where r: "family_record f0 k = Some r" "expired e (retention_horizon f0 now) r"
      by blast
    moreover have "retention_horizon f0 now = retention_horizon fo now"
      using assms(2) by (intro horizon_same) (simp add: shrunk_def)
    ultimately show ?thesis
      using assms(1,2) unfolding may_forget_def shrunk_def by metis
  qed
qed

lemma advance_family_shrunk:
  "advance_family now f0 = (us, f) \<Longrightarrow> shrunk f0 f"
  by (cases rule: advance_family_result)
    (auto simp: advanced_family_def intro!: shrunk_same)

lemma advance_loop_forgets:
  assumes "t_utc now"
  shows "advance_loop now is e changed = (us, e') \<Longrightarrow> engine_ok H e \<Longrightarrow>
    kv_get (en_seen e) k \<noteq> None \<Longrightarrow> kv_get (en_seen e') k = None \<Longrightarrow> may_forget e now k"
proof (induction "is" arbitrary: e changed)
  case (Cons i "is")
  show ?case
  proof (cases "kv_get (en_families e) i")
    case None
    with Cons.prems Cons.IH [of e changed] show ?thesis
      by simp
  next
    case (Some f0)
    obtain vs f where a: "advance_family now f0 = (vs, f)"
      by fastforce
    have f0: "fa_id f0 = i" "family_ok H f0"
      using engine_ok_family [OF Cons.prems(2) Some] by auto
    note f = advance_family_ok [OF a f0(2) assms]
    let ?e = "compact f i now e"
    have ok: "engine_ok H ?e" "en_pinned ?e = en_pinned e"
      using f f0 compact_ok [OF Cons.prems(2) Some, of f] by auto
    have c: "engine_shrunk e ?e" "kv_get (en_seen ?e) k = None \<Longrightarrow> may_forget e now k"
      using compact_forgets [OF Some advance_family_shrunk [OF a], of H] f Cons.prems(3) by blast+
    show ?thesis
    proof (cases "kv_get (en_seen ?e) k = None")
      case False
      with Cons.IH [of ?e "changed @ vs"] Cons.prems(1,4) Some a ok(1) have "may_forget ?e now k"
        by simp
      then show ?thesis
        by (rule may_forget_shrunk [OF c(1) ok(2)])
    qed (rule c(2))
  qed
qed simp

text \<open>
  C8. Retention is safe: an identity \<open>Advance\<close> forgets named a record the engine still held, that record
  lay behind the retention horizon of its incident, and the journal had not pinned it. So a pinned record,
  or one the horizon has not reached, is never counted twice.
\<close>

theorem advance_forgets_expired:
  assumes "engine_reachable H e" and "t_utc now" and "advance e now = (us, e')"
    and "kv_get (en_seen e) k \<noteq> None" and "kv_get (en_seen e') k = None"
  shows "\<exists>i f r. kv_get (en_families e) i = Some f \<and> family_record f k = Some r \<and> nl_record_id r = k
    \<and> before (nl_event_time r) (retention_horizon f now) \<and> \<not> is_pinned e k"
proof -
  obtain e1 where l: "advance_loop now (sort (map fst (en_families e))) e [] = (us, e1)" "e' = compact_seen e1"
    using assms(3) by (auto simp: advance_def split: prod.splits)
  have "kv_get (en_seen e1) k = None"
    using assms(5) by (simp add: l(2) compact_seen_def split: if_splits)
  with advance_loop_forgets [OF assms(2) l(1) engine_reachable_ok [OF assms(1)] assms(4)]
  obtain i f r where f: "kv_get (en_families e) i = Some f" "family_record f k = Some r"
    "expired e (retention_horizon f now) r"
    unfolding may_forget_def by blast
  have b: "family_base H f"
    using engine_ok_family [OF engine_reachable_ok [OF assms(1)] f(1)] by (simp add: family_ok_def)
  have "nl_record_id r = k"
    using f(2) base_event [OF b] base_evidence [OF b]
    by (auto simp: family_record_def record_ok_def split: option.splits)
  with f show ?thesis
    unfolding expired_def by blast
qed

theorem advance_forgets_expired_witness:
  "\<exists>f r. kv_get (en_families sample_observed) (concat (replicate 32 ''00'')) = Some f
    \<and> family_record f sample_id = Some r \<and> before (nl_event_time r) (retention_horizon f (sample_time 100000))"
proof -
  let ?e = "snd (advance sample_observed (sample_time 100000))"
  have "advance sample_observed (sample_time 100000) = (fst (advance sample_observed (sample_time 100000)), ?e)"
    by simp
  moreover have "kv_get (en_seen sample_observed) sample_id \<noteq> None \<and> kv_get (en_seen ?e) sample_id = None
      \<and> map fst (en_families sample_observed) = [concat (replicate 32 ''00'')]"
    by code_simp
  moreover have "t_utc (sample_time 100000)"
    by (simp add: sample_time_def)
  ultimately obtain i f r where w: "kv_get (en_families sample_observed) i = Some f"
    "family_record f sample_id = Some r" "before (nl_event_time r) (retention_horizon f (sample_time 100000))"
    and k: "map fst (en_families sample_observed) = [concat (replicate 32 ''00'')]"
    using advance_forgets_expired [OF sample_observed_reachable, of "sample_time 100000" _ ?e sample_id] by metis
  have "i = concat (replicate 32 ''00'')"
    using w(1) k by (cases "en_families sample_observed") (auto simp: kv_get_def split: if_splits)
  with w show ?thesis
    by blast
qed

end
