(* ===== verification/GoText.thy ===== *)
theory GoText
  imports Prelude
begin

text \<open>
  Go's text functions on byte strings: \<open>strings.TrimSpace\<close>, \<open>utf8.ValidString\<close>, the replacement of
  invalid bytes that \<open>encoding/json\<close> makes, and \<open>strings.ToLower\<close> as far as a comparison with ASCII text
  observes it. The functions work on the codes of the bytes.
\<close>

section \<open>White space\<close>

definition space1 :: "nat \<Rightarrow> bool" where
  "space1 a \<longleftrightarrow> a = 32 \<or> (9 \<le> a \<and> a \<le> 13)"

definition space2 :: "nat \<Rightarrow> nat \<Rightarrow> bool" where
  "space2 a b \<longleftrightarrow> a = 194 \<and> (b = 133 \<or> b = 160)"

definition space3 :: "nat \<Rightarrow> nat \<Rightarrow> nat \<Rightarrow> bool" where
  "space3 a b c \<longleftrightarrow>
     (a = 225 \<and> b = 154 \<and> c = 128)
     \<or> (a = 226 \<and> b = 128 \<and> ((128 \<le> c \<and> c \<le> 138) \<or> c = 168 \<or> c = 169 \<or> c = 175))
     \<or> (a = 226 \<and> b = 129 \<and> c = 159)
     \<or> (a = 227 \<and> b = 128 \<and> c = 128)"

lemmas space_defs = space1_def space2_def space3_def

fun trim_left :: "nat list \<Rightarrow> nat list" where
  "trim_left (a # b # c # s) =
     (if space1 a then trim_left (b # c # s)
      else if space2 a b then trim_left (c # s)
      else if space3 a b c then trim_left s
      else a # b # c # s)"
| "trim_left [a, b] = (if space1 a then trim_left [b] else if space2 a b then [] else [a, b])"
| "trim_left [a] = (if space1 a then [] else [a])"
| "trim_left [] = []"

text \<open>The same from the end, on the reversed text.\<close>

fun trim_reversed :: "nat list \<Rightarrow> nat list" where
  "trim_reversed (a # b # c # s) =
     (if space1 a then trim_reversed (b # c # s)
      else if space2 b a then trim_reversed (c # s)
      else if space3 c b a then trim_reversed s
      else a # b # c # s)"
| "trim_reversed [a, b] = (if space1 a then trim_reversed [b] else if space2 b a then [] else [a, b])"
| "trim_reversed [a] = (if space1 a then [] else [a])"
| "trim_reversed [] = []"

definition trim_space :: "bytes \<Rightarrow> bytes" where
  "trim_space s = map byte (rev (trim_reversed (rev (trim_left (map ord_byte s)))))"

definition trimmed :: "bytes \<Rightarrow> bool" where
  "trimmed s \<longleftrightarrow> trim_space s \<noteq> [] \<and> trim_space s = s"

section \<open>UTF-8\<close>

definition continuation :: "nat \<Rightarrow> bool" where
  "continuation b \<longleftrightarrow> 128 \<le> b \<and> b \<le> 191"

text \<open>The number of bytes of the well-formed rune a text begins with; 0 when there is none.\<close>

fun rune_width :: "nat list \<Rightarrow> nat" where
  "rune_width [] = 0"
| "rune_width (a # s) =
     (if a < 128 then 1
      else case s of
        [] \<Rightarrow> 0
      | b # s1 \<Rightarrow>
          (if 194 \<le> a \<and> a \<le> 223 \<and> continuation b then 2
           else case s1 of
             [] \<Rightarrow> 0
           | c # s2 \<Rightarrow>
               (if continuation c
                   \<and> (a = 224 \<and> 160 \<le> b \<and> b \<le> 191
                      \<or> a = 237 \<and> 128 \<le> b \<and> b \<le> 159
                      \<or> (225 \<le> a \<and> a \<le> 236 \<or> a = 238 \<or> a = 239) \<and> continuation b)
                then 3
                else case s2 of
                  [] \<Rightarrow> 0
                | d # s3 \<Rightarrow>
                    (if continuation c \<and> continuation d
                        \<and> (a = 240 \<and> 144 \<le> b \<and> b \<le> 191
                           \<or> a = 244 \<and> 128 \<le> b \<and> b \<le> 143
                           \<or> 241 \<le> a \<and> a \<le> 243 \<and> continuation b)
                     then 4 else 0))))"

lemma rune_width_le: "rune_width s \<le> length s"
  by (cases s rule: rune_width.cases) (auto split: list.splits)

function valid_codes :: "nat list \<Rightarrow> bool" where
  "valid_codes s =
     (if s = [] then True else if rune_width s = 0 then False else valid_codes (drop (rune_width s) s))"
  by pat_completeness auto
termination
  by (relation "measure length") auto

declare valid_codes.simps [simp del]

definition utf8_valid :: "bytes \<Rightarrow> bool" where
  "utf8_valid s = valid_codes (map ord_byte s)"

text \<open>Every byte that begins no well-formed rune becomes U+FFFD.\<close>

function repaired_codes :: "nat list \<Rightarrow> nat list" where
  "repaired_codes s =
     (if s = [] then []
      else if rune_width s = 0 then [239, 191, 189] @ repaired_codes (drop 1 s)
      else take (rune_width s) s @ repaired_codes (drop (rune_width s) s))"
  by pat_completeness auto
termination
  by (relation "measure length") auto

declare repaired_codes.simps [simp del]

definition repaired :: "bytes \<Rightarrow> bytes" where
  "repaired s = map byte (repaired_codes (map ord_byte s))"

lemma repaired_codes_valid: "valid_codes s \<Longrightarrow> repaired_codes s = s"
proof (induction s rule: valid_codes.induct)
  case (1 s)
  show ?case
  proof (cases "s = []")
    case False
    with 1 have "rune_width s \<noteq> 0" "valid_codes (drop (rune_width s) s)"
      using valid_codes.simps [of s] by (auto split: if_splits)
    with False 1 show ?thesis
      by (simp add: repaired_codes.simps [of s])
  qed (simp add: repaired_codes.simps)
qed

lemma repaired_valid [simp]: "utf8_valid s \<Longrightarrow> repaired s = s"
  by (simp add: utf8_valid_def repaired_def repaired_codes_valid map_idI byte_ord_byte)

section \<open>Lower case\<close>

text \<open>
  \<open>strings.ToLower\<close> for comparison with ASCII text: the runes outside ASCII whose lower case is ASCII are
  U+0130 and the Kelvin sign U+212A; every other rune outside ASCII stays outside.
\<close>

fun lower_codes :: "nat list \<Rightarrow> nat list" where
  "lower_codes [] = []"
| "lower_codes (a # s) =
     (if 65 \<le> a \<and> a \<le> 90 then (a + 32) # lower_codes s
      else case s of
        [] \<Rightarrow> [a]
      | b # s1 \<Rightarrow>
          (if a = 196 \<and> b = 176 then 105 # lower_codes s1
           else case s1 of
             [] \<Rightarrow> a # lower_codes s
           | c # s2 \<Rightarrow>
               (if a = 226 \<and> b = 132 \<and> c = 170 then 107 # lower_codes s2
                else a # lower_codes s)))"

definition to_lower :: "bytes \<Rightarrow> bytes" where
  "to_lower s = map byte (lower_codes (map ord_byte s))"

end
