(* ===== verification/CwSource.thy ===== *)
theory CwSource
  imports Identity GoText
begin

text \<open>
  The vocabulary of the CloudWatch source adapter (\<open>internal/cloudwatch/cloudwatch.go\<close> and
  \<open>checkpoint.go\<close>): groups, streams, native events, pages, acknowledgements, errors and checkpoints.
\<close>

section \<open>Source types\<close>

record cw_group =
  cg_account :: bytes
  cg_region :: bytes
  cg_log_group :: bytes

record cw_stream =
  cs_group :: cw_group
  cs_name :: bytes

record cw_event =
  ce_stream_name :: bytes
  ce_event_id :: bytes
  ce_timestamp :: gtime
  ce_ingestion_time :: gtime
  ce_message :: bytes

record cw_query =
  cq_log_group :: bytes
  cq_start :: gtime
  cq_end :: gtime
  cq_next_token :: bytes
  cq_limit :: int

record cw_page =
  cp_region :: bytes
  cp_log_group :: bytes
  cp_events :: "cw_event list"
  cp_next_token :: bytes

record cw_ack =
  ca_acknowledged :: bool
  ca_accepted :: int
  ca_rejected :: int

text \<open>
  The sentinel errors; an error of the context, the source or the sink that wraps none of them is
  \<open>CwOther\<close>.
\<close>

datatype cw_error =
    CwThrottled
  | CwSourceUnavailable
  | CwPageBudgetExhausted
  | CwRegionalBoundary
  | CwInvalidConfig
  | CwUnusableRecord
  | CwNotAcknowledged
  | CwUnreadable
  | CwOther bytes

definition cw_group_valid :: "cw_group \<Rightarrow> bool" where
  "cw_group_valid g \<longleftrightarrow> trimmed (cg_account g) \<and> trimmed (cg_region g) \<and> trimmed (cg_log_group g)"

definition cw_stream_locator :: "cw_stream \<Rightarrow> bytes" where
  "cw_stream_locator s =
     ''arn:aws:logs:'' @ cg_region (cs_group s) @ '':'' @ cg_account (cs_group s)
     @ '':log-group:'' @ cg_log_group (cs_group s) @ '':log-stream:'' @ cs_name s"

section \<open>Checkpoints\<close>

definition checkpoint_schema_version :: bytes where "checkpoint_schema_version = ''1.0''"

record cw_checkpoint =
  ck_stream :: cw_stream
  ck_position :: gtime
  ck_event_id :: bytes
  ck_committed_at :: gtime

definition checkpoint_validate :: "cw_checkpoint \<Rightarrow> cw_error option" where
  "checkpoint_validate c =
     (if \<not> cw_group_valid (cs_group (ck_stream c)) \<or> \<not> trimmed (cs_name (ck_stream c))
      then Some CwInvalidConfig
      else if is_zero (ck_position c) then Some CwInvalidConfig
      else if is_zero (ck_committed_at c) then Some CwInvalidConfig
      else None)"

text \<open>\<open>t.Sub(u)\<close> saturates at the bounds of a 64-bit duration.\<close>

definition time_sub :: "gtime \<Rightarrow> gtime \<Rightarrow> int" where
  "time_sub t u = max (- 9223372036854775808) (min 9223372036854775807 (t_inst t - t_inst u))"

definition checkpoint_age :: "cw_checkpoint \<Rightarrow> gtime \<Rightarrow> int" where
  "checkpoint_age c now = (if is_zero (ck_committed_at c) then 0 else time_sub now (ck_committed_at c))"

end
