(* ===== verification/CwMapper.thy ===== *)
theory CwMapper
  imports CwSource ModelFacts
begin

text \<open>
  The CloudWatch mapper (\<open>internal/cloudwatch/mapper.go\<close>), with the event-time rule it shares with the
  normalizer (\<open>internal/normalize\<close>). The redaction policy enters through the five answers the mapper
  takes from it; nothing is assumed of them. Sets of rule identifiers and paths are lists without
  repetition, and a nil slice and an empty one are the same list.
\<close>

section \<open>Event times\<close>

definition maximum_event_age :: int where "maximum_event_age = 24 * go_hour"
definition maximum_event_future :: int where "maximum_event_future = 5 * go_minute"

definition normalize_event_time :: "gtime \<Rightarrow> gtime \<Rightarrow> gtime \<times> bool \<times> bytes" where
  "normalize_event_time event observed =
     (if is_zero event then (observed, True, ''event_time_missing'')
      else if \<not> is_zero observed
         \<and> (before event (add_time observed (- maximum_event_age))
            \<or> after event (add_time observed maximum_event_future))
      then (observed, True, ''event_time_outside_valid_range'')
      else (event, False, []))"

section \<open>Configuration\<close>

record redaction_policy =
  po_version :: bytes
  po_structured_text :: "bytes \<Rightarrow> safe_value \<times> bytes list"
  po_text_ok :: "bytes \<Rightarrow> bool"
  po_field_ok :: "bytes \<Rightarrow> bool"
  po_record_ok :: "normalized_log \<Rightarrow> bool"

record mapper_config =
  mc_policy :: "redaction_policy option"
  mc_account :: bytes
  mc_region :: bytes
  mc_source_instance :: bytes
  mc_credential_identity :: bytes
  mc_allowed_services :: "bytes list"
  mc_allowed_environments :: "bytes list"
  mc_service :: bytes
  mc_environment :: bytes
  mc_classification :: bytes
  mc_raw_reference_ttl :: int

record cw_mapper =
  mp_policy :: redaction_policy
  mp_envelope :: trusted_envelope
  mp_service :: bytes
  mp_environment :: bytes
  mp_classification :: bytes
  mp_raw_reference_ttl :: int

definition default_raw_reference_ttl :: int where "default_raw_reference_ttl = 14 * 24 * go_hour"

definition mapper_classification :: "bytes \<Rightarrow> bool" where
  "mapper_classification v \<longleftrightarrow> v \<in> set [''PUBLIC'', ''INTERNAL'', ''SENSITIVE'', ''RESTRICTED'']"

definition envelope_content_ok :: "redaction_policy \<Rightarrow> trusted_envelope \<Rightarrow> bool" where
  "envelope_content_ok policy e \<longleftrightarrow>
     list_all (po_text_ok policy)
       ([te_source_type e, te_source_account e, te_region e, te_source_instance e, te_credential_identity e]
        @ te_allowed_environments e @ te_allowed_services e)"

definition new_mapper :: "mapper_config \<Rightarrow> cw_error + cw_mapper" where
  "new_mapper c =
     (case mc_policy c of None \<Rightarrow> Inl CwInvalidConfig
      | Some policy \<Rightarrow>
          (let envelope = \<lparr>te_source_type = source_type_cloudwatch, te_source_account = mc_account c,
                           te_region = mc_region c,
                           te_allowed_environments = mc_allowed_environments c,
                           te_allowed_services = mc_allowed_services c,
                           te_source_instance = mc_source_instance c,
                           te_credential_identity = mc_credential_identity c,
                           te_received_at = zero_time\<rparr>;
               ttl = (if mc_raw_reference_ttl c = 0 then default_raw_reference_ttl
                      else mc_raw_reference_ttl c)
           in if \<not> list_all trimmed [mc_account c, mc_region c, mc_source_instance c,
                                      mc_credential_identity c, mc_service c, mc_environment c]
              then Inl CwInvalidConfig
              else if mc_allowed_services c = [] \<or> mc_allowed_environments c = [] then Inl CwInvalidConfig
              else if \<not> allows_service envelope (mc_service c) then Inl CwInvalidConfig
              else if \<not> allows_environment envelope (mc_environment c) then Inl CwInvalidConfig
              else if \<not> mapper_classification (mc_classification c) then Inl CwInvalidConfig
              else if ttl < 0 then Inl CwInvalidConfig
              else if \<not> envelope_content_ok policy envelope then Inl CwInvalidConfig
              else Inr \<lparr>mp_policy = policy, mp_envelope = envelope, mp_service = mc_service c,
                        mp_environment = mc_environment c, mp_classification = mc_classification c,
                        mp_raw_reference_ttl = ttl\<rparr>))"

definition mapper_envelope :: "cw_mapper \<Rightarrow> gtime \<Rightarrow> trusted_envelope" where
  "mapper_envelope m received_at = (mp_envelope m)\<lparr>te_received_at := received_at\<lparr>t_utc := True\<rparr>\<rparr>"

section \<open>Severity\<close>

definition severity_keys :: "bytes list" where
  "severity_keys = [''level'', ''severity'', ''severity_text'', ''log.level'', ''loglevel'', ''syslog.severity'']"

definition severity_tokens :: "(bytes \<times> 32 word \<times> bytes \<times> bytes) list" where
  "severity_tokens =
     [(''trace'', 1, ''TRACE'', ''trace''), (''finest'', 1, ''TRACE'', ''trace''),
      (''verbose'', 1, ''TRACE'', ''trace''), (''debug'', 5, ''DEBUG'', ''debug''),
      (''fine'', 5, ''DEBUG'', ''debug''), (''info'', 9, ''INFO'', ''info''),
      (''information'', 9, ''INFO'', ''info''), (''notice'', 9, ''INFO'', ''info''),
      (''warn'', 13, ''WARN'', ''warn''), (''warning'', 13, ''WARN'', ''warn''),
      (''error'', 17, ''ERROR'', ''error''), (''err'', 17, ''ERROR'', ''error''),
      (''severe'', 17, ''ERROR'', ''error''), (''fatal'', 21, ''FATAL'', ''fatal''),
      (''critical'', 21, ''FATAL'', ''fatal''), (''crit'', 21, ''FATAL'', ''fatal''),
      (''alert'', 21, ''FATAL'', ''fatal''), (''emerg'', 21, ''FATAL'', ''fatal''),
      (''emergency'', 21, ''FATAL'', ''fatal''), (''panic'', 21, ''FATAL'', ''fatal'')]"

definition unspecified_severity :: "32 word \<times> bytes \<times> bytes" where
  "unspecified_severity = (0, [], ''unspecified'')"

fun declared_severity :: "(bytes \<times> safe_value) list \<Rightarrow> bytes list \<Rightarrow> 32 word \<times> bytes \<times> bytes" where
  "declared_severity entries [] = unspecified_severity"
| "declared_severity entries (key # ks) =
     (case map_of entries key of None \<Rightarrow> declared_severity entries ks
      | Some v \<Rightarrow>
          (if sv_kind v \<noteq> safe_kind_string then declared_severity entries ks
           else case map_of severity_tokens (to_lower (trim_space (sv_string v))) of
                  None \<Rightarrow> unspecified_severity
                | Some mapped \<Rightarrow> mapped))"

definition mapped_severity :: "safe_value \<Rightarrow> 32 word \<times> bytes \<times> bytes" where
  "mapped_severity body =
     (if sv_kind body \<noteq> safe_kind_map then unspecified_severity
      else declared_severity (opt_list (sv_map body)) severity_keys)"

section \<open>Attributes, references and withheld paths\<close>

fun collect_withheld :: "safe_value \<Rightarrow> bytes \<Rightarrow> bytes list"
  and collect_entries :: "(bytes \<times> safe_value) list \<Rightarrow> bytes \<Rightarrow> bytes list"
  and collect_items :: "safe_value list \<Rightarrow> nat \<Rightarrow> bytes \<Rightarrow> bytes list" where
  "collect_withheld (SafeValue kind s i d b m sl w) path =
     (if kind = safe_kind_withheld then [path]
      else if kind = safe_kind_map then (case m of None \<Rightarrow> [] | Some es \<Rightarrow> collect_entries es path)
      else if kind = safe_kind_slice then (case sl of None \<Rightarrow> [] | Some vs \<Rightarrow> collect_items vs 0 path)
      else [])"
| "collect_entries [] path = []"
| "collect_entries ((key, v) # es) path =
     collect_withheld v (path @ ''.'' @ key) @ collect_entries es path"
| "collect_items [] index path = []"
| "collect_items (v # vs) index path =
     collect_withheld v (path @ ''['' @ dec index @ '']'') @ collect_items vs (Suc index) path"

definition sorted_set :: "bytes list \<Rightarrow> bytes list" where
  "sorted_set xs = sort (remdups xs)"

fun mapped_attributes ::
    "redaction_policy \<Rightarrow> bytes \<Rightarrow> (bytes \<times> bytes) list \<Rightarrow> (bytes \<times> safe_value) list \<times> bytes list" where
  "mapped_attributes policy root [] = ([], [])"
| "mapped_attributes policy root ((key, v) # kvs) =
     (case mapped_attributes policy root kvs of (converted, paths) \<Rightarrow>
        (if v = [] then (converted, paths)
         else if \<not> po_field_ok policy key then (converted, paths)
         else if \<not> po_text_ok policy v
         then ((key, withheld ''content_withheld_redaction_failure'') # converted, (root @ ''.'' @ key) # paths)
         else ((key, safe_string v) # converted, paths)))"

definition none_if_empty :: "'a list \<Rightarrow> 'a list option" where
  "none_if_empty xs = (if xs = [] then None else Some xs)"

text \<open>The keys in the order \<open>sortedStringKeys\<close> visits them.\<close>

definition locator_values :: "cw_group \<Rightarrow> cw_event \<Rightarrow> (bytes \<times> bytes) list" where
  "locator_values grp event =
     [(''aws.log.event.id'', ce_event_id event), (''aws.log.group.name'', cg_log_group grp),
      (''aws.log.stream.name'', ce_stream_name event)]"

definition identity_values :: "cw_mapper \<Rightarrow> cw_group \<Rightarrow> (bytes \<times> bytes) list" where
  "identity_values m grp =
     [(''cloud.account.id'', cg_account grp), (''cloud.provider'', ''aws''),
      (''cloud.region'', cg_region grp), (''deployment.environment.name'', mp_environment m),
      (''service.name'', mp_service m)]"

definition mapped_reference ::
    "cw_mapper \<Rightarrow> cw_stream \<Rightarrow> gtime \<Rightarrow> gtime \<Rightarrow> regional_log_reference option \<times> bytes list" where
  "mapped_reference m stream event_time observed =
     (let locator = cw_stream_locator stream in
      if \<not> po_text_ok (mp_policy m) locator then (None, [''raw_reference.locator''])
      else
        (let (from, to) = (if before observed event_time then (observed, event_time)
                           else (event_time, observed))
         in (Some \<lparr>rr_source_type = source_type_cloudwatch, rr_region = cg_region (cs_group stream),
                   rr_locator = locator, rr_from = from, rr_to = to,
                   rr_classification = mp_classification m,
                   rr_expires_at = add_time to (mp_raw_reference_ttl m)\<rparr>, [])))"

section \<open>Records\<close>

definition cw_locator :: "cw_group \<Rightarrow> cw_event \<Rightarrow> cloudwatch_locator" where
  "cw_locator grp event =
     \<lparr>cl_account = cg_account grp, cl_region = cg_region grp, cl_log_group = cg_log_group grp,
      cl_log_stream = ce_stream_name event, cl_event_id = ce_event_id event\<rparr>"

definition mapped_record ::
    "cw_mapper \<Rightarrow> bytes \<Rightarrow> cw_group \<Rightarrow> cw_event \<Rightarrow> gtime \<Rightarrow> bytes \<Rightarrow> safe_value \<Rightarrow> bytes list \<Rightarrow> normalized_log" where
  "mapped_record m batch_id grp event received_at record_id body rules =
     (let observed = (ce_ingestion_time event)\<lparr>t_utc := True\<rparr>;
          (event_time, inferred, reason) =
            normalize_event_time ((ce_timestamp event)\<lparr>t_utc := True\<rparr>) observed;
          (number, text, class) = mapped_severity body;
          (attributes, attribute_paths) =
            mapped_attributes (mp_policy m) ''attributes'' (locator_values grp event);
          (resources, resource_paths) =
            mapped_attributes (mp_policy m) ''resource_attributes'' (identity_values m grp);
          (reference, reference_paths) =
            mapped_reference m \<lparr>cs_group = grp, cs_name = ce_stream_name event\<rparr> event_time observed
      in \<lparr>nl_schema_version = normalized_log_schema_version, nl_record_id = record_id,
          nl_record_id_version = ''cw:v1'', nl_identity_quality = identity_quality_native,
          nl_batch_id = batch_id, nl_source = mapper_envelope m received_at, nl_region = cg_region grp,
          nl_event_time = event_time, nl_observed_time = observed,
          nl_timestamp_inferred = inferred, nl_timestamp_inference_reason = reason,
          nl_observed_time_inferred = False, nl_observed_time_inference_reason = [],
          nl_severity_number = number, nl_severity_text = text, nl_severity_class = class,
          nl_body = body, nl_event_name = [],
          nl_attributes = none_if_empty attributes, nl_resource_attributes = none_if_empty resources,
          nl_scope_attributes = None,
          nl_service = \<lparr>si_name = mp_service m, si_namespace = [], si_instance_id = [],
                         si_environment = mp_environment m, si_status = enrichment_available\<rparr>,
          nl_deployment = \<lparr>di_id = unknown_deployment, di_version = [], di_status = ''pending''\<rparr>,
          nl_correlation = \<lparr>ci_trace_id = [], ci_span_id = []\<rparr>, nl_exception = None,
          nl_redaction = \<lparr>rm_policy_version = po_version (mp_policy m), rm_rule_ids = sorted_set rules,
                           rm_withheld_fields = sorted_set (collect_withheld body ''body'' @ attribute_paths
                             @ resource_paths @ reference_paths)\<rparr>,
          nl_raw_reference = reference\<rparr>)"

definition map_event ::
    "(bytes \<Rightarrow> bytes) \<Rightarrow> cw_mapper \<Rightarrow> bytes \<Rightarrow> cw_group \<Rightarrow> cw_event \<Rightarrow> gtime \<Rightarrow> cw_error + normalized_log" where
  "map_event H m batch_id grp event received_at =
     (if \<not> cw_group_valid grp then Inl CwRegionalBoundary
      else if cg_region grp \<noteq> te_region (mp_envelope m)
            \<or> cg_account grp \<noteq> te_source_account (mp_envelope m) then Inl CwRegionalBoundary
      else if \<not> trimmed batch_id then Inl CwInvalidConfig
      else
        (case cloudwatch_v1 H (cw_locator grp event) of Inl err \<Rightarrow> Inl CwUnusableRecord
         | Inr record_id \<Rightarrow>
             (if is_zero (ce_ingestion_time event) then Inl CwUnusableRecord
              else if blank (ce_message event) then Inl CwUnusableRecord
              else
                (case po_structured_text (mp_policy m) (ce_message event) of (body, rules) \<Rightarrow>
                   (if sv_is_zero body then Inl CwUnusableRecord
                    else
                      (let r = mapped_record m batch_id grp event received_at record_id body rules
                       in if \<not> po_record_ok (mp_policy m) r then Inl CwUnusableRecord
                          else if validate r \<noteq> [] then Inl CwUnusableRecord
                          else Inr r))))))"

lemma map_event_Inr:
  assumes "map_event H m batch_id grp event received_at = Inr r"
  shows "cloudwatch_v1 H (cw_locator grp event) = Inr (nl_record_id r)" and "validate r = []"
    and "po_record_ok (mp_policy m) r" and "nl_region r = cg_region grp"
    and "nl_source r = mapper_envelope m received_at"
  using assms
  by (auto simp: map_event_def mapped_record_def Let_def split: if_splits sum.splits prod.splits)

end
