(* ===== verification/CwAdapter.thy ===== *)
theory CwAdapter
  imports CwMapper Backoff KvStore
begin

text \<open>
  The CloudWatch adapter (\<open>internal/cloudwatch/adapter.go\<close>). One cycle over one group reads every page of
  a window, maps and deliver the events, and only then moves the group's checkpoints. The source, the
  sink, the identifiers, the clock and the checkpoint store are arguments; the adapter's mutex makes one
  poll one step. The cumulative counters are unbounded here (64-bit and wrapping in the source).
\<close>

section \<open>Configuration and state\<close>

definition default_lookback :: int where "default_lookback = 5 * go_minute"
definition default_max_lookback :: int where "default_max_lookback = go_hour"
definition default_initial_lookback :: int where "default_initial_lookback = 15 * go_minute"
definition default_max_window :: int where "default_max_window = 15 * go_minute"
definition default_page_limit :: int where "default_page_limit = 1000"
definition default_max_pages :: nat where "default_max_pages = 1000"

lemmas adapter_defaults = default_lookback_def default_max_lookback_def default_initial_lookback_def
  default_max_window_def default_page_limit_def default_max_pages_def duration_defs

record group_config =
  gc_log_group :: bytes
  gc_service :: bytes
  gc_environment :: bytes

record adapter_config =
  ac_interfaces_nil :: bool
  ac_api_region :: bytes
  ac_mapper :: mapper_config
  ac_region :: bytes
  ac_account :: bytes
  ac_groups :: "group_config list"
  ac_lookback :: int
  ac_max_lookback :: int
  ac_initial_lookback :: int
  ac_max_window :: int
  ac_page_limit :: int
  ac_max_pages :: int
  ac_backoff :: backoff

record group_state =
  gs_group :: cw_group
  gs_mapper :: cw_mapper
  gs_delivered :: "(bytes, gtime) kv"
  gs_positions :: "(bytes, cw_checkpoint) kv"
  gs_loaded :: bool

record cw_adapter =
  ad_region :: bytes
  ad_lookback :: int
  ad_max_lookback :: int
  ad_initial_lookback :: int
  ad_max_window :: int
  ad_page_limit :: int
  ad_max_pages :: nat
  ad_backoff :: backoff
  ad_groups :: "group_state list"

record adapter_counters =
  cn_records_read :: nat
  cn_duplicate_records :: nat
  cn_records_delivered :: nat
  cn_records_rejected :: nat
  cn_throttled :: nat
  cn_source_failures :: nat
  cn_empty_results :: nat
  cn_checkpoint_commits :: nat
  cn_boundary_rejections :: nat

record poll_result =
  pr_groups :: nat
  pr_pages :: nat
  pr_events_read :: nat
  pr_duplicates :: nat
  pr_delivered :: nat
  pr_rejected :: nat
  pr_checkpoints :: nat
  pr_empty :: bool

definition poll_zero :: poll_result where
  "poll_zero = \<lparr>pr_groups = 0, pr_pages = 0, pr_events_read = 0, pr_duplicates = 0, pr_delivered = 0,
     pr_rejected = 0, pr_checkpoints = 0, pr_empty = False\<rparr>"

definition or_default :: "int \<Rightarrow> int \<Rightarrow> int" where
  "or_default v fallback = (if v = 0 then fallback else v)"

fun new_groups :: "adapter_config \<Rightarrow> bytes list \<Rightarrow> group_config list \<Rightarrow> cw_error + group_state list" where
  "new_groups c seen [] = Inr []"
| "new_groups c seen (g # gs) =
     (if \<not> trimmed (gc_log_group g) then Inl CwInvalidConfig
      else if gc_log_group g \<in> set seen then Inl CwInvalidConfig
      else
        bind_err (new_mapper ((ac_mapper c)\<lparr>mc_account := ac_account c, mc_region := ac_region c,
                    mc_service := gc_service g, mc_environment := gc_environment g\<rparr>))
          (\<lambda>m. bind_err (new_groups c (gc_log_group g # seen) gs)
             (\<lambda>states. Inr (\<lparr>gs_group = \<lparr>cg_account = ac_account c, cg_region = ac_region c,
                                          cg_log_group = gc_log_group g\<rparr>,
                              gs_mapper = m, gs_delivered = [], gs_positions = [], gs_loaded = False\<rparr> # states))))"

definition new_adapter :: "adapter_config \<Rightarrow> cw_error + cw_adapter" where
  "new_adapter c =
     (let lookback = or_default (ac_lookback c) default_lookback;
          max_lookback = or_default (ac_max_lookback c) default_max_lookback;
          initial_lookback = or_default (ac_initial_lookback c) default_initial_lookback;
          max_window = or_default (ac_max_window c) default_max_window
      in if ac_interfaces_nil c then Inl CwInvalidConfig
         else if ac_groups c = [] then Inl CwInvalidConfig
         else if \<not> trimmed (ac_region c) then Inl CwInvalidConfig
         else if ac_api_region c \<noteq> ac_region c then Inl CwRegionalBoundary
         else if backoff_validate (ac_backoff c) \<noteq> None then Inl CwInvalidConfig
         else if ac_lookback c < 0 \<or> ac_max_lookback c < 0 \<or> ac_initial_lookback c < 0 \<or> ac_max_window c < 0
         then Inl CwInvalidConfig
         else if max_lookback < lookback then Inl CwInvalidConfig
         else if max_lookback < initial_lookback then Inl CwInvalidConfig
         else
           bind_err (new_groups c [] (ac_groups c))
             (\<lambda>groups. Inr \<lparr>ad_region = ac_region c, ad_lookback = lookback,
                ad_max_lookback = max_lookback, ad_initial_lookback = initial_lookback,
                ad_max_window = max_window,
                ad_page_limit = (if ac_page_limit c \<le> 0 then default_page_limit else ac_page_limit c),
                ad_max_pages = (if ac_max_pages c \<le> 0 then default_max_pages else nat (ac_max_pages c)),
                ad_backoff = ac_backoff c, ad_groups = groups\<rparr>))"

section \<open>The world of one poll\<close>

text \<open>
  What a poll of one group observes: the clock, the next batch identifier, the answer of the \<open>n\<close>-th call
  of the source, the outcome of the \<open>n\<close>-th wait, the random source, and the sink.
\<close>

record poll_env =
  pe_now :: gtime
  pe_new_id :: "cw_error + bytes"
  pe_filter :: "nat \<Rightarrow> cw_query \<Rightarrow> cw_error + cw_page"
  pe_sleep :: "nat \<Rightarrow> int \<Rightarrow> cw_error option"
  pe_int64n :: "int \<Rightarrow> int"
  pe_ingest :: "trusted_envelope \<Rightarrow> normalized_log list \<Rightarrow> cw_error + cw_ack"

record 's checkpoint_ops =
  co_load :: "'s \<Rightarrow> cw_group \<Rightarrow> cw_error + cw_checkpoint list"
  co_commit :: "'s \<Rightarrow> cw_checkpoint list \<Rightarrow> (cw_error + unit) \<times> 's"

section \<open>Reading\<close>

fun read_attempts ::
    "poll_env \<Rightarrow> backoff \<Rightarrow> cw_query \<Rightarrow> nat \<Rightarrow> nat \<Rightarrow> nat \<Rightarrow> cw_error \<Rightarrow> adapter_counters
       \<Rightarrow> (cw_error + cw_page) \<times> nat \<times> adapter_counters" where
  "read_attempts env b query 0 attempt calls last_err c = (Inl last_err, calls, c)"
| "read_attempts env b query (Suc left) attempt calls last_err c =
     (case (if 1 < attempt then pe_sleep env calls (backoff_delay (pe_int64n env) b (int attempt - 1)) else None) of
        Some err \<Rightarrow> (Inl err, calls, c)
      | None \<Rightarrow>
          (case pe_filter env calls query of
             Inr page \<Rightarrow> (Inr page, Suc calls, c)
           | Inl err \<Rightarrow>
               (if err = CwThrottled
                then read_attempts env b query left (Suc attempt) (Suc calls) err
                       (c\<lparr>cn_throttled := cn_throttled c + 1\<rparr>)
                else (Inl err, Suc calls, c\<lparr>cn_source_failures := cn_source_failures c + 1\<rparr>))))"

definition read_page ::
    "poll_env \<Rightarrow> backoff \<Rightarrow> cw_query \<Rightarrow> nat \<Rightarrow> adapter_counters
       \<Rightarrow> (cw_error + cw_page) \<times> nat \<times> adapter_counters" where
  "read_page env b query calls c = read_attempts env b query (backoff_attempts b) 1 calls CwSourceUnavailable c"

text \<open>
  The walk over the pages: \<open>left\<close> more pages may follow the next one. The result is the events or the
  error, the pages read, the calls made and the counters.
\<close>

fun read_pages ::
    "poll_env \<Rightarrow> cw_adapter \<Rightarrow> cw_group \<Rightarrow> gtime \<Rightarrow> gtime \<Rightarrow> nat \<Rightarrow> bytes \<Rightarrow> nat \<Rightarrow> nat \<Rightarrow> cw_event list
       \<Rightarrow> adapter_counters \<Rightarrow> (cw_error + cw_event list) \<times> nat \<times> nat \<times> adapter_counters" where
  "read_pages env ad grp from to left token pages calls events c =
     (case read_page env (ad_backoff ad)
             \<lparr>cq_log_group = cg_log_group grp, cq_start = from, cq_end = to, cq_next_token = token,
              cq_limit = ad_page_limit ad\<rparr> calls c of
        (Inl err, calls, c) \<Rightarrow> (Inl err, pages, calls, c)
      | (Inr page, calls, c) \<Rightarrow>
          (if cp_region page \<noteq> cg_region grp \<or> cp_log_group page \<noteq> cg_log_group grp
           then (Inl CwRegionalBoundary, Suc pages, calls,
                 c\<lparr>cn_boundary_rejections := cn_boundary_rejections c + 1\<rparr>)
           else if cp_next_token page = [] then (Inr (events @ cp_events page), Suc pages, calls, c)
           else (case left of
                   0 \<Rightarrow> (Inl CwPageBudgetExhausted, Suc pages, calls, c)
                 | Suc rest \<Rightarrow> read_pages env ad grp from to rest (cp_next_token page) (Suc pages) calls
                                 (events @ cp_events page) c)))"

declare read_pages.simps [simp del]

definition read_group ::
    "poll_env \<Rightarrow> cw_adapter \<Rightarrow> cw_group \<Rightarrow> gtime \<Rightarrow> gtime \<Rightarrow> adapter_counters
       \<Rightarrow> (cw_error + cw_event list) \<times> nat \<times> nat \<times> adapter_counters" where
  "read_group env ad grp from to c = read_pages env ad grp from to (ad_max_pages ad - 1) [] 0 0 [] c"

section \<open>The window\<close>

fun latest_position :: "gtime \<Rightarrow> cw_checkpoint list \<Rightarrow> gtime" where
  "latest_position latest [] = latest"
| "latest_position latest (c # cs) =
     latest_position (if after (ck_position c) latest then ck_position c else latest) cs"

definition poll_window :: "cw_adapter \<Rightarrow> cw_checkpoint list \<Rightarrow> gtime \<Rightarrow> gtime \<times> gtime" where
  "poll_window ad checkpoints now =
     (let start = (case checkpoints of
                     [] \<Rightarrow> add_time now (- ad_initial_lookback ad)
                   | c # cs \<Rightarrow> add_time (latest_position (ck_position c) cs) (- ad_lookback ad));
          floor = add_time now (- ad_max_lookback ad);
          start = (if before start floor then floor else start);
          finish = add_time start (ad_max_window ad);
          finish = (if after finish now then now else finish);
          finish = (if \<not> after finish start then start else finish)
      in (start\<lparr>t_utc := True\<rparr>, finish\<lparr>t_utc := True\<rparr>))"

definition forget_delivered :: "gtime \<Rightarrow> group_state \<Rightarrow> group_state" where
  "forget_delivered t gs = gs\<lparr>gs_delivered := filter (\<lambda>(k, at). \<not> before at t) (gs_delivered gs)\<rparr>"

fun remember_positions :: "cw_checkpoint list \<Rightarrow> (bytes, cw_checkpoint) kv \<Rightarrow> (bytes, cw_checkpoint) kv" where
  "remember_positions [] positions = positions"
| "remember_positions (c # cs) positions =
     remember_positions cs (kv_put (cs_name (ck_stream c)) c positions)"

definition load_checkpoints ::
    "'s checkpoint_ops \<Rightarrow> group_state \<Rightarrow> 's \<Rightarrow> cw_error + cw_checkpoint list \<times> group_state" where
  "load_checkpoints ops gs s =
     (if gs_loaded gs then Inr (map snd (gs_positions gs), gs)
      else bind_err (co_load ops s (gs_group gs))
        (\<lambda>loaded. Inr (loaded, gs\<lparr>gs_positions := remember_positions loaded (gs_positions gs), gs_loaded := True\<rparr>)))"

section \<open>Mapping a window\<close>

type_synonym read_positions = "(bytes, cw_event) kv"

definition advance_position :: "cw_event \<Rightarrow> read_positions \<Rightarrow> read_positions" where
  "advance_position event positions =
     (if is_zero (ce_timestamp event) then positions
      else
        (case kv_get positions (ce_stream_name event) of
           None \<Rightarrow> kv_put (ce_stream_name event) event positions
         | Some current \<Rightarrow>
             (if \<not> after (ce_timestamp event) (ce_timestamp current) then positions
              else kv_put (ce_stream_name event) event positions)))"

record mapped_window =
  mw_positions :: read_positions
  mw_seen :: "bytes list"
  mw_records :: "normalized_log list"
  mw_result :: poll_result
  mw_counters :: adapter_counters

definition window_rejected :: "cw_event \<Rightarrow> mapped_window \<Rightarrow> mapped_window" where
  "window_rejected event w =
     w\<lparr>mw_positions := advance_position event (mw_positions w),
       mw_result := (mw_result w)\<lparr>pr_rejected := pr_rejected (mw_result w) + 1\<rparr>,
       mw_counters := (mw_counters w)\<lparr>cn_records_rejected := cn_records_rejected (mw_counters w) + 1\<rparr>\<rparr>"

definition window_duplicate :: "cw_event \<Rightarrow> mapped_window \<Rightarrow> mapped_window" where
  "window_duplicate event w =
     w\<lparr>mw_positions := advance_position event (mw_positions w),
       mw_result := (mw_result w)\<lparr>pr_duplicates := pr_duplicates (mw_result w) + 1\<rparr>,
       mw_counters := (mw_counters w)\<lparr>cn_duplicate_records := cn_duplicate_records (mw_counters w) + 1\<rparr>\<rparr>"

definition window_record :: "(bytes, gtime) kv \<Rightarrow> cw_event \<Rightarrow> normalized_log \<Rightarrow> mapped_window \<Rightarrow> mapped_window" where
  "window_record delivered event r w =
     (if nl_record_id r \<in> set (mw_seen w) then window_duplicate event w
      else
        (let w = w\<lparr>mw_seen := nl_record_id r # mw_seen w\<rparr>
         in if kv_get delivered (nl_record_id r) \<noteq> None then window_duplicate event w
            else w\<lparr>mw_positions := advance_position event (mw_positions w),
                   mw_records := mw_records w @ [r]\<rparr>))"

fun map_window ::
    "(cw_event \<Rightarrow> cw_error + normalized_log) \<Rightarrow> (bytes, gtime) kv \<Rightarrow> cw_event list \<Rightarrow> mapped_window
       \<Rightarrow> bool \<times> mapped_window" where
  "map_window record_of delivered [] w = (True, w)"
| "map_window record_of delivered (event # events) w =
     (case record_of event of
        Inl err \<Rightarrow>
          (if err = CwRegionalBoundary
           then (False, w\<lparr>mw_counters := (mw_counters w)
                   \<lparr>cn_boundary_rejections := cn_boundary_rejections (mw_counters w) + 1\<rparr>\<rparr>)
           else map_window record_of delivered events (window_rejected event w))
      | Inr r \<Rightarrow> map_window record_of delivered events (window_record delivered event r w))"

section \<open>Moving the checkpoints\<close>

definition pending_checkpoints :: "group_state \<Rightarrow> gtime \<Rightarrow> read_positions \<Rightarrow> cw_checkpoint list" where
  "pending_checkpoints gs now positions =
     map (\<lambda>(name, event).
            \<lparr>ck_stream = \<lparr>cs_group = gs_group gs, cs_name = name\<rparr>,
             ck_position = (ce_timestamp event)\<lparr>t_utc := True\<rparr>, ck_event_id = ce_event_id event,
             ck_committed_at = now\<rparr>)
       (filter (\<lambda>(name, event).
            case kv_get (gs_positions gs) name of None \<Rightarrow> True
            | Some existing \<Rightarrow> after (ce_timestamp event) (ck_position existing)) positions)"

definition commit_positions ::
    "'s checkpoint_ops \<Rightarrow> group_state \<Rightarrow> gtime \<Rightarrow> read_positions \<Rightarrow> 's \<Rightarrow> adapter_counters
       \<Rightarrow> (cw_error + nat) \<times> group_state \<times> 's \<times> adapter_counters" where
  "commit_positions ops gs now positions s c =
     (let pending = pending_checkpoints gs now positions in
      if pending = [] then (Inr 0, gs, s, c)
      else
        (case co_commit ops s pending of
           (Inl err, s') \<Rightarrow> (Inl err, gs, s', c)
         | (Inr _, s') \<Rightarrow>
             (Inr (length pending), gs\<lparr>gs_positions := remember_positions pending (gs_positions gs)\<rparr>, s',
              c\<lparr>cn_checkpoint_commits := cn_checkpoint_commits c + 1\<rparr>)))"

fun mark_delivered :: "normalized_log list \<Rightarrow> (bytes, gtime) kv \<Rightarrow> (bytes, gtime) kv" where
  "mark_delivered [] delivered = delivered"
| "mark_delivered (r # rs) delivered =
     mark_delivered rs (kv_put (nl_record_id r) (nl_event_time r) delivered)"

section \<open>One group\<close>

definition deliver_window ::
    "'s checkpoint_ops \<Rightarrow> poll_env \<Rightarrow> gtime \<Rightarrow> group_state \<Rightarrow> mapped_window \<Rightarrow> 's
       \<Rightarrow> cw_error option \<times> poll_result \<times> group_state \<times> 's \<times> adapter_counters" where
  "deliver_window ops env now gs w s =
     (let result = mw_result w; c = mw_counters w; records = mw_records w;
          (refused, result, gs, c) =
            (if records = [] then (None, result, gs, c)
             else
               (case pe_ingest env (mapper_envelope (gs_mapper gs) now) records of
                  Inl err \<Rightarrow> (Some err, result, gs, c)
                | Inr ack \<Rightarrow>
                    (if \<not> ca_acknowledged ack then (Some CwNotAcknowledged, result, gs, c)
                     else (None, result\<lparr>pr_delivered := length records\<rparr>,
                           gs\<lparr>gs_delivered := mark_delivered records (gs_delivered gs)\<rparr>,
                           c\<lparr>cn_records_delivered := cn_records_delivered c + length records\<rparr>))))
      in case refused of Some err \<Rightarrow> (Some err, result, gs, s, c)
         | None \<Rightarrow>
             (case commit_positions ops gs now (mw_positions w) s c of
                (Inl err, gs, s, c) \<Rightarrow> (Some err, result, gs, s, c)
              | (Inr committed, gs, s, c) \<Rightarrow> (None, result\<lparr>pr_checkpoints := committed\<rparr>, gs, s, c)))"

definition poll_group ::
    "(bytes \<Rightarrow> bytes) \<Rightarrow> 's checkpoint_ops \<Rightarrow> poll_env \<Rightarrow> cw_adapter \<Rightarrow> group_state \<Rightarrow> 's \<Rightarrow> adapter_counters
       \<Rightarrow> cw_error option \<times> poll_result \<times> group_state \<times> 's \<times> adapter_counters" where
  "poll_group H ops env ad gs s c =
     (let now = (pe_now env)\<lparr>t_utc := True\<rparr> in
      case load_checkpoints ops gs s of
        Inl err \<Rightarrow> (Some err, poll_zero, gs, s, c)
      | Inr (checkpoints, gs) \<Rightarrow>
          (let (from, to) = poll_window ad checkpoints now;
               gs = forget_delivered from gs
           in case read_group env ad (gs_group gs) from to c of
                (Inl err, pages, calls, c) \<Rightarrow> (Some err, poll_zero\<lparr>pr_pages := pages\<rparr>, gs, s, c)
              | (Inr events, pages, calls, c) \<Rightarrow>
                  (let result = poll_zero\<lparr>pr_pages := pages, pr_events_read := length events\<rparr>;
                       c = c\<lparr>cn_records_read := cn_records_read c + length events\<rparr>
                   in if events = []
                      then (None, result, gs, s, c\<lparr>cn_empty_results := cn_empty_results c + 1\<rparr>)
                      else
                        (case pe_new_id env of
                           Inl err \<Rightarrow> (Some err, result, gs, s, c)
                         | Inr batch_id \<Rightarrow>
                             (case map_window (\<lambda>event. map_event H (gs_mapper gs) batch_id (gs_group gs) event now)
                                     (gs_delivered gs) events
                                     \<lparr>mw_positions = [], mw_seen = [], mw_records = [], mw_result = result,
                                      mw_counters = c\<rparr> of
                                (False, w) \<Rightarrow> (Some CwRegionalBoundary, mw_result w, gs, s, mw_counters w)
                              | (True, w) \<Rightarrow> deliver_window ops env now gs w s)))))"

section \<open>A whole cycle\<close>

fun poll_groups ::
    "(bytes \<Rightarrow> bytes) \<Rightarrow> 's checkpoint_ops \<Rightarrow> (nat \<Rightarrow> poll_env) \<Rightarrow> cw_adapter \<Rightarrow> group_state list \<Rightarrow> nat \<Rightarrow> poll_result
       \<Rightarrow> 's \<Rightarrow> adapter_counters
       \<Rightarrow> cw_error option \<times> poll_result \<times> group_state list \<times> 's \<times> adapter_counters" where
  "poll_groups H ops env ad [] n result s c = (None, result, [], s, c)"
| "poll_groups H ops env ad (gs # rest) n result s c =
     (case poll_group H ops (env n) ad gs s c of
        (err, r, gs, s, c) \<Rightarrow>
          (let result = \<lparr>pr_groups = pr_groups result + 1,
                         pr_pages = pr_pages result + pr_pages r,
                         pr_events_read = pr_events_read result + pr_events_read r,
                         pr_duplicates = pr_duplicates result + pr_duplicates r,
                         pr_delivered = pr_delivered result + pr_delivered r,
                         pr_rejected = pr_rejected result + pr_rejected r,
                         pr_checkpoints = pr_checkpoints result + pr_checkpoints r,
                         pr_empty = (if 0 < pr_events_read r then False else pr_empty result)\<rparr>
           in case err of
                Some e \<Rightarrow> (Some e, result\<lparr>pr_empty := False\<rparr>, gs # rest, s, c)
              | None \<Rightarrow>
                  (case poll_groups H ops env ad rest (Suc n) result s c of
                     (err, result, states, s, c) \<Rightarrow> (err, result, gs # states, s, c))))"

definition poll ::
    "(bytes \<Rightarrow> bytes) \<Rightarrow> 's checkpoint_ops \<Rightarrow> (nat \<Rightarrow> poll_env) \<Rightarrow> bytes option \<Rightarrow> bytes \<Rightarrow> cw_adapter \<Rightarrow> 's
       \<Rightarrow> adapter_counters \<Rightarrow> cw_error option \<times> poll_result \<times> cw_adapter \<times> 's \<times> adapter_counters" where
  "poll H ops env context_err api_region ad s c =
     (case context_err of Some err \<Rightarrow> (Some (CwOther err), poll_zero, ad, s, c)
      | None \<Rightarrow>
          (if api_region \<noteq> ad_region ad
           then (Some CwRegionalBoundary, poll_zero, ad, s,
                 c\<lparr>cn_boundary_rejections := cn_boundary_rejections c + 1\<rparr>)
           else
             (case poll_groups H ops env ad (ad_groups ad) 0 (poll_zero\<lparr>pr_empty := True\<rparr>) s c of
                (err, result, states, s, c) \<Rightarrow> (err, result, ad\<lparr>ad_groups := states\<rparr>, s, c))))"

section \<open>Observations\<close>

record observations =
  ob_oldest_checkpoint_age :: int
  ob_source_lag :: int
  ob_checkpointed_streams :: nat

fun observe_positions :: "gtime \<Rightarrow> cw_checkpoint list \<Rightarrow> observations \<Rightarrow> observations" where
  "observe_positions now [] ob = ob"
| "observe_positions now (c # cs) ob =
     observe_positions now cs
       \<lparr>ob_oldest_checkpoint_age = max (ob_oldest_checkpoint_age ob) (checkpoint_age c now),
        ob_source_lag = max (ob_source_lag ob) (time_sub now (ck_position c)),
        ob_checkpointed_streams = ob_checkpointed_streams ob + 1\<rparr>"

definition adapter_observations :: "cw_adapter \<Rightarrow> gtime \<Rightarrow> observations" where
  "adapter_observations ad now =
     observe_positions now (concat (map (\<lambda>gs. map snd (gs_positions gs)) (ad_groups ad)))
       \<lparr>ob_oldest_checkpoint_age = 0, ob_source_lag = 0, ob_checkpointed_streams = 0\<rparr>"

end
