(* ===== verification/CwSafety.thy ===== *)
theory CwSafety
  imports CwAdapter
begin

text \<open>
  What a cycle of the CloudWatch adapter guarantees: positions move only past events that are accounted
  for, never backwards, and within the bounds of the configuration.
\<close>

section \<open>Mapping a window\<close>

text \<open>An event is accounted for when it became a known record or is one that never becomes a record.\<close>

definition accounted_event :: "(cw_event \<Rightarrow> cw_error + normalized_log) \<Rightarrow> bytes set \<Rightarrow> cw_event \<Rightarrow> bool" where
  "accounted_event record_of ids event \<longleftrightarrow>
     (case record_of event of Inl err \<Rightarrow> err \<noteq> CwRegionalBoundary | Inr r \<Rightarrow> nl_record_id r \<in> ids)"

definition known_ids :: "(bytes, gtime) kv \<Rightarrow> normalized_log list \<Rightarrow> bytes set" where
  "known_ids delivered rs = {k. kv_get delivered k \<noteq> None} \<union> nl_record_id ` set rs"

lemma window_record_cases:
  assumes "set (mw_seen w) \<subseteq> known_ids delivered (mw_records w)" and "w' = window_record delivered event r w"
  shows "set (mw_seen w') \<subseteq> known_ids delivered (mw_records w')
    \<and> nl_record_id r \<in> known_ids delivered (mw_records w')
    \<and> known_ids delivered (mw_records w) \<subseteq> known_ids delivered (mw_records w')
    \<and> mw_positions w' = advance_position event (mw_positions w)"
  using assms
  by (auto simp: window_record_def window_duplicate_def Let_def known_ids_def)

lemma map_window_accounts:
  assumes "map_window record_of delivered events w = (True, w')"
    and "set (mw_seen w) \<subseteq> known_ids delivered (mw_records w)"
  shows "known_ids delivered (mw_records w) \<subseteq> known_ids delivered (mw_records w')
    \<and> (\<forall>e\<in>set events. accounted_event record_of (known_ids delivered (mw_records w')) e)
    \<and> mw_positions w' = foldl (\<lambda>ps e. advance_position e ps) (mw_positions w) events"
  using assms
proof (induction events arbitrary: w)
  case (Cons e events)
  show ?case
  proof (cases "record_of e")
    case (Inl err)
    with Cons.prems(1) have ne: "err \<noteq> CwRegionalBoundary"
      and m: "map_window record_of delivered events (window_rejected e w) = (True, w')"
      by (auto split: if_splits)
    have "mw_seen (window_rejected e w) = mw_seen w" "mw_records (window_rejected e w) = mw_records w"
      "mw_positions (window_rejected e w) = advance_position e (mw_positions w)"
      by (simp_all add: window_rejected_def)
    with Cons.IH [OF m] Cons.prems(2) Inl ne show ?thesis
      by (simp add: accounted_event_def)
  next
    case (Inr r)
    let ?w = "window_record delivered e r w"
    note step = window_record_cases [OF Cons.prems(2) refl, of e r]
    have m: "map_window record_of delivered events ?w = (True, w')"
      using Cons.prems(1) Inr by simp
    from Cons.IH [OF m] step have ih: "known_ids delivered (mw_records ?w) \<subseteq> known_ids delivered (mw_records w')"
      "\<forall>e\<in>set events. accounted_event record_of (known_ids delivered (mw_records w')) e"
      "mw_positions w' = foldl (\<lambda>ps e. advance_position e ps) (mw_positions ?w) events"
      by blast+
    have "accounted_event record_of (known_ids delivered (mw_records w')) e"
      using step ih(1) Inr by (auto simp: accounted_event_def)
    with ih step show ?thesis
      by auto
  qed
qed simp

section \<open>Positions\<close>

lemma advance_position_values:
  "kv_get (advance_position e ps) n = Some x \<Longrightarrow>
   (kv_get ps n = Some x \<or> x = e) \<and> (x = e \<longrightarrow> n = ce_stream_name e \<or> kv_get ps n = Some x)"
  by (auto simp: advance_position_def kv_get_put split: if_splits option.splits)

lemma advance_position_wf: "kv_wf ps \<Longrightarrow> kv_wf (advance_position e ps)"
  by (simp add: advance_position_def kv_wf_put split: option.split)

lemma advanced_positions:
  assumes "kv_wf ps" and "\<forall>n x. kv_get ps n = Some x \<longrightarrow> ce_stream_name x = n \<and> x \<in> E" and "set es \<subseteq> E"
  shows "kv_wf (foldl (\<lambda>ps e. advance_position e ps) ps es)
    \<and> (\<forall>n x. kv_get (foldl (\<lambda>ps e. advance_position e ps) ps es) n = Some x \<longrightarrow> ce_stream_name x = n \<and> x \<in> E)"
  using assms
proof (induction es arbitrary: ps)
  case (Cons e es)
  have "ce_stream_name x = n \<and> x \<in> E" if "kv_get (advance_position e ps) n = Some x" for n x
  proof (cases "kv_get ps n = Some x")
    case True
    with Cons.prems(2) show ?thesis
      by blast
  next
    case False
    with advance_position_values [OF that] Cons.prems(3) show ?thesis
      by auto
  qed
  then have "\<forall>n x. kv_get (advance_position e ps) n = Some x \<longrightarrow> ce_stream_name x = n \<and> x \<in> E"
    by blast
  from Cons.IH [OF advance_position_wf [OF Cons.prems(1)] this] Cons.prems(3) show ?case
    by simp
qed simp

lemma kv_get_remember:
  "distinct (map (\<lambda>c. cs_name (ck_stream c)) cs) \<Longrightarrow>
   kv_get (remember_positions cs ps) n =
     (case find (\<lambda>c. cs_name (ck_stream c) = n) cs of Some c \<Rightarrow> Some c | None \<Rightarrow> kv_get ps n)"
proof (induction cs arbitrary: ps)
  case (Cons c cs)
  have "cs_name (ck_stream c) \<notin> (\<lambda>c. cs_name (ck_stream c)) ` set cs"
    using Cons.prems by simp
  then have "\<forall>d\<in>set cs. cs_name (ck_stream d) \<noteq> cs_name (ck_stream c)"
    by (metis image_eqI)
  then have "find (\<lambda>d. cs_name (ck_stream d) = cs_name (ck_stream c)) cs = None"
    by (simp add: find_None_iff)
  with Cons show ?case
    by (auto simp: kv_get_put split: option.splits)
qed simp

lemma pending_names:
  "map (\<lambda>c. cs_name (ck_stream c)) (pending_checkpoints gs now ps) =
   map fst (filter (\<lambda>(name, event). case kv_get (gs_positions gs) name of None \<Rightarrow> True
       | Some existing \<Rightarrow> after (ce_timestamp event) (ck_position existing)) ps)"
  by (simp add: pending_checkpoints_def comp_def split_beta)

lemma pending_distinct: "kv_wf ps \<Longrightarrow> distinct (map (\<lambda>c. cs_name (ck_stream c)) (pending_checkpoints gs now ps))"
  unfolding pending_names by (intro distinct_map_filter kv_wf_distinct)

lemma pending_member:
  assumes "c \<in> set (pending_checkpoints gs now ps)"
  shows "\<exists>e. (cs_name (ck_stream c), e) \<in> set ps \<and> ck_position c = (ce_timestamp e)\<lparr>t_utc := True\<rparr>
    \<and> cs_group (ck_stream c) = gs_group gs
    \<and> (\<forall>old. kv_get (gs_positions gs) (cs_name (ck_stream c)) = Some old \<longrightarrow> after (ck_position c) (ck_position old))"
  using assms by (auto simp: pending_checkpoints_def after_def split: option.splits)

text \<open>Positions after a cycle are the positions before, or later ones.\<close>

definition positions_advance :: "(bytes, cw_checkpoint) kv \<Rightarrow> (bytes, cw_checkpoint) kv \<Rightarrow> bool" where
  "positions_advance ps ps' \<longleftrightarrow>
     (\<forall>n c. kv_get ps n = Some c \<longrightarrow>
        (\<exists>c'. kv_get ps' n = Some c' \<and> (c' = c \<or> after (ck_position c') (ck_position c))))"

lemma positions_advance_refl [simp]: "positions_advance ps ps"
  by (simp add: positions_advance_def)

lemma remember_pending_advance:
  assumes "kv_wf ps"
  shows "positions_advance (gs_positions gs) (remember_positions (pending_checkpoints gs now ps) (gs_positions gs))"
proof -
  let ?cs = "pending_checkpoints gs now ps"
  have "\<exists>c'. kv_get (remember_positions ?cs (gs_positions gs)) n = Some c' \<and> (c' = c \<or> after (ck_position c') (ck_position c))"
    if "kv_get (gs_positions gs) n = Some c" for n c
  proof (cases "find (\<lambda>c. cs_name (ck_stream c) = n) ?cs")
    case None
    with that kv_get_remember [OF pending_distinct [OF assms]] show ?thesis
      by simp
  next
    case (Some d)
    then have "d \<in> set ?cs" "cs_name (ck_stream d) = n"
      by (auto simp: find_Some_iff in_set_conv_nth)
    with pending_member [of d gs now ps] that Some kv_get_remember [OF pending_distinct [OF assms]] show ?thesis
      by auto
  qed
  then show ?thesis
    by (simp add: positions_advance_def)
qed

lemma commit_positions_cases:
  assumes "commit_positions ops gs now ps s c = (res, gs', s', c')"
  obtains (nothing) "gs' = gs" "s' = s" "res = Inr 0"
  | (failed) err where "gs' = gs" "res = Inl err" "co_commit ops s (pending_checkpoints gs now ps) = (Inl err, s')"
  | (moved) "gs' = gs\<lparr>gs_positions := remember_positions (pending_checkpoints gs now ps) (gs_positions gs)\<rparr>"
      "co_commit ops s (pending_checkpoints gs now ps) = (Inr (), s')"
      "res = Inr (length (pending_checkpoints gs now ps))"
  using assms by (auto simp: commit_positions_def Let_def split: if_splits prod.splits sum.splits)

section \<open>One group\<close>

lemma mark_delivered_known: "known_ids (mark_delivered rs delivered) [] = known_ids delivered rs"
proof (induction rs arbitrary: delivered)
  case (Cons r rs)
  have "known_ids (kv_put (nl_record_id r) (nl_event_time r) delivered) rs
      = known_ids delivered (r # rs)"
    by (auto simp: known_ids_def kv_get_put)
  with Cons show ?case
    by simp
qed (simp add: known_ids_def)

lemma deliver_window_cases:
  assumes "deliver_window ops env now gs w s = (err, result, gs', s', c')"
  obtains (stopped) "gs_positions gs' = gs_positions gs" "gs_delivered gs' = gs_delivered gs" "s' = s" "err \<noteq> None"
  | (delivered) gs1 c res where
      "gs1 = (if mw_records w = [] then gs else gs\<lparr>gs_delivered := mark_delivered (mw_records w) (gs_delivered gs)\<rparr>)"
      "mw_records w = [] \<or> (\<exists>ack. pe_ingest env (mapper_envelope (gs_mapper gs) now) (mw_records w) = Inr ack
          \<and> ca_acknowledged ack)"
      "commit_positions ops gs1 now (mw_positions w) s c = (res, gs', s', c')" "err = None \<longleftrightarrow> \<not> isl res"
proof (cases "mw_records w = []")
  case True
  obtain res g t d where cp: "commit_positions ops gs now (mw_positions w) s (mw_counters w) = (res, g, t, d)"
    by (metis prod_cases4)
  with assms True have "g = gs'" "t = s'" "d = c'" "err = None \<longleftrightarrow> \<not> isl res"
    by (auto simp: deliver_window_def Let_def split: sum.splits)
  with True cp show ?thesis
    by (intro delivered [of gs "mw_counters w" res]) simp_all
next
  case False
  show ?thesis
  proof (cases "pe_ingest env (mapper_envelope (gs_mapper gs) now) (mw_records w)")
    case (Inl e)
    with assms False show ?thesis
      by (intro stopped) (auto simp: deliver_window_def Let_def)
  next
    case (Inr ack)
    show ?thesis
    proof (cases "ca_acknowledged ack")
      case False
      with assms \<open>mw_records w \<noteq> []\<close> Inr show ?thesis
        by (intro stopped) (auto simp: deliver_window_def Let_def)
    next
      case True
      let ?gs = "gs\<lparr>gs_delivered := mark_delivered (mw_records w) (gs_delivered gs)\<rparr>"
      let ?c = "(mw_counters w)\<lparr>cn_records_delivered := cn_records_delivered (mw_counters w) + length (mw_records w)\<rparr>"
      obtain res g t d where cp: "commit_positions ops ?gs now (mw_positions w) s ?c = (res, g, t, d)"
        by (metis prod_cases4)
      with assms True False Inr have "g = gs'" "t = s'" "d = c'" "err = None \<longleftrightarrow> \<not> isl res"
        by (auto simp: deliver_window_def Let_def split: sum.splits)
      with True False Inr cp show ?thesis
        by (intro delivered [of ?gs ?c res]) simp_all
    qed
  qed
qed

text \<open>The two ways a poll of one group ends: without touching a position, or by delivering a window it read.\<close>

lemma poll_group_cases:
  assumes "poll_group H ops env ad gs s c = (err, result, gs', s', c')"
  obtains (unloaded) e where "load_checkpoints ops gs s = Inl e" "gs' = gs" "s' = s" "err = Some e"
  | (idle) cs gs1 where "load_checkpoints ops gs s = Inr (cs, gs1)"
      "gs' = forget_delivered (fst (poll_window ad cs ((pe_now env)\<lparr>t_utc := True\<rparr>))) gs1" "s' = s"
  | (read) cs gs1 gs2 events pages calls c1 batch_id w w0 where "load_checkpoints ops gs s = Inr (cs, gs1)"
      "gs2 = forget_delivered (fst (poll_window ad cs ((pe_now env)\<lparr>t_utc := True\<rparr>))) gs1"
      "read_group env ad (gs_group gs2) (fst (poll_window ad cs ((pe_now env)\<lparr>t_utc := True\<rparr>)))
         (snd (poll_window ad cs ((pe_now env)\<lparr>t_utc := True\<rparr>))) c = (Inr events, pages, calls, c1)"
      "events \<noteq> []" "pe_new_id env = Inr batch_id" "mw_positions w0 = []" "mw_seen w0 = []" "mw_records w0 = []"
      "map_window (\<lambda>event. map_event H (gs_mapper gs2) batch_id (gs_group gs2) event ((pe_now env)\<lparr>t_utc := True\<rparr>))
         (gs_delivered gs2) events w0 = (True, w)"
      "deliver_window ops env ((pe_now env)\<lparr>t_utc := True\<rparr>) gs2 w s = (err, result, gs', s', c')"
proof (cases "load_checkpoints ops gs s")
  case (Inl e)
  with assms show ?thesis
    by (intro unloaded) (auto simp: poll_group_def Let_def)
next
  case (Inr l)
  obtain cs gs1 where l: "load_checkpoints ops gs s = Inr (cs, gs1)"
    using Inr by (cases l) simp
  let ?now = "(pe_now env)\<lparr>t_utc := True\<rparr>"
  obtain lo hi where w: "poll_window ad cs ?now = (lo, hi)"
    by fastforce
  let ?gs = "forget_delivered lo gs1"
  obtain rd pages calls c1 where r: "read_group env ad (gs_group ?gs) lo hi c = (rd, pages, calls, c1)"
    by (metis prod_cases4)
  show ?thesis
  proof (cases "\<exists>events. rd = Inr events \<and> events \<noteq> []")
    case False
    with assms l w r show ?thesis
      by (intro idle [of cs gs1]) (auto simp: poll_group_def Let_def split: sum.splits)
  next
    case True
    then obtain events where e: "rd = Inr events" "events \<noteq> []"
      by blast
    show ?thesis
    proof (cases "pe_new_id env")
      case (Inl x)
      with assms l w r e show ?thesis
        by (intro idle [of cs gs1]) (auto simp: poll_group_def Let_def)
    next
      case (Inr batch_id)
      define w0 where "w0 = \<lparr>mw_positions = [], mw_seen = [], mw_records = [],
        mw_result = poll_zero\<lparr>pr_pages := pages, pr_events_read := length events\<rparr>,
        mw_counters = c1\<lparr>cn_records_read := cn_records_read c1 + length events\<rparr>\<rparr>"
      obtain ok w where m: "map_window (\<lambda>event. map_event H (gs_mapper ?gs) batch_id (gs_group ?gs) event ?now)
          (gs_delivered ?gs) events w0 = (ok, w)"
        by fastforce
      show ?thesis
      proof (cases ok)
        case False
        with assms l w r e Inr m show ?thesis
          by (intro idle [of cs gs1]) (auto simp: poll_group_def Let_def w0_def)
      next
        case True
        with assms l w r e Inr m have "deliver_window ops env ?now ?gs w s = (err, result, gs', s', c')"
          by (auto simp: poll_group_def Let_def w0_def)
        with l w r e Inr m True show ?thesis
          by (intro read [of cs gs1 ?gs events pages calls c1 batch_id w0 w]) (auto simp: w0_def)
      qed
    qed
  qed
qed

lemma forget_delivered_sel [simp]:
  "gs_positions (forget_delivered t gs) = gs_positions gs" "gs_group (forget_delivered t gs) = gs_group gs"
  "gs_mapper (forget_delivered t gs) = gs_mapper gs" "gs_loaded (forget_delivered t gs) = gs_loaded gs"
  by (simp_all add: forget_delivered_def)

text \<open>The positions a group has once its durable checkpoints are loaded.\<close>

definition loaded_positions :: "'s checkpoint_ops \<Rightarrow> group_state \<Rightarrow> 's \<Rightarrow> (bytes, cw_checkpoint) kv" where
  "loaded_positions ops gs s =
     (case load_checkpoints ops gs s of Inl _ \<Rightarrow> gs_positions gs | Inr (cs, gs1) \<Rightarrow> gs_positions gs1)"



lemma read_positions_wf:
  assumes "map_window record_of delivered events w0 = (True, w)" and "mw_positions w0 = []" and "mw_seen w0 = []"
  shows "kv_wf (mw_positions w)
    \<and> (\<forall>n x. kv_get (mw_positions w) n = Some x \<longrightarrow> ce_stream_name x = n \<and> x \<in> set events)"
proof -
  have "mw_positions w = foldl (\<lambda>ps e. advance_position e ps) [] events"
    using map_window_accounts [OF assms(1)] assms(2,3) by simp
  then show ?thesis
    using advanced_positions [of "[]" "set events" events] by simp
qed

text \<open>
  C35. Positions only move forward: whatever the source answers, in whatever order, a poll leaves every
  loaded position of the group where it was or moves it to a later instant.
\<close>

theorem positions_never_move_back:
  assumes "poll_group H ops env ad gs s c = (err, result, gs', s', c')"
  shows "positions_advance (loaded_positions ops gs s) (gs_positions gs')"
  using assms
proof (cases rule: poll_group_cases)
  case (read cs gs1 gs2 events pages calls c1 batch_id w w0)
  have l: "loaded_positions ops gs s = gs_positions gs2"
    using read(1,2) by (simp add: loaded_positions_def)
  have wf: "kv_wf (mw_positions w)"
    using read_positions_wf [OF read(9,6,7)] by blast
  from read(10) show ?thesis
  proof (cases rule: deliver_window_cases)
    case (delivered g c2 res)
    have g: "gs_positions g = gs_positions gs2"
      by (simp add: delivered(1))
    from delivered(3) show ?thesis
      by (cases rule: commit_positions_cases) (use remember_pending_advance [OF wf, of g] g l in simp_all)
  qed (simp add: l)
qed (simp_all add: loaded_positions_def)

section \<open>Reading\<close>

lemma read_attempts_calls:
  "read_attempts env b query left attempt calls e c = (res, calls', c') \<Longrightarrow> calls' \<le> calls + left"
proof (induction env b query left attempt calls e c rule: read_attempts.induct)
  case (2 env b query left attempt calls e c)
  show ?case
  proof (cases "if 1 < attempt then pe_sleep env calls (backoff_delay (pe_int64n env) b (int attempt - 1)) else None")
    case (Some x)
    with "2.prems" show ?thesis
      by simp
  next
    case None
    with 2 show ?thesis
      by (cases "pe_filter env calls query") (auto split: if_splits)
  qed
qed simp

lemma read_pages_walk:
  "read_pages env ad grp lo hi left token pages calls events c = (res, pages', calls', c') \<Longrightarrow>
   pages' \<le> pages + Suc left \<and> calls' \<le> calls + Suc left * backoff_attempts (ad_backoff ad)"
proof (induction left arbitrary: token pages calls events c)
  case 0
  obtain rd calls1 c1 where r: "read_page env (ad_backoff ad) \<lparr>cq_log_group = cg_log_group grp, cq_start = lo,
      cq_end = hi, cq_next_token = token, cq_limit = ad_page_limit ad\<rparr> calls c = (rd, calls1, c1)"
    by (metis prod_cases3)
  then have "calls1 \<le> calls + backoff_attempts (ad_backoff ad)"
    unfolding read_page_def by (rule read_attempts_calls)
  with 0 r show ?case
    by (auto simp: read_pages.simps [of env ad grp lo hi 0] split: sum.splits if_splits)
next
  case (Suc left)
  obtain rd calls1 c1 where r: "read_page env (ad_backoff ad) \<lparr>cq_log_group = cg_log_group grp, cq_start = lo,
      cq_end = hi, cq_next_token = token, cq_limit = ad_page_limit ad\<rparr> calls c = (rd, calls1, c1)"
    by (metis prod_cases3)
  then have "calls1 \<le> calls + backoff_attempts (ad_backoff ad)"
    unfolding read_page_def by (rule read_attempts_calls)
  with Suc.prems r Suc.IH show ?case
    by (fastforce simp: read_pages.simps [of env ad grp lo hi "Suc left"] split: sum.splits if_splits)
qed

text \<open>
  C37. Reading a window ends: it makes at most \<open>MaxPages\<close> pages of at most \<open>Attempts\<close> calls each, however
  the source throttles and however many pages it announces.
\<close>

theorem window_read_ends:
  assumes "read_group env ad grp lo hi c = (res, pages, calls, c')"
  shows "pages \<le> max 1 (ad_max_pages ad) \<and> calls \<le> max 1 (ad_max_pages ad) * backoff_attempts (ad_backoff ad)"
proof -
  have "pages \<le> Suc (ad_max_pages ad - 1) \<and> calls \<le> Suc (ad_max_pages ad - 1) * backoff_attempts (ad_backoff ad)"
    using read_pages_walk [OF assms [unfolded read_group_def]] by simp
  moreover have "Suc (ad_max_pages ad - 1) = max 1 (ad_max_pages ad)"
    by simp
  ultimately show ?thesis
    by (simp only:)
qed

section \<open>Windows\<close>

lemma latest_position_latest:
  "t_inst latest \<le> t_inst (latest_position latest cs)
   \<and> (\<forall>c\<in>set cs. t_inst (ck_position c) \<le> t_inst (latest_position latest cs))"
  by (induction latest cs rule: latest_position.induct) (force simp: after_def)+

lemma poll_window_ends:
  assumes "poll_window ad cs now = (lo, hi)" and "0 \<le> ad_max_window ad"
  shows "t_inst lo = max (case cs of [] \<Rightarrow> t_inst now - ad_initial_lookback ad
      | d # ds \<Rightarrow> t_inst (latest_position (ck_position d) ds) - ad_lookback ad) (t_inst now - ad_max_lookback ad)"
    and "t_inst hi = max (t_inst lo) (min (t_inst now) (t_inst lo + ad_max_window ad))"
  using assms by (auto simp: poll_window_def Let_def add_time_def before_def after_def split: list.splits if_splits)

text \<open>
  C38. The window a poll reads is bounded by the configuration: it never begins before the retrieval floor,
  never spans more than the maximum window and never reaches past the present (or is empty), and it begins
  at most one lookback behind the furthest position unless the floor is later.
\<close>

theorem poll_window_bounds:
  assumes "poll_window ad cs now = (lo, hi)" and "0 \<le> ad_max_window ad"
  shows "t_inst now - ad_max_lookback ad \<le> t_inst lo \<and> t_inst lo \<le> t_inst hi
    \<and> t_inst hi \<le> t_inst lo + ad_max_window ad \<and> t_inst hi \<le> max (t_inst now) (t_inst lo)
    \<and> (\<forall>c\<in>set cs. t_inst (ck_position c) - ad_lookback ad \<le> t_inst lo)"
proof -
  define start where "start = (case cs of [] \<Rightarrow> t_inst now - ad_initial_lookback ad
    | d # ds \<Rightarrow> t_inst (latest_position (ck_position d) ds) - ad_lookback ad)"
  note lo = poll_window_ends(1) [OF assms, folded start_def]
  note hi = poll_window_ends(2) [OF assms]
  have "\<forall>c\<in>set cs. t_inst (ck_position c) - ad_lookback ad \<le> start"
    using latest_position_latest [of "ck_position (hd cs)" "tl cs"] by (cases cs) (auto simp: start_def)
  then have "\<forall>c\<in>set cs. t_inst (ck_position c) - ad_lookback ad \<le> t_inst lo"
    using lo by fastforce
  then show ?thesis
    using lo hi assms(2) by simp
qed

text \<open>What a source may answer: events inside the half-open range of the query.\<close>

definition source_answers :: "poll_env \<Rightarrow> (cw_event \<Rightarrow> bool) \<Rightarrow> bool" where
  "source_answers env held \<longleftrightarrow>
     (\<forall>n q page. pe_filter env n q = Inr page \<longrightarrow>
        (\<forall>e\<in>set (cp_events page). held e \<and> before (ce_timestamp e) (cq_end q)))"

lemma read_attempts_page:
  "read_attempts env b query left attempt calls e c = (Inr page, calls', c') \<Longrightarrow> \<exists>n. pe_filter env n query = Inr page"
proof (induction env b query left attempt calls e c rule: read_attempts.induct)
  case (2 env b query left attempt calls e c)
  show ?case
  proof (cases "if 1 < attempt then pe_sleep env calls (backoff_delay (pe_int64n env) b (int attempt - 1)) else None")
    case (Some x)
    with "2.prems" show ?thesis
      by simp
  next
    case None
    with 2 show ?thesis
      by (cases "pe_filter env calls query") (auto split: if_splits)
  qed
qed simp

definition window_answers :: "poll_env \<Rightarrow> gtime \<Rightarrow> (cw_event \<Rightarrow> bool) \<Rightarrow> bool" where
  "window_answers env hi P \<longleftrightarrow>
     (\<forall>n q page. pe_filter env n q = Inr page \<longrightarrow> cq_end q = hi \<longrightarrow> (\<forall>e\<in>set (cp_events page). P e))"

lemma read_page_events:
  assumes "window_answers env hi P"
    and "read_page env b \<lparr>cq_log_group = g, cq_start = lo, cq_end = hi, cq_next_token = token, cq_limit = l\<rparr> calls c
      = (Inr page, calls', c')"
  shows "\<forall>e\<in>set (cp_events page). P e"
proof -
  obtain n where "pe_filter env n \<lparr>cq_log_group = g, cq_start = lo, cq_end = hi, cq_next_token = token, cq_limit = l\<rparr>
      = Inr page"
    using read_attempts_page [OF assms(2) [unfolded read_page_def]] by blast
  with assms(1) show ?thesis
    unfolding window_answers_def by fastforce
qed

lemma read_pages_events:
  assumes "window_answers env hi P"
  shows "read_pages env ad grp lo hi left token pages calls events c = (Inr es, pages', calls', c') \<Longrightarrow>
    \<forall>e\<in>set events. P e \<Longrightarrow> \<forall>e\<in>set es. P e"
proof (induction left arbitrary: token pages calls events c)
  case 0
  obtain rd calls1 c1 where r: "read_page env (ad_backoff ad) \<lparr>cq_log_group = cg_log_group grp, cq_start = lo,
      cq_end = hi, cq_next_token = token, cq_limit = ad_page_limit ad\<rparr> calls c = (rd, calls1, c1)"
    by (metis prod_cases3)
  then obtain page where p: "rd = Inr page"
    using 0 by (cases rd) (simp_all add: read_pages.simps [of env ad grp lo hi 0])
  with r have "\<forall>e\<in>set (cp_events page). P e"
    by (intro read_page_events [OF assms]) simp
  with 0 r p show ?case
    by (auto simp: read_pages.simps [of env ad grp lo hi 0] split: if_splits)
next
  case (Suc left)
  obtain rd calls1 c1 where r: "read_page env (ad_backoff ad) \<lparr>cq_log_group = cg_log_group grp, cq_start = lo,
      cq_end = hi, cq_next_token = token, cq_limit = ad_page_limit ad\<rparr> calls c = (rd, calls1, c1)"
    by (metis prod_cases3)
  then obtain page where p: "rd = Inr page"
    using Suc.prems(1) by (cases rd) (simp_all add: read_pages.simps [of env ad grp lo hi "Suc left"])
  with r have "\<forall>e\<in>set (cp_events page). P e"
    by (intro read_page_events [OF assms]) simp
  then have "\<forall>e\<in>set (events @ cp_events page). P e"
    using Suc.prems(2) by auto
  with Suc.prems(1) r p Suc.IH [of "cp_next_token page" "Suc pages" calls1 "events @ cp_events page" c1] show ?case
    by (auto simp: read_pages.simps [of env ad grp lo hi "Suc left"] split: if_splits)
qed

lemma source_window:
  "source_answers env h \<Longrightarrow> window_answers env hi (\<lambda>e. h e \<and> before (ce_timestamp e) hi)"
  by (auto simp: source_answers_def window_answers_def)

lemma remembered_from:
  assumes "kv_get (remember_positions cs ps) n = Some c"
  shows "c \<in> set cs \<or> kv_get ps n = Some c"
  using assms by (induction cs arbitrary: ps) (force simp: kv_get_put split: if_splits)+

text \<open>
  C36. A quiet gap hides what follows it: while the retrieval floor has not passed the lookback of the
  furthest position \<open>p\<close>, and the group has no event between \<open>p\<close> and \<open>p - lookback + max_window\<close>, no
  poll moves any position past \<open>p\<close>, although later events are waiting at the source.
\<close>

theorem quiet_gap_stalls:
  assumes "poll_group H ops env ad gs s c = (err, result, gs', s', c')"
    and "gs_loaded gs" and "gs_positions gs \<noteq> []"
    and "\<forall>(n, cp)\<in>set (gs_positions gs). t_inst (ck_position cp) \<le> p"
    and "0 \<le> ad_max_window ad" and "t_inst (pe_now env) - ad_max_lookback ad \<le> p - ad_lookback ad"
    and "source_answers env (\<lambda>e. t_inst (ce_timestamp e) \<le> p
           \<or> p - ad_lookback ad + ad_max_window ad \<le> t_inst (ce_timestamp e))"
    and "kv_get (gs_positions gs') n = Some cp"
  shows "t_inst (ck_position cp) \<le> p"
  using assms(1)
proof (cases rule: poll_group_cases)
  case (unloaded e)
  with assms(2) show ?thesis
    by (simp add: load_checkpoints_def)
next
  case (idle cs gs1)
  then have "kv_get (gs_positions gs) n = Some cp"
    using assms(2,8) by (auto simp: load_checkpoints_def)
  then show ?thesis
    using assms(4) by (auto simp: kv_get_def dest!: map_of_SomeD)
next
  case (read cs gs1 gs2 events pages calls c1 batch_id w w0)
  let ?now = "(pe_now env)\<lparr>t_utc := True\<rparr>"
  have gs1: "gs1 = gs" "cs = map snd (gs_positions gs)"
    using read(1) assms(2) by (auto simp: load_checkpoints_def)
  obtain d ds where cs: "cs = d # ds"
    using assms(3) gs1(2) by (cases cs) auto
  have "t_inst (latest_position t xs) \<le> p" if "t_inst t \<le> p" "\<forall>x\<in>set xs. t_inst (ck_position x) \<le> p" for t xs
    using that by (induction t xs rule: latest_position.induct) auto
  moreover have "\<forall>x\<in>set cs. t_inst (ck_position x) \<le> p"
    using assms(4) gs1(2) by auto
  ultimately have "t_inst (latest_position (ck_position d) ds) \<le> p"
    using cs by simp
  then have "t_inst (fst (poll_window ad cs ?now)) \<le> p - ad_lookback ad"
    using assms(6) cs by (auto simp: poll_window_def Let_def add_time_def before_def)
  moreover have "t_inst (snd (poll_window ad cs ?now)) \<le> t_inst (fst (poll_window ad cs ?now)) + ad_max_window ad"
    using poll_window_ends(2) [of ad cs ?now "fst (poll_window ad cs ?now)" "snd (poll_window ad cs ?now)"] assms(5)
    by simp
  moreover have "\<forall>e\<in>set events. (t_inst (ce_timestamp e) \<le> p
      \<or> p - ad_lookback ad + ad_max_window ad \<le> t_inst (ce_timestamp e))
      \<and> before (ce_timestamp e) (snd (poll_window ad cs ?now))"
    using read_pages_events [OF source_window [OF assms(7)] read(3) [unfolded read_group_def]] by simp
  ultimately have ev: "\<forall>e\<in>set events. t_inst (ce_timestamp e) \<le> p"
    by (fastforce simp: before_def)
  note wf = read_positions_wf [OF read(9,6,7)]
  have old: "t_inst (ck_position cp) \<le> p" if "kv_get (gs_positions gs) n = Some cp"
    using that assms(4) by (auto simp: kv_get_def dest!: map_of_SomeD)
  from read(10) show ?thesis
  proof (cases rule: deliver_window_cases)
    case stopped
    then show ?thesis
      using assms(8) read(2) gs1(1) old by simp
  next
    case (delivered g c2 res)
    have g: "gs_positions g = gs_positions gs"
      using delivered(1) read(2) gs1(1) by simp
    from delivered(3) show ?thesis
    proof (cases rule: commit_positions_cases)
      case moved
      then have "cp \<in> set (pending_checkpoints g ?now (mw_positions w)) \<or> kv_get (gs_positions gs) n = Some cp"
        using assms(8) remembered_from [of _ "gs_positions g" n cp] g by simp
      then show ?thesis
      proof
        assume "cp \<in> set (pending_checkpoints g ?now (mw_positions w))"
        then obtain e where "(cs_name (ck_stream cp), e) \<in> set (mw_positions w)"
          "ck_position cp = (ce_timestamp e)\<lparr>t_utc := True\<rparr>"
          using pending_member by blast
        with wf ev show ?thesis
          by (auto simp: kv_entry_iff)
      qed (rule old)
    qed (use assms(8) g old in auto)
  qed
qed

end
