(* ===== verification/CwCheckpoint.thy ===== *)
theory CwCheckpoint
  imports CwSource KvStore
begin

text \<open>
  The durable checkpoint store (\<open>internal/cloudwatch/cwcheckpoint/cwcheckpoint.go\<close>). The database is an
  ordered map. A value is what \<open>json.Unmarshal\<close> answers for it: a stored checkpoint, or nothing when the
  bytes are no such document; \<open>json.Marshal\<close> refuses a time outside the years 0 to 9999 and replaces
  invalid UTF-8 in a string. Pebble's failures are arguments of the operations.
\<close>

section \<open>Keys\<close>

definition cw_key_prefix :: bytes where "cw_key_prefix = ''cw/ck/1/''"

definition cw_key :: "cw_stream \<Rightarrow> bytes" where
  "cw_key s =
     foldl (\<lambda>key component. key @ be 4 (length component) @ component) cw_key_prefix
       [cg_account (cs_group s), cg_region (cs_group s), cg_log_group (cs_group s), cs_name s]"

definition cw_group_prefix :: "cw_group \<Rightarrow> bytes" where
  "cw_group_prefix g =
     (let key = cw_key \<lparr>cs_group = g, cs_name = []\<rparr> in take (length key - 4) key)"

text \<open>\<open>upperBound\<close>: the last byte below 0xff is incremented and what follows it dropped.\<close>

fun upper_bound :: "bytes \<Rightarrow> bytes option" where
  "upper_bound [] = None"
| "upper_bound (c # cs) =
     (case upper_bound cs of
        Some bound \<Rightarrow> Some (c # bound)
      | None \<Rightarrow> if ord_byte c < 255 then Some [byte (ord_byte c + 1)] else None)"

section \<open>Stored form\<close>

record stored_checkpoint =
  sc_schema_version :: bytes
  sc_account :: bytes
  sc_region :: bytes
  sc_log_group :: bytes
  sc_log_stream :: bytes
  sc_position :: gtime
  sc_event_id :: bytes
  sc_committed_at :: gtime

type_synonym checkpoint_db = "(bytes, stored_checkpoint option) kv"

definition go_utc :: "gtime \<Rightarrow> gtime" where
  "go_utc t = t\<lparr>t_utc := True\<rparr>"

text \<open>The instants of the years 0 to 9999, the only ones a time's JSON form can name.\<close>

definition json_time_ok :: "gtime \<Rightarrow> bool" where
  "json_time_ok t \<longleftrightarrow> - 62167219200000000000 \<le> t_inst t \<and> t_inst t < 253402300800000000000"

definition stored_form :: "cw_checkpoint \<Rightarrow> stored_checkpoint" where
  "stored_form c =
     \<lparr>sc_schema_version = checkpoint_schema_version,
      sc_account = cg_account (cs_group (ck_stream c)),
      sc_region = cg_region (cs_group (ck_stream c)),
      sc_log_group = cg_log_group (cs_group (ck_stream c)),
      sc_log_stream = cs_name (ck_stream c),
      sc_position = go_utc (ck_position c),
      sc_event_id = ck_event_id c,
      sc_committed_at = go_utc (ck_committed_at c)\<rparr>"

text \<open>What \<open>json.Unmarshal\<close> reads back of what \<open>json.Marshal\<close> wrote.\<close>

definition json_document :: "stored_checkpoint \<Rightarrow> stored_checkpoint option" where
  "json_document s =
     (if json_time_ok (sc_position s) \<and> json_time_ok (sc_committed_at s)
      then Some \<lparr>sc_schema_version = repaired (sc_schema_version s),
                 sc_account = repaired (sc_account s), sc_region = repaired (sc_region s),
                 sc_log_group = repaired (sc_log_group s), sc_log_stream = repaired (sc_log_stream s),
                 sc_position = sc_position s, sc_event_id = repaired (sc_event_id s),
                 sc_committed_at = sc_committed_at s\<rparr>
      else None)"

section \<open>Commit and LoadGroup\<close>

text \<open>The answer of \<open>ctx.Err()\<close>, whether staging or the synchronous commit fails, and what a failed commit left.\<close>

record store_env =
  se_context :: "bytes option"
  se_stage_fails :: bool
  se_commit_fails :: bool
  se_commit_applied :: bool
  se_iterator_fails :: bool

definition encode_checkpoint :: "cw_checkpoint \<Rightarrow> cw_error + stored_checkpoint" where
  "encode_checkpoint c =
     (case checkpoint_validate c of Some err \<Rightarrow> Inl err
      | None \<Rightarrow> of_opt (CwOther ''encoding'') (json_document (stored_form c)))"

fun encode_checkpoints :: "cw_checkpoint list \<Rightarrow> cw_error + stored_checkpoint list" where
  "encode_checkpoints [] = Inr []"
| "encode_checkpoints (c # cs) =
     bind_err (encode_checkpoint c) (\<lambda>v. bind_err (encode_checkpoints cs) (\<lambda>vs. Inr (v # vs)))"

fun apply_checkpoints :: "(cw_checkpoint \<times> stored_checkpoint) list \<Rightarrow> checkpoint_db \<Rightarrow> checkpoint_db" where
  "apply_checkpoints [] db = db"
| "apply_checkpoints ((c, v) # cs) db = apply_checkpoints cs (kv_put (cw_key (ck_stream c)) (Some v) db)"

definition cw_commit ::
    "store_env \<Rightarrow> checkpoint_db \<Rightarrow> cw_checkpoint list \<Rightarrow> (cw_error + unit) \<times> checkpoint_db" where
  "cw_commit env db checkpoints =
     (case se_context env of Some err \<Rightarrow> (Inl (CwOther err), db)
      | None \<Rightarrow>
          (if checkpoints = [] then (Inr (), db)
           else
             (case encode_checkpoints checkpoints of Inl err \<Rightarrow> (Inl err, db)
              | Inr encoded \<Rightarrow>
                  (if se_stage_fails env then (Inl (CwOther ''staging''), db)
                   else
                     (let db' = apply_checkpoints (zip checkpoints encoded) db
                      in if se_commit_fails env
                         then (Inl (CwOther ''committing''), if se_commit_applied env then db' else db)
                         else (Inr (), db'))))))"

definition load_stored :: "cw_group \<Rightarrow> stored_checkpoint option \<Rightarrow> cw_error + cw_checkpoint" where
  "load_stored grp document =
     (case document of None \<Rightarrow> Inl CwUnreadable
      | Some stored \<Rightarrow>
     (case parse_schema_version (sc_schema_version stored) of None \<Rightarrow> Inl CwUnreadable
      | Some version \<Rightarrow>
     (case parse_schema_version checkpoint_schema_version of None \<Rightarrow> Inl CwUnreadable
      | Some reader \<Rightarrow>
          (if \<not> compatible_with reader version then Inl CwUnreadable
           else
             (let c = \<lparr>ck_stream =
                         \<lparr>cs_group = \<lparr>cg_account = sc_account stored, cg_region = sc_region stored,
                                      cg_log_group = sc_log_group stored\<rparr>,
                          cs_name = sc_log_stream stored\<rparr>,
                       ck_position = go_utc (sc_position stored), ck_event_id = sc_event_id stored,
                       ck_committed_at = go_utc (sc_committed_at stored)\<rparr>
              in if cs_group (ck_stream c) \<noteq> grp then Inl CwUnreadable else Inr c)))))"

fun load_entries :: "cw_group \<Rightarrow> (bytes \<times> stored_checkpoint option) list \<Rightarrow> cw_error + cw_checkpoint list" where
  "load_entries grp [] = Inr []"
| "load_entries grp ((k, v) # es) =
     bind_err (load_stored grp v) (\<lambda>c. bind_err (load_entries grp es) (\<lambda>cs. Inr (c # cs)))"

definition cw_load_group :: "store_env \<Rightarrow> checkpoint_db \<Rightarrow> cw_group \<Rightarrow> cw_error + cw_checkpoint list" where
  "cw_load_group env db grp =
     (case se_context env of Some err \<Rightarrow> Inl (CwOther err)
      | None \<Rightarrow>
          (let prefix = cw_group_prefix grp;
               loaded = load_entries grp (kv_range prefix (upper_bound prefix) db)
           in if se_iterator_fails env then bind_err loaded (\<lambda>cs. Inl (CwOther ''iterating'')) else loaded))"

section \<open>The keys of one group\<close>

text \<open>The range an upper bound closes holds exactly the extensions of the prefix.\<close>

lemma upper_bound_range:
  "p \<le> k \<and> (case upper_bound p of None \<Rightarrow> True | Some u \<Rightarrow> k < u) \<longleftrightarrow> take (length p) k = p"
proof (induction p arbitrary: k)
  case Nil
  then show ?case by simp
next
  case (Cons c cs)
  show ?case
  proof (cases k)
    case Nil
    then show ?thesis by simp
  next
    case (Cons d ds)
    have next_byte: "d < byte (ord_byte c + 1) \<longleftrightarrow> d \<le> c" if "ord_byte c < 255"
    proof -
      have "d < byte (ord_byte c + 1) \<longleftrightarrow> ord_byte d < ord_byte c + 1"
        using that byte_less [of "ord_byte d" "ord_byte c + 1"] by (simp add: byte_ord_byte)
      also have "\<dots> \<longleftrightarrow> d \<le> c"
        by (simp add: less_eq_char_def ord_byte_def less_Suc_eq_le)
      finally show ?thesis .
    qed
    have top: "d \<le> c" if "\<not> ord_byte c < 255"
    proof -
      have "ord_byte d \<le> ord_byte c"
        using that ord_byte_less [of d] by linarith
      then show ?thesis
        by (simp add: less_eq_char_def ord_byte_def)
    qed
    have "c # cs \<le> d # ds \<longleftrightarrow> c < d \<or> c = d \<and> cs \<le> ds"
      by auto
    with Cons.IH [of ds] next_byte top show ?thesis
      by (cases "upper_bound cs") (auto simp: \<open>k = d # ds\<close>)
  qed
qed

definition stream_components :: "cw_stream \<Rightarrow> bytes list" where
  "stream_components s = [cg_account (cs_group s), cg_region (cs_group s), cg_log_group (cs_group s), cs_name s]"

definition stream_fits :: "cw_stream \<Rightarrow> bool" where
  "stream_fits s \<longleftrightarrow> list_all (\<lambda>v. length v < 2 ^ 32) (stream_components s)"

definition group_fits :: "cw_group \<Rightarrow> bool" where
  "group_fits g \<longleftrightarrow> length (cg_account g) < 2 ^ 32 \<and> length (cg_region g) < 2 ^ 32 \<and> length (cg_log_group g) < 2 ^ 32"

lemma cw_key_delimited: "cw_key s = cw_key_prefix @ concat (map delimited (stream_components s))"
  by (simp add: cw_key_def stream_components_def delimited_def)

lemma cw_key_inject:
  assumes "stream_fits a" and "stream_fits b" and "cw_key a = cw_key b"
  shows "a = b"
proof -
  have "stream_components a = stream_components b"
    using assms by (intro components_inject) (simp_all add: cw_key_delimited stream_fits_def stream_components_def)
  then show ?thesis
    by (simp add: stream_components_def)
qed

lemma cw_group_prefix_delimited:
  "cw_group_prefix g = cw_key_prefix @ delimited (cg_account g) @ delimited (cg_region g) @ delimited (cg_log_group g)"
proof -
  have "delimited [] = be 4 0"
    by (simp add: delimited_def)
  moreover have "length (be 4 0) = 4"
    by simp
  ultimately show ?thesis
    by (simp add: cw_group_prefix_def Let_def cw_key_delimited stream_components_def)
qed

lemma take_prefix_eq: "take (length p) s = p \<longleftrightarrow> (\<exists>r. s = p @ r)"
  by (metis append_eq_conv_conj append_take_drop_id)

lemma cw_group_scan:
  assumes "group_fits g" and "stream_fits s"
  shows "take (length (cw_group_prefix g)) (cw_key s) = cw_group_prefix g \<longleftrightarrow> cs_group s = g"
proof
  assume "take (length (cw_group_prefix g)) (cw_key s) = cw_group_prefix g"
  then obtain r where "cw_key s = cw_group_prefix g @ r"
    unfolding take_prefix_eq by blast
  then have "delimited (cg_account (cs_group s)) @ delimited (cg_region (cs_group s))
      @ delimited (cg_log_group (cs_group s)) @ delimited (cs_name s)
    = delimited (cg_account g) @ delimited (cg_region g) @ delimited (cg_log_group g) @ r"
    by (simp add: cw_key_delimited cw_group_prefix_delimited stream_components_def)
  then have "cg_account (cs_group s) = cg_account g \<and> cg_region (cs_group s) = cg_region g
      \<and> cg_log_group (cs_group s) = cg_log_group g"
    using assms by (simp add: delimited_split stream_fits_def group_fits_def stream_components_def)
  then show "cs_group s = g"
    by simp
next
  assume "cs_group s = g"
  then show "take (length (cw_group_prefix g)) (cw_key s) = cw_group_prefix g"
    by (auto simp: cw_key_delimited cw_group_prefix_delimited stream_components_def)
qed

section \<open>The store as a map from streams to checkpoints\<close>

definition canonical_checkpoint :: "cw_checkpoint \<Rightarrow> cw_checkpoint" where
  "canonical_checkpoint c = c\<lparr>ck_position := go_utc (ck_position c), ck_committed_at := go_utc (ck_committed_at c)\<rparr>"

definition checkpoint_fits :: "cw_checkpoint \<Rightarrow> bool" where
  "checkpoint_fits c \<longleftrightarrow> checkpoint_validate c = None \<and> stream_fits (ck_stream c)
     \<and> list_all utf8_valid (ck_event_id c # stream_components (ck_stream c))
     \<and> json_time_ok (ck_position c) \<and> json_time_ok (ck_committed_at c)"

lemma canonical_stream [simp]: "ck_stream (canonical_checkpoint c) = ck_stream c"
  by (simp add: canonical_checkpoint_def)

lemma schema_version_utf8: "repaired checkpoint_schema_version = checkpoint_schema_version"
proof -
  have "utf8_valid checkpoint_schema_version"
    by (simp add: checkpoint_schema_version_def utf8_valid_def ord_byte_def valid_codes.simps)
  then show ?thesis
    by simp
qed

lemma encode_fitting:
  "checkpoint_fits c \<Longrightarrow> encode_checkpoint c = Inr (stored_form c)"
  by (simp add: encode_checkpoint_def checkpoint_fits_def json_document_def stored_form_def stream_components_def
      schema_version_utf8 go_utc_def json_time_ok_def)

lemma encode_all_fitting:
  "list_all checkpoint_fits cs \<Longrightarrow> encode_checkpoints cs = Inr (map stored_form cs)"
  by (induction cs) (simp_all add: encode_fitting)

lemma load_stored_form:
  "load_stored grp (Some (stored_form c)) =
     (if cs_group (ck_stream c) = grp then Inr (canonical_checkpoint c) else Inl CwUnreadable)"
proof -
  have "parse_schema_version checkpoint_schema_version = Some \<lparr>sver_major = 1, sver_minor = 0\<rparr>"
    by (simp add: parse_schema_version_iff) (simp add: checkpoint_schema_version_def schema_version_string_def dec.simps digit_def byte_def char_of_def bit_Suc_0_iff)
  moreover have "\<lparr>cg_account = cg_account (cs_group (ck_stream c)), cg_region = cg_region (cs_group (ck_stream c)),
      cg_log_group = cg_log_group (cs_group (ck_stream c))\<rparr> = cs_group (ck_stream c)"
    by simp
  moreover have "\<lparr>cs_group = cs_group (ck_stream c), cs_name = cs_name (ck_stream c)\<rparr> = ck_stream c"
    by simp
  ultimately show ?thesis
    by (simp only: load_stored_def stored_form_def compatible_with_def Let_def canonical_checkpoint_def go_utc_def
        option.case stored_checkpoint.simps schema_version.simps simp_thms if_False gtime.update_convs)
      (simp add: go_utc_def canonical_checkpoint_def)
qed

lemma apply_checkpoints_snoc:
  "length cs = length vs \<Longrightarrow> apply_checkpoints (zip (cs @ [c]) (vs @ [v])) db
     = kv_put (cw_key (ck_stream c)) (Some v) (apply_checkpoints (zip cs vs) db)"
  by (induction cs vs arbitrary: db rule: list_induct2) simp_all

text \<open>
  What a store of fitting checkpoints holds of each stream, and the well-formedness the operations keep:
  every entry is the canonical document of a fitting checkpoint under that checkpoint's key.
\<close>

definition store_ok :: "checkpoint_db \<Rightarrow> bool" where
  "store_ok db \<longleftrightarrow> kv_wf db
     \<and> (\<forall>k v. kv_get db k = Some v \<longrightarrow>
          (\<exists>c. checkpoint_fits c \<and> k = cw_key (ck_stream c) \<and> v = Some (stored_form c)))"

definition held :: "checkpoint_db \<Rightarrow> cw_stream \<Rightarrow> cw_checkpoint option" where
  "held db s =
     (case kv_get db (cw_key s) of None \<Rightarrow> None
      | Some v \<Rightarrow> (case load_stored (cs_group s) v of Inl _ \<Rightarrow> None | Inr c \<Rightarrow> Some c))"

text \<open>The abstract store: a commit overwrites the entry of each stream it names, in order.\<close>

definition record_checkpoint :: "(cw_stream \<rightharpoonup> cw_checkpoint) \<Rightarrow> cw_checkpoint \<Rightarrow> (cw_stream \<rightharpoonup> cw_checkpoint)" where
  "record_checkpoint m c = m(ck_stream c \<mapsto> canonical_checkpoint c)"

lemma store_ok_Nil [simp]: "store_ok []"
  by (simp add: store_ok_def)

lemma store_ok_put:
  assumes "store_ok db" and "checkpoint_fits c"
  shows "store_ok (kv_put (cw_key (ck_stream c)) (Some (stored_form c)) db)"
  using assms by (auto simp: store_ok_def kv_wf_put kv_get_put)

lemma held_put:
  assumes "checkpoint_fits c" and "stream_fits s"
  shows "held (kv_put (cw_key (ck_stream c)) (Some (stored_form c)) db) s
    = (if s = ck_stream c then Some (canonical_checkpoint c) else held db s)"
proof -
  have "cw_key s = cw_key (ck_stream c) \<longleftrightarrow> s = ck_stream c"
    using assms cw_key_inject by (auto simp: checkpoint_fits_def)
  then show ?thesis
    by (auto simp: held_def kv_get_put load_stored_form)
qed

lemma store_ok_entry:
  assumes "store_ok db" and "(k, v) \<in> set db"
  obtains c where "checkpoint_fits c" "k = cw_key (ck_stream c)" "v = Some (stored_form c)"
    "held db (ck_stream c) = Some (canonical_checkpoint c)"
proof -
  have g: "kv_get db k = Some v"
    using assms by (simp add: store_ok_def kv_entry_iff)
  then obtain c where c: "checkpoint_fits c" "k = cw_key (ck_stream c)" "v = Some (stored_form c)"
    using assms(1) unfolding store_ok_def by blast
  with g have "held db (ck_stream c) = Some (canonical_checkpoint c)"
    by (simp add: held_def load_stored_form)
  with c show ?thesis
    by (rule that)
qed

lemma held_canonical:
  assumes "store_ok db" and "stream_fits s" and "held db s = Some c"
  shows "\<exists>d. checkpoint_fits d \<and> ck_stream d = s \<and> c = canonical_checkpoint d
    \<and> kv_get db (cw_key s) = Some (Some (stored_form d))"
proof -
  obtain v where v: "kv_get db (cw_key s) = Some v"
    using assms(3) by (auto simp: held_def split: option.splits)
  then obtain d where d: "checkpoint_fits d" "cw_key s = cw_key (ck_stream d)" "v = Some (stored_form d)"
    using assms(1) unfolding store_ok_def by blast
  then have "s = ck_stream d"
    using assms(2) cw_key_inject [of s "ck_stream d"] by (simp add: checkpoint_fits_def)
  with v d assms(3) show ?thesis
    by (auto simp: held_def load_stored_form)
qed

lemma load_entries_form:
  assumes "\<forall>(k, v)\<in>set es. \<exists>c. cs_group (ck_stream c) = grp \<and> k = cw_key (ck_stream c) \<and> v = Some (stored_form c)"
  shows "\<exists>cs. load_entries grp es = Inr cs
    \<and> list_all2 (\<lambda>(k, v) c. k = cw_key (ck_stream c) \<and> load_stored grp v = Inr c) es cs"
  using assms
proof (induction es)
  case (Cons e es)
  then obtain c where "e = (cw_key (ck_stream c), Some (stored_form c))" "cs_group (ck_stream c) = grp"
    by (cases e) auto
  moreover obtain cs where "load_entries grp es = Inr cs"
    "list_all2 (\<lambda>(k, v) c. k = cw_key (ck_stream c) \<and> load_stored grp v = Inr c) es cs"
    using Cons by auto
  ultimately show ?case
    by (auto simp: load_stored_form intro!: exI [of _ "canonical_checkpoint c # cs"])
qed simp

lemma list_all2_member2:
  "list_all2 (\<lambda>(k, v) y. P k v y) xs ys \<Longrightarrow> y \<in> set ys \<Longrightarrow> \<exists>k v. (k, v) \<in> set xs \<and> P k v y"
  by (induction rule: list_all2_induct) auto

lemma list_all2_member1:
  "list_all2 (\<lambda>(k, v) y. P k v y) xs ys \<Longrightarrow> (k, v) \<in> set xs \<Longrightarrow> \<exists>y\<in>set ys. P k v y"
  by (induction rule: list_all2_induct) auto

lemma cw_load_group_exact:
  assumes "store_ok db" and "group_fits grp" and "se_context env = None" and "\<not> se_iterator_fails env"
  shows "\<exists>cs. cw_load_group env db grp = Inr cs \<and> distinct (map ck_stream cs)
    \<and> (\<forall>c. c \<in> set cs \<longleftrightarrow> stream_fits (ck_stream c) \<and> cs_group (ck_stream c) = grp \<and> held db (ck_stream c) = Some c)"
proof -
  let ?p = "cw_group_prefix grp"
  let ?es = "kv_range ?p (upper_bound ?p) db"
  have wf: "kv_wf db" "kv_wf ?es"
    using assms(1) by (simp_all add: store_ok_def kv_wf_range)
  have mem: "(k, v) \<in> set ?es \<longleftrightarrow> (k, v) \<in> set db \<and> take (length ?p) k = ?p" for k v
  proof -
    have "(k, v) \<in> set ?es \<longleftrightarrow> (k, v) \<in> set db
        \<and> (?p \<le> k \<and> (case upper_bound ?p of None \<Rightarrow> True | Some u \<Rightarrow> k < u))"
      by (cases "upper_bound ?p") (auto simp: kv_range_def)
    then show ?thesis
      unfolding upper_bound_range .
  qed
  have "\<forall>(k, v)\<in>set ?es. \<exists>c. cs_group (ck_stream c) = grp \<and> k = cw_key (ck_stream c) \<and> v = Some (stored_form c)"
  proof (intro ballI, clarify)
    fix k v
    assume "(k, v) \<in> set ?es"
    then have kv: "(k, v) \<in> set db" "take (length ?p) k = ?p"
      using mem by blast+
    from assms(1) kv(1) obtain c where "checkpoint_fits c" "k = cw_key (ck_stream c)" "v = Some (stored_form c)"
      by (rule store_ok_entry)
    with kv(2) cw_group_scan [OF assms(2), of "ck_stream c"]
    show "\<exists>c. cs_group (ck_stream c) = grp \<and> k = cw_key (ck_stream c) \<and> v = Some (stored_form c)"
      unfolding checkpoint_fits_def by blast
  qed
  from load_entries_form [OF this] obtain cs where cs: "load_entries grp ?es = Inr cs"
    "list_all2 (\<lambda>(k, v) c. k = cw_key (ck_stream c) \<and> load_stored grp v = Inr c) ?es cs"
    by blast
  have keys: "map fst ?es = map (\<lambda>c. cw_key (ck_stream c)) cs"
    using cs(2) by (induction rule: list_all2_induct) auto
  then have "distinct (map (\<lambda>c. cw_key (ck_stream c)) cs)"
    using kv_wf_distinct [OF wf(2)] by simp
  then have "distinct (map ck_stream cs)"
    by (simp add: distinct_map inj_on_def)
  moreover have "c \<in> set cs \<longleftrightarrow> stream_fits (ck_stream c) \<and> cs_group (ck_stream c) = grp
      \<and> held db (ck_stream c) = Some c" for c
  proof
    assume "c \<in> set cs"
    then obtain k v where kv: "(k, v) \<in> set ?es" "k = cw_key (ck_stream c)" "load_stored grp v = Inr c"
      using list_all2_member2 [OF cs(2)] by blast
    then have "(k, v) \<in> set db"
      using mem by blast
    with assms(1) obtain d where d: "checkpoint_fits d" "k = cw_key (ck_stream d)" "v = Some (stored_form d)"
      "held db (ck_stream d) = Some (canonical_checkpoint d)"
      by (rule store_ok_entry)
    with kv(3) show "stream_fits (ck_stream c) \<and> cs_group (ck_stream c) = grp \<and> held db (ck_stream c) = Some c"
      by (auto simp: load_stored_form checkpoint_fits_def split: if_splits)
  next
    assume c: "stream_fits (ck_stream c) \<and> cs_group (ck_stream c) = grp \<and> held db (ck_stream c) = Some c"
    then obtain d where d: "ck_stream d = ck_stream c" "c = canonical_checkpoint d"
      "kv_get db (cw_key (ck_stream c)) = Some (Some (stored_form d))"
      using held_canonical [OF assms(1), of "ck_stream c" c] by blast
    have "(cw_key (ck_stream c), Some (stored_form d)) \<in> set ?es"
      using d(3) wf(1) c cw_group_scan [OF assms(2)] by (simp add: mem kv_entry_iff)
    then obtain c' where "c' \<in> set cs" "load_stored grp (Some (stored_form d)) = Inr c'"
      using list_all2_member1 [OF cs(2)] by blast
    with d c show "c \<in> set cs"
      by (simp add: load_stored_form)
  qed
  ultimately show ?thesis
    using assms(3,4) cs(1) by (simp add: cw_load_group_def Let_def)
qed

lemma foldl_record_agree:
  "m s = n s \<Longrightarrow> foldl record_checkpoint m xs s = foldl record_checkpoint n xs s"
proof (induction xs arbitrary: m n)
  case (Cons x xs)
  have "record_checkpoint m x s = record_checkpoint n x s"
    using Cons.prems by (simp add: record_checkpoint_def)
  then show ?case
    using Cons.IH [of "record_checkpoint m x" "record_checkpoint n x"] by (simp only: foldl.simps)
qed simp

lemma apply_fitting:
  "list_all checkpoint_fits cs \<Longrightarrow> store_ok db \<Longrightarrow>
   store_ok (apply_checkpoints (zip cs (map stored_form cs)) db)
   \<and> (\<forall>s. stream_fits s \<longrightarrow> held (apply_checkpoints (zip cs (map stored_form cs)) db) s
        = foldl record_checkpoint (\<lambda>s. held db s) cs s)"
proof (induction cs arbitrary: db)
  case (Cons c cs)
  let ?db = "kv_put (cw_key (ck_stream c)) (Some (stored_form c)) db"
  have ok: "store_ok ?db"
    using Cons.prems by (simp add: store_ok_put)
  have ih: "store_ok (apply_checkpoints (zip cs (map stored_form cs)) ?db)"
    "stream_fits s \<Longrightarrow> held (apply_checkpoints (zip cs (map stored_form cs)) ?db) s
      = foldl record_checkpoint (\<lambda>s. held ?db s) cs s" for s
    using Cons.IH [OF _ ok] Cons.prems(1) by simp_all
  have "foldl record_checkpoint (\<lambda>s. held ?db s) cs s = foldl record_checkpoint (\<lambda>s. held db s) (c # cs) s"
    if "stream_fits s" for s
  proof -
    have fits: "checkpoint_fits c"
      using Cons.prems(1) by simp
    have "held ?db s = record_checkpoint (\<lambda>s. held db s) c s"
      unfolding held_put [OF fits that] record_checkpoint_def by simp
    then show ?thesis
      using foldl_record_agree [of "\<lambda>s. held ?db s" s "record_checkpoint (\<lambda>s. held db s) c" cs] by (simp only: foldl.simps)
  qed
  with ih show ?case
    by simp
qed simp

lemma cw_commit_success:
  assumes "store_ok db" and "list_all checkpoint_fits cs" and "cw_commit env db cs = (Inr (), db')"
  shows "store_ok db' \<and> (\<forall>s. stream_fits s \<longrightarrow> held db' s = foldl record_checkpoint (\<lambda>s. held db s) cs s)"
proof -
  have "db' = apply_checkpoints (zip cs (map stored_form cs)) db"
    using assms(3) encode_all_fitting [OF assms(2)]
    by (simp add: cw_commit_def Let_def split: option.splits if_splits)
  with apply_fitting [OF assms(2,1)] show ?thesis
    by simp
qed

lemma cw_commit_kept:
  assumes "store_ok db" and "list_all checkpoint_fits cs" and "cw_commit env db cs = (res, db')"
  shows "store_ok db'"
proof -
  have "db' = db \<or> db' = apply_checkpoints (zip cs (map stored_form cs)) db"
    using assms(3) encode_all_fitting [OF assms(2)]
    by (auto simp: cw_commit_def Let_def split: option.splits if_splits)
  with apply_fitting [OF assms(2,1)] assms(1) show ?thesis
    by auto
qed

section \<open>The contract the adapter relies on\<close>

text \<open>
  What the comment of \<open>CheckpointStore\<close> promises: a reported commit is found by every later load of the
  group, in full and exactly, and a load invents nothing.
\<close>

locale checkpoint_contract =
  fixes load :: "'s \<Rightarrow> cw_group \<Rightarrow> cw_error + cw_checkpoint list"
    and commit :: "'s \<Rightarrow> cw_checkpoint list \<Rightarrow> (cw_error + unit) \<times> 's"
    and wf :: "'s \<Rightarrow> bool"
    and kept :: "'s \<Rightarrow> cw_stream \<Rightarrow> cw_checkpoint option"
  assumes commit_kept: "wf s \<Longrightarrow> list_all checkpoint_fits cs \<Longrightarrow> commit s cs = (Inr (), s') \<Longrightarrow>
      wf s' \<and> (\<forall>st. stream_fits st \<longrightarrow> kept s' st = foldl record_checkpoint (kept s) cs st)"
    and load_exact: "wf s \<Longrightarrow> group_fits g \<Longrightarrow> load s g = Inr cs \<Longrightarrow>
      distinct (map ck_stream cs) \<and> (\<forall>c. c \<in> set cs \<longleftrightarrow>
         stream_fits (ck_stream c) \<and> cs_group (ck_stream c) = g \<and> kept s (ck_stream c) = Some c)"
    and kept_stream: "wf s \<Longrightarrow> stream_fits st \<Longrightarrow> kept s st = Some c \<Longrightarrow> ck_stream c = st"
begin

lemma load_kept:
  assumes "wf s" and "group_fits g" and "load s g = Inr cs" and "stream_fits st" and "cs_group st = g"
  shows "find (\<lambda>c. ck_stream c = st) cs = kept s st"
proof (cases "find (\<lambda>c. ck_stream c = st) cs")
  case None
  have "kept s st \<noteq> Some c" for c
  proof
    assume c: "kept s st = Some c"
    with kept_stream [OF assms(1,4)] have "ck_stream c = st"
      by blast
    with c assms(4,5) load_exact [OF assms(1-3)] have "c \<in> set cs"
      by auto
    with None \<open>ck_stream c = st\<close> show False
      by (auto simp: find_None_iff)
  qed
  then have "kept s st = None"
    by (metis not_None_eq)
  with None show ?thesis
    by simp
next
  case (Some c)
  then have "c \<in> set cs" "ck_stream c = st"
    by (auto simp: find_Some_iff in_set_conv_nth)
  with load_exact [OF assms(1-3)] Some show ?thesis
    by auto
qed

end

lemma recorded_last:
  assumes "distinct (map ck_stream cs)"
  shows "foldl record_checkpoint m cs st
    = (case find (\<lambda>c. ck_stream c = st) cs of Some c \<Rightarrow> Some (canonical_checkpoint c) | None \<Rightarrow> m st)"
  using assms
proof (induction cs arbitrary: m)
  case (Cons c cs)
  have "\<forall>d\<in>set cs. ck_stream d \<noteq> ck_stream c"
    using Cons.prems by (metis image_eqI list.set_map list.simps(9) distinct.simps(2))
  then have "find (\<lambda>d. ck_stream d = ck_stream c) cs = None"
    by (simp add: find_None_iff)
  with Cons show ?case
    by (auto simp: record_checkpoint_def split: option.splits)
qed simp

text \<open>The Pebble store keeps the contract whenever its calls succeed.\<close>

interpretation pebble: checkpoint_contract "cw_load_group env" "cw_commit env" store_ok held
proof (unfold_locales, goal_cases)
  case (1 s cs s')
  then show ?case
    by (intro cw_commit_success)
next
  case (2 s g cs)
  then have "se_context env = None" "\<not> se_iterator_fails env"
    by (auto simp: cw_load_group_def Let_def bind_err_def split: option.splits if_splits sum.splits)
  then obtain ds where "cw_load_group env s g = Inr ds" "distinct (map ck_stream ds)"
    "\<forall>c. c \<in> set ds \<longleftrightarrow> stream_fits (ck_stream c) \<and> cs_group (ck_stream c) = g \<and> held s (ck_stream c) = Some c"
    using cw_load_group_exact [OF 2(1,2), of env] by blast
  with 2(3) show ?case
    by simp
next
  case (3 s st c)
  then show ?case
    using held_canonical by fastforce
qed

text \<open>
  C34. The checkpoint store refines a map from streams to checkpoints: after any commits of well-formed
  checkpoints, loading a group returns exactly the last checkpoint of each of its streams, and nothing of
  another group, however the groups and streams are named.
\<close>

theorem checkpoints_reload:
  assumes "list_all (list_all checkpoint_fits) batches" and "group_fits grp"
    and "se_context env = None" and "\<not> se_stage_fails env" and "\<not> se_commit_fails env" and "\<not> se_iterator_fails env"
  shows "\<exists>cs. cw_load_group env (foldl (\<lambda>db cs. snd (cw_commit env db cs)) [] batches) grp = Inr cs
    \<and> distinct (map ck_stream cs)
    \<and> (\<forall>c. c \<in> set cs \<longleftrightarrow> stream_fits (ck_stream c) \<and> cs_group (ck_stream c) = grp
         \<and> foldl record_checkpoint (\<lambda>_. None) (concat batches) (ck_stream c) = Some c)"
proof -
  let ?run = "foldl (\<lambda>db cs. snd (cw_commit env db cs))"
  have "store_ok (?run db batches)
      \<and> (\<forall>st. stream_fits st \<longrightarrow> held (?run db batches) st = foldl record_checkpoint m (concat batches) st)"
    if "store_ok db" "\<forall>st. stream_fits st \<longrightarrow> held db st = m st" for db m
    using assms(1) that
  proof (induction batches arbitrary: db m)
    case (Cons b batches)
    have "cw_commit env db b = (Inr (), snd (cw_commit env db b))"
      using Cons.prems(1) assms(3-5) by (simp add: cw_commit_def encode_all_fitting Let_def)
    then have c: "store_ok (snd (cw_commit env db b))"
      "\<forall>st. stream_fits st \<longrightarrow> held (snd (cw_commit env db b)) st = foldl record_checkpoint (held db) b st"
      using cw_commit_success [OF Cons.prems(2), of b env] Cons.prems(1) by auto
    have "foldl record_checkpoint (held db) b st = foldl record_checkpoint m b st" if "stream_fits st" for st
      using foldl_record_agree [of "held db" st m b] Cons.prems(3) that by blast
    with c Cons.prems(1) Cons.IH [OF _ c(1), of "foldl record_checkpoint m b"] show ?case
      by simp
  qed simp
  from this [of "[]" "\<lambda>_. None"]
  have r: "store_ok (?run [] batches)"
    "stream_fits st \<Longrightarrow> held (?run [] batches) st = foldl record_checkpoint (\<lambda>_. None) (concat batches) st" for st
    by (simp_all add: held_def)
  obtain cs where "cw_load_group env (?run [] batches) grp = Inr cs" "distinct (map ck_stream cs)"
    "\<forall>c. c \<in> set cs \<longleftrightarrow> stream_fits (ck_stream c) \<and> cs_group (ck_stream c) = grp
       \<and> held (?run [] batches) (ck_stream c) = Some c"
    using cw_load_group_exact [OF r(1) assms(2,3,6)] by blast
  with r(2) show ?thesis
    by auto
qed

end
