(* ===== verification/CwRestart.thy ===== *)
theory CwRestart
  imports CwSafety CwCheckpoint
begin

text \<open>
  The adapter against the contract of its checkpoint store: after a poll that returned no error the
  positions in memory and the durable checkpoints of the group name the same checkpoint of every stream, so
  a process that restarts takes the group up exactly where the previous one left it.
\<close>

section \<open>The adapter as a client of the contract\<close>

definition group_stream :: "group_state \<Rightarrow> bytes \<Rightarrow> cw_stream" where
  "group_stream gs n = \<lparr>cs_group = gs_group gs, cs_name = n\<rparr>"

definition store_ops ::
    "('s \<Rightarrow> cw_group \<Rightarrow> cw_error + cw_checkpoint list)
       \<Rightarrow> ('s \<Rightarrow> cw_checkpoint list \<Rightarrow> (cw_error + unit) \<times> 's) \<Rightarrow> 's checkpoint_ops" where
  "store_ops load commit = \<lparr>co_load = load, co_commit = commit\<rparr>"

text \<open>The checkpoints a source's events can ask for are ones the store can represent.\<close>

definition source_fits :: "poll_env \<Rightarrow> cw_group \<Rightarrow> bool" where
  "source_fits env grp \<longleftrightarrow>
     (\<forall>n q page. pe_filter env n q = Inr page \<longrightarrow>
        (\<forall>e\<in>set (cp_events page). is_zero (ce_timestamp e) \<or>
           checkpoint_fits
             \<lparr>ck_stream = \<lparr>cs_group = grp, cs_name = ce_stream_name e\<rparr>,
              ck_position = (ce_timestamp e)\<lparr>t_utc := True\<rparr>, ck_event_id = ce_event_id e,
              ck_committed_at = (pe_now env)\<lparr>t_utc := True\<rparr>\<rparr>))"

lemma group_stream_sel [simp]:
  "cs_group (group_stream gs n) = gs_group gs" "cs_name (group_stream gs n) = n"
  by (simp_all add: group_stream_def)

lemma group_stream_eq: "cs_group st = gs_group gs \<Longrightarrow> st = group_stream gs n \<longleftrightarrow> cs_name st = n"
  by (cases st) (auto simp: group_stream_def)

lemma stream_names_distinct:
  assumes "distinct (map ck_stream cs)" and "\<forall>c\<in>set cs. cs_group (ck_stream c) = g"
  shows "distinct (map (\<lambda>c. cs_name (ck_stream c)) cs)"
proof -
  have "inj_on cs_name (ck_stream ` set cs)"
    using assms(2) by (intro inj_onI cw_stream.equality) auto
  with assms(1) have "distinct (map cs_name (map ck_stream cs))"
    by (subst distinct_map) simp
  then show ?thesis
    by (simp add: comp_def)
qed

lemma find_by_name:
  assumes "\<forall>c\<in>set cs. cs_group (ck_stream c) = gs_group gs"
  shows "find (\<lambda>c. ck_stream c = group_stream gs n) cs = find (\<lambda>c. cs_name (ck_stream c) = n) cs"
  using assms by (intro find_cong) (simp_all add: group_stream_eq)

lemma read_positions_dated:
  assumes "map_window record_of delivered events w0 = (True, w)" and "mw_positions w0 = []" and "mw_seen w0 = []"
    and "kv_get (mw_positions w) n = Some e"
  shows "\<not> is_zero (ce_timestamp e)"
proof -
  have "mw_positions w = foldl (\<lambda>ps e. advance_position e ps) [] events"
    using map_window_accounts [OF assms(1)] assms(2,3) by simp
  moreover have "\<forall>n x. kv_get (foldl (\<lambda>ps e. advance_position e ps) ps es) n = Some x \<longrightarrow> \<not> is_zero (ce_timestamp x)"
    if "\<forall>n x. kv_get ps n = Some x \<longrightarrow> \<not> is_zero (ce_timestamp x)" for ps es
    using that
  proof (induction es arbitrary: ps)
    case (Cons e es)
    have "\<forall>n x. kv_get (advance_position e ps) n = Some x \<longrightarrow> \<not> is_zero (ce_timestamp x)"
      using Cons.prems by (auto simp: advance_position_def kv_get_put split: option.splits)
    from Cons.IH [OF this] show ?case
      by simp
  qed simp
  ultimately show ?thesis
    using assms(4) by (metis kv_get_Nil option.distinct(1))
qed

lemma read_fits:
  assumes "source_fits env (gs_group gs)" and "read_group env ad (gs_group gs) lo hi c = (Inr events, pages, calls, c1)"
  shows "\<forall>e\<in>set events. is_zero (ce_timestamp e) \<or>
    checkpoint_fits
      \<lparr>ck_stream = group_stream gs (ce_stream_name e), ck_position = (ce_timestamp e)\<lparr>t_utc := True\<rparr>,
       ck_event_id = ce_event_id e, ck_committed_at = (pe_now env)\<lparr>t_utc := True\<rparr>\<rparr>"
proof -
  have "window_answers env hi (\<lambda>e. is_zero (ce_timestamp e) \<or>
      checkpoint_fits
        \<lparr>ck_stream = group_stream gs (ce_stream_name e), ck_position = (ce_timestamp e)\<lparr>t_utc := True\<rparr>,
         ck_event_id = ce_event_id e, ck_committed_at = (pe_now env)\<lparr>t_utc := True\<rparr>\<rparr>)"
    using assms(1) unfolding source_fits_def window_answers_def group_stream_def by blast
  from read_pages_events [OF this assms(2) [unfolded read_group_def]] show ?thesis
    by simp
qed

lemma pending_fits:
  assumes "\<forall>e\<in>set events. is_zero (ce_timestamp e) \<or>
      checkpoint_fits
        \<lparr>ck_stream = group_stream gs (ce_stream_name e), ck_position = (ce_timestamp e)\<lparr>t_utc := True\<rparr>,
         ck_event_id = ce_event_id e, ck_committed_at = now\<rparr>"
    and "kv_wf ps" and "\<forall>n x. kv_get ps n = Some x \<longrightarrow> ce_stream_name x = n \<and> x \<in> set events"
    and "\<And>n x. kv_get ps n = Some x \<Longrightarrow> \<not> is_zero (ce_timestamp x)"
  shows "list_all checkpoint_fits (pending_checkpoints gs now ps)"
proof -
  have "checkpoint_fits
      \<lparr>ck_stream = group_stream gs n, ck_position = (ce_timestamp e)\<lparr>t_utc := True\<rparr>, ck_event_id = ce_event_id e,
       ck_committed_at = now\<rparr>" if "(n, e) \<in> set ps" for n e
  proof -
    have "kv_get ps n = Some e"
      using that kv_entry_iff [OF assms(2)] by blast
    with assms(1,3,4) show ?thesis
      by blast
  qed
  then show ?thesis
    by (auto simp: list_all_iff pending_checkpoints_def group_stream_def)
qed

text \<open>
  In step: the group is loaded, and what it remembers of a stream is what the store keeps of it. A name the
  store cannot represent is remembered for no group.
\<close>

context checkpoint_contract
begin

definition in_step :: "'s \<Rightarrow> group_state \<Rightarrow> bool" where
  "in_step s gs \<longleftrightarrow> gs_loaded gs
     \<and> (\<forall>n. kv_get (gs_positions gs) n =
          (if stream_fits (group_stream gs n) then kept s (group_stream gs n) else None))"

lemma load_in_step:
  assumes "wf s" and "group_fits (gs_group gs)" and "\<not> gs_loaded gs" and "gs_positions gs = []"
    and "load_checkpoints (store_ops load commit) gs s = Inr (cs, gs1)"
  shows "in_step s gs1"
proof -
  have l: "load s (gs_group gs) = Inr cs" and gs1: "gs1 = gs\<lparr>gs_positions := remember_positions cs [], gs_loaded := True\<rparr>"
    using assms(3-5) by (auto simp: load_checkpoints_def store_ops_def bind_err_def split: sum.splits)
  note ex = load_exact [OF assms(1,2) l]
  then have g: "\<forall>c\<in>set cs. cs_group (ck_stream c) = gs_group gs"
    by blast
  have "kv_get (remember_positions cs []) n =
      (if stream_fits (group_stream gs n) then kept s (group_stream gs n) else None)" for n
  proof -
    have k: "kv_get (remember_positions cs []) n = find (\<lambda>c. ck_stream c = group_stream gs n) cs"
      using kv_get_remember [OF stream_names_distinct [OF conjunct1 [OF ex] g], of "[]" n]
      by (simp add: find_by_name [OF g] split: option.split)
    show ?thesis
    proof (cases "stream_fits (group_stream gs n)")
      case True
      with k load_kept [OF assms(1,2) l] show ?thesis
        by simp
    next
      case False
      have "find (\<lambda>c. ck_stream c = group_stream gs n) cs = None"
        unfolding find_None_iff using False ex by metis
      with k False show ?thesis
        by simp
    qed
  qed
  then show ?thesis
    using gs1 by (simp add: in_step_def group_stream_def)
qed

lemma commit_in_step:
  assumes "wf s" and "in_step s gs" and "kv_wf ps"
    and "list_all checkpoint_fits (pending_checkpoints gs now ps)" and "t_utc now"
    and "commit_positions (store_ops load commit) gs now ps s c = (Inr k, gs', s', c')"
  shows "wf s' \<and> in_step s' gs'"
  using assms(6)
proof (cases rule: commit_positions_cases)
  case nothing
  with assms(1,2) show ?thesis
    by simp
next
  case (failed err)
  then show ?thesis
    by simp
next
  case moved
  let ?cs = "pending_checkpoints gs now ps"
  have g: "\<forall>c\<in>set ?cs. cs_group (ck_stream c) = gs_group gs"
    by (auto simp: pending_checkpoints_def)
  have "commit s ?cs = (Inr (), s')"
    using moved(2) by (simp add: store_ops_def)
  note kept' = commit_kept [OF assms(1,4) this]
  have canon: "canonical_checkpoint c = c" if "c \<in> set ?cs" for c
    using that assms(5) by (auto simp: pending_checkpoints_def canonical_checkpoint_def go_utc_def)
  have d: "distinct (map (\<lambda>c. cs_name (ck_stream c)) ?cs)"
    by (rule pending_distinct [OF assms(3)])
  then have d': "distinct (map ck_stream ?cs)"
    using distinct_map [of cs_name "map ck_stream ?cs"] by (simp add: comp_def)
  have "kv_get (remember_positions ?cs (gs_positions gs)) n =
      (if stream_fits (group_stream gs n) then kept s' (group_stream gs n) else None)" for n
  proof (cases "find (\<lambda>c. cs_name (ck_stream c) = n) ?cs")
    case None
    then show ?thesis
      using kept' recorded_last [OF d', of "kept s" "group_stream gs n"] assms(2)
      by (simp add: kv_get_remember [OF d] find_by_name [OF g] in_step_def)
  next
    case (Some x)
    then have x: "x \<in> set ?cs" "cs_name (ck_stream x) = n"
      by (auto simp: find_Some_iff in_set_conv_nth)
    then have "ck_stream x = group_stream gs n"
      using g group_stream_eq by blast
    then have "stream_fits (group_stream gs n)"
      using assms(4) x(1) by (auto simp: list_all_iff checkpoint_fits_def)
    with Some kept' recorded_last [OF d', of "kept s" "group_stream gs n"] canon [OF x(1)] show ?thesis
      by (simp add: kv_get_remember [OF d] find_by_name [OF g])
  qed
  then show ?thesis
    using kept' moved(1) assms(2) by (simp add: in_step_def group_stream_def)
qed

lemma poll_in_step:
  assumes "poll_group H (store_ops load commit) env ad gs s c = (None, result, gs', s', c')"
    and "wf s" and "group_fits (gs_group gs)" and "source_fits env (gs_group gs)"
    and "in_step s gs \<or> \<not> gs_loaded gs \<and> gs_positions gs = []"
  shows "wf s' \<and> in_step s' gs'"
proof -
  have loaded: "in_step s gs1 \<and> gs_group gs1 = gs_group gs" if "load_checkpoints (store_ops load commit) gs s = Inr (cs, gs1)" for cs gs1
  proof (cases "gs_loaded gs")
    case True
    with that assms(5) show ?thesis
      by (auto simp: load_checkpoints_def)
  next
    case False
    then have "gs_positions gs = []"
      using assms(5) by (auto simp: in_step_def)
    with False load_in_step [OF assms(2,3) False _ that] that show ?thesis
      by (auto simp: load_checkpoints_def bind_err_def split: sum.splits)
  qed
  have keep: "in_step t (forget_delivered x g) = in_step t g" for t x g
    by (simp add: in_step_def group_stream_def)
  show ?thesis
    using assms(1)
  proof (cases rule: poll_group_cases)
    case (idle cs gs1)
    with loaded assms(2) show ?thesis
      by (simp add: keep)
  next
    case (read cs gs1 gs2 events pages calls c1 batch_id w w0)
    let ?now = "(pe_now env)\<lparr>t_utc := True\<rparr>"
    have gs2: "in_step s gs2" "gs_group gs2 = gs_group gs"
      using loaded [OF read(1)] read(2) by (simp_all add: keep)
    note ps = read_positions_wf [OF read(9,6,7)]
    have fits: "list_all checkpoint_fits (pending_checkpoints gs2 ?now (mw_positions w))"
      using read_fits [of env gs2] assms(4) gs2(2) read(3) ps read_positions_dated [OF read(9,6,7)]
      by (intro pending_fits [of events]) auto
    from read(10) show ?thesis
    proof (cases rule: deliver_window_cases)
      case (delivered g d res)
      then obtain k where k: "res = Inr k"
        by (cases res) simp_all
      have "in_step s g" "pending_checkpoints g ?now (mw_positions w) = pending_checkpoints gs2 ?now (mw_positions w)"
        using gs2(1) delivered(1) by (simp_all add: in_step_def group_stream_def pending_checkpoints_def)
      with commit_in_step [OF assms(2), of g "mw_positions w" ?now d k gs' s' c'] ps fits delivered(3) k show ?thesis
        by simp
    qed simp
  qed simp
qed

end

text \<open>Polls of one group after another, each of which returned no error.\<close>

fun run_group ::
    "(bytes \<Rightarrow> bytes) \<Rightarrow> 's checkpoint_ops \<Rightarrow> cw_adapter \<Rightarrow> poll_env list \<Rightarrow> group_state \<Rightarrow> 's \<Rightarrow> adapter_counters
       \<Rightarrow> (group_state \<times> 's) option" where
  "run_group H ops ad [] gs s c = Some (gs, s)"
| "run_group H ops ad (world # worlds) gs s c =
     (case poll_group H ops world ad gs s c of
        (None, result, gs, s, c) \<Rightarrow> run_group H ops ad worlds gs s c
      | (Some err, _) \<Rightarrow> None)"

lemma poll_group_keeps:
  assumes "poll_group H ops env ad gs s c = (err, result, gs', s', c')"
  shows "gs_group gs' = gs_group gs \<and> gs_mapper gs' = gs_mapper gs"
  using assms
proof (cases rule: poll_group_cases)
  case (idle cs gs1)
  then show ?thesis
    by (auto simp: load_checkpoints_def bind_err_def split: if_splits sum.splits)
next
  case (read cs gs1 gs2 events pages calls c1 batch_id w w0)
  then have "gs_group gs2 = gs_group gs \<and> gs_mapper gs2 = gs_mapper gs"
    by (auto simp: load_checkpoints_def bind_err_def split: if_splits sum.splits)
  moreover have "gs_group gs' = gs_group gs2 \<and> gs_mapper gs' = gs_mapper gs2"
    using read(10)
    by (auto simp: deliver_window_def commit_positions_def Let_def split: if_splits sum.splits prod.splits)
  ultimately show ?thesis
    by simp
qed simp

context checkpoint_contract
begin

lemma run_in_step:
  assumes "run_group H (store_ops load commit) ad worlds gs s c = Some (gs', s')"
    and "wf s" and "group_fits (gs_group gs)" and "\<forall>w\<in>set worlds. source_fits w (gs_group gs)"
    and "in_step s gs \<or> \<not> gs_loaded gs \<and> gs_positions gs = []"
  shows "wf s' \<and> (in_step s' gs' \<or> \<not> gs_loaded gs' \<and> gs_positions gs' = []) \<and> gs_group gs' = gs_group gs"
  using assms
proof (induction worlds arbitrary: gs s c)
  case (Cons w worlds)
  obtain err r g t d where p: "poll_group H (store_ops load commit) w ad gs s c = (err, r, g, t, d)"
    by (metis prod_cases5)
  with Cons.prems(1) have "err = None" and run: "run_group H (store_ops load commit) ad worlds g t d = Some (gs', s')"
    by (auto split: option.splits)
  with p Cons.prems(2-5) have "wf t \<and> in_step t g"
    by (intro poll_in_step [of H w ad gs s c r g t d]) simp_all
  with Cons.IH [OF run] Cons.prems(3,4) poll_group_keeps [OF p] show ?case
    by simp
qed simp

lemma restart_in_step:
  assumes "wf s'" and "group_fits (gs_group gs')" and "in_step s' gs' \<or> \<not> gs_loaded gs' \<and> gs_positions gs' = []"
    and "load_checkpoints (store_ops load commit) (gs'\<lparr>gs_loaded := False, gs_positions := []\<rparr>) s' = Inr (cs, fresh)"
    and "gs_loaded gs'"
  shows "kv_get (gs_positions fresh) n = kv_get (gs_positions gs') n"
proof -
  have "in_step s' fresh"
    using load_in_step [OF assms(1) _ _ _ assms(4)] assms(2) by simp
  moreover have "gs_group fresh = gs_group gs'"
    using assms(4) by (auto simp: load_checkpoints_def bind_err_def split: sum.splits)
  ultimately show ?thesis
    using assms(3,5) by (simp add: in_step_def group_stream_def)
qed

end

text \<open>
  C33. A restart resumes where the process stopped: after any number of polls of a group that returned no
  error, a new process that loads the group from the Pebble store remembers the same checkpoint of every
  stream as the process that polled, whatever the streams are named and whatever else the store holds.
\<close>

theorem restart_resumes:
  assumes "run_group H (store_ops (cw_load_group env) (cw_commit env)) ad worlds gs s c = Some (gs', s')"
    and "store_ok s" and "group_fits (gs_group gs)" and "\<forall>w\<in>set worlds. source_fits w (gs_group gs)"
    and "\<not> gs_loaded gs" and "gs_positions gs = []" and "gs_loaded gs'"
    and "load_checkpoints (store_ops (cw_load_group env) (cw_commit env))
           (gs'\<lparr>gs_loaded := False, gs_positions := []\<rparr>) s' = Inr (cs, fresh)"
  shows "kv_get (gs_positions fresh) n = kv_get (gs_positions gs') n"
  using pebble.run_in_step [OF assms(1-4)] pebble.restart_in_step [OF _ _ _ assms(8,7)] assms(3,5,6) by simp

end
