(* ===== verification/CwSample.thy ===== *)
theory CwSample
  imports CwRestart JournalSample
begin

text \<open>
  A concrete adapter on which the theorems' hypotheses hold: one group with one stream, a source that
  answers a query with the events of its range, a redaction policy that keeps everything, a sink that
  acknowledges, and a digest of 32 zero bytes. Nothing here models the program.
\<close>

definition sample_group :: cw_group where
  "sample_group = \<lparr>cg_account = ''acct'', cg_region = ''us-east-1'', cg_log_group = ''/app''\<rparr>"

definition sample_policy :: redaction_policy where
  "sample_policy =
     \<lparr>po_version = ''policy-1'', po_structured_text = (\<lambda>s. (safe_string s, [])), po_text_ok = (\<lambda>_. True),
      po_field_ok = (\<lambda>_. True), po_record_ok = (\<lambda>_. True)\<rparr>"

definition sample_mapper_config :: mapper_config where
  "sample_mapper_config =
     \<lparr>mc_policy = Some sample_policy, mc_account = [], mc_region = [], mc_source_instance = ''cw-1'',
      mc_credential_identity = ''role'', mc_allowed_services = [''api''], mc_allowed_environments = [''prod''],
      mc_service = [], mc_environment = [], mc_classification = ''INTERNAL'', mc_raw_reference_ttl = 0\<rparr>"

definition sample_adapter_config :: adapter_config where
  "sample_adapter_config =
     \<lparr>ac_interfaces_nil = False, ac_api_region = ''us-east-1'', ac_mapper = sample_mapper_config,
      ac_region = ''us-east-1'', ac_account = ''acct'',
      ac_groups = [\<lparr>gc_log_group = ''/app'', gc_service = ''api'', gc_environment = ''prod''\<rparr>],
      ac_lookback = 0, ac_max_lookback = 0, ac_initial_lookback = 0, ac_max_window = 0, ac_page_limit = 0,
      ac_max_pages = 0, ac_backoff = \<lparr>bo_base = 0, bo_max = 0, bo_max_attempts = 0, bo_jitter = None\<rparr>\<rparr>"

definition sample_adapter :: cw_adapter where
  "sample_adapter = (case new_adapter sample_adapter_config of Inr ad \<Rightarrow> ad)"

definition sample_group_state :: group_state where
  "sample_group_state = hd (ad_groups sample_adapter)"

definition sample_event :: "int \<Rightarrow> cw_event" where
  "sample_event n =
     \<lparr>ce_stream_name = ''web'', ce_event_id = ''event-'' @ dec (nat n), ce_timestamp = sample_time n,
      ce_ingestion_time = sample_time (n + 1), ce_message = ''boom''\<rparr>"

text \<open>The source holds an event at 1000 s and one 20 minutes later.\<close>

definition sample_source :: "cw_query \<Rightarrow> cw_error + cw_page" where
  "sample_source q =
     Inr \<lparr>cp_region = ''us-east-1'', cp_log_group = ''/app'',
          cp_events = filter (\<lambda>e. \<not> before (ce_timestamp e) (cq_start q) \<and> before (ce_timestamp e) (cq_end q))
             [sample_event 1000, sample_event 2200],
          cp_next_token = []\<rparr>"

definition sample_world :: "int \<Rightarrow> poll_env" where
  "sample_world now =
     \<lparr>pe_now = sample_time now, pe_new_id = Inr ''batch-1'', pe_filter = (\<lambda>_. sample_source),
      pe_sleep = (\<lambda>_ _. None), pe_int64n = (\<lambda>_. 0),
      pe_ingest = (\<lambda>_ rs. Inr \<lparr>ca_acknowledged = True, ca_accepted = int (length rs), ca_rejected = 0\<rparr>)\<rparr>"

definition sample_store_env :: store_env where
  "sample_store_env = \<lparr>se_context = None, se_stage_fails = False, se_commit_fails = False,
     se_commit_applied = False, se_iterator_fails = False\<rparr>"

definition sample_ops :: "checkpoint_db checkpoint_ops" where
  "sample_ops = store_ops (cw_load_group sample_store_env) (cw_commit sample_store_env)"

definition no_counters :: adapter_counters where
  "no_counters = \<lparr>cn_records_read = 0, cn_duplicate_records = 0, cn_records_delivered = 0,
     cn_records_rejected = 0, cn_throttled = 0, cn_source_failures = 0, cn_empty_results = 0,
     cn_checkpoint_commits = 0, cn_boundary_rejections = 0\<rparr>"

definition zero_digest :: "bytes \<Rightarrow> bytes" where "zero_digest _ = replicate 32 (CHR 0x00)"

fun polled :: "nat \<Rightarrow> int \<Rightarrow> cw_error option \<times> poll_result \<times> group_state \<times> checkpoint_db \<times> adapter_counters \<Rightarrow> bool" where
  "polled n at (err, r, gs, s, c) \<longleftrightarrow> err = None \<and> pr_delivered r = n \<and> gs_loaded gs
     \<and> map (\<lambda>(n, cp). (n, t_inst (ck_position cp))) (gs_positions gs) = [(''web'', at)] \<and> s \<noteq> []"

definition sample_poll :: "int \<Rightarrow> group_state \<Rightarrow> checkpoint_db
    \<Rightarrow> cw_error option \<times> poll_result \<times> group_state \<times> checkpoint_db \<times> adapter_counters" where
  "sample_poll now gs s = poll_group zero_digest sample_ops (sample_world now) sample_adapter gs s no_counters"

fun polled_group :: "cw_error option \<times> poll_result \<times> group_state \<times> checkpoint_db \<times> adapter_counters \<Rightarrow> group_state" where
  "polled_group (err, r, gs, s, c) = gs"

fun polled_store :: "cw_error option \<times> poll_result \<times> group_state \<times> checkpoint_db \<times> adapter_counters \<Rightarrow> checkpoint_db" where
  "polled_store (err, r, gs, s, c) = s"

definition sample_polled_group :: group_state where
  "sample_polled_group = polled_group (sample_poll 1100 sample_group_state [])"

definition sample_polled_store :: checkpoint_db where
  "sample_polled_store = polled_store (sample_poll 1100 sample_group_state [])"

text \<open>
  The first poll, at 1100 s, delivers the first event and commits; the second, 50 minutes after it, finds
  nothing although the other event is waiting.
\<close>

lemma sample_first: "polled 1 1000000000000 (sample_poll 1100 sample_group_state [])"
  by code_simp

lemma sample_second: "polled 0 1000000000000 (sample_poll 4000 sample_polled_group sample_polled_store)"
  by code_simp

lemma sample_window: "poll_window sample_adapter (map snd (gs_positions sample_polled_group)) (sample_time 4000)
    = (sample_time 700, sample_time 1600)"
  by code_simp

lemma sample_bounds: "ad_max_window sample_adapter = 900000000000" "ad_lookback sample_adapter = 300000000000"
  "ad_max_lookback sample_adapter = 3600000000000"
  by code_simp+

lemma sample_read:
  "fst (read_group (sample_world 1100) sample_adapter sample_group (sample_time 200) (sample_time 1100) no_counters)
     = Inr [sample_event 1000]"
  by code_simp

lemma polledD:
  assumes "polled n at p"
  obtains r gs s c where "p = (None, r, gs, s, c)" "gs_loaded gs" "s \<noteq> []"
    "map (\<lambda>(n, cp). (n, t_inst (ck_position cp))) (gs_positions gs) = [(''web'', at)]"
  using assms by (cases p rule: prod_cases5) auto

lemma sample_source_answers:
  "source_answers (sample_world now) (\<lambda>e. e \<in> {sample_event 1000, sample_event 2200})"
  by (auto simp: source_answers_def sample_world_def sample_source_def)

definition sample_checkpoint :: "int \<Rightarrow> int \<Rightarrow> cw_checkpoint" where
  "sample_checkpoint now n =
     \<lparr>ck_stream = \<lparr>cs_group = sample_group, cs_name = ce_stream_name (sample_event n)\<rparr>,
      ck_position = (ce_timestamp (sample_event n))\<lparr>t_utc := True\<rparr>, ck_event_id = ce_event_id (sample_event n),
      ck_committed_at = (sample_time now)\<lparr>t_utc := True\<rparr>\<rparr>"

lemma sample_checkpoint_text:
  "list_all (\<lambda>n. list_all utf8_valid (ck_event_id (sample_checkpoint now n) # stream_components (ck_stream (sample_checkpoint now n))))
     [1000, 2200]"
  by code_simp

lemma sample_group_valid: "cw_group_valid sample_group" "trimmed ''web''" "group_fits sample_group"
proof -
  show "cw_group_valid sample_group" "trimmed ''web''"
    by code_simp+
  show "group_fits sample_group"
    by (simp add: group_fits_def sample_group_def)
qed

lemma sample_checkpoint_fits:
  assumes "n \<in> {1000, 2200}" and "0 < now" and "now < 10000"
  shows "checkpoint_fits (sample_checkpoint now n)"
proof -
  have "list_all utf8_valid (ck_event_id (sample_checkpoint now n) # stream_components (ck_stream (sample_checkpoint now n)))"
    using sample_checkpoint_text [of now] assms(1) by auto
  moreover have "checkpoint_validate (sample_checkpoint now n) = None"
    using assms sample_group_valid
    by (auto simp: checkpoint_validate_def sample_checkpoint_def sample_event_def sample_time_def is_zero_def go_second_def)
  moreover have "stream_fits (ck_stream (sample_checkpoint now n))"
    by (simp add: stream_fits_def stream_components_def sample_checkpoint_def sample_group_def sample_event_def)
  moreover have "json_time_ok (ck_position (sample_checkpoint now n)) \<and> json_time_ok (ck_committed_at (sample_checkpoint now n))"
    using assms by (auto simp: json_time_ok_def sample_checkpoint_def sample_event_def sample_time_def go_second_def)
  ultimately show ?thesis
    by (simp add: checkpoint_fits_def)
qed

lemma sample_source_fits: "0 < now \<Longrightarrow> now < 10000 \<Longrightarrow> source_fits (sample_world now) sample_group"
  using sample_checkpoint_fits [of 1000 now] sample_checkpoint_fits [of 2200 now]
  by (auto simp: source_fits_def sample_world_def sample_source_def sample_checkpoint_def)

fun run_check :: "(group_state \<times> checkpoint_db) option \<Rightarrow> bool" where
  "run_check None \<longleftrightarrow> False"
| "run_check (Some (gs, s)) \<longleftrightarrow> gs_loaded gs \<and> \<not> Option.is_none (kv_get (gs_positions gs) ''web'')
     \<and> \<not> isl (load_checkpoints sample_ops (gs\<lparr>gs_loaded := False, gs_positions := []\<rparr>) s)"

lemma run_checkD:
  assumes "run_check x"
  obtains gs s where "x = Some (gs, s)" "gs_loaded gs" "kv_get (gs_positions gs) ''web'' \<noteq> None"
    "\<not> isl (load_checkpoints sample_ops (gs\<lparr>gs_loaded := False, gs_positions := []\<rparr>) s)"
  using assms by (cases x rule: run_check.cases) (auto simp: Option.is_none_def)

section \<open>Witnesses\<close>


theorem positions_never_move_back_witness:
  "positions_advance (loaded_positions sample_ops sample_polled_group sample_polled_store)
     (gs_positions (polled_group (sample_poll 4000 sample_polled_group sample_polled_store)))"
proof -
  obtain r gs s c where p: "sample_poll 4000 sample_polled_group sample_polled_store = (None, r, gs, s, c)"
    using sample_second by (rule polledD)
  with positions_never_move_back [OF p(1) [unfolded sample_poll_def]] show ?thesis
    by simp
qed

theorem window_read_ends_witness:
  "\<exists>events pages calls c. read_group (sample_world 1100) sample_adapter sample_group (sample_time 200) (sample_time 1100) no_counters
       = (Inr events, pages, calls, c) \<and> events = [sample_event 1000] \<and> pages \<le> 1000 \<and> calls \<le> 5000"
proof -
  obtain res pages calls c where r: "read_group (sample_world 1100) sample_adapter sample_group (sample_time 200)
      (sample_time 1100) no_counters = (res, pages, calls, c)"
    by (metis prod_cases4)
  moreover have "res = Inr [sample_event 1000]"
    using r sample_read by simp
  moreover have "ad_max_pages sample_adapter = 1000" "backoff_attempts (ad_backoff sample_adapter) = 5"
    by code_simp+
  ultimately show ?thesis
    using window_read_ends [OF r] by simp
qed

theorem poll_window_bounds_witness:
  "t_inst (sample_time 4000) - ad_max_lookback sample_adapter \<le> t_inst (sample_time 700)
   \<and> t_inst (sample_time 700) \<le> t_inst (sample_time 1600)"
  using poll_window_bounds [OF sample_window] sample_bounds by simp

theorem quiet_gap_stalls_witness:
  "\<exists>cp. kv_get (gs_positions (polled_group (sample_poll 4000 sample_polled_group sample_polled_store))) ''web'' = Some cp
     \<and> t_inst (ck_position cp) \<le> 1000000000000
     \<and> (\<exists>page. sample_source \<lparr>cq_log_group = ''/app'', cq_start = sample_time 0, cq_end = sample_time 4000,
           cq_next_token = [], cq_limit = 1000\<rparr> = Inr page \<and> sample_event 2200 \<in> set (cp_events page))"
proof -
  obtain r gs s c where p: "sample_poll 4000 sample_polled_group sample_polled_store = (None, r, gs, s, c)"
    "map (\<lambda>(n, cp). (n, t_inst (ck_position cp))) (gs_positions gs) = [(''web'', 1000000000000)]"
    using sample_second by (rule polledD)
  obtain r0 gs0 s0 c0 where q: "sample_poll 1100 sample_group_state [] = (None, r0, gs0, s0, c0)" "gs_loaded gs0"
    "map (\<lambda>(n, cp). (n, t_inst (ck_position cp))) (gs_positions gs0) = [(''web'', 1000000000000)]"
    using sample_first by (rule polledD)
  have g0: "sample_polled_group = gs0"
    by (simp add: sample_polled_group_def q(1))
  obtain cp where cp: "gs_positions gs = [(''web'', cp)]"
    using p(2) by (auto simp: map_eq_Cons_conv)
  have "source_answers (sample_world 4000) (\<lambda>e. t_inst (ce_timestamp e) \<le> 1000000000000
      \<or> 1000000000000 - ad_lookback sample_adapter + ad_max_window sample_adapter \<le> t_inst (ce_timestamp e))"
    using sample_source_answers [of 4000] unfolding source_answers_def sample_bounds
    by (fastforce simp: sample_event_def sample_time_def go_second_def)
  moreover have "t_inst (pe_now (sample_world 4000)) - ad_max_lookback sample_adapter
      \<le> 1000000000000 - ad_lookback sample_adapter"
    by (simp add: sample_bounds sample_world_def sample_time_def go_second_def)
  moreover have "\<forall>(n, cp)\<in>set (gs_positions sample_polled_group). t_inst (ck_position cp) \<le> 1000000000000"
    using q(3) g0 by (auto simp: map_eq_Cons_conv)
  ultimately have "t_inst (ck_position cp) \<le> 1000000000000"
    using q g0 cp sample_bounds
    by (intro quiet_gap_stalls [OF p(1) [unfolded sample_poll_def], of 1000000000000 "''web''" cp])
      (auto simp: kv_get_def)
  moreover have "sample_event 2200 \<in> set (filter (\<lambda>e. \<not> before (ce_timestamp e) (sample_time 0) \<and> before (ce_timestamp e) (sample_time 4000))
      [sample_event 1000, sample_event 2200])"
    by (simp add: before_def sample_event_def sample_time_def go_second_def)
  ultimately show ?thesis
    using p(1) cp by (simp add: sample_source_def kv_get_def)
qed

theorem checkpoints_reload_witness:
  "\<exists>cs. cw_load_group sample_store_env
       (foldl (\<lambda>db cs. snd (cw_commit sample_store_env db cs)) []
          [[sample_checkpoint 1100 1000], [sample_checkpoint 4000 2200]]) sample_group = Inr cs
     \<and> sample_checkpoint 4000 2200 \<in> set cs"
proof -
  let ?batches = "[[sample_checkpoint 1100 1000], [sample_checkpoint 4000 2200]]"
  have fits: "checkpoint_fits (sample_checkpoint 1100 1000)" "checkpoint_fits (sample_checkpoint 4000 2200)"
    by (rule sample_checkpoint_fits; simp)+
  have s: "cs_group (ck_stream (sample_checkpoint 4000 2200)) = sample_group"
    by (simp add: sample_checkpoint_def)
  have "canonical_checkpoint (sample_checkpoint 4000 2200) = sample_checkpoint 4000 2200"
    by (simp add: canonical_checkpoint_def go_utc_def sample_checkpoint_def)
  then have "foldl record_checkpoint (\<lambda>_. None) (concat ?batches) (ck_stream (sample_checkpoint 4000 2200))
      = Some (sample_checkpoint 4000 2200)"
    by (simp add: record_checkpoint_def)
  moreover have "stream_fits (ck_stream (sample_checkpoint 4000 2200))"
    using fits(2) by (simp add: checkpoint_fits_def)
  moreover have "se_context sample_store_env = None" "\<not> se_stage_fails sample_store_env"
    "\<not> se_commit_fails sample_store_env" "\<not> se_iterator_fails sample_store_env"
    by (simp_all add: sample_store_env_def)
  ultimately show ?thesis
    using checkpoints_reload [of ?batches sample_group sample_store_env] fits s sample_group_valid(3) by auto
qed

theorem restart_resumes_witness:
  "\<exists>gs s cs fresh. run_group zero_digest sample_ops sample_adapter [sample_world 1100, sample_world 4000]
       sample_group_state [] no_counters = Some (gs, s)
     \<and> load_checkpoints sample_ops (gs\<lparr>gs_loaded := False, gs_positions := []\<rparr>) s = Inr (cs, fresh)
     \<and> kv_get (gs_positions gs) ''web'' \<noteq> None
     \<and> kv_get (gs_positions fresh) ''web'' = kv_get (gs_positions gs) ''web''"
proof -
  have run: "run_check (run_group zero_digest sample_ops sample_adapter [sample_world 1100, sample_world 4000]
       sample_group_state [] no_counters)"
    by code_simp
  then obtain gs s where r: "run_group zero_digest sample_ops sample_adapter [sample_world 1100, sample_world 4000]
       sample_group_state [] no_counters = Some (gs, s)" "gs_loaded gs"
      "kv_get (gs_positions gs) ''web'' \<noteq> None"
      "\<not> isl (load_checkpoints sample_ops (gs\<lparr>gs_loaded := False, gs_positions := []\<rparr>) s)"
    by (rule run_checkD)
  then obtain cs fresh where l: "load_checkpoints sample_ops (gs\<lparr>gs_loaded := False, gs_positions := []\<rparr>) s = Inr (cs, fresh)"
    by (cases "load_checkpoints sample_ops (gs\<lparr>gs_loaded := False, gs_positions := []\<rparr>) s") auto
  have g: "gs_group sample_group_state = sample_group" "gs_positions sample_group_state = []" "\<not> gs_loaded sample_group_state"
    by code_simp+
  have "kv_get (gs_positions fresh) ''web'' = kv_get (gs_positions gs) ''web''"
    using sample_source_fits sample_group_valid(3) g r(2)
    by (intro restart_resumes [OF r(1) [unfolded sample_ops_def] _ _ _ _ _ _ l [unfolded sample_ops_def]]) simp_all
  with r l show ?thesis
    by blast
qed

end
