(* ===== verification/Admission.thy ===== *)
theory Admission
  imports Model GoText "HOL-Library.Word"
begin

text \<open>
  Admission before the journal: which records an enabled rule could consume
  (\<open>internal/admission/classifier.go\<close>) and which of the others are dropped when the journal fills
  (\<open>internal/admission/capacity.go\<close>). A set of attribute names is a list; counters and capacities keep
  their widths.
\<close>

section \<open>Rules and classification\<close>

record admission_record =
  ar_source :: bytes
  ar_service :: bytes
  ar_environment :: bytes
  ar_severity :: bytes
  ar_event_type :: bytes
  ar_attributes :: "bytes list"
  ar_security :: bool
  ar_event_triggering :: bool

record admission_rule =
  ru_sources :: "bytes list"
  ru_services :: "bytes list"
  ru_environments :: "bytes list"
  ru_severities :: "bytes list"
  ru_event_types :: "bytes list"
  ru_required_attributes :: "bytes list"

record classification =
  cf_protected :: bool
  cf_certain :: bool

datatype rule_error = UnknownSource bytes | UnknownSeverity bytes | BlankSelector

fun find_unknown :: "bytes list \<Rightarrow> bytes list \<Rightarrow> bytes option" where
  "find_unknown known [] = None"
| "find_unknown known (v # vs) = (if v \<notin> set known then Some v else find_unknown known vs)"

definition validate_rule :: "admission_rule \<Rightarrow> rule_error option" where
  "validate_rule rule =
     (case find_unknown [source_type_otlp, source_type_cloudwatch] (ru_sources rule) of
        Some v \<Rightarrow> Some (UnknownSource v)
      | None \<Rightarrow>
     (case find_unknown severity_classes (ru_severities rule) of
        Some v \<Rightarrow> Some (UnknownSeverity v)
      | None \<Rightarrow>
          (if list_ex blank (ru_services rule @ ru_environments rule @ ru_event_types rule
                             @ ru_required_attributes rule)
           then Some BlankSelector else None)))"

text \<open>The index of the offending rule and what is wrong with it, or the compiled rules.\<close>

fun compile_from :: "nat \<Rightarrow> admission_rule list \<Rightarrow> (nat \<times> rule_error) + admission_rule list" where
  "compile_from i [] = Inr []"
| "compile_from i (rule # rules) =
     (case validate_rule rule of
        Some err \<Rightarrow> Inl (i, err)
      | None \<Rightarrow> bind_err (compile_from (Suc i) rules) (\<lambda>compiled. Inr (rule # compiled)))"

definition compile_rules :: "admission_rule list \<Rightarrow> (nat \<times> rule_error) + admission_rule list" where
  "compile_rules rules = compile_from 0 rules"

definition known_record_enums :: "admission_record \<Rightarrow> bool" where
  "known_record_enums r \<longleftrightarrow>
     ar_source r \<in> set [[], source_type_otlp, source_type_cloudwatch]
     \<and> ar_severity r \<in> set ([] # severity_classes)"

fun match_checks :: "(bytes \<times> bytes list) list \<Rightarrow> bool \<Rightarrow> (bool \<times> bool) option" where
  "match_checks [] certain = Some (True, certain)"
| "match_checks ((v, allowed) # checks) certain =
     (if allowed = [] then match_checks checks certain
      else if v = [] then match_checks checks False
      else if v \<notin> set allowed then None
      else match_checks checks certain)"

definition rule_checks :: "admission_rule \<Rightarrow> admission_record \<Rightarrow> (bytes \<times> bytes list) list" where
  "rule_checks rule r =
     [(ar_source r, ru_sources rule), (ar_service r, ru_services rule),
      (ar_environment r, ru_environments rule), (ar_severity r, ru_severities rule),
      (ar_event_type r, ru_event_types rule)]"

definition could_match :: "admission_rule \<Rightarrow> admission_record \<Rightarrow> bool \<times> bool" where
  "could_match rule r =
     (case match_checks (rule_checks rule r) True of
        None \<Rightarrow> (False, True)
      | Some verdict \<Rightarrow>
          (if list_ex (\<lambda>key. key \<notin> set (ar_attributes r)) (ru_required_attributes rule)
           then (False, True) else verdict))"

fun classify_rules :: "admission_rule list \<Rightarrow> admission_record \<Rightarrow> bool \<Rightarrow> classification" where
  "classify_rules [] r uncertain =
     (if uncertain then \<lparr>cf_protected = True, cf_certain = False\<rparr>
      else \<lparr>cf_protected = False, cf_certain = True\<rparr>)"
| "classify_rules (rule # rules) r uncertain =
     (case could_match rule r of (match, certain) \<Rightarrow>
        (if match \<and> certain then \<lparr>cf_protected = True, cf_certain = True\<rparr>
         else classify_rules rules r (uncertain \<or> match)))"

text \<open>A nil classifier is \<open>None\<close>.\<close>

definition classify :: "admission_rule list option \<Rightarrow> admission_record \<Rightarrow> classification" where
  "classify c r =
     (case c of
        None \<Rightarrow> \<lparr>cf_protected = True, cf_certain = False\<rparr>
      | Some rules \<Rightarrow>
          (if \<not> known_record_enums r then \<lparr>cf_protected = True, cf_certain = False\<rparr>
           else classify_rules rules r False))"

section \<open>Capacity\<close>

record capacity_policy =
  kp_near_capacity_percent :: "8 word"
  kp_eligible_sources :: "bytes list"

record capacity_state =
  ks_used :: "64 word"
  ks_capacity :: "64 word"
  ks_can_persist :: bool

datatype admission_action = ActionAdmit | ActionShed | ActionBackpressure
datatype admission_counter = CounterNone | CounterDropped | CounterBackpressured

record capacity_result =
  kr_action :: admission_action
  kr_acknowledged :: bool
  kr_retryable :: bool
  kr_counter :: admission_counter

record admission_counts =
  an_dropped :: "64 word"
  an_backpressured :: "64 word"

definition count_with :: "admission_counts \<Rightarrow> capacity_result \<Rightarrow> admission_counts" where
  "count_with c result =
     (case kr_counter result of
        CounterDropped \<Rightarrow> c\<lparr>an_dropped := an_dropped c + 1\<rparr>
      | CounterBackpressured \<Rightarrow> c\<lparr>an_backpressured := an_backpressured c + 1\<rparr>
      | CounterNone \<Rightarrow> c)"

definition may_shed :: "capacity_policy \<Rightarrow> admission_record \<Rightarrow> classification \<Rightarrow> bool" where
  "may_shed p r c =
     (if cf_protected c \<or> \<not> cf_certain c \<or> ar_security r \<or> ar_event_triggering r then False
      else if ar_severity r \<noteq> severity_class_debug \<and> ar_severity r \<noteq> severity_class_info then False
      else ar_source r \<in> set (kp_eligible_sources p))"

definition near_capacity :: "capacity_policy \<Rightarrow> capacity_state \<Rightarrow> bool" where
  "near_capacity p s =
     (if ks_capacity s = 0 \<or> kp_near_capacity_percent p = 0 \<or> 100 < kp_near_capacity_percent p then False
      else
        (let whole = ks_used s div ks_capacity s;
             remaining = ks_used s mod ks_capacity s
         in if 1 \<le> whole then True
            else
              (let percent = (ucast (kp_near_capacity_percent p) :: 64 word);
                   threshold = (ks_capacity s div 100) * percent + ((ks_capacity s mod 100) * percent + 99) div 100
               in threshold \<le> remaining)))"

definition shed_result :: capacity_result where
  "shed_result = \<lparr>kr_action = ActionShed, kr_acknowledged = True, kr_retryable = False, kr_counter = CounterDropped\<rparr>"

definition capacity_decide :: "capacity_policy \<Rightarrow> admission_record \<Rightarrow> classification \<Rightarrow> capacity_state \<Rightarrow> capacity_result" where
  "capacity_decide p r c s =
     (if \<not> ks_can_persist s
      then (if may_shed p r c \<and> near_capacity p s then shed_result
            else \<lparr>kr_action = ActionBackpressure, kr_acknowledged = False, kr_retryable = True,
                  kr_counter = CounterBackpressured\<rparr>)
      else if may_shed p r c \<and> near_capacity p s then shed_result
      else \<lparr>kr_action = ActionAdmit, kr_acknowledged = False, kr_retryable = False, kr_counter = CounterNone\<rparr>)"

section \<open>The threshold\<close>

lemma ceiling_div: "(100 :: nat) * u \<ge> x \<longleftrightarrow> u \<ge> (x + 99) div 100"
proof -
  have "(x + 99) div 100 \<le> u \<longleftrightarrow> (x + 99) div 100 < Suc u"
    by (simp only: less_Suc_eq_le)
  also have "\<dots> \<longleftrightarrow> x + 99 < Suc u * 100"
    by (rule div_less_iff_less_mult) simp
  also have "\<dots> \<longleftrightarrow> x \<le> 100 * u"
    by (simp only: mult_Suc) arith
  finally show ?thesis
    by simp
qed

lemma split_percent:
  fixes c p :: nat
  shows "(c div 100) * p + ((c mod 100) * p + 99) div 100 = (c * p + 99) div 100"
proof -
  have split: "(a * 100 + b) * p = b * p + (a * p) * 100" for a b :: nat
    by (simp add: distrib_right)
  have "c * p = (c div 100 * 100 + c mod 100) * p"
    by (simp only: div_mult_mod_eq)
  also have "\<dots> = (c mod 100) * p + (c div 100 * p) * 100"
    by (rule split)
  finally have "c * p + 99 = ((c mod 100) * p + 99) + (c div 100 * p) * 100"
    by (simp only: add.assoc add.commute add.left_commute)
  then have "(c * p + 99) div 100 = ((c mod 100) * p + 99) div 100 + c div 100 * p"
    by simp
  then show ?thesis
    by simp
qed

lemma unat_numeral_8: "unat (100 :: 8 word) = 100"
  by simp

lemma unat_threshold:
  fixes c :: "64 word" and q :: "8 word"
  assumes "unat q \<le> 100"
  shows "unat ((c div 100) * ucast q + ((c mod 100) * ucast q + 99) div 100) = (unat c * unat q + 99) div 100"
proof -
  let ?p = "ucast q :: 64 word"
  have p: "unat ?p = unat q"
  proof -
    have "unat q < 2 ^ 64"
      using assms by simp
    then show ?thesis
      by (simp add: unsigned_ucast_eq take_bit_nat_eq_self)
  qed
  have q100: "unat (100 :: 64 word) = 100" "unat (99 :: 64 word) = 99"
    by simp_all
  have "unat c < 2 ^ LENGTH(64)"
    by (rule unsigned_less)
  then have c: "unat c < 18446744073709551616"
    by simp
  have m1: "unat ((c mod 100) * ?p) = (unat c mod 100) * unat q"
  proof -
    have "unat (c mod 100) * unat ?p < 2 ^ LENGTH(64)"
    proof -
      have "unat (c mod 100) \<le> 100"
        by (simp add: unat_mod)
      then have "unat (c mod 100) * unat ?p \<le> 100 * 100"
        using assms p by (intro mult_le_mono) simp_all
      then show ?thesis
        by simp
    qed
    from iffD1 [OF unat_mult_lem this] show ?thesis
      using p by (simp add: unat_mod)
  qed
  have b1: "(unat c mod 100) * unat q \<le> 10000"
  proof -
    have "(unat c mod 100) * unat q \<le> 100 * 100"
      using assms by (intro mult_le_mono) simp_all
    then show ?thesis by simp
  qed
  have a1: "unat ((c mod 100) * ?p + 99) = (unat c mod 100) * unat q + 99"
    using m1 b1 by (simp add: unat_plus_if_size word_size)
  have d1: "unat (((c mod 100) * ?p + 99) div 100) = ((unat c mod 100) * unat q + 99) div 100"
    using a1 by (simp add: unat_div)
  have b2: "unat (c div 100) * unat ?p \<le> unat c"
  proof -
    have "unat c div 100 * unat q \<le> unat c div 100 * 100"
      using assms by (intro mult_le_mono) simp_all
    also have "\<dots> \<le> unat c"
      by simp
    finally show ?thesis
      using p by (simp add: unat_div)
  qed
  then have "unat (c div 100) * unat ?p < 2 ^ LENGTH(64)"
    using c by simp
  from iffD1 [OF unat_mult_lem this] have m2: "unat ((c div 100) * ?p) = unat c div 100 * unat q"
    using p by (simp add: unat_div)
  have "unat ((c div 100) * ?p) + unat (((c mod 100) * ?p + 99) div 100) < 2 ^ LENGTH(64)"
  proof -
    have "unat c * unat q \<le> unat c * 100"
      using assms by simp
    then have "(unat c * unat q + 99) div 100 \<le> unat c"
      by linarith
    then show ?thesis
      using c m2 d1 split_percent [of "unat c" "unat q"] by simp
  qed
  from iffD1 [OF unat_add_lem this] show ?thesis
    using m2 d1 split_percent [of "unat c" "unat q"] by simp
qed

text \<open>
  C28. The threshold is exact and nothing in its 64-bit arithmetic wraps: the journal counts as nearly full
  exactly when its used share reaches the configured percentage, taken over the unbounded integers, and a
  percentage outside 1 to 100 or an empty capacity never does.
\<close>

theorem capacity_threshold_exact:
  "near_capacity p s \<longleftrightarrow>
     ks_capacity s \<noteq> 0 \<and> 1 \<le> unat (kp_near_capacity_percent p) \<and> unat (kp_near_capacity_percent p) \<le> 100
     \<and> unat (kp_near_capacity_percent p) * unat (ks_capacity s) \<le> 100 * unat (ks_used s)"
proof -
  let ?q = "kp_near_capacity_percent p" and ?c = "ks_capacity s" and ?u = "ks_used s"
  have "?q = 0 \<longleftrightarrow> unat ?q = 0"
    by (simp add: unat_eq_0)
  then have guards: "?q = 0 \<longleftrightarrow> \<not> 1 \<le> unat ?q" "100 < ?q \<longleftrightarrow> \<not> unat ?q \<le> 100"
    by (simp_all only: word_less_nat_alt unat_numeral_8 Suc_le_eq not_less not_le One_nat_def less_one [symmetric]) simp_all
  show ?thesis
  proof (cases "?c = 0 \<or> ?q = 0 \<or> 100 < ?q")
    case True
    then show ?thesis
      using guards by (auto simp: near_capacity_def)
  next
    case False
    then have q: "1 \<le> unat ?q" "unat ?q \<le> 100" and c: "0 < unat ?c"
      using guards by (auto simp: unat_gt_0)
    have whole: "1 \<le> ?u div ?c \<longleftrightarrow> unat ?c \<le> unat ?u"
      using c by (simp add: word_le_nat_alt unat_div div_greater_zero_iff Suc_le_eq)
    show ?thesis
    proof (cases "unat ?c \<le> unat ?u")
      case True
      then have "unat ?q * unat ?c \<le> 100 * unat ?u"
        using q by (intro mult_le_mono) simp_all
      with True False whole q show ?thesis
        by (simp add: near_capacity_def)
    next
      case less: False
      then have "unat (?u mod ?c) = unat ?u"
        by (simp add: unat_mod)
      then have "(?c div 100) * ucast ?q + ((?c mod 100) * ucast ?q + 99) div 100 \<le> ?u mod ?c
          \<longleftrightarrow> unat ?c * unat ?q \<le> 100 * unat ?u"
        unfolding word_le_nat_alt unat_threshold [OF q(2)] by (simp add: ceiling_div)
      with less False whole q show ?thesis
        by (simp add: near_capacity_def Let_def mult.commute)
    qed
  qed
qed

section \<open>What a rule could consume\<close>

text \<open>
  The meaning of a rule on a record whose every field is known, and the records an incomplete one may turn
  out to be: an empty field may hold anything.
\<close>

definition consumes :: "admission_rule \<Rightarrow> admission_record \<Rightarrow> bool" where
  "consumes rule r \<longleftrightarrow>
     (\<forall>(v, allowed)\<in>set (rule_checks rule r). allowed = [] \<or> v \<in> set allowed)
     \<and> set (ru_required_attributes rule) \<subseteq> set (ar_attributes r)"

definition completes :: "admission_record \<Rightarrow> admission_record \<Rightarrow> bool" where
  "completes r r' \<longleftrightarrow>
     ar_source r \<in> {[], ar_source r'} \<and> ar_service r \<in> {[], ar_service r'}
     \<and> ar_environment r \<in> {[], ar_environment r'} \<and> ar_severity r \<in> {[], ar_severity r'}
     \<and> ar_event_type r \<in> {[], ar_event_type r'} \<and> set (ar_attributes r') = set (ar_attributes r)"

lemma match_checks_None:
  "match_checks cs certain = None \<longleftrightarrow> (\<exists>(v, a)\<in>set cs. a \<noteq> [] \<and> v \<noteq> [] \<and> v \<notin> set a)"
  by (induction cs certain rule: match_checks.induct) auto

lemma match_checks_Some:
  "match_checks cs certain = Some (m, c) \<Longrightarrow> m \<and> (c \<longleftrightarrow> certain \<and> (\<forall>(v, a)\<in>set cs. a = [] \<or> v \<noteq> []))"
proof (induction cs arbitrary: certain)
  case (Cons x cs)
  obtain v a where x: "x = (v, a)"
    by fastforce
  show ?case
  proof (cases "a = [] \<or> v \<noteq> []")
    case True
    then have "match_checks cs certain = Some (m, c)"
      using Cons.prems x by (auto split: if_splits)
    from Cons.IH [OF this] True x show ?thesis
      by simp
  next
    case False
    then have "match_checks cs False = Some (m, c)"
      using Cons.prems x by simp
    from Cons.IH [OF this] False x show ?thesis
      by simp
  qed
qed simp

definition filled :: "bytes \<Rightarrow> bytes list \<Rightarrow> bytes" where
  "filled v allowed = (if v = [] \<and> allowed \<noteq> [] then hd allowed else v)"

lemma could_match_ex:
  "fst (could_match rule r) \<longleftrightarrow> (\<exists>r'. completes r r' \<and> consumes rule r')"
proof
  assume m: "fst (could_match rule r)"
  then obtain vd where vd: "match_checks (rule_checks rule r) True = Some vd"
    by (auto simp: could_match_def split: option.splits)
  have ok: "\<not> (\<exists>(v, a)\<in>set (rule_checks rule r). a \<noteq> [] \<and> v \<noteq> [] \<and> v \<notin> set a)"
    using vd match_checks_None [of "rule_checks rule r" True] by simp
  have req: "set (ru_required_attributes rule) \<subseteq> set (ar_attributes r)"
    using m vd by (auto simp: could_match_def list_ex_iff split: if_splits)
  let ?r' = "r\<lparr>ar_source := filled (ar_source r) (ru_sources rule), ar_service := filled (ar_service r) (ru_services rule),
      ar_environment := filled (ar_environment r) (ru_environments rule),
      ar_severity := filled (ar_severity r) (ru_severities rule),
      ar_event_type := filled (ar_event_type r) (ru_event_types rule)\<rparr>"
  have f: "allowed = [] \<or> filled v allowed \<in> set allowed" if "\<not> (allowed \<noteq> [] \<and> v \<noteq> [] \<and> v \<notin> set allowed)" for v allowed
    using that by (auto simp: filled_def)
  have "consumes rule ?r'"
    using ok req f by (simp add: consumes_def rule_checks_def)
  moreover have "completes r ?r'"
    by (simp add: completes_def filled_def)
  ultimately show "\<exists>r'. completes r r' \<and> consumes rule r'"
    by blast
next
  assume "\<exists>r'. completes r r' \<and> consumes rule r'"
  then obtain r' where r': "completes r r'" "consumes rule r'"
    by blast
  have g: "a = [] \<or> v = [] \<or> v \<in> set a" if "v \<in> {[], v'}" "a = [] \<or> v' \<in> set a" for v v' and a :: "bytes list"
    using that by auto
  from r' have "\<not> (\<exists>(v, a)\<in>set (rule_checks rule r). a \<noteq> [] \<and> v \<noteq> [] \<and> v \<notin> set a)"
    using g [of "ar_source r" "ar_source r'" "ru_sources rule"] g [of "ar_service r" "ar_service r'" "ru_services rule"]
      g [of "ar_environment r" "ar_environment r'" "ru_environments rule"]
      g [of "ar_severity r" "ar_severity r'" "ru_severities rule"]
      g [of "ar_event_type r" "ar_event_type r'" "ru_event_types rule"]
    by (simp add: consumes_def completes_def rule_checks_def)
  then have "match_checks (rule_checks rule r) True \<noteq> None"
    using match_checks_None [of "rule_checks rule r" True] by simp
  then obtain m c where mc: "match_checks (rule_checks rule r) True = Some (m, c)"
    by auto
  moreover have "set (ru_required_attributes rule) \<subseteq> set (ar_attributes r)"
    using r' by (simp add: consumes_def completes_def)
  ultimately show "fst (could_match rule r)"
    using match_checks_Some [OF mc] by (auto simp: could_match_def list_ex_iff)
qed

lemma could_match_certain:
  assumes "could_match rule r = (True, c)"
  shows "c \<longleftrightarrow> (\<forall>(v, a)\<in>set (rule_checks rule r). a = [] \<or> v \<noteq> [])"
  using assms match_checks_Some [of "rule_checks rule r" True]
  by (auto simp: could_match_def split: option.splits if_splits)

lemma classify_rules_unprotected:
  "classify_rules rules r uncertain = \<lparr>cf_protected = False, cf_certain = True\<rparr>
     \<longleftrightarrow> \<not> uncertain \<and> (\<forall>rule\<in>set rules. \<not> fst (could_match rule r))"
  by (induction rules r uncertain rule: classify_rules.induct) (auto split: prod.splits)

lemma classify_rules_protected:
  "\<not> cf_protected (classify_rules rules r uncertain)
     \<longleftrightarrow> classify_rules rules r uncertain = \<lparr>cf_protected = False, cf_certain = True\<rparr>"
  by (induction rules r uncertain rule: classify_rules.induct) (auto split: prod.splits)

lemma classified_unprotected:
  "\<not> cf_protected (classify c r) \<and> cf_certain (classify c r) \<longleftrightarrow>
     known_record_enums r
     \<and> (\<exists>rules. c = Some rules \<and> \<not> (\<exists>rule r'. rule \<in> set rules \<and> completes r r' \<and> consumes rule r'))"
proof (cases c)
  case (Some rules)
  then show ?thesis
    using classify_rules_unprotected [of rules r False] classify_rules_protected [of rules r False]
    by (auto simp: classify_def could_match_ex)
qed (simp add: classify_def)

text \<open>
  C24. Exactly the expendable records are dropped: a record is shed if and only if a classifier is configured
  and none of its rules could consume the record whatever its missing fields turn out to be, it is an
  ordinary debug or info record of an eligible source, and the journal has reached the configured share of
  its capacity. Any other record the journal cannot hold is refused with backpressure, never dropped.
\<close>

theorem shed_only_expendable:
  "(kr_action (capacity_decide p r (classify c r) s) = ActionShed \<longleftrightarrow>
      known_record_enums r
      \<and> (\<exists>rules. c = Some rules \<and> \<not> (\<exists>rule r'. rule \<in> set rules \<and> completes r r' \<and> consumes rule r'))
      \<and> \<not> ar_security r \<and> \<not> ar_event_triggering r \<and> ar_severity r \<in> {severity_class_debug, severity_class_info}
      \<and> ar_source r \<in> set (kp_eligible_sources p) \<and> near_capacity p s)
   \<and> (kr_action (capacity_decide p r (classify c r) s) = ActionBackpressure \<longleftrightarrow>
      \<not> ks_can_persist s \<and> kr_action (capacity_decide p r (classify c r) s) \<noteq> ActionShed)
   \<and> (kr_acknowledged (capacity_decide p r (classify c r) s) \<longleftrightarrow>
      kr_action (capacity_decide p r (classify c r) s) = ActionShed)"
proof -
  have m: "may_shed p r (classify c r) \<longleftrightarrow>
      (\<not> cf_protected (classify c r) \<and> cf_certain (classify c r))
      \<and> \<not> ar_security r \<and> \<not> ar_event_triggering r \<and> ar_severity r \<in> {severity_class_debug, severity_class_info}
      \<and> ar_source r \<in> set (kp_eligible_sources p)"
    by (auto simp: may_shed_def)
  have "kr_action (capacity_decide p r (classify c r) s) = ActionShed
      \<longleftrightarrow> may_shed p r (classify c r) \<and> near_capacity p s"
    by (simp add: capacity_decide_def shed_result_def)
  moreover have "kr_action (capacity_decide p r (classify c r) s) = ActionBackpressure \<longleftrightarrow>
      \<not> ks_can_persist s \<and> kr_action (capacity_decide p r (classify c r) s) \<noteq> ActionShed"
    "kr_acknowledged (capacity_decide p r (classify c r) s) \<longleftrightarrow>
      kr_action (capacity_decide p r (classify c r) s) = ActionShed"
    by (simp_all add: capacity_decide_def shed_result_def)
  ultimately show ?thesis
    unfolding m classified_unprotected by (simp only: conj_ac simp_thms)
qed

end
