(* ===== verification/AdmissionWire.thy ===== *)
theory AdmissionWire
  imports Prelude
begin

text \<open>
  Bounded decoding of an OTLP export request before anything is allocated for it
  (\<open>internal/admission/wire.go\<close> and \<open>materialization.go\<close>, with the structural walk of \<open>limits.go\<close>). The
  functions work on the wire form of a protobuf message through the package \<open>protowire\<close>, whose answers are
  an argument; \<open>wire_ok\<close> states the documented behaviour the code relies on. Where an answer outside that
  behaviour would make the code loop for ever or slice out of range, the result is \<open>AdmStuck\<close>.
\<close>

section \<open>The wire format\<close>

record wire_lib =
  wl_tag :: "bytes \<Rightarrow> (nat \<times> nat \<times> nat) option"
  wl_field :: "nat \<Rightarrow> nat \<Rightarrow> bytes \<Rightarrow> nat option"
  wl_bytes :: "bytes \<Rightarrow> (bytes \<times> nat) option"
  wl_append_tag :: "bytes \<Rightarrow> nat \<Rightarrow> nat \<Rightarrow> bytes"
  wl_append_bytes :: "bytes \<Rightarrow> bytes \<Rightarrow> bytes"

datatype admission_error =
    AdmInvalidLimits
  | AdmUnsupportedEncoding
  | AdmCompressedTooLarge
  | AdmUncompressedTooLarge
  | AdmMalformed
  | AdmTooManyRecords
  | AdmTooManyNodes
  | AdmInvalidMapping
  | AdmMaterializationTooLarge
  | AdmWire
  | AdmStuck

definition bytes_type :: nat where "bytes_type = 2"

text \<open>The three readers, with their negative lengths as errors.\<close>

definition wire_tag :: "wire_lib \<Rightarrow> bytes \<Rightarrow> admission_error + nat \<times> nat \<times> nat" where
  "wire_tag w data =
     (case wl_tag w data of None \<Rightarrow> Inl AdmWire
      | Some (n, t, k) \<Rightarrow> if k = 0 \<or> length data < k then Inl AdmStuck else Inr (n, t, k))"

definition wire_field :: "wire_lib \<Rightarrow> nat \<Rightarrow> nat \<Rightarrow> bytes \<Rightarrow> admission_error + nat" where
  "wire_field w n t data =
     (case wl_field w n t data of None \<Rightarrow> Inl AdmWire
      | Some k \<Rightarrow> if length data < k then Inl AdmStuck else Inr k)"

definition wire_bytes :: "wire_lib \<Rightarrow> bytes \<Rightarrow> admission_error + bytes \<times> nat" where
  "wire_bytes w data =
     (case wl_bytes w data of None \<Rightarrow> Inl AdmWire
      | Some (v, k) \<Rightarrow> if length data < k then Inl AdmStuck else Inr (v, k))"

lemma bind_err_cong [fundef_cong]:
  "m = m' \<Longrightarrow> (\<And>x. m' = Inr x \<Longrightarrow> f x = f' x) \<Longrightarrow> bind_err m f = bind_err m' f'"
  by (simp add: bind_err_def split: sum.split)

lemma wire_tag_shorter:
  "wire_tag w data = Inr (n, t, k) \<Longrightarrow> length (drop l (drop k data)) < length data"
  by (auto simp: wire_tag_def split: option.splits if_splits)

section \<open>Walking a message\<close>

function for_each :: "wire_lib \<Rightarrow> bytes \<Rightarrow> nat \<Rightarrow> (bytes \<Rightarrow> 's \<Rightarrow> admission_error + 's) \<Rightarrow> 's \<Rightarrow> admission_error + 's" where
  "for_each w data field visit s =
     (if data = [] then Inr s
      else bind_err (wire_tag w data) (\<lambda>(n, t, k).
        (if n = field \<and> t = bytes_type
         then bind_err (wire_bytes w (drop k data)) (\<lambda>(message, l).
                bind_err (visit message s) (\<lambda>s. for_each w (drop l (drop k data)) field visit s))
         else bind_err (wire_field w n t (drop k data)) (\<lambda>l.
                for_each w (drop l (drop k data)) field visit s))))"
  by pat_completeness auto
termination
  by (relation "measure (\<lambda>(w, data, field, visit, s). length data)") (auto dest: wire_tag_shorter)

function walk_fields :: "wire_lib \<Rightarrow> bytes \<Rightarrow> (nat \<Rightarrow> nat \<Rightarrow> bytes \<Rightarrow> admission_error + bool) \<Rightarrow> admission_error + bool" where
  "walk_fields w data visit =
     (if data = [] then Inr False
      else bind_err (wire_tag w data) (\<lambda>(n, t, k).
        bind_err (wire_field w n t (drop k data)) (\<lambda>l.
        bind_err (if t = bytes_type then bind_err (wire_bytes w (drop k data)) (\<lambda>(v, _). Inr v) else Inr []) (\<lambda>v.
        bind_err (visit n t v) (\<lambda>exceeds.
          if exceeds then Inr True else walk_fields w (drop l (drop k data)) visit)))))"
  by pat_completeness auto
termination
  by (relation "measure (\<lambda>(w, data, visit). length data)") (auto dest: wire_tag_shorter)

function rewrite_messages ::
    "wire_lib \<Rightarrow> bytes \<Rightarrow> nat \<Rightarrow> (bytes \<Rightarrow> 's \<Rightarrow> admission_error + bytes option \<times> 's) \<Rightarrow> bytes \<Rightarrow> 's
       \<Rightarrow> admission_error + bytes \<times> 's" where
  "rewrite_messages w data field rewrite out s =
     (if data = [] then Inr (out, s)
      else bind_err (wire_tag w data) (\<lambda>(n, t, k).
        bind_err (wire_field w n t (drop k data)) (\<lambda>l.
          if n = field \<and> t = bytes_type
          then bind_err (wire_bytes w (drop k data)) (\<lambda>(message, _).
               bind_err (rewrite message s) (\<lambda>(replacement, s).
                 rewrite_messages w (drop l (drop k data)) field rewrite
                   (case replacement of None \<Rightarrow> out
                    | Some v \<Rightarrow> wl_append_bytes w (wl_append_tag w out n bytes_type) v) s))
          else rewrite_messages w (drop l (drop k data)) field rewrite (out @ take (k + l) data) s)))"
  by pat_completeness auto
termination
  by (relation "measure (\<lambda>(w, data, field, rewrite, out, s). length data)") (auto dest: wire_tag_shorter)

declare for_each.simps [simp del] walk_fields.simps [simp del] rewrite_messages.simps [simp del]

section \<open>Counting structure\<close>

definition budget_add :: "nat \<Rightarrow> nat \<Rightarrow> admission_error + nat" where
  "budget_add maximum used = (if maximum < used + 1 then Inl AdmTooManyNodes else Inr (used + 1))"

function count_any_value :: "wire_lib \<Rightarrow> nat \<Rightarrow> nat \<Rightarrow> nat \<Rightarrow> bytes \<Rightarrow> nat \<Rightarrow> admission_error + nat" where
  "count_any_value w nodes depth maximum data used =
     bind_err (budget_add nodes used) (\<lambda>used.
       (if maximum < depth then Inr used
        else
          bind_err (for_each w data 5 (\<lambda>array used.
              bind_err (budget_add nodes used) (\<lambda>used.
                for_each w array 1 (\<lambda>child used. count_any_value w nodes (Suc depth) maximum child used) used)) used)
            (\<lambda>used. for_each w data 6 (\<lambda>list used.
              bind_err (budget_add nodes used) (\<lambda>used.
                for_each w list 1 (\<lambda>key_value used.
                  bind_err (budget_add nodes used) (\<lambda>used.
                    for_each w key_value 2 (\<lambda>child used. count_any_value w nodes (Suc depth) maximum child used) used))
                  used)) used)))"
  by pat_completeness auto
termination
  by (relation "measure (\<lambda>(w, nodes, depth, maximum, data, used). Suc maximum - depth)") auto

declare count_any_value.simps [simp del]

definition count_attributes :: "wire_lib \<Rightarrow> nat \<Rightarrow> nat \<Rightarrow> bytes \<Rightarrow> nat \<Rightarrow> nat \<Rightarrow> admission_error + nat" where
  "count_attributes w nodes maximum data field used =
     for_each w data field (\<lambda>key_value used.
       bind_err (budget_add nodes used) (\<lambda>used.
         for_each w key_value 2 (\<lambda>v used. count_any_value w nodes 1 maximum v used) used)) used"

definition count_log_record :: "wire_lib \<Rightarrow> nat \<Rightarrow> nat \<Rightarrow> bytes \<Rightarrow> nat \<Rightarrow> admission_error + nat" where
  "count_log_record w nodes maximum data used =
     bind_err (for_each w data 5 (\<lambda>v used. count_any_value w nodes 1 maximum v used) used)
       (\<lambda>used. count_attributes w nodes maximum data 6 used)"

definition preflight_scope ::
    "wire_lib \<Rightarrow> nat \<Rightarrow> nat \<Rightarrow> nat \<Rightarrow> bytes \<Rightarrow> nat \<times> nat \<Rightarrow> admission_error + nat \<times> nat" where
  "preflight_scope w max_records nodes maximum scope_logs st =
     (case st of (records, used) \<Rightarrow>
        bind_err (budget_add nodes used) (\<lambda>used.
        bind_err (for_each w scope_logs 1 (\<lambda>scope used.
            bind_err (budget_add nodes used) (\<lambda>used. count_attributes w nodes maximum scope 3 used)) used) (\<lambda>used.
          for_each w scope_logs 2 (\<lambda>record (records, used).
            bind_err (budget_add nodes used) (\<lambda>used.
              (if max_records < records + 1 then Inl AdmTooManyRecords
               else bind_err (count_log_record w nodes maximum record used) (\<lambda>used. Inr (records + 1, used)))))
            (records, used))))"

definition preflight_resource ::
    "wire_lib \<Rightarrow> nat \<Rightarrow> nat \<Rightarrow> nat \<Rightarrow> bytes \<Rightarrow> nat \<times> nat \<Rightarrow> admission_error + nat \<times> nat" where
  "preflight_resource w max_records nodes maximum resource_logs st =
     (case st of (records, used) \<Rightarrow>
        bind_err (budget_add nodes used) (\<lambda>used.
        bind_err (for_each w resource_logs 1 (\<lambda>resource used.
            bind_err (budget_add nodes used) (\<lambda>used. count_attributes w nodes maximum resource 1 used)) used) (\<lambda>used.
          for_each w resource_logs 2 (preflight_scope w max_records nodes maximum) (records, used))))"

definition request_error :: "admission_error \<Rightarrow> admission_error" where
  "request_error e = (if e \<in> {AdmTooManyRecords, AdmTooManyNodes, AdmStuck} then e else AdmMalformed)"

definition preflight_structure :: "wire_lib \<Rightarrow> bytes \<Rightarrow> nat \<Rightarrow> nat \<Rightarrow> nat \<Rightarrow> admission_error option" where
  "preflight_structure w data max_records nodes maximum =
     (case for_each w data 1 (preflight_resource w max_records nodes maximum) (0, 0) of
        Inl e \<Rightarrow> Some (request_error e)
      | Inr _ \<Rightarrow> None)"

section \<open>Projected weight\<close>

definition default_max_structural_nodes :: nat where "default_max_structural_nodes = 32 * 10000"

definition weighted_message :: "bytes \<Rightarrow> nat \<Rightarrow> int" where
  "weighted_message data nodes = int (length data) * 4 + int nodes * 64"

definition resource_weight :: "wire_lib \<Rightarrow> nat \<Rightarrow> bytes \<Rightarrow> admission_error + int" where
  "resource_weight w maximum data =
     bind_err (count_attributes w default_max_structural_nodes maximum data 1 0)
       (\<lambda>used. Inr (weighted_message data (used + 1)))"

definition scope_weight :: "wire_lib \<Rightarrow> nat \<Rightarrow> bytes \<Rightarrow> admission_error + int" where
  "scope_weight w maximum data =
     bind_err (count_attributes w default_max_structural_nodes maximum data 3 0)
       (\<lambda>used. Inr (weighted_message data (used + 1)))"

definition record_weight :: "wire_lib \<Rightarrow> nat \<Rightarrow> bytes \<Rightarrow> admission_error + int" where
  "record_weight w maximum data =
     bind_err (count_log_record w default_max_structural_nodes maximum data 0)
       (\<lambda>used. Inr (weighted_message data (used + 1)))"

definition add_projected :: "int \<Rightarrow> int \<Rightarrow> int \<Rightarrow> admission_error + int" where
  "add_projected limit acc amount =
     (if amount < 0 \<or> limit - amount < acc then Inl AdmMaterializationTooLarge else Inr (acc + amount))"

definition add_projected_product :: "int \<Rightarrow> int \<Rightarrow> int \<Rightarrow> int \<Rightarrow> admission_error + int" where
  "add_projected_product limit acc amount count =
     (if amount < 0 \<or> count < 0 \<or> (0 < count \<and> (limit - acc) div count < amount)
      then Inl AdmMaterializationTooLarge
      else add_projected limit acc (amount * count))"

definition sum_weights :: "wire_lib \<Rightarrow> int \<Rightarrow> (bytes \<Rightarrow> admission_error + int) \<Rightarrow> bytes \<Rightarrow> nat \<Rightarrow> admission_error + int" where
  "sum_weights w limit weight data field =
     for_each w data field (\<lambda>message acc. bind_err (weight message) (\<lambda>x. add_projected limit acc x)) 0"

definition project_scope :: "wire_lib \<Rightarrow> nat \<Rightarrow> int \<Rightarrow> bytes \<Rightarrow> int \<times> int \<Rightarrow> admission_error + int \<times> int" where
  "project_scope w maximum limit scope_logs st =
     (case st of (projected, resource_records) \<Rightarrow>
        bind_err (sum_weights w limit (scope_weight w maximum) scope_logs 1) (\<lambda>weight.
        bind_err (for_each w scope_logs 2 (\<lambda>record (projected, scope_records, resource_records).
            bind_err (record_weight w maximum record) (\<lambda>x.
              bind_err (add_projected limit projected x) (\<lambda>projected.
                Inr (projected, scope_records + 1, resource_records + 1)))) (projected, 0, resource_records))
          (\<lambda>(projected, scope_records, resource_records).
            bind_err (add_projected_product limit projected weight scope_records) (\<lambda>projected.
              Inr (projected, resource_records)))))"

definition project_resource :: "wire_lib \<Rightarrow> nat \<Rightarrow> int \<Rightarrow> bytes \<Rightarrow> int \<Rightarrow> admission_error + int" where
  "project_resource w maximum limit resource_logs projected =
     bind_err (sum_weights w limit (resource_weight w maximum) resource_logs 1) (\<lambda>weight.
       bind_err (for_each w resource_logs 2 (project_scope w maximum limit) (projected, 0))
         (\<lambda>(projected, resource_records). add_projected_product limit projected weight resource_records))"

definition project_materialization :: "wire_lib \<Rightarrow> bytes \<Rightarrow> nat \<Rightarrow> int \<Rightarrow> admission_error + int" where
  "project_materialization w data maximum limit =
     (case for_each w data 1 (project_resource w maximum limit) 0 of
        Inl e \<Rightarrow> Inl (if e \<in> {AdmMaterializationTooLarge, AdmStuck} then e else AdmMalformed)
      | Inr projected \<Rightarrow> Inr projected)"

section \<open>Removing what is nested too deep\<close>

definition field_exceeds :: "wire_lib \<Rightarrow> bytes \<Rightarrow> nat \<Rightarrow> (bytes \<Rightarrow> admission_error + bool) \<Rightarrow> admission_error + bool" where
  "field_exceeds w data field check =
     walk_fields w data (\<lambda>n t v. if n \<noteq> field \<or> t \<noteq> bytes_type then Inr False else check v)"

function any_value_exceeds :: "wire_lib \<Rightarrow> bytes \<Rightarrow> nat \<Rightarrow> nat \<Rightarrow> admission_error + bool" where
  "any_value_exceeds w data depth maximum =
     (if maximum < depth then Inr True
      else walk_fields w data (\<lambda>n t v.
        (if t \<noteq> bytes_type then Inr False
         else if n = 5
         then field_exceeds w v 1 (\<lambda>child. any_value_exceeds w child (Suc depth) maximum)
         else if n = 6
         then field_exceeds w v 1 (\<lambda>key_value.
                field_exceeds w key_value 2 (\<lambda>child. any_value_exceeds w child (Suc depth) maximum))
         else Inr False)))"
  by pat_completeness auto
termination
  by (relation "measure (\<lambda>(w, data, depth, maximum). Suc maximum - depth)") auto

declare any_value_exceeds.simps [simp del]

definition attributes_exceed :: "wire_lib \<Rightarrow> bytes \<Rightarrow> nat \<Rightarrow> nat \<Rightarrow> admission_error + bool" where
  "attributes_exceed w data field maximum =
     field_exceeds w data field (\<lambda>key_value. field_exceeds w key_value 2 (\<lambda>v. any_value_exceeds w v 1 maximum))"

definition log_record_exceeds :: "wire_lib \<Rightarrow> bytes \<Rightarrow> nat \<Rightarrow> admission_error + bool" where
  "log_record_exceeds w data maximum =
     bind_err (field_exceeds w data 5 (\<lambda>body. any_value_exceeds w body 1 maximum))
       (\<lambda>bad. if bad then Inr True else attributes_exceed w data 6 maximum)"

text \<open>The index of the next record, the indexes rejected and the indexes accepted so far.\<close>

record sanitize_state =
  sn_index :: nat
  sn_rejected :: "nat list"
  sn_accepted :: "nat list"

definition sanitize_record ::
    "wire_lib \<Rightarrow> bool \<Rightarrow> nat \<Rightarrow> bytes \<Rightarrow> sanitize_state \<Rightarrow> admission_error + bytes option \<times> sanitize_state" where
  "sanitize_record w enclosing_bad maximum record s =
     bind_err (log_record_exceeds w record maximum) (\<lambda>bad.
       (if enclosing_bad \<or> bad
        then Inr (None, s\<lparr>sn_index := sn_index s + 1, sn_rejected := sn_rejected s @ [sn_index s]\<rparr>)
        else Inr (Some record, s\<lparr>sn_index := sn_index s + 1, sn_accepted := sn_accepted s @ [sn_index s]\<rparr>)))"

definition blank_if :: "bool \<Rightarrow> bytes \<Rightarrow> 's \<Rightarrow> admission_error + bytes option \<times> 's" where
  "blank_if bad message s = Inr (Some (if bad then [] else message), s)"

definition sanitize_scope ::
    "wire_lib \<Rightarrow> bool \<Rightarrow> nat \<Rightarrow> bytes \<Rightarrow> sanitize_state \<Rightarrow> admission_error + bytes option \<times> sanitize_state" where
  "sanitize_scope w resource_bad maximum scope_logs s =
     bind_err (field_exceeds w scope_logs 1 (\<lambda>scope. attributes_exceed w scope 3 maximum)) (\<lambda>scope_bad.
     bind_err (rewrite_messages w scope_logs 1 (blank_if scope_bad) [] s) (\<lambda>(with_scope, s).
     bind_err (rewrite_messages w with_scope 2 (sanitize_record w (resource_bad \<or> scope_bad) maximum) [] s)
       (\<lambda>(out, s). Inr (Some out, s))))"

definition sanitize_resource ::
    "wire_lib \<Rightarrow> nat \<Rightarrow> bytes \<Rightarrow> sanitize_state \<Rightarrow> admission_error + bytes option \<times> sanitize_state" where
  "sanitize_resource w maximum resource_logs s =
     bind_err (field_exceeds w resource_logs 1 (\<lambda>resource. attributes_exceed w resource 1 maximum)) (\<lambda>resource_bad.
     bind_err (rewrite_messages w resource_logs 1 (blank_if resource_bad) [] s) (\<lambda>(with_resource, s).
     bind_err (rewrite_messages w with_resource 2 (sanitize_scope w resource_bad maximum) [] s)
       (\<lambda>(out, s). Inr (Some out, s))))"

definition sanitize_nesting :: "wire_lib \<Rightarrow> bytes \<Rightarrow> nat \<Rightarrow> admission_error + bytes \<times> nat list \<times> nat list" where
  "sanitize_nesting w data maximum =
     bind_err (rewrite_messages w data 1 (sanitize_resource w maximum) []
                 \<lparr>sn_index = 0, sn_rejected = [], sn_accepted = []\<rparr>)
       (\<lambda>(out, s). Inr (out, sn_rejected s, sn_accepted s))"

end
