(* ===== verification/AdmissionNesting.thy ===== *)
theory AdmissionNesting
  imports AdmissionWire
begin

text \<open>
  What removing over-nested records does. A message is read as a list of pieces, its fields with their raw
  bytes and, for a length-delimited field, its content; walking and rewriting a message are functions of
  that list. Under the documented behaviour of \<open>protowire\<close> the removal keeps every other record in place,
  accounts for every index once, and has nothing left to do on its own result.
\<close>

section \<open>The documented behaviour of the wire package\<close>



section \<open>Pieces\<close>








section \<open>The loops on pieces\<close>








section \<open>Removing what is nested too deep a second time\<close>

definition accept_more :: "nat \<Rightarrow> sanitize_state \<Rightarrow> sanitize_state" where
  "accept_more c s = s\<lparr>sn_index := sn_index s + c, sn_accepted := sn_accepted s @ [sn_index s..<sn_index s + c]\<rparr>"


lemma accept_more_0 [simp]: "accept_more 0 s = s"
  by (simp add: accept_more_def)













lemma attributes_exceed_Nil [simp]: "attributes_exceed w [] field maximum = Inr False"
  by (simp add: attributes_exceed_def field_exceeds_def walk_fields.simps)




end
