(* ===== verification/AdmissionLimits.thy ===== *)
theory AdmissionLimits
  imports AdmissionNesting
begin

text \<open>
  Request limits and decoding (\<open>internal/admission/limits.go\<close>). The gzip reader of the standard library and
  the generated protobuf decoder are arguments: \<open>dl_gzip source n\<close> reads at most \<open>n\<close> bytes of the member at the
  front of \<open>source\<close> to its verified end and gives the content and what follows the member. A request is the
  tree the decoder returns, with the attributes of its resources and scopes; sizes are unbounded integers.
\<close>

section \<open>Limits\<close>

definition default_max_compressed_bytes :: int where "default_max_compressed_bytes = 4 * 2 ^ 20"
definition default_max_uncompressed_bytes :: int where "default_max_uncompressed_bytes = 16 * 2 ^ 20"
definition default_max_records :: int where "default_max_records = 10000"
definition default_max_nesting_depth :: int where "default_max_nesting_depth = 16"
definition default_max_normalized_bytes :: int where "default_max_normalized_bytes = 256 * 2 ^ 10"
definition default_max_materialized_bytes :: int where "default_max_materialized_bytes = 16 * 2 ^ 20"

record request_limits =
  lm_compressed_bytes :: int
  lm_uncompressed_bytes :: int
  lm_records :: int
  lm_nesting_depth :: int
  lm_normalized_bytes :: int
  lm_materialized_bytes :: int
  lm_structural_nodes :: int

definition default_if_zero :: "int \<Rightarrow> int \<Rightarrow> int" where
  "default_if_zero v d = (if v = 0 then d else v)"

definition limits_normalized :: "request_limits \<Rightarrow> admission_error + request_limits" where
  "limits_normalized l =
     (let l = \<lparr>lm_compressed_bytes = default_if_zero (lm_compressed_bytes l) default_max_compressed_bytes,
               lm_uncompressed_bytes = default_if_zero (lm_uncompressed_bytes l) default_max_uncompressed_bytes,
               lm_records = default_if_zero (lm_records l) default_max_records,
               lm_nesting_depth = default_if_zero (lm_nesting_depth l) default_max_nesting_depth,
               lm_normalized_bytes = default_if_zero (lm_normalized_bytes l) default_max_normalized_bytes,
               lm_materialized_bytes = default_if_zero (lm_materialized_bytes l) default_max_materialized_bytes,
               lm_structural_nodes = default_if_zero (lm_structural_nodes l) (int default_max_structural_nodes)\<rparr>
      in if lm_compressed_bytes l < 1 \<or> default_max_compressed_bytes < lm_compressed_bytes l
            \<or> lm_uncompressed_bytes l < 1 \<or> default_max_uncompressed_bytes < lm_uncompressed_bytes l
            \<or> lm_records l < 1 \<or> default_max_records < lm_records l
            \<or> lm_nesting_depth l < 1 \<or> default_max_nesting_depth < lm_nesting_depth l
            \<or> lm_normalized_bytes l < 1 \<or> default_max_normalized_bytes < lm_normalized_bytes l
            \<or> lm_materialized_bytes l < 1 \<or> default_max_materialized_bytes < lm_materialized_bytes l
            \<or> lm_structural_nodes l < 1 \<or> int default_max_structural_nodes < lm_structural_nodes l
         then Inl AdmInvalidLimits else Inr l)"

definition limits_validate :: "request_limits \<Rightarrow> admission_error option" where
  "limits_validate l = (case limits_normalized l of Inl e \<Rightarrow> Some e | Inr _ \<Rightarrow> None)"

section \<open>Expansion\<close>

datatype content_encoding = EncodingUnset | EncodingIdentity | EncodingGzip | EncodingOther bytes

type_synonym gzip_reader = "bytes \<Rightarrow> nat \<Rightarrow> (bytes \<times> bytes) option"

function expand_members :: "gzip_reader \<Rightarrow> nat \<Rightarrow> bytes \<Rightarrow> bytes \<Rightarrow> admission_error + bytes" where
  "expand_members gz maximum source decoded =
     (if source = [] then Inr decoded
      else if length source < 2 then Inl AdmMalformed
      else if source ! 0 \<noteq> CHR 0x1F \<or> source ! 1 \<noteq> CHR 0x8B then Inl AdmMalformed
      else
        (case gz source (maximum - length decoded + 1) of
           None \<Rightarrow> Inl AdmMalformed
         | Some (part, rest) \<Rightarrow>
             (if maximum < length (decoded @ part) then Inl AdmUncompressedTooLarge
              else if length source \<le> length rest then Inl AdmStuck
              else expand_members gz maximum rest (decoded @ part))))"
  by pat_completeness auto
termination
  by (relation "measure (\<lambda>(gz, maximum, source, decoded). length source)") auto

declare expand_members.simps [simp del]

definition expand_gzip :: "gzip_reader \<Rightarrow> nat \<Rightarrow> bytes \<Rightarrow> admission_error + bytes" where
  "expand_gzip gz maximum payload =
     bind_err (expand_members gz maximum payload []) (\<lambda>decoded.
       if payload = [] then Inl AdmMalformed else Inr decoded)"

definition expand :: "gzip_reader \<Rightarrow> bytes \<Rightarrow> content_encoding \<Rightarrow> nat \<Rightarrow> admission_error + bytes" where
  "expand gz payload encoding maximum =
     (let encoding = (if encoding = EncodingUnset then EncodingIdentity else encoding)
      in if encoding = EncodingGzip then expand_gzip gz maximum payload
         else if encoding \<noteq> EncodingIdentity then Inl AdmUnsupportedEncoding
         else (let decoded = take (maximum + 1) payload
               in if maximum < length decoded then Inl AdmUncompressedTooLarge else Inr decoded))"

section \<open>Decoding\<close>

record ('a, 'r) scope_logs =
  sl_attributes :: "'a list"
  sl_records :: "'r list"

record ('a, 'r) resource_logs =
  rl_attributes :: "'a list"
  rl_scopes :: "('a, 'r) scope_logs list"

type_synonym ('a, 'r) export_request = "('a, 'r) resource_logs list"

record ('a, 'r) record_view =
  rv_record :: 'r
  rv_resource_attributes :: "'a list"
  rv_scope_attributes :: "'a list"

definition flatten_request :: "('a, 'r) export_request \<Rightarrow> ('a, 'r) record_view list" where
  "flatten_request request =
     concat (map (\<lambda>resource. concat (map (\<lambda>scope.
       map (\<lambda>record. \<lparr>rv_record = record, rv_resource_attributes = rl_attributes resource,
                       rv_scope_attributes = sl_attributes scope\<rparr>) (sl_records scope)) (rl_scopes resource))) request)"

record ('a, 'r) decode_lib =
  dl_wire :: wire_lib
  dl_gzip :: gzip_reader
  dl_unmarshal :: "bytes \<Rightarrow> ('a, 'r) export_request option"

record ('a, 'r) decode_result =
  dr_request :: "('a, 'r) export_request"
  dr_accepted_indexes :: "nat list"
  dr_rejected :: "nat list"
  dr_projected_bytes :: int

fun valid_mapping_from :: "int \<Rightarrow> nat list \<Rightarrow> bool" where
  "valid_mapping_from previous [] = True"
| "valid_mapping_from previous (i # is) =
     (if int i \<le> previous then False else valid_mapping_from (int i) is)"

definition validate_record_mapping :: "nat \<Rightarrow> nat list \<Rightarrow> admission_error option" where
  "validate_record_mapping count accepted =
     (if length accepted \<noteq> count then Some AdmInvalidMapping
      else if \<not> valid_mapping_from (- 1) accepted then Some AdmInvalidMapping else None)"

definition malformed :: "admission_error \<Rightarrow> admission_error" where
  "malformed e = (if e = AdmStuck then e else AdmMalformed)"

definition unmarshal_sanitized ::
    "('a, 'r) decode_lib \<Rightarrow> request_limits \<Rightarrow> int \<Rightarrow> bytes \<Rightarrow> nat list \<Rightarrow> nat list
       \<Rightarrow> admission_error + ('a, 'r) decode_result" where
  "unmarshal_sanitized lib limits projected sanitized rejected accepted =
     (case dl_unmarshal lib sanitized of
        None \<Rightarrow> Inl AdmMalformed
      | Some request \<Rightarrow>
          (let count = length (flatten_request request)
           in if lm_records limits < int count then Inl AdmTooManyRecords
              else if validate_record_mapping count accepted \<noteq> None then Inl AdmMalformed
              else Inr \<lparr>dr_request = request, dr_accepted_indexes = accepted, dr_rejected = rejected,
                        dr_projected_bytes = projected\<rparr>))"

definition decode_expanded ::
    "('a, 'r) decode_lib \<Rightarrow> request_limits \<Rightarrow> bytes \<Rightarrow> admission_error + ('a, 'r) decode_result" where
  "decode_expanded lib limits decoded =
     (case preflight_structure (dl_wire lib) decoded (nat (lm_records limits)) (nat (lm_structural_nodes limits))
             (nat (lm_nesting_depth limits)) of
        Some e \<Rightarrow> Inl e
      | None \<Rightarrow>
          bind_err (project_materialization (dl_wire lib) decoded (nat (lm_nesting_depth limits))
                      (lm_materialized_bytes limits)) (\<lambda>projected.
            (case sanitize_nesting (dl_wire lib) decoded (nat (lm_nesting_depth limits)) of
               Inl e \<Rightarrow> Inl (malformed e)
             | Inr (sanitized, rejected, accepted) \<Rightarrow>
                 unmarshal_sanitized lib limits projected sanitized rejected accepted)))"

definition decode_request ::
    "('a, 'r) decode_lib \<Rightarrow> bytes \<Rightarrow> content_encoding \<Rightarrow> request_limits
       \<Rightarrow> admission_error + ('a, 'r) decode_result" where
  "decode_request lib payload encoding configured =
     bind_err (limits_normalized configured) (\<lambda>limits.
       if encoding = EncodingGzip \<and> lm_compressed_bytes limits < int (length payload)
       then Inl AdmCompressedTooLarge
       else bind_err (expand (dl_gzip lib) payload encoding (nat (lm_uncompressed_bytes limits)))
              (decode_expanded lib limits))"

definition limit_normalized :: "bytes list \<Rightarrow> nat list \<Rightarrow> request_limits \<Rightarrow> admission_error + nat list" where
  "limit_normalized encoded accepted configured =
     bind_err (limits_normalized configured) (\<lambda>limits.
       (case validate_record_mapping (length encoded) accepted of
          Some e \<Rightarrow> Inl e
        | None \<Rightarrow> Inr (map snd (filter (\<lambda>(e, i). lm_normalized_bytes limits < int (length e)) (zip encoded accepted)))))"

section \<open>The loops keep an invariant\<close>

lemma for_each_inv:
  assumes "\<And>m s s'. P s \<Longrightarrow> visit m s = Inr s' \<Longrightarrow> P s'"
  shows "for_each w data field visit s = Inr s' \<Longrightarrow> P s \<Longrightarrow> P s'"
proof (induction "length data" arbitrary: data s rule: less_induct)
  case less
  show ?case
  proof (cases "data = []")
    case True
    with less.prems show ?thesis
      by (simp add: for_each.simps)
  next
    case False
    then obtain n t k where t: "wire_tag w data = Inr (n, t, k)"
      using less.prems(1) by (cases "wire_tag w data") (auto simp: for_each.simps [of w data])
    obtain l s1 where "for_each w (drop l (drop k data)) field visit s1 = Inr s'" "P s1"
      using less.prems False t assms
      by (auto simp: for_each.simps [of w data] simp del: drop_drop split: if_splits prod.splits)
    with less.hyps [OF wire_tag_shorter [OF t]] show ?thesis
      by blast
  qed
qed

lemma rewrite_messages_inv:
  assumes "\<And>m s v s'. P s \<Longrightarrow> rewrite m s = Inr (v, s') \<Longrightarrow> P s'"
  shows "rewrite_messages w data field rewrite out s = Inr (out', s') \<Longrightarrow> P s \<Longrightarrow> P s'"
proof (induction "length data" arbitrary: data out s rule: less_induct)
  case less
  show ?case
  proof (cases "data = []")
    case True
    with less.prems show ?thesis
      by (simp add: rewrite_messages.simps)
  next
    case False
    then obtain n t k where t: "wire_tag w data = Inr (n, t, k)"
      using less.prems(1) by (cases "wire_tag w data") (auto simp: rewrite_messages.simps [of w data])
    obtain l out1 s1 where "rewrite_messages w (drop l (drop k data)) field rewrite out1 s1 = Inr (out', s')" "P s1"
      using less.prems False t assms
      by (auto simp: rewrite_messages.simps [of w data] simp del: drop_drop split: if_splits prod.splits)
    with less.hyps [OF wire_tag_shorter [OF t]] show ?thesis
      by blast
  qed
qed

end
