(* ===== verification/AdmissionSafety.thy ===== *)
theory AdmissionSafety
  imports AdmissionLimits Binary
begin

text \<open>
  Guarantees of decoding: it returns, a decoded request respects every limit, and each record of the original
  request is reported exactly once, as accepted or as rejected.
\<close>

section \<open>Accounting\<close>





section \<open>Weights stay within the limit\<close>


lemma add_projected_product_exact:
  assumes "0 \<le> x" and "x \<le> limit"
  shows "add_projected_product limit x amount count =
    (if amount < 0 \<or> count < 0 \<or> limit < x + amount * count then Inl AdmMaterializationTooLarge
     else Inr (x + amount * count))"
proof (cases "amount < 0 \<or> count \<le> 0")
  case True
  with assms show ?thesis
    by (auto simp: add_projected_product_def add_projected_def)
next
  case False
  then have c: "0 < count" "0 \<le> amount"
    by simp_all
  have "(limit - x) div count < amount \<longleftrightarrow> limit - x < amount * count"
  proof
    assume "(limit - x) div count < amount"
    then have "\<not> amount * count div count \<le> (limit - x) div count"
      using c by simp
    then have "\<not> amount * count \<le> limit - x"
      using zdiv_mono1 [OF _ c(1)] by blast
    then show "limit - x < amount * count"
      by simp
  next
    assume "limit - x < amount * count"
    moreover have "(limit - x) div count * count \<le> limit - x"
      using c(1) by (simp add: minus_mod_eq_div_mult [symmetric])
    ultimately have "(limit - x) div count * count < amount * count"
      by linarith
    with c(1) show "(limit - x) div count < amount"
      by simp
  qed
  moreover obtain z where z: "amount * count = z"
    by simp
  moreover have "0 \<le> z"
    using c z by (metis mult_nonneg_nonneg less_imp_le)
  ultimately show ?thesis
    using c unfolding add_projected_product_def add_projected_def z by auto
qed


section \<open>A decoded request\<close>



section \<open>Decoding returns\<close>

definition returns :: "admission_error + 'a \<Rightarrow> bool" where
  "returns m \<longleftrightarrow> m \<noteq> Inl AdmStuck"


lemma returns_Inr [simp, intro]: "returns (Inr x)"
  by (simp add: returns_def)

lemma returns_Inl [simp]: "returns (Inl e) \<longleftrightarrow> e \<noteq> AdmStuck"
  by (simp add: returns_def)





lemma returns_budget [simp]: "returns (budget_add nodes used)"
  by (simp add: budget_add_def)




lemma returns_projected [simp]:
  "returns (add_projected limit x amount)" "returns (add_projected_product limit x amount count)"
  by (simp_all add: add_projected_def add_projected_product_def)








end
