(* ===== verification/AdmissionSample.thy ===== *)
theory AdmissionSample
  imports AdmissionSafety "HOL-Library.Code_Target_Nat"
begin

text \<open>
  A concrete wire format, varint tags and lengths, on which the hypotheses about \<open>protowire\<close> hold, and a
  request with three records of which the second is nested too deep. Nothing here models the program.
\<close>

declare bind_err_def [code_unfold]

text \<open>Equations by the shape of the message, so that evaluation unfolds a loop only on known bytes.\<close>

lemma for_each_code [code]:
  "for_each w [] field visit s = Inr s"
  "for_each w (c # cs) field visit s =
     bind_err (wire_tag w (c # cs)) (\<lambda>(n, t, k).
        (if n = field \<and> t = bytes_type
         then bind_err (wire_bytes w (drop k (c # cs))) (\<lambda>(message, l).
                bind_err (visit message s) (\<lambda>s. for_each w (drop l (drop k (c # cs))) field visit s))
         else bind_err (wire_field w n t (drop k (c # cs))) (\<lambda>l.
                for_each w (drop l (drop k (c # cs))) field visit s)))"
  by (simp_all add: for_each.simps [of w "[]"] for_each.simps [of w "c # cs"])

lemma walk_fields_code [code]:
  "walk_fields w [] visit = Inr False"
  "walk_fields w (c # cs) visit =
     bind_err (wire_tag w (c # cs)) (\<lambda>(n, t, k).
        bind_err (wire_field w n t (drop k (c # cs))) (\<lambda>l.
        bind_err (if t = bytes_type then bind_err (wire_bytes w (drop k (c # cs))) (\<lambda>(v, _). Inr v) else Inr []) (\<lambda>v.
        bind_err (visit n t v) (\<lambda>exceeds.
          if exceeds then Inr True else walk_fields w (drop l (drop k (c # cs))) visit))))"
  by (simp_all add: walk_fields.simps [of w "[]"] walk_fields.simps [of w "c # cs"])

lemma rewrite_messages_code [code]:
  "rewrite_messages w [] field rewrite out s = Inr (out, s)"
  "rewrite_messages w (c # cs) field rewrite out s =
     bind_err (wire_tag w (c # cs)) (\<lambda>(n, t, k).
        bind_err (wire_field w n t (drop k (c # cs))) (\<lambda>l.
          if n = field \<and> t = bytes_type
          then bind_err (wire_bytes w (drop k (c # cs))) (\<lambda>(message, _).
               bind_err (rewrite message s) (\<lambda>(replacement, s).
                 rewrite_messages w (drop l (drop k (c # cs))) field rewrite
                   (case replacement of None \<Rightarrow> out
                    | Some v \<Rightarrow> wl_append_bytes w (wl_append_tag w out n bytes_type) v) s))
          else rewrite_messages w (drop l (drop k (c # cs))) field rewrite (out @ take (k + l) (c # cs)) s))"
  by (simp_all add: rewrite_messages.simps [of w "[]"] rewrite_messages.simps [of w "c # cs"])

lemma any_value_exceeds_code [code]:
  "any_value_exceeds w [] depth maximum = Inr (maximum < depth)"
  "any_value_exceeds w (c # cs) depth maximum =
     (if maximum < depth then Inr True
      else walk_fields w (c # cs) (\<lambda>n t v.
        (if t \<noteq> bytes_type then Inr False
         else if n = 5
         then field_exceeds w v 1 (\<lambda>child. any_value_exceeds w child (Suc depth) maximum)
         else if n = 6
         then field_exceeds w v 1 (\<lambda>key_value.
                field_exceeds w key_value 2 (\<lambda>child. any_value_exceeds w child (Suc depth) maximum))
         else Inr False)))"
  by (simp_all add: any_value_exceeds.simps [of w "[]"] any_value_exceeds.simps [of w "c # cs"] walk_fields.simps [of w "[]"])

lemma count_any_value_code [code]:
  "count_any_value w nodes depth maximum [] used = budget_add nodes used"
  "count_any_value w nodes depth maximum (c # cs) used =
     bind_err (budget_add nodes used) (\<lambda>used.
       (if maximum < depth then Inr used
        else
          bind_err (for_each w (c # cs) 5 (\<lambda>array used.
              bind_err (budget_add nodes used) (\<lambda>used.
                for_each w array 1 (\<lambda>child used. count_any_value w nodes (Suc depth) maximum child used) used)) used)
            (\<lambda>used. for_each w (c # cs) 6 (\<lambda>list used.
              bind_err (budget_add nodes used) (\<lambda>used.
                for_each w list 1 (\<lambda>key_value used.
                  bind_err (budget_add nodes used) (\<lambda>used.
                    for_each w key_value 2 (\<lambda>child used. count_any_value w nodes (Suc depth) maximum child used) used))
                  used)) used)))"
  by (simp_all add: count_any_value.simps [of w nodes depth maximum "[]"] for_each.simps [of w "[]"] bind_err_def
      count_any_value.simps [of w nodes depth maximum "c # cs"] split: sum.splits)

section \<open>Varints\<close>




section \<open>The wire format\<close>





section \<open>A request\<close>












section \<open>Witnesses\<close>




end
