(* ===== verification/JournalLifecycle.thy ===== *)
theory JournalLifecycle
  imports JournalReach
begin

text \<open>
  What the journal does to one record. The abstract machine \<open>record_step\<close> has a record admitted, claimed,
  renewed, given back when its claim expires, committed, quarantined and compacted; \<open>stored_at\<close> reads its
  state off the directory. Every operation of the journal, successful or not, moves every record along
  this machine only, and each operation only by its own steps (\<open>moves\<close>).
\<close>

section \<open>The abstract machine\<close>

definition claimed_by :: "journal \<Rightarrow> bytes \<Rightarrow> gtime \<Rightarrow> bytes \<Rightarrow> stored_record \<Rightarrow> stored_record" where
  "claimed_by j owner expiry i r =
     r\<lparr>sr_state := StateClaimed, sr_attempt := sr_attempt r + 1, sr_claim_owner := owner,
       sr_claim_expiry := expiry,
       sr_claim_token := claim_token (j_hash j) (cfg_owner (j_cfg j)) owner i (sr_attempt r + 1) expiry\<rparr>"

definition given_back :: "stored_record \<Rightarrow> stored_record" where
  "given_back r = r\<lparr>sr_state := StatePending, sr_claim_owner := [], sr_claim_token := [],
                    sr_claim_expiry := zero_time\<rparr>"

definition renewed_until :: "journal \<Rightarrow> gtime \<Rightarrow> bytes \<Rightarrow> stored_record \<Rightarrow> stored_record" where
  "renewed_until j expiry i r =
     r\<lparr>sr_claim_expiry := expiry,
       sr_claim_token := claim_token (j_hash j) (cfg_owner (j_cfg j)) (sr_claim_owner r) i
                           (sr_attempt r) expiry\<rparr>"

definition committed_since :: "gtime \<Rightarrow> stored_record \<Rightarrow> stored_record" where
  "committed_since now r =
     r\<lparr>sr_state := StateCommitted, sr_committed_at := now, sr_claim_owner := [],
       sr_claim_expiry := zero_time\<rparr>"

datatype record_act = Admitted | Claimed | Expired | Renewed | Committed | Isolated | Compacted

text \<open>One step of record \<open>i\<close>, at the time \<open>now\<close> the operation reads.\<close>

inductive record_step ::
    "journal \<Rightarrow> bytes \<Rightarrow> gtime \<Rightarrow> record_act \<Rightarrow> stored_record option \<Rightarrow> stored_record option \<Rightarrow> bool"
  for j i now where
  step_admitted: "sr_state r = StatePending \<Longrightarrow> sr_attempt r = 0 \<Longrightarrow> stored_ok r \<Longrightarrow>
    record_step j i now Admitted None (Some r)"
| step_claimed: "sr_state r = StatePending \<Longrightarrow> sr_attempt r \<noteq> - 1 \<Longrightarrow>
    valid_identifier owner max_owner_bytes \<Longrightarrow> valid_journal_time expiry \<Longrightarrow>
    record_step j i now Claimed (Some r) (Some (claimed_by j owner expiry i r))"
| step_expired: "sr_state r = StateClaimed \<Longrightarrow> \<not> before now (sr_claim_expiry r) \<Longrightarrow>
    record_step j i now Expired (Some r) (Some (given_back r))"
| step_renewed: "sr_state r = StateClaimed \<Longrightarrow> before now (sr_claim_expiry r) \<Longrightarrow> valid_journal_time expiry \<Longrightarrow>
    record_step j i now Renewed (Some r) (Some (renewed_until j expiry i r))"
| step_committed: "sr_state r = StateClaimed \<Longrightarrow> before now (sr_claim_expiry r) \<Longrightarrow> valid_journal_time now \<Longrightarrow>
    record_step j i now Committed (Some r) (Some (committed_since now r))"
| step_isolated: "sr_state r = StateClaimed \<Longrightarrow> before now (sr_claim_expiry r) \<Longrightarrow>
    record_step j i now Isolated (Some r) None"
| step_compacted: "sr_state r = StateCommitted \<Longrightarrow>
    safe_add (sr_committed_at r) (cfg_safety_delay (j_cfg j)) = Some deadline \<Longrightarrow> after now deadline \<Longrightarrow>
    record_step j i now Compacted (Some r) None"

inductive_cases record_step_from: "record_step j i now act (Some r) x"
inductive_cases record_step_new: "record_step j i now act None x"
inductive_simps record_step_act:
  "record_step j i now Admitted x y" "record_step j i now Claimed x y" "record_step j i now Expired x y"
  "record_step j i now Renewed x y" "record_step j i now Committed x y" "record_step j i now Isolated x y"
  "record_step j i now Compacted x y"

definition stored_at :: "journal \<Rightarrow> bytes \<Rightarrow> stored_record option" where
  "stored_at j i =
     (case kv_get (j_db j) (record_key i) of None \<Rightarrow> None | Some v \<Rightarrow> decode_stored (j_hash j) v)"

lemma load_record_stored_at: "load_record env j i = Some ro \<Longrightarrow> stored_at j i = ro"
  by (auto simp: load_record_def stored_at_def db_get_def split: option.splits if_splits)

section \<open>Decoded records are well formed\<close>

lemma read_uvarint_at_less:
  "read_uvarint_at i x bs = Some (n, rest) \<Longrightarrow> i \<le> 9 \<Longrightarrow> x < 2 ^ (7 * i) \<Longrightarrow> n < 2 ^ 64"
proof (induction i x bs rule: read_uvarint_at.induct)
  case (2 i x c cs)
  show ?case
  proof (cases "ord_byte c < 128")
    case True
    show ?thesis
    proof (cases "i = 9")
      case True
      with 2 \<open>ord_byte c < 128\<close> show ?thesis
        by (auto split: if_splits)
    next
      case False
      then have "i \<le> 8" using 2 by simp
      have "n = x + ord_byte c * 2 ^ (7 * i)"
        using 2 \<open>ord_byte c < 128\<close> False by (auto split: if_splits)
      also have "\<dots> < 2 ^ (7 * i) + 127 * 2 ^ (7 * i)"
        using 2 \<open>ord_byte c < 128\<close> by (intro add_less_le_mono mult_right_mono) auto
      also have "\<dots> = 2 ^ (7 * i + 7)"
        by (simp add: power_add)
      also have "\<dots> \<le> 2 ^ 63"
        using \<open>i \<le> 8\<close> by (intro power_increasing) auto
      finally show ?thesis
        by simp
    qed
  next
    case False
    then have r: "read_uvarint_at (Suc i) (x + (ord_byte c - 128) * 2 ^ (7 * i)) cs = Some (n, rest)"
      using 2 by (auto split: if_splits)
    show ?thesis
    proof (cases "i = 9")
      case True
      with r show ?thesis
        by (cases cs) auto
    next
      case False
      have "ord_byte c - 128 \<le> 127"
        using ord_byte_less [of c] by linarith
      then have "x + (ord_byte c - 128) * 2 ^ (7 * i) < 2 ^ (7 * i) + 127 * 2 ^ (7 * i)"
        using 2 by (intro add_less_le_mono mult_right_mono) auto
      also have "\<dots> = 2 ^ (7 * Suc i)"
        by (simp add: power_add)
      finally show ?thesis
        using 2(1) r \<open>\<not> ord_byte c < 128\<close> 2(3) False by auto
    qed
  qed
qed simp

lemma read_component_length: "read_component bs = Some (s, rest) \<Longrightarrow> length s < 2 ^ 64"
  by (auto simp: read_component_def read_uvarint_def dest!: read_uvarint_at_less split: option.splits if_splits)

lemma decode_stored_ok: "decode_stored H data = Some r \<Longrightarrow> stored_ok r"
proof -
  assume "decode_stored H data = Some r"
  then obtain p where p: "decode_stored_payload p = Some r"
    by (auto simp: decode_stored_def split: option.splits)
  have "length (sr_envelope r) < 2 ^ 64"
    using p unfolding decode_stored_payload_def
    by (auto simp: take_bytes_read_component Let_def split: option.splits if_splits prod.splits
        dest: read_component_length)
  with decode_stored_payload_ok [OF p] show ?thesis
    by (simp add: stored_ok_def)
qed

lemma stored_at_ok: "stored_at j i = Some r \<Longrightarrow> stored_ok r"
  by (auto simp: stored_at_def dest: decode_stored_ok split: option.splits)

lemma valid_claim_token_hex:
  assumes "length x = 64" and "list_all is_lower_hex x"
  shows "valid_claim_token (''claim:'' @ x)"
proof -
  have "take 6 (''claim:'' @ x) = ''claim:''" and "drop 6 (''claim:'' @ x) = x"
    by simp_all
  with assms show ?thesis
    unfolding valid_claim_token_def claim_token_bytes_def by (simp only: length_append)
qed

lemma valid_claim_token_claim_token: "digest H \<Longrightarrow> valid_claim_token (claim_token H o' w i a e)"
  unfolding claim_token_def
  by (rule valid_claim_token_hex [OF _ fmt_hex_lower_hex]) (simp add: digest.length_digest)

lemma zero_time_facts [simp]: "t_utc zero_time" "is_zero zero_time"
  by (simp_all add: zero_time_def is_zero_def)

lemma valid_journal_time_utc: "valid_journal_time t \<Longrightarrow> t_utc t"
  by (simp add: valid_journal_time_def)

lemma record_step_ok:
  assumes "record_step j i now act x (Some r')" and "\<And>r. x = Some r \<Longrightarrow> stored_ok r" and "digest (j_hash j)"
  shows "stored_ok r'"
  using assms(1)
proof cases
  case step_admitted
  then show ?thesis by simp
next
  case (step_claimed r owner expiry)
  moreover have "sr_attempt r + 1 \<noteq> 0"
    using step_claimed by (simp add: eq_neg_iff_add_eq_0)
  moreover have "stored_ok r"
    using assms(2) step_claimed by simp
  ultimately show ?thesis
    by (simp add: stored_ok_def stored_fields_ok_def claimed_by_def valid_claim_token_claim_token assms(3)
        valid_journal_time_utc)
next
  case (step_expired r)
  moreover have "stored_ok r"
    using assms(2) step_expired by simp
  ultimately show ?thesis
    by (simp add: stored_ok_def stored_fields_ok_def given_back_def)
next
  case (step_renewed r expiry)
  moreover have "stored_ok r"
    using assms(2) step_renewed by simp
  ultimately show ?thesis
    by (simp add: stored_ok_def stored_fields_ok_def renewed_until_def valid_claim_token_claim_token assms(3)
        valid_journal_time_utc)
next
  case (step_committed r)
  moreover have "stored_ok r"
    using assms(2) step_committed by simp
  ultimately show ?thesis
    by (simp add: stored_ok_def stored_fields_ok_def committed_since_def valid_journal_time_utc)
qed


section \<open>Moves of a mutation and of an operation\<close>

text \<open>\<open>acts i\<close> names the steps the operation may make record \<open>i\<close> take.\<close>

definition moved_by ::
    "(bytes \<Rightarrow> record_act set) \<Rightarrow> journal \<Rightarrow> gtime \<Rightarrow> bytes \<Rightarrow> stored_record option \<Rightarrow> stored_record option \<Rightarrow> bool" where
  "moved_by acts j now i x y \<longleftrightarrow> (\<exists>act\<in>acts i. record_step j i now act x y)"

definition m_moves :: "(bytes \<Rightarrow> record_act set) \<Rightarrow> journal \<Rightarrow> gtime \<Rightarrow> mutation \<Rightarrow> bool" where
  "m_moves acts j now m \<longleftrightarrow>
     (\<forall>i ov. kv_get (m_ops m) (record_key i) = Some ov \<longrightarrow>
        moved_by acts j now i (stored_at j i) (case ov of None \<Rightarrow> None | Some v \<Rightarrow> decode_stored (j_hash j) v))"

definition moves :: "(bytes \<Rightarrow> record_act set) \<Rightarrow> gtime \<Rightarrow> journal \<Rightarrow> journal \<Rightarrow> bool" where
  "moves acts now j j' \<longleftrightarrow>
     (\<forall>i. stored_at j' i = stored_at j i \<or> moved_by acts j now i (stored_at j i) (stored_at j' i))"

lemma uvarint_append_inject: "uvarint m @ x = uvarint n @ y \<Longrightarrow> m = n"
proof (induction m arbitrary: n rule: uvarint.induct)
  case (1 m)
  show ?case
  proof (cases "m < 128 \<or> n < 128")
    case True
    with 1(2) show ?thesis
      by (auto simp: uvarint.simps [of m] uvarint.simps [of n] byte_eq_iff split: if_splits)
  next
    case False
    with 1(2) have "m mod 128 = n mod 128" "uvarint (m div 128) @ x = uvarint (n div 128) @ y"
      by (auto simp: uvarint.simps [of m] uvarint.simps [of n] byte_eq_iff)
    with 1(1) False have "m mod 128 = n mod 128" "m div 128 = n div 128"
      by auto
    then show ?thesis
      by (metis div_mult_mod_eq)
  qed
qed

lemma field_bytes_inject [simp]: "field_bytes a = field_bytes b \<longleftrightarrow> a = b"
proof
  assume e: "field_bytes a = field_bytes b"
  then have "length a = length b"
    unfolding field_bytes_def by (rule uvarint_append_inject)
  with e show "a = b"
    by (simp add: field_bytes_def)
qed simp

lemma record_key_inject [simp]: "record_key i = record_key i' \<longleftrightarrow> i = i'"
  by (simp add: key_simps)

lemma not_record_key [simp]:
  "pending_key p t i \<noteq> record_key i'" "claim_key t i \<noteq> record_key i'" "committed_key t i \<noteq> record_key i'"
  "batch_key b \<noteq> record_key i'" "batch_ref_key i b \<noteq> record_key i'" "batch_original_ref_key i b \<noteq> record_key i'"
  "quarantine_key i \<noteq> record_key i'" "transition_reserve_key i \<noteq> record_key i'"
  "key_format \<noteq> record_key i'" "key_usage \<noteq> record_key i'" "key_priority \<noteq> record_key i'"
  by (simp_all add: key_simps byte_eq_iff)

text \<open>Keys outside the record name space.\<close>

definition other_key :: "bytes \<Rightarrow> bool" where
  "other_key k \<longleftrightarrow> (\<forall>i. k \<noteq> record_key i)"

lemma other_keys [simp]:
  "other_key (pending_key p t i)" "other_key (claim_key t i)" "other_key (committed_key t i)"
  "other_key (batch_key b)" "other_key (batch_ref_key i b)" "other_key (batch_original_ref_key i b)"
  "other_key (quarantine_key i)" "other_key (transition_reserve_key i)" "other_key key_format"
  by (simp_all add: other_key_def)

lemma parsed_other_key [dest]:
  "parse_timed_key k ns_claim = Some x \<Longrightarrow> other_key k"
  "parse_timed_key k ns_committed = Some x \<Longrightarrow> other_key k"
  "parse_pending_key k = Some x' \<Longrightarrow> other_key k"
  by (auto simp: parse_timed_key_def parse_pending_key_def other_key_def key_simps ns_defs byte_eq_iff split: if_splits)

lemma m_moves_new [simp]: "m_moves acts j now new_mutation"
  by (simp add: m_moves_def new_mutation_def)

lemma m_moves_other [simp]:
  "m_moves acts j now m \<Longrightarrow> other_key k \<Longrightarrow> m_moves acts j now (m_set k v m)"
  "m_moves acts j now m \<Longrightarrow> other_key k \<Longrightarrow> m_moves acts j now (m_del k m)"
  by (auto simp: m_moves_def m_set_def m_del_def other_key_def kv_get_put split: if_splits)

lemma m_moves_priority [simp]: "m_moves acts j now (add_priority p d m) = m_moves acts j now m"
  by (simp add: m_moves_def add_priority_def)

lemma m_moves_put:
  assumes "m_moves acts j now m" and "record_step j i now act (stored_at j i) (Some r)" and "act \<in> acts i"
    and "digest (j_hash j)"
  shows "m_moves acts j now (m_set (record_key i) (encode_stored (j_hash j) r) m)"
proof -
  have "stored_ok r"
    using assms(2) stored_at_ok assms(4) by (rule record_step_ok)
  then have "decode_stored (j_hash j) (encode_stored (j_hash j) r) = Some r"
    by (rule digest.decode_encode_stored [OF assms(4)])
  with assms show ?thesis
    by (auto simp: m_moves_def m_set_def kv_get_put moved_by_def)
qed

lemma m_moves_drop:
  assumes "m_moves acts j now m" and "record_step j i now act (stored_at j i) None" and "act \<in> acts i"
  shows "m_moves acts j now (m_del (record_key i) m)"
  using assms by (auto simp: m_moves_def m_del_def kv_get_put moved_by_def)

lemma stored_at_unhealthy [simp]: "stored_at (j\<lparr>j_healthy := b\<rparr>) i = stored_at j i"
  by (simp add: stored_at_def split: option.split)

lemma stored_at_counters [simp]:
  "stored_at (j\<lparr>j_db := d, j_usage := u, j_priorities := ps\<rparr>) i = stored_at (j\<lparr>j_db := d\<rparr>) i"
  "stored_at (j\<lparr>j_db := d, j_healthy := b\<rparr>) i = stored_at (j\<lparr>j_db := d\<rparr>) i"
  by (simp_all add: stored_at_def split: option.split)

lemma stored_at_committed:
  assumes "m_wf m"
  shows "stored_at (j\<lparr>j_db := committed_db j m used ps\<rparr>) i =
    (case kv_get (m_ops m) (record_key i) of
       None \<Rightarrow> stored_at j i
     | Some ov \<Rightarrow> (case ov of None \<Rightarrow> None | Some v \<Rightarrow> decode_stored (j_hash j) v))"
  using assms
  by (simp add: stored_at_def committed_db_get not_record_key [THEN not_sym] m_view_def kv_get_apply_wf m_wf_def
      split: option.splits)

lemma moves_committed:
  assumes "m_moves acts j now m" and "m_wf m" and "\<And>i. stored_at j' i = stored_at (j\<lparr>j_db := committed_db j m used ps\<rparr>) i"
  shows "moves acts now j j'"
proof -
  have "stored_at j' i = stored_at j i \<or> moved_by acts j now i (stored_at j i) (stored_at j' i)" for i
    using assms(1) by (cases "kv_get (m_ops m) (record_key i)")
      (auto simp: assms(3) stored_at_committed [OF assms(2)] m_moves_def)
  then show ?thesis
    by (simp add: moves_def)
qed

lemma moves_refl [simp]: "moves acts now j j" "moves acts now j (j\<lparr>j_healthy := False\<rparr>)"
  by (simp_all add: moves_def)

lemma moves_fail: "fail_with j e = (r, j') \<Longrightarrow> moves acts now j j'"
  by (auto simp: fail_with_def)

lemma moves_prepared:
  assumes "commit_prepared env n j capacity p = (r, j')"
    and "\<And>m a. p = Inr (m, a) \<Longrightarrow> m_moves acts j now m \<and> m_wf m"
  shows "moves acts now j j'"
proof (cases p)
  case (Inl e)
  with assms(1) show ?thesis
    by (auto simp: commit_prepared_def intro: moves_fail)
next
  case (Inr q)
  then obtain m a where q: "p = Inr (m, a)"
    by (cases q) simp
  obtain c j1 where c: "commit_mutation env n j m capacity = (c, j1)"
    by fastforce
  have m: "m_moves acts j now m" "m_wf m"
    using assms(2) [OF q] by simp_all
  have "moves acts now j j1"
    using c by (cases rule: commit_mutation_cases) (auto intro: moves_committed [OF m])
  with assms(1) q c show ?thesis
    by (cases c) (auto simp: commit_prepared_def)
qed

lemma moves_usable:
  "when_usable env j body = (r, j') \<Longrightarrow> (body = (r, j') \<Longrightarrow> moves acts now j j') \<Longrightarrow> moves acts now j j'"
  by (cases "usable env j") (auto simp: when_usable_def intro: moves_fail)

section \<open>Each transition of the code is a step of the machine\<close>

lemma m_moves_expire:
  assumes "m_moves acts j now m" and "Expired \<in> acts i" and "digest (j_hash j)" and "stored_at j i = Some r"
    and "sr_state r = StateClaimed" and "\<not> before now (sr_claim_expiry r)"
  shows "m_moves acts j now (m_set (record_key i) (encode_stored (j_hash j)
    (r\<lparr>sr_state := StatePending, sr_claim_owner := [], sr_claim_token := [], sr_claim_expiry := zero_time\<rparr>)) m)"
  using assms step_expired [of r now j i]
  by (intro m_moves_put [OF assms(1) _ assms(2,3)]) (simp add: given_back_def)

lemma m_moves_claim:
  assumes "m_moves acts j now m" and "Claimed \<in> acts i" and "digest (j_hash j)" and "stored_at j i = Some r"
    and "sr_state r = StatePending" and "sr_attempt r \<noteq> - 1" and "valid_identifier owner max_owner_bytes"
    and "valid_journal_time expiry"
  shows "m_moves acts j now (m_set (record_key i) (encode_stored (j_hash j)
    (r\<lparr>sr_state := StateClaimed, sr_attempt := sr_attempt r + 1, sr_claim_owner := owner, sr_claim_expiry := expiry,
       sr_claim_token := claim_token (j_hash j) (cfg_owner (j_cfg j)) owner i (sr_attempt r + 1) expiry\<rparr>)) m)"
  using assms step_claimed [of r owner expiry j i now]
  by (intro m_moves_put [OF assms(1) _ assms(2,3)]) (simp add: claimed_by_def)

lemma m_moves_renew:
  assumes "m_moves acts j now m" and "Renewed \<in> acts i" and "digest (j_hash j)" and "stored_at j i = Some r"
    and "sr_state r = StateClaimed" and "before now (sr_claim_expiry r)" and "valid_journal_time expiry"
  shows "m_moves acts j now (m_set (record_key i) (encode_stored (j_hash j)
    (r\<lparr>sr_claim_expiry := expiry,
       sr_claim_token := claim_token (j_hash j) (cfg_owner (j_cfg j)) (sr_claim_owner r) i (sr_attempt r) expiry\<rparr>)) m)"
  using assms step_renewed [of r now expiry j i]
  by (intro m_moves_put [OF assms(1) _ assms(2,3)]) (simp add: renewed_until_def)

lemma m_moves_commit:
  assumes "m_moves acts j now m" and "Committed \<in> acts i" and "digest (j_hash j)" and "stored_at j i = Some r"
    and "sr_state r = StateClaimed" and "before now (sr_claim_expiry r)" and "valid_journal_time now"
  shows "m_moves acts j now (m_set (record_key i) (encode_stored (j_hash j)
    (r\<lparr>sr_state := StateCommitted, sr_committed_at := now, sr_claim_owner := [], sr_claim_expiry := zero_time\<rparr>)) m)"
  using assms step_committed [of r now j i]
  by (intro m_moves_put [OF assms(1) _ assms(2,3)]) (simp add: committed_since_def)

lemma m_moves_admit:
  assumes "m_moves acts j now m" and "Admitted \<in> acts i" and "digest (j_hash j)" and "stored_at j i = None"
    and "sr_state r = StatePending" and "sr_attempt r = 0" and "stored_ok r"
  shows "m_moves acts j now (m_set (record_key i) (encode_stored (j_hash j) r) m)"
  using assms step_admitted [of r j i now] by (intro m_moves_put [OF assms(1) _ assms(2,3)]) simp

section \<open>The loops\<close>

lemma expire_loop_moves:
  "expire_loop env j now limit fault es m n = Inr (m', n') \<Longrightarrow> m_moves acts j now m \<Longrightarrow> digest (j_hash j) \<Longrightarrow>
   (\<And>i. Expired \<in> acts i) \<Longrightarrow> m_moves acts j now m'"
proof (induction es arbitrary: m n)
  case (Cons e es)
  obtain k v where e: "e = (k, v)"
    by (cases e)
  show ?case
    using Cons.prems unfolding e
    by (auto simp: Let_def same_instant_def before_def split: option.splits if_splits prod.splits
        dest!: load_record_stored_at parsed_other_key simp: m_moves_expire elim!: Cons.IH)
qed (simp split: if_splits)

lemma claim_loop_moves:
  "claim_loop env j owner expiry limit fault es m cs = Inr (m', cs') \<Longrightarrow> m_moves acts j now m \<Longrightarrow>
   digest (j_hash j) \<Longrightarrow> (\<And>i. Claimed \<in> acts i) \<Longrightarrow> valid_identifier owner max_owner_bytes \<Longrightarrow>
   valid_journal_time expiry \<Longrightarrow> m_moves acts j now m'"
proof (induction es arbitrary: m cs)
  case (Cons e es)
  obtain k v where e: "e = (k, v)"
    by (cases e)
  show ?case
    using Cons.prems unfolding e
    by (auto simp: Let_def split: option.splits if_splits prod.splits
        dest!: load_record_stored_at parsed_other_key simp: m_moves_claim elim!: Cons.IH)
qed (simp split: if_splits)

lemma renew_loop_moves:
  "renew_loop env j now expiry cs seen m rs = Inr (m', rs') \<Longrightarrow> m_moves acts j now m \<Longrightarrow> digest (j_hash j) \<Longrightarrow>
   (\<And>c. c \<in> set cs \<Longrightarrow> Renewed \<in> acts (cc_record_id c)) \<Longrightarrow> valid_journal_time expiry \<Longrightarrow> m_moves acts j now m'"
proof (induction cs arbitrary: seen m rs)
  case (Cons c cs)
  have ih: "renew_loop env j now expiry cs seen m rs = Inr (m', rs') \<Longrightarrow> m_moves acts j now m \<Longrightarrow> m_moves acts j now m'"
    for seen m rs
    using Cons.IH Cons.prems by auto
  show ?case
    using Cons.prems
    by (auto simp: Let_def split: option.splits if_splits
        dest!: load_record_stored_at simp: m_moves_renew elim!: ih)
qed simp

lemma mark_loop_moves:
  "mark_loop env j now cs seen m = Inr m' \<Longrightarrow> m_moves acts j now m \<Longrightarrow> digest (j_hash j) \<Longrightarrow>
   (\<And>c. c \<in> set cs \<Longrightarrow> Committed \<in> acts (cc_record_id c)) \<Longrightarrow> valid_journal_time now \<Longrightarrow> m_moves acts j now m'"
proof (induction cs arbitrary: seen m)
  case (Cons c cs)
  have ih: "mark_loop env j now cs seen m = Inr m' \<Longrightarrow> m_moves acts j now m \<Longrightarrow> m_moves acts j now m'"
    for seen m
    using Cons.IH Cons.prems by auto
  show ?case
    using Cons.prems
    by (auto simp: Let_def split: option.splits if_splits
        dest!: load_record_stored_at simp: m_moves_commit elim!: ih)
qed simp

lemma del_original_refs_moves [simp]: "m_moves acts j now m \<Longrightarrow> m_moves acts j now (del_original_refs b ms m)"
  by (induction b ms m rule: del_original_refs.induct) simp_all

lemma set_original_refs_moves [simp]: "m_moves acts j now m \<Longrightarrow> m_moves acts j now (set_original_refs b xs m)"
  by (induction b xs m rule: set_original_refs.induct) simp_all

lemma remove_refs_loop_moves:
  "remove_refs_loop env j i refs m = Some m' \<Longrightarrow> m_moves acts j now m \<Longrightarrow> m_moves acts j now m'"
  by (induction env j i refs m rule: remove_refs_loop.induct) (auto simp: Let_def split: option.splits if_splits)

lemma remove_batch_refs_moves:
  "remove_batch_refs env j m i = Some m' \<Longrightarrow> m_moves acts j now m \<Longrightarrow> m_moves acts j now m'"
  by (auto simp: remove_batch_refs_def dest: remove_refs_loop_moves split: option.splits)

lemma m_moves_compact:
  assumes "m_moves acts j now m" and "Compacted \<in> acts i" and "stored_at j i = Some r"
    and "sr_state r = StateCommitted" and "safe_add at (cfg_safety_delay (j_cfg j)) = Some deadline"
    and "same_instant (sr_committed_at r) at" and "after now deadline"
  shows "m_moves acts j now (m_del (record_key i) m)"
proof (rule m_moves_drop [OF assms(1) _ assms(2)])
  have "t_utc (sr_committed_at r)" "t_utc at"
    using stored_at_ok [OF assms(3)] assms(5) by (auto simp: stored_ok_def safe_add_Some valid_journal_time_iff)
  with assms(6) have "sr_committed_at r = at"
    by (simp add: same_instant_def)
  with assms step_compacted [of r j deadline now i] show "record_step j i now Compacted (stored_at j i) None"
    by simp
qed

lemma compact_loop_moves:
  "compact_loop env j now limit fault es m n = Inr (m', n') \<Longrightarrow> m_moves acts j now m \<Longrightarrow>
   (\<And>i. Compacted \<in> acts i) \<Longrightarrow> m_moves acts j now m'"
proof (induction es arbitrary: m n)
  case (Cons e es)
  obtain k v where e: "e = (k, v)"
    by (cases e)
  show ?case
    using Cons.prems unfolding e
    by (auto simp: Let_def split: option.splits if_splits prod.splits
        dest!: load_record_stored_at parsed_other_key simp: m_moves_compact elim!: Cons.IH remove_batch_refs_moves)
qed (simp split: if_splits)

section \<open>AppendBatch\<close>

text \<open>
  Go's marshalled messages fit into memory, and a message with a region is not empty.
\<close>

definition lib_sized :: "lib \<Rightarrow> bool" where
  "lib_sized l \<longleftrightarrow> (\<forall>m data. lib_marshal l m = Some data \<longrightarrow>
     length data < 2 ^ 64 \<and> (dm_region m \<noteq> [] \<longrightarrow> data \<noteq> []))"

definition prepared_ok :: "prepared \<Rightarrow> bool" where
  "prepared_ok p \<longleftrightarrow> pr_priority p \<le> priority_low \<and> valid_journal_time (pr_received p)
     \<and> pr_encoded p \<noteq> [] \<and> length (pr_encoded p) < 2 ^ 64 \<and> length (pr_semantic p) = 32"

lemma encode_durable_sized:
  assumes "lib_sized l" and "encode_durable l r tenant classification = Some data"
  shows "data \<noteq> [] \<and> length data < 2 ^ 64"
proof -
  have v: "validate r = []"
    using assms(2) by (simp add: encode_durable_def split: if_splits)
  then have "nl_region r \<noteq> []"
    using validate_region [OF v] by simp
  with assms v show ?thesis
    by (auto simp: encode_durable_def lib_sized_def)
qed

lemma prepare_admission_ok:
  assumes "prepare_admission j b a = Inr p" and "lib_ok (j_lib j)" and "lib_sized (j_lib j)"
  shows "prepared_ok p"
  using assms
  by (auto simp: prepare_admission_def Let_def prepared_ok_def valid_record_times_def
      semantic_digest_length not_less
      dest: encode_durable_sized split: if_splits)

text \<open>The map of prepared records has exactly the identifiers of the admissions.\<close>

lemma length_kv_put_le: "length (kv_put k v db) \<le> Suc (length db)"
  by (induction k v db rule: kv_put.induct) auto

lemma prepare_admissions_map:
  assumes "prepare_admissions j b as u = Inr u'" and "kv_wf u"
  shows "kv_wf u' \<and> set (map fst u') = set (map fst u) \<union> (\<lambda>a. nl_record_id (adm_record a)) ` set as
    \<and> length u' \<le> length u + length as
    \<and> (\<forall>i p. kv_get u' i = Some p \<longrightarrow> kv_get u i = Some p
         \<or> (\<exists>a\<in>set as. nl_record_id (adm_record a) = i \<and> prepare_admission j b a = Inr p))"
  using assms
proof (induction as arbitrary: u)
  case (Cons a as)
  obtain p where p: "prepare_admission j b a = Inr p"
    using Cons.prems(1) by auto
  let ?i = "nl_record_id (adm_record a)"
  show ?case
  proof (cases "kv_get u ?i")
    case None
    with Cons.prems p have "prepare_admissions j b as (kv_put ?i p u) = Inr u'"
      by simp
    from Cons.IH [OF this] Cons.prems(2) p show ?thesis
      using length_kv_put_le [of ?i p u] by (auto simp: kv_wf_put set_kv_put kv_get_put split: if_splits)
  next
    case (Some prior)
    with Cons.prems p have "prepare_admissions j b as u = Inr u'"
      by (auto split: if_splits)
    moreover have "(?i, prior) \<in> set u"
      using Some Cons.prems(2) by (simp add: kv_entry_iff)
    then have "?i \<in> set (map fst u)"
      by force
    ultimately show ?thesis
      using Cons.IH [of u] Cons.prems(2) by (auto simp: insert_absorb)
  qed
qed simp

definition fresh_record :: "prepared \<Rightarrow> stored_record" where
  "fresh_record p =
     \<lparr>sr_state = StatePending, sr_priority = pr_priority p, sr_received = pr_received p,
      sr_claim_expiry = zero_time, sr_committed_at = zero_time, sr_attempt = 0, sr_claim_owner = [],
      sr_claim_token = [], sr_semantic = pr_semantic p, sr_envelope = pr_encoded p\<rparr>"

lemma append_one_cases [consumes 1, case_names known tombstone fresh]:
  assumes one: "append_one env j b i p m = Inr (m', live)"
  obtains r where "stored_at j i = Some r" and "sr_semantic r = pr_semantic p" and "live"
      and "m' = m_set (batch_ref_key i b) [] m"
  | v q where "stored_at j i = None" and "kv_get (j_db j) (quarantine_key i) = Some v"
      and "decode_quarantine (j_hash j) v = Some q" and "qm_legacy q \<or> qm_semantic q = pr_semantic p"
      and "\<not> live" and "m' = m \<or> (\<exists>v. m' = m_set (quarantine_key i) v m)"
  | "stored_at j i = None" and "kv_get (j_db j) (quarantine_key i) = None" and "live"
      and "m' = add_priority (pr_priority p) 1 (m_set (transition_reserve_key i) (reserve_value (j_hash j))
        (m_set (batch_ref_key i b) [] (m_set (pending_key (pr_priority p) (pr_received p) i) []
          (m_set (record_key i) (encode_stored (j_hash j) (fresh_record p)) m))))"
proof -
  obtain found where found: "load_record env j i = Some found"
    using one by (auto simp: append_one_def split: if_splits)
  note at = load_record_stored_at [OF found]
  show thesis
  proof (cases found)
    case (Some r)
    show thesis
      using one found by (intro that(1) [of r]) (auto simp: append_one_def Some at split: if_splits)
  next
    case None
    obtain q where q: "db_get env (j_db j) (quarantine_key i) = Some q"
      using one found None by (auto simp: append_one_def split: if_splits)
    then have got: "kv_get (j_db j) (quarantine_key i) = q"
      by (simp add: db_get_def split: if_splits)
    show thesis
    proof (cases q)
      case (Some v)
      obtain meta where meta: "decode_quarantine (j_hash j) v = Some meta"
        using one found None q Some by (auto simp: append_one_def split: if_splits)
      show thesis
        using one found None q Some meta
        by (intro that(2) [of v meta]) (auto simp: append_one_def at got split: if_splits)
    next
      case none: None
      show thesis
        using one found None q none
        by (intro that(3)) (auto simp: append_one_def at got Let_def fresh_record_def split: if_splits)
    qed
  qed
qed

lemma append_one_moves:
  assumes "append_one env j b i p m = Inr (m', live)" and m: "m_moves acts j now m" and p: "prepared_ok p"
    and d: "digest (j_hash j)" and a: "Admitted \<in> acts i"
  shows "m_moves acts j now m'"
  using assms(1)
proof (cases rule: append_one_cases)
  case fresh
  have "stored_ok (fresh_record p)"
    using p by (simp add: fresh_record_def stored_ok_def stored_fields_ok_def prepared_ok_def)
  then have "m_moves acts j now (m_set (record_key i) (encode_stored (j_hash j) (fresh_record p)) m)"
    using m a d fresh by (intro m_moves_admit) (simp_all add: fresh_record_def)
  with fresh show ?thesis
    by simp
qed (use m in auto)

lemma append_all_moves:
  "append_all env j b ps m live = Inr (m', live') \<Longrightarrow> m_moves acts j now m \<Longrightarrow>
   (\<And>i p. (i, p) \<in> set ps \<Longrightarrow> prepared_ok p \<and> Admitted \<in> acts i) \<Longrightarrow> digest (j_hash j) \<Longrightarrow> m_moves acts j now m'"
proof (induction ps arbitrary: m live)
  case (Cons e ps)
  obtain i p where e: "e = (i, p)"
    by (cases e)
  from Cons.prems(1) e obtain m1 l1 where one: "append_one env j b i p m = Inr (m1, l1)"
    and rest: "append_all env j b ps m1 (if l1 then live @ [i] else live) = Inr (m', live')"
    by auto
  have "m_moves acts j now m1"
    using append_one_moves [OF one Cons.prems(2)] Cons.prems(3,4) e by auto
  then show ?case
    using Cons.IH [OF rest] Cons.prems(3,4) by auto
qed simp

section \<open>The operations\<close>

text \<open>The identifiers an operation names, each with the one step it may take.\<close>

definition only :: "record_act \<Rightarrow> bytes set \<Rightarrow> bytes \<Rightarrow> record_act set" where
  "only act named i = (if i \<in> named then {act} else {})"

definition named_by :: "commit_claim list \<Rightarrow> bytes set" where
  "named_by cs = cc_record_id ` set cs"

definition admission_ids :: "admission list \<Rightarrow> bytes set" where
  "admission_ids as = (\<lambda>a. nl_record_id (adm_record a)) ` set as"

lemma append_batch_moves:
  assumes "append_batch env j b as = (r, j')" and "lib_ok (j_lib j)" and "lib_sized (j_lib j)"
  shows "moves (only Admitted (admission_ids as)) now j j'"
  using assms(1) unfolding append_batch_def
proof (rule moves_usable, elim moves_prepared)
  fix m a
  assume p: "append_prepare env j b as = Inr (m, a)"
  then obtain unique existing where u: "prepare_admissions j b as [] = Inr unique"
    and e: "db_get env (j_db j) (batch_key b) = Some existing"
    by (auto simp: append_prepare_def split: if_splits)
  have d: "digest (j_hash j)"
    using assms(2) by (rule lib_ok_digest)
  note keys = prepare_admissions_map [OF u kv_wf_Nil]
  have ok: "prepared_ok q \<and> Admitted \<in> only Admitted (admission_ids as) i" if "(i, q) \<in> set unique" for i q
  proof -
    have "kv_get unique i = Some q"
      using that keys by (simp add: kv_entry_iff)
    with keys have "\<exists>a\<in>set as. nl_record_id (adm_record a) = i \<and> prepare_admission j b a = Inr q"
      by simp
    then obtain a where "a \<in> set as" "nl_record_id (adm_record a) = i" "prepare_admission j b a = Inr q"
      by blast
    with assms prepare_admission_ok show ?thesis
      by (auto simp: only_def admission_ids_def)
  qed
  have "m_moves (only Admitted (admission_ids as)) j now m"
  proof (cases existing)
    case None
    then obtain m1 live where "append_all env j b unique new_mutation [] = Inr (m1, live)"
      and "m = m_set key_format (format_value (j_hash j))
        (if live \<noteq> [] then m_set (batch_key b) (encode_batch (j_hash j) (new_batch unique live))
           (set_original_refs b (map fst unique) m1) else m1)"
      using p u e by (auto simp: append_prepare_def Let_def split: if_splits)
    with append_all_moves [OF _ m_moves_new ok d] show ?thesis
      by auto
  next
    case (Some v)
    then show ?thesis
      using p u e by (auto simp: append_prepare_def Let_def split: if_splits)
  qed
  then show "m_moves (only Admitted (admission_ids as)) j now m \<and> m_wf m"
    using append_prepare_good [OF p] by auto
qed

lemma renew_claims_moves:
  assumes "renew_claims env j cs = (r, j')" and "digest (j_hash j)"
  shows "moves (only Renewed (named_by cs)) (env_clock env 0) j j'"
  using assms(1) unfolding renew_claims_def
  by (rule moves_usable, elim moves_prepared)
    (auto simp: renew_prepare_def Let_def only_def named_by_def assms(2) safe_add_valid split: if_splits option.splits
      elim!: renew_loop_moves dest: renew_loop_good)

lemma mark_committed_batch_moves:
  assumes "mark_committed_batch env j cs = (r, j')" and "digest (j_hash j)"
  shows "moves (only Committed (named_by cs)) (env_clock env 0) j j'"
  using assms(1) unfolding mark_committed_batch_def
  by (rule moves_usable, elim moves_prepared)
    (auto simp: mark_prepare_def Let_def only_def named_by_def assms(2) split: if_splits option.splits
      elim!: mark_loop_moves dest: mark_loop_good)

lemma quarantine_prepare_good: "quarantine_prepare env j i token reason = Inr (m, u) \<Longrightarrow> m_good j m"
  by (auto simp: quarantine_prepare_def Let_def dest!: remove_batch_refs_good split: if_splits option.splits)

lemma quarantine_prepare_cases:
  assumes p: "quarantine_prepare env j i token reason = Inr (m, u)"
  obtains stored m1 where "stored_at j i = Some stored" and "sr_state stored = StateClaimed"
    and "before (env_clock env 0) (sr_claim_expiry stored)" and "sr_claim_token stored = token"
    and "remove_batch_refs env j (add_priority (sr_priority stored) (- 1) (m_del (record_key i)
           (m_del (claim_key (sr_claim_expiry stored) i) new_mutation))) i = Some m1"
    and "m = m_set (quarantine_key i) (encode_quarantine (j_hash j) i reason (env_clock env 0) (sr_attempt stored)
           (sr_semantic stored) (sr_priority stored)) m1"
proof -
  obtain stored where load: "load_record env j i = Some (Some stored)"
    using p by (auto simp: quarantine_prepare_def Let_def split: if_splits option.splits)
  show thesis
    using p load load_record_stored_at [OF load]
    by (auto simp: quarantine_prepare_def Let_def split: if_splits intro: that)
qed

lemma quarantine_moves:
  assumes "quarantine env j i token reason = (r, j')"
  shows "moves (only Isolated {i}) (env_clock env 0) j j'"
  using assms unfolding quarantine_def
proof (elim moves_usable moves_prepared)
  fix m u
  assume p: "quarantine_prepare env j i token reason = Inr (m, u)"
  then obtain stored m1 where "stored_at j i = Some stored" and claimed: "sr_state stored = StateClaimed"
      "before (env_clock env 0) (sr_claim_expiry stored)"
    and m1: "remove_batch_refs env j (add_priority (sr_priority stored) (- 1) (m_del (record_key i)
           (m_del (claim_key (sr_claim_expiry stored) i) new_mutation))) i = Some m1"
    and m: "m = m_set (quarantine_key i) (encode_quarantine (j_hash j) i reason (env_clock env 0) (sr_attempt stored)
           (sr_semantic stored) (sr_priority stored)) m1"
    by (rule quarantine_prepare_cases)
  then have "m_moves (only Isolated {i}) j (env_clock env 0)
      (m_del (record_key i) (m_del (claim_key (sr_claim_expiry stored) i) new_mutation))"
    using step_isolated [OF claimed, of j i] by (intro m_moves_drop) (auto simp: only_def)
  then have "m_moves (only Isolated {i}) j (env_clock env 0) m1"
    by (intro remove_batch_refs_moves [OF m1]) simp
  then show "m_moves (only Isolated {i}) j (env_clock env 0) m \<and> m_wf m"
    using m quarantine_prepare_good [OF p] by auto
qed

lemma compact_prepare_good: "compact_prepare env j limit = Inr (m, n) \<Longrightarrow> m_good j m"
  by (auto simp: compact_prepare_def Let_def dest!: compact_loop_good split: if_splits option.splits prod.splits)

lemma journal_compact_moves:
  assumes "journal_compact env j limit = (r, j')"
  shows "moves (\<lambda>_. {Compacted}) (env_clock env 0) j j'"
  using assms unfolding journal_compact_def
proof (elim moves_usable moves_prepared)
  fix m n
  assume p: "compact_prepare env j limit = Inr (m, n)"
  then show "m_moves (\<lambda>_. {Compacted}) j (env_clock env 0) m \<and> m_wf m"
    using compact_prepare_good [OF p]
    by (auto simp: compact_prepare_def Let_def split: if_splits prod.splits elim: compact_loop_moves)
qed

lemma claim_moves:
  assumes "claim env j limit owner = (r, j')" and "digest (j_hash j)"
  obtains j1 where "moves (\<lambda>_. {Expired}) (env_clock env 0) j j1" and "j_cfg j1 = j_cfg j"
    and "moves (\<lambda>_. {Claimed}) (env_clock env 1) j1 j'"
proof -
  note c = assms(1) [unfolded claim_def]
  have exp: "moves (\<lambda>_. {Expired}) (env_clock env 0) j j1 \<and> j_cfg j1 = j_cfg j"
    if e: "commit_prepared env 0 j False (expire_claims env j max_transition_records) = (re, j1)" for re j1
  proof
    show "moves (\<lambda>_. {Expired}) (env_clock env 0) j j1"
      using e
    proof (rule moves_prepared)
      fix m n
      assume p: "expire_claims env j max_transition_records = Inr (m, n)"
      then show "m_moves (\<lambda>_. {Expired}) j (env_clock env 0) m \<and> m_wf m"
        using expire_claims_good [OF p]
        by (auto simp: expire_claims_def assms(2) Let_def split: if_splits prod.splits elim!: expire_loop_moves)
    qed
    show "j_cfg j1 = j_cfg j"
      using e by (auto simp: commit_prepared_def commit_mutation_def fail_with_def split: sum.splits prod.splits if_splits commit_outcome.splits)
  qed
  show thesis
  proof (cases "j' = j \<or> j' = j\<lparr>j_healthy := False\<rparr>")
    case True
    then show thesis
      by (intro that [of j]) auto
  next
    case False
    obtain re j1 where e: "commit_prepared env 0 j False (expire_claims env j max_transition_records) = (re, j1)"
      by fastforce
    from c False e have "j' = j1 \<or> (\<exists>limit. commit_prepared env 1 j1 False (claim_pending env j1 owner limit) = (r, j'))"
      and owner: "valid_identifier owner max_owner_bytes"
      by (auto simp: when_usable_def fail_with_def Let_def split: sum.splits if_splits)
    then consider "j' = j1" | limit where "commit_prepared env 1 j1 False (claim_pending env j1 owner limit) = (r, j')"
      by blast
    then show thesis
    proof cases
      case 1
      with exp [OF e] show thesis
        by (intro that [of j1]) auto
    next
      case 2
      have d: "digest (j_hash j1)"
        using exp [OF e] assms(2) by simp
      have "moves (\<lambda>_. {Claimed}) (env_clock env 1) j1 j'"
        using 2
      proof (rule moves_prepared)
        fix m cs
        assume p: "claim_pending env j1 owner limit = Inr (m, cs)"
        then show "m_moves (\<lambda>_. {Claimed}) j1 (env_clock env 1) m \<and> m_wf m"
          using claim_pending_good [OF p]
          by (auto simp: claim_pending_def d owner safe_add_valid split: option.splits prod.splits elim!: claim_loop_moves)
      qed
      with exp [OF e] show thesis
        by (intro that [of j1]) auto
    qed
  qed
qed

section \<open>Every operation\<close>

text \<open>
  At most one step, or the two of \<open>Claim\<close>: a claim that expired is given back and handed out again.
\<close>

definition lifecycle :: "journal \<Rightarrow> bytes \<Rightarrow> stored_record option \<Rightarrow> stored_record option \<Rightarrow> bool" where
  "lifecycle j i x y \<longleftrightarrow>
     x = y \<or> (\<exists>now act. record_step j i now act x y)
     \<or> (\<exists>now now' mid. record_step j i now Expired x mid \<and> record_step j i now' Claimed mid y)"

lemma record_step_cfg:
  assumes "record_step j i now act x y" and "j_cfg j' = j_cfg j"
  shows "record_step j' i now act x y"
  using assms(1)
proof cases
  case (step_claimed r owner expiry)
  then show ?thesis
    using record_step.step_claimed [of r owner expiry j' i now] by (simp add: claimed_by_def assms(2))
next
  case (step_renewed r expiry)
  then show ?thesis
    using record_step.step_renewed [of r now expiry j' i] by (simp add: renewed_until_def assms(2))
next
  case (step_compacted r deadline)
  then show ?thesis
    using record_step.step_compacted [of r j' deadline now i] by (simp add: assms(2))
qed (simp_all add: record_step_act)

lemma moves_lifecycle: "moves acts now j j' \<Longrightarrow> lifecycle j i (stored_at j i) (stored_at j' i)"
  unfolding moves_def moved_by_def lifecycle_def by metis

lemma claim_lifecycle:
  assumes "claim env j limit owner = (r, j')" and "digest (j_hash j)"
  shows "lifecycle j i (stored_at j i) (stored_at j' i)"
proof -
  obtain j1 where first: "moves (\<lambda>_. {Expired}) (env_clock env 0) j j1" and cfg: "j_cfg j1 = j_cfg j"
    and next_move: "moves (\<lambda>_. {Claimed}) (env_clock env 1) j1 j'"
    using assms by (rule claim_moves)
  have "stored_at j1 i = stored_at j i \<or> record_step j i (env_clock env 0) Expired (stored_at j i) (stored_at j1 i)"
    using first by (auto simp: moves_def moved_by_def)
  moreover have "stored_at j' i = stored_at j1 i
      \<or> record_step j i (env_clock env 1) Claimed (stored_at j1 i) (stored_at j' i)"
    using next_move record_step_cfg [OF _ cfg [symmetric]] by (auto simp: moves_def moved_by_def)
  ultimately show ?thesis
    unfolding lifecycle_def by metis
qed

lemma lifecycle_refl [simp]: "lifecycle j i x x"
  by (simp add: lifecycle_def)

lemma reading_keeps:
  "adopt_claims env j owner limit = (rc, j') \<Longrightarrow> stored_at j' i = stored_at j i"
  "journal_stats env j = (rs, j') \<Longrightarrow> stored_at j' i = stored_at j i"
  "recover_retained env j a limit = (rr, j') \<Longrightarrow> stored_at j' i = stored_at j i"
  "journal_capacity env j = (ro, j') \<Longrightarrow> stored_at j' i = stored_at j i"
  "journal_close f1 f2 j = (r, j') \<Longrightarrow> stored_at j' i = stored_at j i"
  by (auto simp: adopt_claims_def journal_stats_def recover_retained_def journal_capacity_def journal_close_def
      when_usable_def fail_with_def Let_def stored_at_def split: sum.splits if_splits option.splits prod.splits)

lemma journal_step_lifecycle:
  assumes "journal_step j j'" and "lib_ok (j_lib j)" and "lib_sized (j_lib j)"
  shows "lifecycle j i (stored_at j i) (stored_at j' i)"
  using assms(1)
proof cases
  case (step_append env b as r)
  then show ?thesis
    using append_batch_moves assms(2,3) moves_lifecycle by blast
next
  case (step_claim env limit owner rc)
  then show ?thesis
    using claim_lifecycle lib_ok_digest [OF assms(2)] by blast
next
  case (step_renew env cs rc)
  then show ?thesis
    using renew_claims_moves lib_ok_digest [OF assms(2)] moves_lifecycle by blast
next
  case (step_mark env cs r)
  then show ?thesis
    using mark_committed_batch_moves lib_ok_digest [OF assms(2)] moves_lifecycle by blast
next
  case (step_quarantine env i token reason r)
  then show ?thesis
    using quarantine_moves moves_lifecycle by blast
next
  case (step_compact env limit rn)
  then show ?thesis
    using journal_compact_moves moves_lifecycle by blast
qed (auto dest: reading_keeps [where i = i])

end
