(* ===== verification/JournalDurable.thy ===== *)
theory JournalDurable
  imports JournalLifecycle
begin

text \<open>
  What the journal never forgets. A record it admitted is stored or has a tombstone until it is compacted
  after its commit; tombstones are never removed; and the batch directory only lists records some
  admission brought in. An acknowledged batch is therefore accounted for at every later time.
\<close>

section \<open>What is kept\<close>

definition tombstone :: "journal \<Rightarrow> bytes \<Rightarrow> bool" where
  "tombstone j i \<longleftrightarrow> kv_get (j_db j) (quarantine_key i) \<noteq> None"

definition kept :: "journal \<Rightarrow> bytes \<Rightarrow> bool" where
  "kept j i \<longleftrightarrow> stored_at j i \<noteq> None \<or> tombstone j i"

definition committed_at :: "journal \<Rightarrow> bytes \<Rightarrow> bool" where
  "committed_at j i \<longleftrightarrow> (\<exists>r. stored_at j i = Some r \<and> sr_state r = StateCommitted)"

text \<open>The records the value \<open>v\<close> of a batch entry lists, and the records some batch lists.\<close>

definition lists_of :: "journal \<Rightarrow> bytes \<Rightarrow> bytes set" where
  "lists_of j v =
     (case decode_batch (j_hash j) v of None \<Rightarrow> {} | Some bt \<Rightarrow> set (batch_original_ids (sb_original bt)))"

definition listed :: "journal \<Rightarrow> bytes \<Rightarrow> bool" where
  "listed j i \<longleftrightarrow> (\<exists>b v. kv_get (j_db j) (batch_key b) = Some v \<and> i \<in> lists_of j v)"

lemma lists_of_decoded: "decode_batch (j_hash j) v = Some bt \<Longrightarrow> lists_of j v = set (batch_original_ids (sb_original bt))"
  by (simp add: lists_of_def)

lemma listedI: "kv_get (j_db j) (batch_key b) = Some v \<Longrightarrow> i \<in> lists_of j v \<Longrightarrow> listed j i"
  unfolding listed_def by blast

lemma lists_of_cfg: "j_cfg j' = j_cfg j \<Longrightarrow> lists_of j' v = lists_of j v"
  by (simp add: lists_of_def)

text \<open>The observations only read the directory and the digest.\<close>

lemma same_directory:
  assumes "j_db j' = j_db j" and "j_cfg j' = j_cfg j"
  shows "stored_at j' i = stored_at j i" and "tombstone j' i = tombstone j i" and "kept j' i = kept j i"
    and "committed_at j' i = committed_at j i" and "listed j' i = listed j i"
proof -
  have s: "stored_at j' i = stored_at j i" for i
    by (simp add: stored_at_def assms split: option.split)
  show "stored_at j' i = stored_at j i" and "tombstone j' i = tombstone j i" and "kept j' i = kept j i"
    and "committed_at j' i = committed_at j i" and "listed j' i = listed j i"
    by (simp_all add: s tombstone_def kept_def committed_at_def listed_def lists_of_cfg [OF assms(2)] assms)
qed

section \<open>Mutations that remove no tombstone and list no other record\<close>

text \<open>New tombstones only for the records of \<open>T\<close>, new batch entries only for those of \<open>S\<close>.\<close>

definition plain_key :: "bytes \<Rightarrow> bool" where
  "plain_key k \<longleftrightarrow> (\<forall>i. k \<noteq> quarantine_key i) \<and> (\<forall>b. k \<noteq> batch_key b)"

lemma plain_keys [simp]:
  "plain_key (pending_key p t i)" "plain_key (claim_key t i)" "plain_key (committed_key t i)"
  "plain_key (record_key i)" "plain_key (batch_ref_key i b)" "plain_key (batch_original_ref_key i b)"
  "plain_key (transition_reserve_key i)" "plain_key key_format"
  by (simp_all add: plain_key_def key_simps byte_eq_iff)

lemma parsed_plain_key [dest]:
  "parse_timed_key k ns_claim = Some x \<Longrightarrow> plain_key k"
  "parse_timed_key k ns_committed = Some x \<Longrightarrow> plain_key k"
  "parse_pending_key k = Some x' \<Longrightarrow> plain_key k"
  by (auto simp: parse_timed_key_def parse_pending_key_def plain_key_def key_simps ns_defs byte_eq_iff split: if_splits)

lemma namespaces_apart [simp]:
  "quarantine_key i \<noteq> batch_key b" "batch_key b \<noteq> quarantine_key i"
  "batch_key b = batch_key b' \<longleftrightarrow> b = b'" "quarantine_key i = quarantine_key i' \<longleftrightarrow> i = i'"
  "key_usage \<noteq> batch_key b" "key_priority \<noteq> batch_key b" "key_usage \<noteq> quarantine_key i"
  "key_priority \<noteq> quarantine_key i"
  "batch_key b \<noteq> key_usage" "batch_key b \<noteq> key_priority" "quarantine_key i \<noteq> key_usage"
  "quarantine_key i \<noteq> key_priority"
  by (simp_all add: key_simps byte_eq_iff)

text \<open>\<open>batch_lists S j b v\<close>: the batch \<open>v\<close> lists records of \<open>S\<close> and those batch \<open>b\<close> already listed.\<close>

definition batch_lists :: "bytes set \<Rightarrow> journal \<Rightarrow> bytes \<Rightarrow> bytes \<Rightarrow> bool" where
  "batch_lists S j b v \<longleftrightarrow>
     lists_of j v \<subseteq> S \<union> (case kv_get (j_db j) (batch_key b) of None \<Rightarrow> {} | Some v' \<Rightarrow> lists_of j v')"

definition m_keeps :: "bytes set \<Rightarrow> bytes set \<Rightarrow> journal \<Rightarrow> mutation \<Rightarrow> bool" where
  "m_keeps S T j m \<longleftrightarrow>
     (\<forall>i. kv_get (m_ops m) (quarantine_key i) \<noteq> Some None)
     \<and> (\<forall>i v. kv_get (m_ops m) (quarantine_key i) = Some (Some v) \<longrightarrow> tombstone j i \<or> i \<in> T)
     \<and> (\<forall>b v. kv_get (m_ops m) (batch_key b) = Some (Some v) \<longrightarrow> batch_lists S j b v)"

lemma m_keeps_new [simp]: "m_keeps S T j new_mutation"
  by (simp add: m_keeps_def new_mutation_def)

lemma m_keeps_priority [simp]: "m_keeps S T j (add_priority p d m) = m_keeps S T j m"
  by (simp add: m_keeps_def add_priority_def)

lemma m_keeps_plain [simp]:
  "m_keeps S T j m \<Longrightarrow> plain_key k \<Longrightarrow> m_keeps S T j (m_set k v m)"
  "m_keeps S T j m \<Longrightarrow> plain_key k \<Longrightarrow> m_keeps S T j (m_del k m)"
  "m_keeps S T j m \<Longrightarrow> m_keeps S T j (m_del (batch_key b) m)"
  "m_keeps S T j m \<Longrightarrow> tombstone j i \<or> i \<in> T \<Longrightarrow> m_keeps S T j (m_set (quarantine_key i) v m)"
  by (auto simp: m_keeps_def m_set_def m_del_def plain_key_def kv_get_put split: if_splits)

lemma m_keeps_batch:
  "m_keeps S T j m \<Longrightarrow> batch_lists S j b v \<Longrightarrow> m_keeps S T j (m_set (batch_key b) v m)"
  by (auto simp: m_keeps_def m_set_def kv_get_put split: if_splits)

section \<open>The loops\<close>

lemma del_original_refs_keeps [simp]: "m_keeps S T j m \<Longrightarrow> m_keeps S T j (del_original_refs b ms m)"
  by (induction b ms m rule: del_original_refs.induct) simp_all

lemma set_original_refs_keeps [simp]: "m_keeps S T j m \<Longrightarrow> m_keeps S T j (set_original_refs b xs m)"
  by (induction b xs m rule: set_original_refs.induct) simp_all

lemma m_get_batch_lists:
  assumes "m_get env j (batch_key b) m = Some (Some v)" and "m_keeps S T j m"
  shows "batch_lists S j b v"
proof (cases "kv_get (m_ops m) (batch_key b)")
  case None
  with assms(1) show ?thesis
    by (auto simp: m_get_def batch_lists_def db_get_def split: if_splits)
next
  case (Some ov)
  with assms show ?thesis
    by (simp add: m_get_def m_keeps_def)
qed

lemma batch_ok_live: "batch_ok bt \<Longrightarrow> batch_ok (bt\<lparr>sb_live := filter P (sb_live bt)\<rparr>)"
  by (auto simp: batch_ok_def sorted_wrt_filter)

lemma remove_refs_loop_keeps:
  assumes "digest (j_hash j)"
  shows "remove_refs_loop env j i refs m = Some m' \<Longrightarrow> m_keeps S T j m \<Longrightarrow> m_keeps S T j m'"
proof (induction refs arbitrary: m)
  case (Cons b refs)
  then obtain v bt where v: "m_get env j (batch_key b) m = Some (Some v)" and bt: "decode_batch (j_hash j) v = Some bt"
    by (auto split: option.splits)
  let ?next = "filter (\<lambda>x. x \<noteq> i) (sb_live bt)"
  have "batch_ok (bt\<lparr>sb_live := ?next\<rparr>)"
    using decode_batch_ok [OF bt] by (rule batch_ok_live)
  then have "decode_batch (j_hash j) (encode_batch (j_hash j) (bt\<lparr>sb_live := ?next\<rparr>)) = Some (bt\<lparr>sb_live := ?next\<rparr>)"
    by (rule digest.decode_encode_batch [OF assms])
  then have "batch_lists S j b (encode_batch (j_hash j) (bt\<lparr>sb_live := ?next\<rparr>))"
    using m_get_batch_lists [OF v Cons.prems(2)] bt by (simp add: batch_lists_def lists_of_decoded)
  moreover have "m_keeps S T j (m_del (batch_ref_key i b) m)"
    using Cons.prems(2) by simp
  ultimately show ?case
    using Cons v bt by (auto simp: Let_def m_keeps_batch split: if_splits)
qed simp

lemma remove_batch_refs_keeps:
  "digest (j_hash j) \<Longrightarrow> remove_batch_refs env j m i = Some m' \<Longrightarrow> m_keeps S T j m \<Longrightarrow> m_keeps S T j m'"
  by (auto simp: remove_batch_refs_def dest: remove_refs_loop_keeps split: option.splits)

lemma expire_loop_keeps:
  "expire_loop env j now limit fault es m n = Inr (m', n') \<Longrightarrow> m_keeps S T j m \<Longrightarrow> m_keeps S T j m'"
proof (induction es arbitrary: m n)
  case (Cons e es)
  then show ?case
    by (cases e) (auto simp: Let_def split: option.splits if_splits prod.splits dest!: parsed_plain_key elim!: Cons.IH)
qed (simp split: if_splits)

lemma claim_loop_keeps:
  "claim_loop env j owner expiry limit fault es m cs = Inr (m', cs') \<Longrightarrow> m_keeps S T j m \<Longrightarrow> m_keeps S T j m'"
proof (induction es arbitrary: m cs)
  case (Cons e es)
  then show ?case
    by (cases e) (auto simp: Let_def split: option.splits if_splits prod.splits dest!: parsed_plain_key elim!: Cons.IH)
qed (simp split: if_splits)

lemma renew_loop_keeps:
  "renew_loop env j now expiry cs seen m rs = Inr (m', rs') \<Longrightarrow> m_keeps S T j m \<Longrightarrow> m_keeps S T j m'"
  by (induction env j now expiry cs seen m rs rule: renew_loop.induct)
    (auto simp: Let_def split: option.splits if_splits)

lemma mark_loop_keeps: "mark_loop env j now cs seen m = Inr m' \<Longrightarrow> m_keeps S T j m \<Longrightarrow> m_keeps S T j m'"
  by (induction env j now cs seen m rule: mark_loop.induct)
    (auto simp: Let_def split: option.splits if_splits)

lemma compact_loop_keeps:
  assumes "digest (j_hash j)"
  shows "compact_loop env j now limit fault es m n = Inr (m', n') \<Longrightarrow> m_keeps S T j m \<Longrightarrow> m_keeps S T j m'"
proof (induction es arbitrary: m n)
  case (Cons e es)
  then show ?case
    by (cases e) (auto simp: Let_def split: option.splits if_splits prod.splits dest!: parsed_plain_key
        elim!: Cons.IH remove_batch_refs_keeps [OF assms])
qed (simp split: if_splits)

lemma append_all_keeps:
  "append_all env j b ps m live = Inr (m', live') \<Longrightarrow> m_keeps S T j m \<Longrightarrow> m_keeps S T j m'"
proof (induction ps arbitrary: m live)
  case (Cons e ps)
  obtain i p where e: "e = (i, p)"
    by (cases e)
  from Cons.prems(1) e obtain m1 l1 where one: "append_one env j b i p m = Inr (m1, l1)"
    and rest: "append_all env j b ps m1 (if l1 then live @ [i] else live) = Inr (m', live')"
    by auto
  have "m_keeps S T j m1"
    using one by (cases rule: append_one_cases) (use Cons.prems(2) in \<open>auto simp: tombstone_def\<close>)
  then show ?case
    using Cons.IH [OF rest] by simp
qed simp

section \<open>AppendBatch\<close>

lemma append_one_live:
  assumes "append_one env j b i p m = Inr (m', live)"
  shows "live \<longleftrightarrow> stored_at j i \<noteq> None \<or> \<not> tombstone j i"
  using assms by (cases rule: append_one_cases) (auto simp: tombstone_def)

lemma append_all_live:
  "append_all env j b ps m live = Inr (m', live') \<Longrightarrow>
   live' = live @ filter (\<lambda>i. stored_at j i \<noteq> None \<or> \<not> tombstone j i) (map fst ps)"
proof (induction ps arbitrary: m live)
  case (Cons e ps)
  obtain i p where e: "e = (i, p)"
    by (cases e)
  from Cons.prems e obtain m1 l1 where one: "append_one env j b i p m = Inr (m1, l1)"
    and rest: "append_all env j b ps m1 (if l1 then live @ [i] else live) = Inr (m', live')"
    by auto
  show ?case
    using Cons.IH [OF rest] append_one_live [OF one] e by auto
qed simp

text \<open>The mutation stores record \<open>i\<close>.\<close>

definition m_stores :: "journal \<Rightarrow> mutation \<Rightarrow> bytes \<Rightarrow> bool" where
  "m_stores j m i \<longleftrightarrow> (\<exists>v. kv_get (m_ops m) (record_key i) = Some (Some v) \<and> decode_stored (j_hash j) v \<noteq> None)"

lemma m_stores_other [simp]:
  "other_key k \<Longrightarrow> m_stores j (m_set k v m) i = m_stores j m i"
  "m_stores j (add_priority q d m) i = m_stores j m i"
  by (auto simp: m_stores_def m_set_def add_priority_def kv_get_put other_key_def)

lemma m_stores_set_original_refs [simp]: "m_stores j (set_original_refs b xs m) i = m_stores j m i"
  by (induction b xs m rule: set_original_refs.induct) simp_all

lemma fresh_record_ok: "prepared_ok p \<Longrightarrow> stored_ok (fresh_record p)"
  by (simp add: fresh_record_def stored_ok_def stored_fields_ok_def prepared_ok_def)

lemma m_stores_put:
  assumes "digest (j_hash j)" and "prepared_ok p"
  shows "m_stores j (m_set (record_key i) (encode_stored (j_hash j) (fresh_record p)) m) i' \<longleftrightarrow> i' = i \<or> m_stores j m i'"
  using digest.decode_encode_stored [OF assms(1) fresh_record_ok [OF assms(2)]]
  by (auto simp: m_stores_def m_set_def kv_get_put)

lemma append_one_stores:
  assumes "append_one env j b i p m = Inr (m', live)" and "digest (j_hash j)" and "prepared_ok p"
  shows "(m_stores j m i' \<longrightarrow> m_stores j m' i') \<and> (stored_at j i = None \<longrightarrow> \<not> tombstone j i \<longrightarrow> m_stores j m' i)"
  using assms(1) by (cases rule: append_one_cases) (auto simp: m_stores_put [OF assms(2,3)] tombstone_def)

lemma append_all_stores:
  assumes "digest (j_hash j)"
  shows "append_all env j b ps m live = Inr (m', live') \<Longrightarrow> (\<And>i p. (i, p) \<in> set ps \<Longrightarrow> prepared_ok p) \<Longrightarrow>
    (m_stores j m i \<longrightarrow> m_stores j m' i)
    \<and> (i \<in> set (map fst ps) \<longrightarrow> stored_at j i = None \<longrightarrow> \<not> tombstone j i \<longrightarrow> m_stores j m' i)"
proof (induction ps arbitrary: m live)
  case (Cons e ps)
  obtain i' p where e: "e = (i', p)"
    by (cases e)
  from Cons.prems(1) e obtain m1 l1 where one: "append_one env j b i' p m = Inr (m1, l1)"
    and rest: "append_all env j b ps m1 (if l1 then live @ [i'] else live) = Inr (m', live')"
    by auto
  have "prepared_ok p"
    using Cons.prems(2) e by auto
  note stores = append_one_stores [OF one assms this]
  show ?case
    using Cons.IH [OF rest] Cons.prems(2) stores [of i] e by auto
qed simp

lemma append_prepare_cases:
  assumes p: "append_prepare env j b as = Inr (m, u)"
  obtains unique v bt where "prepare_admissions j b as [] = Inr unique" and "kv_get (j_db j) (batch_key b) = Some v"
      and "decode_batch (j_hash j) v = Some bt" and "batch_original_ids (sb_original bt) = map fst unique"
      and "m = new_mutation"
  | unique m1 live where "prepare_admissions j b as [] = Inr unique" and "kv_get (j_db j) (batch_key b) = None"
      and "append_all env j b unique new_mutation [] = Inr (m1, live)" and "as \<noteq> []"
      and "length as \<le> max_append_records"
      and "m = m_set key_format (format_value (j_hash j))
        (if live \<noteq> [] then m_set (batch_key b) (encode_batch (j_hash j) (new_batch unique live))
           (set_original_refs b (map fst unique) m1) else m1)"
proof -
  obtain unique existing where u: "prepare_admissions j b as [] = Inr unique"
    and e: "db_get env (j_db j) (batch_key b) = Some existing" and as: "as \<noteq> []" "length as \<le> max_append_records"
    using p by (auto simp: append_prepare_def split: if_splits)
  have got: "kv_get (j_db j) (batch_key b) = existing"
    using e by (simp add: db_get_def split: if_splits)
  show thesis
  proof (cases existing)
    case None
    then obtain m1 live where "append_all env j b unique new_mutation [] = Inr (m1, live)"
      and "m = m_set key_format (format_value (j_hash j))
        (if live \<noteq> [] then m_set (batch_key b) (encode_batch (j_hash j) (new_batch unique live))
           (set_original_refs b (map fst unique) m1) else m1)"
      using p u e by (auto simp: append_prepare_def Let_def split: if_splits)
    then show thesis
      using u got None as by (intro that(2)) simp_all
  next
    case (Some v)
    then obtain bt where "decode_batch (j_hash j) v = Some bt"
      "batch_original_ids (sb_original bt) = map fst unique" "m = new_mutation"
      using p u e by (auto simp: append_prepare_def replay_batch_def Let_def split: if_splits)
    then show thesis
      using u got Some by (intro that(1)) simp_all
  qed
qed

lemma prepare_admission_id:
  assumes "prepare_admission j b a = Inr p"
  shows "valid_record_id (nl_record_id (adm_record a))"
proof -
  have "validate (adm_record a) = []"
    using assms by (auto simp: prepare_admission_def Let_def split: if_splits)
  from validate_record_id [OF this] show ?thesis
    by (simp add: valid_record_id_def)
qed

text \<open>What the map of a validated batch is good for.\<close>

lemma unique_facts:
  assumes "prepare_admissions j b as [] = Inr unique" and "lib_ok (j_lib j)" and "lib_sized (j_lib j)"
  shows "kv_wf unique \<and> set (map fst unique) = admission_ids as \<and> length unique \<le> length as
    \<and> (\<forall>i p. (i, p) \<in> set unique \<longrightarrow> prepared_ok p \<and> valid_record_id i)"
proof -
  note keys = prepare_admissions_map [OF assms(1) kv_wf_Nil]
  have "prepared_ok p \<and> valid_record_id i" if "(i, p) \<in> set unique" for i p
  proof -
    have "kv_get unique i = Some p"
      using that keys by (simp add: kv_entry_iff)
    with keys have "\<exists>a\<in>set as. nl_record_id (adm_record a) = i \<and> prepare_admission j b a = Inr p"
      by simp
    then obtain a where "nl_record_id (adm_record a) = i" "prepare_admission j b a = Inr p"
      by blast
    then show ?thesis
      using prepare_admission_ok [OF _ assms(2,3)] prepare_admission_id by blast
  qed
  with keys show ?thesis
    by (auto simp: admission_ids_def)
qed

lemma new_batch_ok:
  assumes "prepare_admissions j b as [] = Inr unique" and "lib_ok (j_lib j)" and "lib_sized (j_lib j)"
    and "as \<noteq> []" and "length as \<le> max_append_records"
  shows "batch_ok (new_batch unique (filter P (map fst unique)))"
proof -
  note f = unique_facts [OF assms(1-3)]
  have ids: "batch_original_ids (sb_original (new_batch unique live)) = map fst unique" for live
    by (simp add: new_batch_def batch_original_ids_def split_beta)
  have "unique \<noteq> []"
    using f assms(4) by (auto simp: admission_ids_def)
  moreover have "sorted_wrt (<) (map fst unique)"
    using f by (simp add: kv_wf_def)
  moreover have "list_all member_ok (sb_original (new_batch unique live))" for live
    using f by (auto simp: new_batch_def list_all_iff member_ok_def prepared_ok_def)
  ultimately show ?thesis
    using f assms(5) by (auto simp: batch_ok_def ids sorted_wrt_filter) (auto simp: new_batch_def sorted_wrt_filter)
qed

lemma append_prepare_keeps:
  assumes "append_prepare env j b as = Inr (m, u)" and l: "lib_ok (j_lib j)" and z: "lib_sized (j_lib j)"
  shows "m_keeps (admission_ids as) T j m"
  using assms(1)
proof (cases rule: append_prepare_cases)
  case (2 unique m1 live)
  have live: "live = filter (\<lambda>i. stored_at j i \<noteq> None \<or> \<not> tombstone j i) (map fst unique)"
    using append_all_live [OF 2(3)] by simp
  have d: "digest (j_hash j)"
    using l by (rule lib_ok_digest)
  have "decode_batch (j_hash j) (encode_batch (j_hash j) (new_batch unique live)) = Some (new_batch unique live)"
    unfolding live by (rule digest.decode_encode_batch [OF d new_batch_ok [OF 2(1) l z 2(4,5)]])
  then have "lists_of j (encode_batch (j_hash j) (new_batch unique live)) = set (map fst unique)"
    by (simp add: lists_of_decoded) (force simp: new_batch_def batch_original_ids_def)
  then have "batch_lists (admission_ids as) j b (encode_batch (j_hash j) (new_batch unique live))"
    using unique_facts [OF 2(1) l z] by (auto simp: batch_lists_def)
  then show ?thesis
    using append_all_keeps [OF 2(3)] 2(6) by (simp add: m_keeps_batch)
qed simp

section \<open>What an operation keeps\<close>

definition grows :: "bytes set \<Rightarrow> bytes set \<Rightarrow> journal \<Rightarrow> journal \<Rightarrow> bool" where
  "grows S T j j' \<longleftrightarrow>
     (\<forall>i. tombstone j i \<longrightarrow> tombstone j' i)
     \<and> (\<forall>i. tombstone j' i \<longrightarrow> tombstone j i \<or> i \<in> T)
     \<and> (\<forall>i. listed j' i \<longrightarrow> listed j i \<or> i \<in> S)"

lemma grows_same: "j_db j' = j_db j \<Longrightarrow> j_cfg j' = j_cfg j \<Longrightarrow> grows S T j j'"
  using same_directory(2,5) [of j' j] by (simp add: grows_def)

lemma grows_trans: "grows S T j j1 \<Longrightarrow> grows S T j1 j' \<Longrightarrow> grows S T j j'"
  unfolding grows_def by blast

lemma grows_committed:
  assumes "m_keeps S T j m" and "m_wf m" and "j_db j' = committed_db j m used ps" and "j_cfg j' = j_cfg j"
  shows "grows S T j j'"
proof -
  have db: "kv_get (j_db j') k = (case kv_get (m_ops m) k of None \<Rightarrow> kv_get (j_db j) k | Some ov \<Rightarrow> ov)"
    if "k \<noteq> key_priority" "k \<noteq> key_usage" for k
    using assms(2,3) that by (simp add: committed_db_get m_view_def kv_get_apply_wf m_wf_def)
  have q: "kv_get (j_db j') (quarantine_key i)
      = (case kv_get (m_ops m) (quarantine_key i) of None \<Rightarrow> kv_get (j_db j) (quarantine_key i) | Some ov \<Rightarrow> ov)" for i
    by (rule db) simp_all
  have b: "kv_get (j_db j') (batch_key b)
      = (case kv_get (m_ops m) (batch_key b) of None \<Rightarrow> kv_get (j_db j) (batch_key b) | Some ov \<Rightarrow> ov)" for b
    by (rule db) simp_all
  have "tombstone j' i" if t: "tombstone j i" for i
  proof (cases "kv_get (m_ops m) (quarantine_key i)")
    case None
    with t show ?thesis
      by (simp add: tombstone_def q)
  next
    case (Some ov)
    moreover have "ov \<noteq> None"
      using Some assms(1) by (cases ov) (auto simp: m_keeps_def)
    ultimately show ?thesis
      by (simp add: tombstone_def q)
  qed
  moreover have "tombstone j i \<or> i \<in> T" if "tombstone j' i" for i
    using that assms(1) by (auto simp: tombstone_def q m_keeps_def split: option.splits)
  moreover have "listed j i \<or> i \<in> S" if l: "listed j' i" for i
  proof -
    obtain b v where v: "kv_get (j_db j') (batch_key b) = Some v" and i: "i \<in> lists_of j v"
      using l by (auto simp: listed_def lists_of_cfg [OF assms(4)])
    show ?thesis
    proof (cases "kv_get (m_ops m) (batch_key b)")
      case None
      with v i show ?thesis
        by (simp add: b listedI)
    next
      case (Some ov)
      with v have "batch_lists S j b v"
        using assms(1) by (auto simp: b m_keeps_def)
      with i show ?thesis
        by (auto simp: batch_lists_def split: option.splits dest: listedI)
    qed
  qed
  ultimately show ?thesis
    unfolding grows_def by blast
qed

lemma prepared_outcome [consumes 1, case_names kept applied]:
  assumes "commit_prepared env n j capacity p = (r, j')"
  obtains "j_db j' = j_db j" and "j_cfg j' = j_cfg j" and "\<And>a. r = Inr a \<Longrightarrow> \<exists>m. p = Inr (m, a) \<and> m_ops m = []"
  | m a used ps where "p = Inr (m, a)" and "j_db j' = committed_db j m used ps" and "j_cfg j' = j_cfg j"
proof (cases p)
  case (Inl e)
  with assms show thesis
    by (intro that(1)) (auto simp: commit_prepared_def fail_with_def split: if_splits)
next
  case (Inr q)
  then obtain m a where q: "p = Inr (m, a)"
    by (cases q) simp
  obtain c j1 where c: "commit_mutation env n j m capacity = (c, j1)"
    by fastforce
  have j1: "j1 = j'"
    using assms q c by (auto simp: commit_prepared_def split: sum.splits)
  from c show thesis
  proof (cases rule: commit_mutation_cases)
    case empty
    with assms q c show thesis
      by (intro that(1)) (auto simp: commit_prepared_def)
  next
    case (committed next_priorities used)
    with q j1 show thesis
      by (intro that(2)) auto
  next
    case (refused e)
    with assms q c j1 show thesis
      by (intro that(1)) (auto simp: commit_prepared_def split: if_splits)
  next
    case (lost next_priorities used)
    with q j1 show thesis
      by (intro that(2)) auto
  qed
qed

lemma grows_prepared:
  assumes "commit_prepared env n j capacity p = (r, j')"
    and "\<And>m a. p = Inr (m, a) \<Longrightarrow> m_keeps S T j m \<and> m_good j m"
  shows "grows S T j j'"
  using assms(1)
proof (cases rule: prepared_outcome)
  case kept
  then show ?thesis
    by (intro grows_same)
next
  case (applied m a used ps)
  with assms(2) show ?thesis
    by (intro grows_committed) auto
qed

lemma grows_usable:
  "when_usable env j body = (r, j') \<Longrightarrow> (body = (r, j') \<Longrightarrow> grows S T j j') \<Longrightarrow> grows S T j j'"
  by (cases "usable env j") (auto simp: when_usable_def fail_with_def grows_same)

lemma append_batch_grows:
  assumes "append_batch env j b as = (r, j')" and "lib_ok (j_lib j)" and "lib_sized (j_lib j)"
  shows "grows (admission_ids as) {} j j'"
  using assms(1) unfolding append_batch_def
  by (rule grows_usable, elim grows_prepared)
    (auto intro: append_prepare_keeps [OF _ assms(2,3)] append_prepare_good)

lemma renew_claims_grows:
  assumes "renew_claims env j cs = (r, j')"
  shows "grows {} {} j j'"
  using assms unfolding renew_claims_def
  by (rule grows_usable, elim grows_prepared)
    (auto simp: renew_prepare_def Let_def split: if_splits option.splits elim!: renew_loop_keeps renew_loop_good)

lemma mark_committed_batch_grows:
  assumes "mark_committed_batch env j cs = (r, j')"
  shows "grows {} {} j j'"
  using assms unfolding mark_committed_batch_def
  by (rule grows_usable, elim grows_prepared)
    (auto simp: mark_prepare_def Let_def split: if_splits option.splits elim!: mark_loop_keeps mark_loop_good)

lemma journal_compact_grows:
  assumes "journal_compact env j limit = (r, j')" and "digest (j_hash j)"
  shows "grows {} {} j j'"
  using assms(1) unfolding journal_compact_def
  by (rule grows_usable, elim grows_prepared)
    (auto simp: compact_prepare_def Let_def split: if_splits option.splits prod.splits
      elim!: compact_loop_keeps [OF assms(2)] compact_loop_good)

lemma quarantine_grows:
  assumes "quarantine env j i token reason = (r, j')" and "digest (j_hash j)"
  shows "grows {} {i} j j'"
  using assms(1) unfolding quarantine_def
proof (rule grows_usable, elim grows_prepared)
  fix m u
  assume p: "quarantine_prepare env j i token reason = Inr (m, u)"
  then have "m_keeps {} {i} j m"
    by (rule quarantine_prepare_cases) (auto dest!: remove_batch_refs_keeps [OF assms(2), where S = "{}" and T = "{i}"])
  with quarantine_prepare_good [OF p] show "m_keeps {} {i} j m \<and> m_good j m"
    by simp
qed

lemma claim_grows:
  assumes "claim env j limit owner = (r, j')"
  shows "grows {} {} j j'"
proof -
  note c = assms [unfolded claim_def]
  obtain re j1 where e: "commit_prepared env 0 j False (expire_claims env j max_transition_records) = (re, j1)"
    by fastforce
  have first: "grows {} {} j j1"
    using e
    by (rule grows_prepared)
      (auto simp: expire_claims_def Let_def split: if_splits prod.splits elim!: expire_loop_keeps expire_loop_good)
  have rest: "grows {} {} j1 j'" if "commit_prepared env 1 j1 False (claim_pending env j1 owner n) = (r, j')" for n
    using that
    by (rule grows_prepared)
      (auto simp: claim_pending_def split: option.splits prod.splits elim!: claim_loop_keeps claim_loop_good)
  have "j' = j \<or> j' = j\<lparr>j_healthy := False\<rparr> \<or> j' = j1
      \<or> (\<exists>n. commit_prepared env 1 j1 False (claim_pending env j1 owner n) = (r, j'))"
    using c e by (auto simp: when_usable_def fail_with_def Let_def split: sum.splits if_splits)
  then show ?thesis
    using first rest grows_trans by (auto intro: grows_same)
qed

section \<open>The laws the coordinator relies on\<close>

lemma stays_stored:
  assumes "moves acts now j j'" and "\<And>i. Isolated \<notin> acts i \<and> Compacted \<notin> acts i" and "stored_at j i \<noteq> None"
  shows "stored_at j' i \<noteq> None"
proof -
  have "stored_at j' i = stored_at j i \<or> (\<exists>act\<in>acts i. record_step j i now act (stored_at j i) (stored_at j' i))"
    using assms(1) by (simp add: moves_def moved_by_def)
  then show ?thesis
  proof
    assume "\<exists>act\<in>acts i. record_step j i now act (stored_at j i) (stored_at j' i)"
    then obtain act where "act \<in> acts i" and step: "record_step j i now act (stored_at j i) (stored_at j' i)"
      by blast
    with assms(2) have "act \<noteq> Isolated" "act \<noteq> Compacted"
      by auto
    with step show ?thesis
      by (cases rule: record_step.cases) auto
  qed (use assms(3) in simp)
qed

lemma kept_moves:
  assumes "moves acts now j j'" and "grows S T j j'" and "\<And>i. Isolated \<notin> acts i \<and> Compacted \<notin> acts i"
  shows "kept j i \<Longrightarrow> kept j' i"
  using stays_stored [OF assms(1,3)] assms(2) by (auto simp: kept_def grows_def)

lemma committed_moves:
  assumes "moves acts now j j'" and "committed_at j' i"
  shows "committed_at j i \<or> Committed \<in> acts i"
proof -
  have "stored_at j' i = stored_at j i \<or> (\<exists>act\<in>acts i. record_step j i now act (stored_at j i) (stored_at j' i))"
    using assms(1) by (simp add: moves_def moved_by_def)
  then show ?thesis
  proof
    assume "\<exists>act\<in>acts i. record_step j i now act (stored_at j i) (stored_at j' i)"
    then obtain act where a: "act \<in> acts i" and step: "record_step j i now act (stored_at j i) (stored_at j' i)"
      by blast
    from step a assms(2) show ?thesis
      by (cases rule: record_step.cases)
        (auto simp: committed_at_def claimed_by_def given_back_def renewed_until_def)
  qed (use assms(2) in \<open>simp add: committed_at_def\<close>)
qed

lemma compact_kept:
  assumes "journal_compact env j limit = (r, j')" and "digest (j_hash j)" and "kept j i"
  shows "kept j' i \<or> committed_at j i"
proof -
  note g = journal_compact_grows [OF assms(1,2)]
  have "stored_at j' i = stored_at j i \<or> record_step j i (env_clock env 0) Compacted (stored_at j i) (stored_at j' i)"
    using journal_compact_moves [OF assms(1)] by (auto simp: moves_def moved_by_def)
  with g assms(3) show ?thesis
    by (auto simp: kept_def grows_def committed_at_def record_step_act)
qed

text \<open>A quarantined record has its tombstone in the same commit.\<close>

lemma quarantine_kept:
  assumes "quarantine env j i0 token reason = (r, j')" and "digest (j_hash j)" and "kept j i"
  shows "kept j' i"
proof -
  have g: "grows {} {i0} j j'"
    using quarantine_grows [OF assms(1,2)] .
  consider "j_db j' = j_db j" "j_cfg j' = j_cfg j"
    | m u used ps where "quarantine_prepare env j i0 token reason = Inr (m, u)" "j_db j' = committed_db j m used ps"
  proof (cases "usable env j")
    case (Inl e)
    with assms(1) show thesis
      by (intro that(1)) (auto simp: quarantine_def when_usable_def fail_with_def split: if_splits)
  next
    case (Inr u)
    with assms(1) have "commit_prepared env 0 j False (quarantine_prepare env j i0 token reason) = (r, j')"
      by (simp add: quarantine_def when_usable_def)
    then show thesis
      by (cases rule: prepared_outcome) (use that in auto)
  qed
  then show ?thesis
  proof cases
    case 1
    then show ?thesis
      using assms(3) same_directory(3) [OF 1] by simp
  next
    case 2
    show ?thesis
    proof (cases "i = i0")
      case True
      have "m_wf m"
        using quarantine_prepare_good [OF 2(1)] by auto
      moreover have "\<exists>v. kv_get (m_ops m) (quarantine_key i0) = Some (Some v)"
        using 2(1) by (rule quarantine_prepare_cases) (auto simp: m_set_def kv_get_put)
      ultimately have "tombstone j' i0"
        using 2(2) by (auto simp: tombstone_def committed_db_get m_view_def kv_get_apply_wf m_wf_def)
      with True show ?thesis
        by (simp add: kept_def)
    next
      case False
      then have "stored_at j' i = stored_at j i"
        using quarantine_moves [OF assms(1)] by (auto simp: moves_def moved_by_def only_def)
      with assms(3) g show ?thesis
        by (auto simp: kept_def grows_def)
    qed
  qed
qed

lemma append_batch_cases:
  assumes "append_batch env j b as = (r, j')"
  obtains "j_db j' = j_db j" and "j_cfg j' = j_cfg j" and "r \<noteq> Inr ()"
  | m where "append_prepare env j b as = Inr (m, ())" and "m_ops m = []" and "j_db j' = j_db j" and "j_cfg j' = j_cfg j"
  | m used ps where "append_prepare env j b as = Inr (m, ())" and "j_db j' = committed_db j m used ps"
      and "j_cfg j' = j_cfg j"
proof (cases "usable env j")
  case (Inl e)
  with assms show thesis
    by (intro that(1)) (auto simp: append_batch_def when_usable_def fail_with_def split: if_splits)
next
  case (Inr u)
  with assms have "commit_prepared env 0 j True (append_prepare env j b as) = (r, j')"
    by (simp add: append_batch_def when_usable_def)
  then show thesis
  proof (cases rule: prepared_outcome)
    case kept
    show thesis
    proof (cases r)
      case (Inl e)
      with kept show thesis
        by (intro that(1)) auto
    next
      case (Inr a)
      with kept obtain m where "append_prepare env j b as = Inr (m, ())" "m_ops m = []"
        by auto
      with kept show thesis
        by (intro that(2)) auto
    qed
  next
    case (applied m a used ps)
    then show thesis
      by (intro that(3)) auto
  qed
qed

text \<open>Once the new batch is in the directory, every record of it is kept.\<close>

lemma applied_batch_kept:
  assumes p: "append_prepare env j b as = Inr (m, ())" and db: "j_db j' = committed_db j m used ps"
    and cfg: "j_cfg j' = j_cfg j" and l: "lib_ok (j_lib j)" and z: "lib_sized (j_lib j)"
    and g: "grows S T j j'" and mv: "moves (only Admitted N) now j j'" and i: "i \<in> admission_ids as"
  shows "kept j' i \<or> listed j i"
  using p
proof (cases rule: append_prepare_cases)
  case (1 unique v bt)
  have "i \<in> set (map fst unique)"
    using unique_facts [OF 1(1) l z] i by simp
  with 1 have "i \<in> lists_of j v"
    by (simp add: lists_of_decoded)
  with 1(2) show ?thesis
    by (simp add: listedI)
next
  case (2 unique m1 live)
  have d: "digest (j_hash j)"
    using l by (rule lib_ok_digest)
  note f = unique_facts [OF 2(1) l z]
  have st: "i \<in> set (map fst unique) \<longrightarrow> stored_at j i = None \<longrightarrow> \<not> tombstone j i \<longrightarrow> m_stores j m1 i"
    using append_all_stores [OF d 2(3), of i] f by blast
  have wf: "m_wf m"
    using append_prepare_good [OF p] by auto
  show ?thesis
  proof (cases "stored_at j i = None \<and> \<not> tombstone j i")
    case True
    then have "m_stores j m i"
      using st f i 2(6) by auto
    then have "stored_at (j\<lparr>j_db := committed_db j m used ps\<rparr>) i \<noteq> None"
      by (auto simp: stored_at_committed [OF wf] m_stores_def)
    then have "stored_at j' i \<noteq> None"
      by (simp add: stored_at_def db cfg split: option.splits)
    then show ?thesis
      by (simp add: kept_def)
  next
    case False
    then have "kept j i"
      by (auto simp: kept_def)
    then show ?thesis
      using kept_moves [OF mv g, of i] by (simp add: only_def)
  qed
qed

lemma kv_put_not_Nil: "kv_put k v db \<noteq> []"
  by (cases db) (auto split: if_splits)

lemma append_batch_kept:
  assumes a: "append_batch env j b as = (r, j')" and l: "lib_ok (j_lib j)" and z: "lib_sized (j_lib j)"
  shows "(\<forall>i. kept j i \<longrightarrow> kept j' i) \<and> (\<forall>i. listed j' i \<longrightarrow> listed j i \<or> kept j' i)
    \<and> (r = Inr () \<longrightarrow> (\<forall>i\<in>admission_ids as. kept j' i \<or> listed j i))"
proof -
  note g = append_batch_grows [OF a l z] and mv = append_batch_moves [OF a l z, where now = zero_time]
  have mono: "kept j i \<Longrightarrow> kept j' i" for i
    using kept_moves [OF mv g, of i] by (simp add: only_def)
  from a show ?thesis
  proof (cases rule: append_batch_cases)
    case 1
    then show ?thesis
      using mono same_directory(5) [OF 1(1,2)] by auto
  next
    case (2 m)
    have "listed j i" if "i \<in> admission_ids as" for i
      using 2(1)
    proof (cases rule: append_prepare_cases)
      case (1 unique v bt)
      then have "i \<in> lists_of j v"
        using unique_facts [OF 1(1) l z] that by (simp add: lists_of_decoded)
      with 1(2) show ?thesis
        by (rule listedI)
    next
      case (2 unique m1 live)
      with \<open>m_ops m = []\<close> show ?thesis
        by (auto simp: m_set_def kv_put_not_Nil)
    qed
    with 2 mono show ?thesis
      using same_directory(5) [OF 2(3,4)] by auto
  next
    case (3 m used ps)
    have k: "kept j' i \<or> listed j i" if "i \<in> admission_ids as" for i
      using applied_batch_kept [OF 3 l z g mv that] .
    have "listed j' i \<longrightarrow> listed j i \<or> kept j' i" for i
      using g k unfolding grows_def by blast
    with mono k show ?thesis
      by blast
  qed
qed

end
