(* ===== verification/JournalRefinement.thy ===== *)
theory JournalRefinement
  imports JournalDurable JournalSample
begin

text \<open>The journal as a refinement of the lifecycle of one record.\<close>







end
