(* ===== verification/MessageQueue.thy ===== *)
theory MessageQueue
  imports Identity KvStore GoText
begin

text \<open>
  The publishing boundary (\<open>internal/queue/queue.go\<close>): the message the outbox publishes, what makes it
  publishable, and the mapping to the String attributes of Amazon SQS with the size it counts. The attribute
  map is an association list in key order, the order in which the source visits it after \<open>sort.Strings\<close>.
  \<open>Validate\<close> returns the list of its problems instead of their joined text.
\<close>

section \<open>Limits\<close>

definition sqs_max_message_bytes :: nat where "sqs_max_message_bytes = 1024 * 1024"
definition application_safety_max_message_bytes :: nat where "application_safety_max_message_bytes = 256 * 1024"
definition max_attributes :: nat where "max_attributes = 10"
definition required_sqs_attributes :: nat where "required_sqs_attributes = 3"
definition max_custom_attributes :: nat where "max_custom_attributes = max_attributes - required_sqs_attributes"
definition max_attribute_name_bytes :: nat where "max_attribute_name_bytes = 256"

definition sqs_string_data_type :: bytes where "sqs_string_data_type = ''String''"
definition sqs_attribute_message_id :: bytes where "sqs_attribute_message_id = ''message_id''"
definition sqs_attribute_deduplication_key :: bytes where "sqs_attribute_deduplication_key = ''deduplication_key''"
definition sqs_attribute_message_type :: bytes where "sqs_attribute_message_type = ''message_type''"

definition required_attribute_names :: "bytes list" where
  "required_attribute_names =
     [sqs_attribute_message_id, sqs_attribute_deduplication_key, sqs_attribute_message_type]"

definition reserved_attribute_prefixes :: "bytes list" where
  "reserved_attribute_prefixes = [''aws.'', ''amazon.'']"

lemmas sqs_name_defs = sqs_attribute_message_id_def sqs_attribute_deduplication_key_def
  sqs_attribute_message_type_def

record queue_message =
  qu_message_id :: bytes
  qu_deduplication_key :: bytes
  qu_type :: bytes
  qu_body :: bytes
  qu_attributes :: "(bytes, bytes) kv"

section \<open>Text SQS accepts\<close>

text \<open>The code point of the well-formed rune a text begins with.\<close>

definition rune_code :: "nat list \<Rightarrow> nat" where
  "rune_code s =
     (if rune_width s = 1 then s ! 0
      else if rune_width s = 2 then (s ! 0 - 192) * 64 + (s ! 1 - 128)
      else if rune_width s = 3 then (s ! 0 - 224) * 4096 + (s ! 1 - 128) * 64 + (s ! 2 - 128)
      else (s ! 0 - 240) * 262144 + (s ! 1 - 128) * 4096 + (s ! 2 - 128) * 64 + (s ! 3 - 128))"

definition sqs_rune :: "nat \<Rightarrow> bool" where
  "sqs_rune r \<longleftrightarrow> r = 9 \<or> r = 10 \<or> r = 13 \<or> (32 \<le> r \<and> r \<le> 55295) \<or> (57344 \<le> r \<and> r \<le> 65533)
     \<or> (65536 \<le> r \<and> r \<le> 1114111)"

function all_runes :: "(nat \<Rightarrow> bool) \<Rightarrow> nat list \<Rightarrow> bool" where
  "all_runes P s =
     (if s = [] then True
      else if rune_width s = 0 then P 65533 \<and> all_runes P (drop 1 s)
      else P (rune_code s) \<and> all_runes P (drop (rune_width s) s))"
  by pat_completeness auto
termination
  by (relation "measure (length \<circ> snd)") auto

declare all_runes.simps [simp del]

definition valid_sqs_text :: "bytes \<Rightarrow> bool" where
  "valid_sqs_text s = (if \<not> utf8_valid s then False else all_runes sqs_rune (map ord_byte s))"

section \<open>Attribute names\<close>

datatype name_problem =
    NameBlank
  | NameTooLong nat
  | NameCharacter
  | NameOuterPeriod
  | NameConsecutivePeriods
  | NameReservedPrefix bytes

definition attribute_name_rune :: "nat \<Rightarrow> bool" where
  "attribute_name_rune r \<longleftrightarrow> (97 \<le> r \<and> r \<le> 122) \<or> (65 \<le> r \<and> r \<le> 90) \<or> (48 \<le> r \<and> r \<le> 57)
     \<or> r = 95 \<or> r = 45 \<or> r = 46"

definition has_prefix :: "bytes \<Rightarrow> bytes \<Rightarrow> bool" where
  "has_prefix s p \<longleftrightarrow> take (length p) s = p"

fun double_period :: "bytes \<Rightarrow> bool" where
  "double_period (a # b # s) = (a = CHR ''.'' \<and> b = CHR ''.'' \<or> double_period (b # s))"
| "double_period _ = False"

definition attribute_name_problem :: "bytes \<Rightarrow> name_problem option" where
  "attribute_name_problem name =
     (if blank name then Some NameBlank
      else if max_attribute_name_bytes < length name then Some (NameTooLong (length name))
      else if \<not> all_runes attribute_name_rune (map ord_byte name) then Some NameCharacter
      else if has_prefix name ''.'' \<or> last name = CHR ''.'' then Some NameOuterPeriod
      else if double_period name then Some NameConsecutivePeriods
      else
        (case find (has_prefix (to_lower name)) reserved_attribute_prefixes of
           None \<Rightarrow> None
         | Some prefix \<Rightarrow> Some (NameReservedPrefix prefix)))"

section \<open>The mapping to SQS\<close>

definition sqs_attributes :: "queue_message \<Rightarrow> (bytes, bytes) kv" where
  "sqs_attributes m =
     kv_put sqs_attribute_message_type (qu_type m)
       (kv_put sqs_attribute_deduplication_key (qu_deduplication_key m)
         (kv_put sqs_attribute_message_id (qu_message_id m) (qu_attributes m)))"

definition sqs_size :: "queue_message \<Rightarrow> nat" where
  "sqs_size m =
     length (qu_body m)
     + sum_list (map (\<lambda>(name, value). length name + length sqs_string_data_type + length value) (sqs_attributes m))"

section \<open>Validate\<close>

datatype message_problem =
    MessageIdBlank
  | MessageIdNotUuid id_error
  | DeduplicationKeyBlank
  | DeduplicationKeyText
  | TypeBlank
  | TypeText
  | BodyEmpty
  | BodyText
  | TooManyAttributes nat
  | AttributeReserved bytes
  | AttributeName bytes name_problem
  | AttributeNoValue bytes
  | AttributeText bytes
  | MessageTooLarge nat

definition text_problems :: "bytes \<Rightarrow> message_problem \<Rightarrow> message_problem \<Rightarrow> message_problem list" where
  "text_problems s absent bad =
     (if blank s then [absent] else if \<not> valid_sqs_text s then [bad] else [])"

definition attribute_problem_list :: "bytes \<Rightarrow> bytes \<Rightarrow> message_problem list" where
  "attribute_problem_list name value =
     (if name \<in> set required_attribute_names then [AttributeReserved name] else [])
     @ (case attribute_name_problem name of None \<Rightarrow> [] | Some p \<Rightarrow> [AttributeName name p])
     @ (if value = [] then [AttributeNoValue name]
        else if \<not> valid_sqs_text value then [AttributeText name] else [])"

definition attribute_problems :: "queue_message \<Rightarrow> message_problem list" where
  "attribute_problems m =
     (let all_attributes = required_sqs_attributes + length (qu_attributes m) in
      (if max_attributes < all_attributes then [TooManyAttributes all_attributes] else [])
      @ concat (map (\<lambda>(name, value). attribute_problem_list name value) (qu_attributes m)))"

definition message_problems :: "uuid_lib \<Rightarrow> queue_message \<Rightarrow> message_problem list" where
  "message_problems u m =
     (if blank (qu_message_id m) then [MessageIdBlank]
      else (case ids_validate u (qu_message_id m) of Inl e \<Rightarrow> [MessageIdNotUuid e] | Inr _ \<Rightarrow> []))
     @ text_problems (qu_deduplication_key m) DeduplicationKeyBlank DeduplicationKeyText
     @ text_problems (qu_type m) TypeBlank TypeText
     @ (if qu_body m = [] then [BodyEmpty] else if \<not> valid_sqs_text (qu_body m) then [BodyText] else [])
     @ attribute_problems m
     @ (if application_safety_max_message_bytes < sqs_size m then [MessageTooLarge (sqs_size m)] else [])"

definition message_valid :: "uuid_lib \<Rightarrow> queue_message \<Rightarrow> bool" where
  "message_valid u m \<longleftrightarrow> message_problems u m = []"

section \<open>A valid message is publishable\<close>

lemma required_names_distinct [simp]:
  "sqs_attribute_message_id \<noteq> sqs_attribute_deduplication_key"
  "sqs_attribute_message_id \<noteq> sqs_attribute_message_type"
  "sqs_attribute_deduplication_key \<noteq> sqs_attribute_message_type"
  "sqs_attribute_deduplication_key \<noteq> sqs_attribute_message_id"
  "sqs_attribute_message_type \<noteq> sqs_attribute_message_id"
  "sqs_attribute_message_type \<noteq> sqs_attribute_deduplication_key"
  by (simp_all add: sqs_name_defs)

lemma length_kv_put_new: "kv_get db k = None \<Longrightarrow> length (kv_put k v db) = Suc (length db)"
  by (induction k v db rule: kv_put.induct) (auto simp: kv_get_def)

lemma attribute_problem_list_Nil:
  "attribute_problem_list name value = [] \<longleftrightarrow>
     name \<notin> set required_attribute_names \<and> attribute_name_problem name = None \<and> value \<noteq> [] \<and> valid_sqs_text value"
  by (auto simp: attribute_problem_list_def split: option.splits)

lemma attribute_problems_Nil:
  "attribute_problems m = [] \<longleftrightarrow>
     required_sqs_attributes + length (qu_attributes m) \<le> max_attributes
     \<and> (\<forall>(name, value) \<in> set (qu_attributes m). attribute_problem_list name value = [])"
  by (auto simp: attribute_problems_def Let_def)

lemma message_valid_iff:
  "message_valid u m \<longleftrightarrow>
     \<not> blank (qu_message_id m) \<and> ids_validate u (qu_message_id m) = Inr ()
     \<and> \<not> blank (qu_deduplication_key m) \<and> valid_sqs_text (qu_deduplication_key m)
     \<and> \<not> blank (qu_type m) \<and> valid_sqs_text (qu_type m)
     \<and> qu_body m \<noteq> [] \<and> valid_sqs_text (qu_body m)
     \<and> attribute_problems m = [] \<and> sqs_size m \<le> application_safety_max_message_bytes"
  by (auto simp: message_valid_def message_problems_def text_problems_def split: sum.splits if_splits)

text \<open>No custom attribute collides with the required metadata, so none is overwritten by the mapping.\<close>

lemma sqs_attributes_get:
  "kv_get (sqs_attributes m) name =
     (if name = sqs_attribute_message_type then Some (qu_type m)
      else if name = sqs_attribute_deduplication_key then Some (qu_deduplication_key m)
      else if name = sqs_attribute_message_id then Some (qu_message_id m)
      else kv_get (qu_attributes m) name)"
  by (simp add: sqs_attributes_def kv_get_put)

lemma sqs_attributes_exact:
  assumes "message_valid u m" and "kv_wf (qu_attributes m)"
  shows "length (sqs_attributes m) = required_sqs_attributes + length (qu_attributes m)"
    and "length (sqs_attributes m) \<le> max_attributes"
    and "kv_get (qu_attributes m) name = Some value \<Longrightarrow> kv_get (sqs_attributes m) name = Some value"
proof -
  have ok: "name \<notin> set required_attribute_names" if "kv_get (qu_attributes m) name = Some v" for name v
    using that assms by (auto simp: message_valid_iff attribute_problems_Nil attribute_problem_list_Nil kv_entry_iff [symmetric])
  have none: "kv_get (qu_attributes m) sqs_attribute_message_id = None"
    "kv_get (qu_attributes m) sqs_attribute_deduplication_key = None"
    "kv_get (qu_attributes m) sqs_attribute_message_type = None"
    using ok by (force simp: required_attribute_names_def intro: option.exhaust)+
  show len: "length (sqs_attributes m) = required_sqs_attributes + length (qu_attributes m)"
    using none by (simp add: sqs_attributes_def length_kv_put_new kv_get_put required_sqs_attributes_def)
  show "length (sqs_attributes m) \<le> max_attributes"
    using assms by (simp add: len message_valid_iff attribute_problems_Nil)
  show "kv_get (sqs_attributes m) name = Some value" if "kv_get (qu_attributes m) name = Some value"
    using that ok [OF that] by (auto simp: sqs_attributes_get required_attribute_names_def)
qed

end
