(* ===== verification/Assignment.thy ===== *)
theory Assignment
  imports MessageQueue JournalTypes
begin

text \<open>
  The queue pointer shared with the investigation agents (\<open>internal/agent/assignment.go\<close>). The JSON
  package is represented by what the source observes of it (\<open>assignment_json\<close>): the text \<open>Marshal\<close>
  gives, and, for a text, the value a decoder that refuses unknown fields reads first and whether only the
  end of the input follows it.
\<close>

section \<open>Constants and the assignment\<close>

definition assignment_schema_version :: bytes where "assignment_schema_version = ''1.0''"
definition assignment_message_type :: bytes where "assignment_message_type = ''agent.assignment.v1''"
definition assignment_producer :: bytes where "assignment_producer = ''static-log-analysis''"
definition max_assignment_bytes :: nat where "max_assignment_bytes = 16 * 1024"
definition max_assignment_text_bytes :: nat where "max_assignment_text_bytes = 128"

record assignment =
  as_schema_version :: bytes
  as_message_id :: bytes
  as_message_type :: bytes
  as_created_at :: gtime
  as_region :: bytes
  as_tenant_id :: bytes
  as_classification :: bytes
  as_producer :: bytes
  as_correlation_id :: bytes
  as_incident_id :: bytes
  as_incident_generation :: "64 word"
  as_investigation_id :: bytes
  as_service_id :: bytes
  as_environment :: bytes
  as_severity :: bytes
  as_context_version :: "64 word"

section \<open>Validation\<close>

definition assignment_text_rune :: "nat \<Rightarrow> bool" where
  "assignment_text_rune r \<longleftrightarrow> (97 \<le> r \<and> r \<le> 122) \<or> (65 \<le> r \<and> r \<le> 90) \<or> (48 \<le> r \<and> r \<le> 57)
     \<or> r = 45 \<or> r = 95 \<or> r = 46 \<or> r = 58 \<or> r = 47"

definition assignment_text :: "bytes \<Rightarrow> bool" where
  "assignment_text s =
     (if s = [] \<or> max_assignment_text_bytes < length s \<or> trim_space s \<noteq> s \<or> \<not> utf8_valid s then False
      else all_runes assignment_text_rune (map ord_byte s))"

definition hex_rune :: "nat \<Rightarrow> bool" where
  "hex_rune r \<longleftrightarrow> (48 \<le> r \<and> r \<le> 57) \<or> (97 \<le> r \<and> r \<le> 102)"

definition assignment_incident_id :: "bytes \<Rightarrow> bool" where
  "assignment_incident_id s = (if length s \<noteq> 64 then False else all_runes hex_rune (map ord_byte s))"

definition assignment_utc :: "gtime \<Rightarrow> bool" where
  "assignment_utc t \<longleftrightarrow> \<not> is_zero t \<and> t_utc t \<and> same_instant t (unix_utc (sint (unix_nano t)))"

definition assignment_classification :: "bytes \<Rightarrow> bool" where
  "assignment_classification s \<longleftrightarrow> s \<in> {''PUBLIC'', ''INTERNAL'', ''SENSITIVE'', ''RESTRICTED''}"

definition assignment_severity :: "bytes \<Rightarrow> bool" where
  "assignment_severity s \<longleftrightarrow>
     s \<in> {''unspecified'', ''trace'', ''debug'', ''info'', ''warn'', ''error'', ''fatal''}"

definition assignment_valid :: "uuid_lib \<Rightarrow> assignment \<Rightarrow> bool" where
  "assignment_valid u a \<longleftrightarrow>
     (case parse_schema_version (as_schema_version a) of None \<Rightarrow> False
      | Some version \<Rightarrow>
          sver_major version = 1 \<and> as_message_type a = assignment_message_type
          \<and> as_producer a = assignment_producer
          \<and> ids_validate u (as_message_id a) = Inr () \<and> ids_validate u (as_correlation_id a) = Inr ()
          \<and> ids_validate u (as_investigation_id a) = Inr ()
          \<and> assignment_utc (as_created_at a) \<and> assignment_text (as_region a) \<and> assignment_text (as_tenant_id a)
          \<and> assignment_text (as_service_id a) \<and> assignment_text (as_environment a)
          \<and> assignment_incident_id (as_incident_id a) \<and> \<not> sint (as_incident_generation a) < 1
          \<and> \<not> sint (as_context_version a) < 1
          \<and> assignment_classification (as_classification a) \<and> assignment_severity (as_severity a))"

section \<open>Encoding and decoding\<close>

record assignment_json =
  aj_marshal :: "assignment \<Rightarrow> bytes option"
  aj_decode :: "bytes \<Rightarrow> (assignment \<times> bool) option"

definition encode_assignment :: "uuid_lib \<Rightarrow> assignment_json \<Rightarrow> assignment \<Rightarrow> bytes option" where
  "encode_assignment u json a =
     (if \<not> assignment_valid u a then None
      else case aj_marshal json a of None \<Rightarrow> None
           | Some encoded \<Rightarrow> if max_assignment_bytes < length encoded then None else Some encoded)"

definition decode_assignment :: "uuid_lib \<Rightarrow> assignment_json \<Rightarrow> bytes \<Rightarrow> assignment option" where
  "decode_assignment u json encoded =
     (if encoded = [] \<or> max_assignment_bytes < length encoded then None
      else case aj_decode json encoded of None \<Rightarrow> None
           | Some (a, at_end) \<Rightarrow>
               if \<not> at_end then None else if \<not> assignment_valid u a then None else Some a)"

section \<open>Decoding what was encoded\<close>

text \<open>
  The JSON package reads back what it wrote: the text of an object is not empty, and a struct whose strings
  are valid UTF-8 and whose time is a UTC instant of the years 0 to 9999 is decoded to itself, with nothing
  after it.
\<close>

definition assignment_strings :: "assignment \<Rightarrow> bytes list" where
  "assignment_strings a =
     [as_schema_version a, as_message_id a, as_message_type a, as_region a, as_tenant_id a, as_classification a,
      as_producer a, as_correlation_id a, as_incident_id a, as_investigation_id a, as_service_id a,
      as_environment a, as_severity a]"

definition assignment_json_ok :: "assignment_json \<Rightarrow> bool" where
  "assignment_json_ok json \<longleftrightarrow>
     (\<forall>a data. aj_marshal json a = Some data \<longrightarrow>
        data \<noteq> []
        \<and> (list_all utf8_valid (assignment_strings a) \<and> t_utc (as_created_at a)
             \<and> - 62167219200000000000 \<le> t_inst (as_created_at a) \<and> t_inst (as_created_at a) < 253402300800000000000
           \<longrightarrow> aj_decode json data = Some (a, True)))"

text \<open>Identifiers the UUID package prints are ASCII.\<close>

definition uuid_text_ok :: "uuid_lib \<Rightarrow> bool" where
  "uuid_text_ok u \<longleftrightarrow> (\<forall>i. list_all (\<lambda>c. ord_byte c < 128) (ul_string u i))"

lemma ascii_rune_width: "s \<noteq> [] \<Longrightarrow> hd s < 128 \<Longrightarrow> rune_width s = 1"
  by (cases s) simp_all

lemma ascii_valid_codes: "list_all (\<lambda>a. a < 128) s \<Longrightarrow> valid_codes s"
proof (induction s)
  case (Cons a s)
  then show ?case
    by (simp add: valid_codes.simps [of "a # s"])
qed (simp add: valid_codes.simps)

lemma ascii_utf8: "list_all (\<lambda>c. ord_byte c < 128) s \<Longrightarrow> utf8_valid s"
  by (simp add: utf8_valid_def ascii_valid_codes list_all_iff)

lemma dec_ascii: "list_all (\<lambda>c. ord_byte c < 128) (dec n)"
  using dec_digits [of n] by (auto simp: list_all_iff is_digit_iff)

lemma uuid_utf8: "uuid_text_ok u \<Longrightarrow> ids_validate u s = Inr () \<Longrightarrow> utf8_valid s"
  by (auto simp: ids_validate_def uuid_text_ok_def intro: ascii_utf8 split: option.splits if_splits)

text \<open>A text whose runes are all below 128 consists of ASCII bytes.\<close>

lemma rune_width_lead:
  assumes "rune_width (a # t) \<noteq> 0" and "\<not> a < 128"
  shows "rune_width (a # t) = 2 \<and> 194 \<le> a
     \<or> rune_width (a # t) = 3 \<and> (225 \<le> a \<or> a = 224 \<and> 160 \<le> t ! 0)
     \<or> rune_width (a # t) = 4 \<and> (241 \<le> a \<or> a = 240 \<and> 144 \<le> t ! 0)"
proof -
  obtain b s1 where t: "t = b # s1"
    using assms by (cases t) auto
  show ?thesis
  proof (cases "194 \<le> a \<and> a \<le> 223 \<and> continuation b")
    case False
    with assms t obtain c s2 where s1: "s1 = c # s2"
      by (cases s1) auto
    let ?three = "continuation c \<and> (a = 224 \<and> 160 \<le> b \<and> b \<le> 191 \<or> a = 237 \<and> 128 \<le> b \<and> b \<le> 159
        \<or> (225 \<le> a \<and> a \<le> 236 \<or> a = 238 \<or> a = 239) \<and> continuation b)"
    show ?thesis
    proof (cases ?three)
      case True
      with False assms(2) have "rune_width (a # t) = 3"
        by (simp add: t s1)
      moreover from True have "225 \<le> a \<or> a = 224 \<and> 160 \<le> b"
        by linarith
      ultimately show ?thesis
        by (simp add: t del: rune_width.simps)
    next
      case no: False
      have w: "rune_width (a # t) = (case s2 of [] \<Rightarrow> 0 | d # s3 \<Rightarrow>
          if continuation c \<and> continuation d \<and> (a = 240 \<and> 144 \<le> b \<and> b \<le> 191
             \<or> a = 244 \<and> 128 \<le> b \<and> b \<le> 143 \<or> 241 \<le> a \<and> a \<le> 243 \<and> continuation b)
          then 4 else 0)"
        by (simp only: t s1 rune_width.simps list.case if_not_P [OF no] if_not_P [OF False] if_not_P [OF assms(2)])
      then have "rune_width (a # t) = 4 \<and> (241 \<le> a \<or> a = 240 \<and> 144 \<le> b)"
        using assms(1) by (auto simp del: rune_width.simps split: list.splits if_splits)
      then show ?thesis
        by (simp add: t del: rune_width.simps)
    qed
  qed (use assms t in simp)
qed

lemma rune_code_ascii:
  assumes "rune_width (a # t) \<noteq> 0" and "rune_code (a # t) < 128"
  shows "a < 128"
proof (rule ccontr)
  assume "\<not> a < 128"
  with rune_width_lead [OF assms(1)] show False
    using assms(2) by (auto simp: rune_code_def simp del: rune_width.simps)
qed

lemma all_runes_step:
  "all_runes P s \<Longrightarrow> s \<noteq> [] \<Longrightarrow> \<not> P 65533 \<Longrightarrow>
     rune_width s \<noteq> 0 \<and> P (rune_code s) \<and> all_runes P (drop (rune_width s) s)"
  by (subst (asm) all_runes.simps) (simp split: if_splits)

lemma all_runes_ascii:
  "all_runes P s \<Longrightarrow> (\<And>r. P r \<Longrightarrow> r < 128) \<Longrightarrow> list_all (\<lambda>a. a < 128) s"
proof (induction P s rule: all_runes.induct)
  case (1 P s)
  show ?case
  proof (cases s)
    case (Cons a t)
    have no: "\<not> P 65533"
      using 1(4) [of 65533] by auto
    note step = all_runes_step [OF 1(3) _ no]
    have w: "rune_width s \<noteq> 0" and code: "P (rune_code s)" and rest: "all_runes P (drop (rune_width s) s)"
      using step Cons by blast+
    have "a < 128"
      using rune_code_ascii w 1(4) [OF code] Cons by blast
    then have one: "rune_width s = 1"
      using Cons by simp
    have "list_all (\<lambda>a. a < 128) (drop (rune_width s) s)"
      using 1(2) [OF _ w rest] 1(4) Cons by simp
    with \<open>a < 128\<close> one Cons show ?thesis
      by simp
  qed simp
qed

lemma all_runes_utf8:
  assumes "all_runes P (map ord_byte s)" and "\<And>r. P r \<Longrightarrow> r < 128"
  shows "utf8_valid s"
proof -
  have "list_all (\<lambda>a. a < 128) (map ord_byte s)"
    using assms by (rule all_runes_ascii)
  then show ?thesis
    by (simp add: utf8_valid_def ascii_valid_codes)
qed

lemma assignment_valid_facts:
  assumes "assignment_valid u a"
  obtains v where "parse_schema_version (as_schema_version a) = Some v"
    and "as_message_type a = assignment_message_type" and "as_producer a = assignment_producer"
    and "ids_validate u (as_message_id a) = Inr ()" and "ids_validate u (as_correlation_id a) = Inr ()"
    and "ids_validate u (as_investigation_id a) = Inr ()" and "assignment_utc (as_created_at a)"
    and "assignment_text (as_region a)" and "assignment_text (as_tenant_id a)"
    and "assignment_text (as_service_id a)" and "assignment_text (as_environment a)"
    and "assignment_incident_id (as_incident_id a)" and "assignment_classification (as_classification a)"
    and "assignment_severity (as_severity a)"
  using assms by (simp add: assignment_valid_def split: option.splits)

lemma assignment_text_utf8: "assignment_text s \<Longrightarrow> utf8_valid s"
  by (simp add: assignment_text_def split: if_splits)

lemma assignment_incident_id_utf8: "assignment_incident_id s \<Longrightarrow> utf8_valid s"
  by (rule all_runes_utf8 [where P = hex_rune]) (auto simp: assignment_incident_id_def hex_rune_def split: if_splits)

lemma named_texts_utf8:
  "utf8_valid assignment_message_type" "utf8_valid assignment_producer"
  "assignment_classification s \<Longrightarrow> utf8_valid s" "assignment_severity s \<Longrightarrow> utf8_valid s"
proof -
  show "utf8_valid assignment_message_type" "utf8_valid assignment_producer"
    by (rule ascii_utf8, code_simp)+
  define names where "names = [''PUBLIC'', ''INTERNAL'', ''SENSITIVE'', ''RESTRICTED'', ''unspecified'', ''trace'',
    ''debug'', ''info'', ''warn'', ''error'', ''fatal'']"
  have "list_all (list_all (\<lambda>c. ord_byte c < 128)) names"
    unfolding names_def by code_simp
  then have ok: "s \<in> set names \<Longrightarrow> utf8_valid s"
    unfolding list_all_iff [of _ names] by (blast intro: ascii_utf8)
  have "{''PUBLIC'', ''INTERNAL'', ''SENSITIVE'', ''RESTRICTED''} \<subseteq> set names"
    "{''unspecified'', ''trace'', ''debug'', ''info'', ''warn'', ''error'', ''fatal''} \<subseteq> set names"
    by (simp_all add: names_def)
  then show "assignment_classification s \<Longrightarrow> utf8_valid s" "assignment_severity s \<Longrightarrow> utf8_valid s"
    unfolding assignment_classification_def assignment_severity_def using ok by blast+
qed

lemma assignment_version_utf8: "parse_schema_version s = Some v \<Longrightarrow> utf8_valid s"
proof -
  assume "parse_schema_version s = Some v"
  moreover have "ord_byte CHR ''.'' < 128"
    by code_simp
  ultimately show ?thesis
    by (auto simp: parse_schema_version_iff schema_version_string_def dec_ascii intro!: ascii_utf8)
qed

lemma assignment_valid_utf8:
  assumes "assignment_valid u a" and "uuid_text_ok u"
  shows "list_all utf8_valid (assignment_strings a)"
  using assms(1)
  by (rule assignment_valid_facts)
    (simp add: assignment_strings_def named_texts_utf8 assignment_text_utf8 assignment_incident_id_utf8
      uuid_utf8 [OF assms(2)] assignment_version_utf8)

lemma decode_encode_assignment:
  assumes "assignment_json_ok json" and "uuid_text_ok u" and "encode_assignment u json a = Some data"
  shows "decode_assignment u json data = Some a"
proof -
  have valid: "assignment_valid u a" and marshal: "aj_marshal json a = Some data"
    and len: "\<not> max_assignment_bytes < length data"
    using assms(3) by (auto simp: encode_assignment_def split: if_splits option.splits)
  have utc: "assignment_utc (as_created_at a)"
    using valid by (auto simp: assignment_valid_def split: option.splits)
  then have "nano_range (t_inst (as_created_at a))"
    using sint_ge [of "unix_nano (as_created_at a)"] sint_lt [of "unix_nano (as_created_at a)"]
    by (auto simp: assignment_utc_def same_instant_def nano_range_def)
  with utc have "data \<noteq> []" and "aj_decode json data = Some (a, True)"
    using assms(1) marshal assignment_valid_utf8 [OF valid assms(2)]
    by (auto simp: assignment_json_ok_def assignment_utc_def nano_range_def)
  with valid len show ?thesis
    by (simp add: decode_assignment_def)
qed

end
