(* ===== verification/Persistence.thy ===== *)
theory Persistence
  imports Assignment IncidentDecision JournalEnvelope
begin

text \<open>
  What the CockroachDB store accepts (\<open>internal/persistence/types.go\<close>, \<open>store.go\<close>, \<open>outbox_digest.go\<close> and the
  validation half of \<open>processing.go\<close>): its input and result types, its validators, the validation of one
  prepared input with its investigation, assignment and context, the check of a whole batch before any
  transaction starts, and the content digest that seals an outbox row.

  The redaction policy is an interface of the package (\<open>record_validator\<close>). \<open>persistence_lib\<close> holds what comes
  from outside the repository: the journal's library, the UUID package and the JSON texts of an assignment,
  of a value, of an occurrence projection, of a regional reference and of an attribute map, what a JSONB
  column keeps of a text and what a TIMESTAMPTZ column keeps of an instant.
\<close>

section \<open>Types\<close>

definition max_process_batch :: nat where "max_process_batch = 100"
definition max_claim_batch :: nat where "max_claim_batch = 100"
definition max_scope_bytes :: nat where "max_scope_bytes = 128"
definition max_lease_owner_bytes :: nat where "max_lease_owner_bytes = 128"
definition max_projection_bytes :: nat where "max_projection_bytes = 256 * 1024"
definition max_context_bytes :: nat where "max_context_bytes = 256 * 1024"

datatype perr =
    PInvalidInput
  | PConfiguration
  | PUnavailable
  | PIncompatibleSchema
  | PStaleClaim
  | PImmutable
  | PIdentityConflict
  | PContext

record persistence_scope =
  psc_region :: bytes
  psc_tenant_id :: bytes

record record_validator =
  vd_version :: bytes
  vd_record :: "normalized_log \<Rightarrow> bool"
  vd_value :: "safe_value \<Rightarrow> bool"
  vd_text :: "bytes \<Rightarrow> bool"

record store_boundary =
  bo_scope :: persistence_scope
  bo_classification :: bytes
  bo_policy_version :: bytes

record evidence_input =
  ei_evidence_id :: bytes
  ei_version :: "64 word"
  ei_classification :: bytes
  ei_provenance :: bytes
  ei_created_at :: gtime
  ei_expires_at :: gtime

record investigation_input =
  ii_investigation_id :: bytes
  ii_trigger_reason :: bytes
  ii_context_version :: "64 word"
  ii_context :: safe_value
  ii_classification :: bytes
  ii_outbox :: queue_message

record context_input =
  cx_version :: "64 word"
  cx_snapshot :: safe_value
  cx_classification :: bytes
  cx_created_at :: gtime

record process_input =
  pi_scope :: persistence_scope
  pi_record :: normalized_log
  pi_decision :: persistence_decision
  pi_replay :: replay_identity
  pi_processed_at :: gtime
  pi_fingerprint_version :: bytes
  pi_fingerprint :: bytes
  pi_incident_id :: bytes
  pi_generation :: "64 word"
  pi_deployment_id :: bytes
  pi_episode_start :: gtime
  pi_detection_status :: bytes
  pi_severity :: bytes
  pi_quiet_at :: gtime
  pi_reopen_until :: gtime
  pi_rule_trigger :: bytes
  pi_context_version :: "64 word"
  pi_late :: bool
  pi_evidence_only :: bool
  pi_evidence :: "evidence_input option"
  pi_investigation :: "investigation_input option"
  pi_candidate :: "investigation_input option"
  pi_context_update :: "context_input option"

record process_outcome =
  px_record_id :: bytes
  px_duplicate :: bool
  px_incident_id :: bytes
  px_generation :: "64 word"
  px_investigation_id :: bytes
  px_investigation_created :: bool

definition no_outcome :: process_outcome where
  "no_outcome = \<lparr>px_record_id = [], px_duplicate = False, px_incident_id = [], px_generation = 0,
                 px_investigation_id = [], px_investigation_created = False\<rparr>"

definition occurrence_projection_schema_version :: bytes where
  "occurrence_projection_schema_version = ''1.0''"

record occurrence_projection =
  op_schema_version :: bytes
  op_region :: bytes
  op_event_time :: gtime
  op_observed_time :: gtime
  op_timestamp_inferred :: bool
  op_timestamp_reason :: bytes
  op_severity_number :: "32 word"
  op_severity_text :: bytes
  op_severity_class :: bytes
  op_body :: safe_value
  op_event_name :: bytes
  op_attributes :: "(bytes \<times> safe_value) list option"
  op_resource_attributes :: "(bytes \<times> safe_value) list option"
  op_scope_attributes :: "(bytes \<times> safe_value) list option"
  op_service :: service_identity
  op_deployment :: deployment_identity
  op_correlation :: correlation_identity
  op_exception :: "normalized_exception option"
  op_redaction :: redaction_metadata

record persistence_lib =
  plb_journal :: lib
  plb_uuid :: uuid_lib
  plb_assignment :: assignment_json
  plb_value :: "safe_value \<Rightarrow> bytes option"
  plb_projection :: "occurrence_projection \<Rightarrow> bytes option"
  plb_reference :: "regional_log_reference \<Rightarrow> bytes option"
  plb_attributes :: "(bytes, bytes) kv \<Rightarrow> bytes option"
  plb_read_attributes :: "bytes \<Rightarrow> (bytes, bytes) kv option"
  plb_jsonb :: "bytes \<Rightarrow> bytes"
  plb_timestamptz :: "gtime \<Rightarrow> gtime"

abbreviation plb_hash :: "persistence_lib \<Rightarrow> bytes \<Rightarrow> bytes" where
  "plb_hash l \<equiv> lib_sha256 (plb_journal l)"

text \<open>\<open>Store\<close> without its connection pool and test hooks.\<close>

record store =
  sto_lib :: persistence_lib
  sto_validator :: record_validator
  sto_scope :: persistence_scope
  sto_classification :: bytes

section \<open>Validators of store.go\<close>

definition store_text :: "bytes \<Rightarrow> nat \<Rightarrow> bool" where
  "store_text s maximum =
     (if length s = 0 \<or> maximum < length s \<or> trim_space s \<noteq> s then False
      else all_runes assignment_text_rune (map ord_byte s))"

definition valid_scope :: "persistence_scope \<Rightarrow> bool" where
  "valid_scope s \<longleftrightarrow> store_text (psc_region s) max_scope_bytes \<and> store_text (psc_tenant_id s) max_scope_bytes"

definition permits :: "store \<Rightarrow> persistence_scope \<Rightarrow> bool" where
  "permits s sc \<longleftrightarrow> sc = sto_scope s"

definition boundary :: "store \<Rightarrow> store_boundary" where
  "boundary s = \<lparr>bo_scope = sto_scope s, bo_classification = sto_classification s,
                 bo_policy_version = vd_version (sto_validator s)\<rparr>"

definition valid_utc :: "gtime \<Rightarrow> bool" where
  "valid_utc t \<longleftrightarrow> \<not> is_zero t \<and> t_utc t \<and> same_instant t (unix_utc (sint (unix_nano t)))"

definition safe_deadline :: "gtime \<Rightarrow> int \<Rightarrow> gtime option" where
  "safe_deadline now ttl =
     (if \<not> valid_utc now \<or> ttl \<le> 0 \<or> after now (add_time (unix_utc 9223372036854775807) (- ttl)) then None
      else Some (add_time now ttl))"

definition valid_uuidv7 :: "store \<Rightarrow> bytes \<Rightarrow> bool" where
  "valid_uuidv7 s i \<longleftrightarrow> ids_validate (plb_uuid (sto_lib s)) i = Inr ()"

definition valid_fingerprint :: "bytes \<Rightarrow> bool" where
  "valid_fingerprint s = (if length s \<noteq> 64 then False else all_runes hex_rune (map ord_byte s))"

definition store_classification :: "bytes \<Rightarrow> bool" where
  "store_classification s \<longleftrightarrow> s \<in> {''PUBLIC'', ''INTERNAL'', ''SENSITIVE'', ''RESTRICTED''}"

definition valid_detection_status :: "bytes \<Rightarrow> bool" where
  "valid_detection_status s \<longleftrightarrow> s \<in> {''active'', ''quiet'', ''ended''}"

definition valid_trigger_reason :: "bytes \<Rightarrow> bool" where
  "valid_trigger_reason s \<longleftrightarrow>
     s \<in> {''fatal'', ''security'', ''five_in_five'', ''explicit_rule'', ''health_failure'', ''error_rate''}"

definition valid_rule_trigger :: "bytes \<Rightarrow> bool" where
  "valid_rule_trigger s \<longleftrightarrow> s = ''ordinary_error_v1''"

definition encode_safe_value :: "persistence_lib \<Rightarrow> safe_value \<Rightarrow> perr + bytes" where
  "encode_safe_value l v =
     (if validate_value [] v \<noteq> [] then Inl PInvalidInput
      else case plb_value l v of None \<Rightarrow> Inl PInvalidInput | Some encoded \<Rightarrow> Inr encoded)"

text \<open>\<open>databaseError\<close>: the error a caller sees; the context error comes first.\<close>

definition database_error :: "bool \<Rightarrow> perr \<Rightarrow> perr" where
  "database_error context_done e = (if context_done then PContext else e)"

text \<open>\<open>New\<close>; whether the pool and the validator are nil and whether the topology is single-region are its other inputs.\<close>

definition new_store ::
    "persistence_lib \<Rightarrow> bool \<Rightarrow> bool \<Rightarrow> record_validator \<Rightarrow> persistence_scope \<Rightarrow> bytes \<Rightarrow> bool \<Rightarrow> perr + store" where
  "new_store l pool_nil validator_nil v sc classification single_region =
     (if pool_nil \<or> validator_nil \<or> \<not> store_text (vd_version v) max_scope_bytes \<or> \<not> valid_scope sc
         \<or> \<not> store_classification classification \<or> \<not> single_region then Inl PInvalidInput
      else Inr \<lparr>sto_lib = l, sto_validator = v, sto_scope = sc, sto_classification = classification\<rparr>)"

section \<open>The outbox content digest\<close>

definition digest_part :: "bytes \<Rightarrow> bytes" where
  "digest_part s = be 8 (length s) @ s"

fun attribute_parts :: "bytes \<times> bytes \<Rightarrow> bytes" where
  "attribute_parts (k, v) = digest_part k @ digest_part v"

definition canonical_outbox_attributes :: "(bytes, bytes) kv \<Rightarrow> bytes" where
  "canonical_outbox_attributes attributes =
     be 8 (length attributes) @ concat (map attribute_parts attributes)"

definition outbox_content_digest_domain :: bytes where
  "outbox_content_digest_domain = ''static-log-analysis/outbox-content-digest:v1''"

definition outbox_content_preimage :: "queue_message \<Rightarrow> bytes \<Rightarrow> bytes \<Rightarrow> bytes \<Rightarrow> bytes" where
  "outbox_content_preimage m aggregate_type aggregate_id payload_version =
     concat (map digest_part
       [outbox_content_digest_domain, qu_message_id m, qu_deduplication_key m, qu_type m, aggregate_type,
        aggregate_id, payload_version, qu_body m, canonical_outbox_attributes (qu_attributes m)])"

definition outbox_content_digest ::
    "persistence_lib \<Rightarrow> queue_message \<Rightarrow> bytes \<Rightarrow> bytes \<Rightarrow> bytes \<Rightarrow> bytes" where
  "outbox_content_digest l m aggregate_type aggregate_id payload_version =
     plb_hash l (outbox_content_preimage m aggregate_type aggregate_id payload_version)"

definition valid_assignment_attributes :: "(bytes, bytes) kv \<Rightarrow> bytes \<Rightarrow> bool" where
  "valid_assignment_attributes attributes region =
     (if length attributes \<noteq> 1 then False
      else (case kv_get attributes ''region'' of None \<Rightarrow> [] | Some v \<Rightarrow> v) = region)"

section \<open>One prepared input\<close>

definition canonical_generation :: "persistence_lib \<Rightarrow> bytes \<Rightarrow> gtime \<Rightarrow> perr + 64 word" where
  "canonical_generation l deployment_id episode_start =
     (if \<not> store_text deployment_id max_scope_bytes \<or> \<not> valid_utc episode_start then Inl PInvalidInput
      else case generation_key (plb_hash l) deployment_id episode_start of
             None \<Rightarrow> Inl PInvalidInput
           | Some generation \<Rightarrow> Inr generation)"

definition valid_outbox_message :: "store \<Rightarrow> queue_message \<Rightarrow> bool" where
  "valid_outbox_message s m =
     (if \<not> message_valid (plb_uuid (sto_lib s)) m \<or> \<not> vd_text (sto_validator s) (qu_deduplication_key m)
         \<or> \<not> vd_text (sto_validator s) (qu_type m) \<or> \<not> vd_text (sto_validator s) (qu_body m) then False
      else list_all (\<lambda>(k, v). vd_text (sto_validator s) k \<and> vd_text (sto_validator s) v) (qu_attributes m))"

text \<open>The prefix the deduplication key of an assignment has.\<close>

definition assignment_key :: "bytes \<Rightarrow> bytes" where
  "assignment_key investigation_id = ''assignment:'' @ investigation_id"

definition valid_assignment_for_process :: "store \<Rightarrow> process_input \<Rightarrow> investigation_input \<Rightarrow> bool" where
  "valid_assignment_for_process s input iv =
     (case decode_assignment (plb_uuid (sto_lib s)) (plb_assignment (sto_lib s)) (qu_body (ii_outbox iv)) of
        None \<Rightarrow> False
      | Some payload \<Rightarrow>
          qu_type (ii_outbox iv) = assignment_message_type
          \<and> qu_deduplication_key (ii_outbox iv) = assignment_key (ii_investigation_id iv)
          \<and> valid_assignment_attributes (qu_attributes (ii_outbox iv)) (psc_region (pi_scope input))
          \<and> as_schema_version payload = assignment_schema_version
          \<and> as_message_id payload = qu_message_id (ii_outbox iv)
          \<and> as_message_type payload = qu_type (ii_outbox iv)
          \<and> as_investigation_id payload = ii_investigation_id iv
          \<and> as_correlation_id payload = ii_investigation_id iv
          \<and> as_region payload = psc_region (pi_scope input)
          \<and> as_tenant_id payload = psc_tenant_id (pi_scope input)
          \<and> as_classification payload = sto_classification s
          \<and> as_incident_id payload = pi_incident_id input
          \<and> as_incident_generation payload = pi_generation input
          \<and> as_service_id payload = si_name (nl_service (pi_record input))
          \<and> as_environment payload = si_environment (nl_service (pi_record input))
          \<and> as_severity payload = pi_severity input
          \<and> as_context_version payload = ii_context_version iv
          \<and> same_instant (as_created_at payload) (pi_processed_at input))"

text \<open>The first condition of \<open>validProcessInput\<close>, in its order.\<close>

definition valid_input_header :: "store \<Rightarrow> process_input \<Rightarrow> bool" where
  "valid_input_header s input \<longleftrightarrow>
     valid_scope (pi_scope input) \<and> permits s (pi_scope input) \<and> validate (pi_record input) = []
     \<and> valid_persistence_decision (plb_hash (sto_lib s)) (pi_record input) (pi_decision input)
     \<and> pi_incident_id input = pd_incident_id (pi_decision input)
     \<and> pi_generation input = pd_generation_key (pi_decision input)
     \<and> pi_deployment_id input = pd_deployment_id (pi_decision input)
     \<and> same_instant (pi_episode_start input) (pd_episode_start (pi_decision input))
     \<and> pi_evidence_only input = pd_evidence_only (pi_decision input)
     \<and> nl_region (pi_record input) = psc_region (pi_scope input)
     \<and> rm_policy_version (nl_redaction (pi_record input)) = vd_version (sto_validator s)
     \<and> vd_record (sto_validator s) (pi_record input) \<and> valid_utc (pi_processed_at input)
     \<and> store_text (pi_fingerprint_version input) max_scope_bytes \<and> valid_fingerprint (pi_fingerprint input)
     \<and> valid_fingerprint (pi_incident_id input) \<and> store_text (pi_deployment_id input) max_scope_bytes
     \<and> valid_utc (pi_episode_start input) \<and> valid_detection_status (pi_detection_status input)
     \<and> store_text (pi_severity input) max_scope_bytes \<and> valid_utc (pi_quiet_at input)
     \<and> valid_utc (pi_reopen_until input) \<and> after (pi_reopen_until input) (pi_quiet_at input)
     \<and> pi_late input = pd_late (pi_decision input) \<and> valid_rule_trigger (pi_rule_trigger input)
     \<and> vd_text (sto_validator s) (pi_rule_trigger input) \<and> \<not> sint (pi_context_version input) < 0"

definition valid_input_identity :: "store \<Rightarrow> process_input \<Rightarrow> bool" where
  "valid_input_identity s input \<longleftrightarrow>
     (case fingerprint_of (plb_hash (sto_lib s)) (pi_record input) of Inl _ \<Rightarrow> False
      | Inr derived \<Rightarrow> pi_fingerprint_version input = fp_version derived \<and> pi_fingerprint input = fp_digest derived)
     \<and> deterministic_id (plb_hash (sto_lib s)) (pi_record input) = Inr (pi_incident_id input)
     \<and> canonical_generation (sto_lib s) (pi_deployment_id input) (pi_episode_start input) = Inr (pi_generation input)"

definition normalized_log_provenance :: bytes where "normalized_log_provenance = ''normalized_log''"

definition valid_evidence :: "store \<Rightarrow> evidence_input \<Rightarrow> bool" where
  "valid_evidence s e \<longleftrightarrow>
     valid_uuidv7 s (ei_evidence_id e) \<and> \<not> sint (ei_version e) < 1
     \<and> store_classification (ei_classification e) \<and> ei_provenance e = normalized_log_provenance
     \<and> vd_text (sto_validator s) (ei_provenance e) \<and> valid_utc (ei_created_at e) \<and> valid_utc (ei_expires_at e)
     \<and> after (ei_expires_at e) (ei_created_at e)"

definition fits_context :: "persistence_lib \<Rightarrow> safe_value \<Rightarrow> bool" where
  "fits_context l v \<longleftrightarrow>
     (case encode_safe_value l v of Inl _ \<Rightarrow> False | Inr encoded \<Rightarrow> length encoded \<le> max_context_bytes)"

definition five_in_five :: bytes where "five_in_five = ''five_in_five''"

definition valid_candidate_for :: "process_input \<Rightarrow> investigation_input \<Rightarrow> bool" where
  "valid_candidate_for input iv \<longleftrightarrow>
     pi_context_version input = 0 \<and> ii_context_version iv = 1 \<and> ii_trigger_reason iv = five_in_five
     \<and> nl_severity_class (pi_record input) = severity_class_error
     \<and> \<not> blank (si_name (nl_service (pi_record input))) \<and> \<not> blank (si_environment (nl_service (pi_record input)))"

definition valid_investigation :: "store \<Rightarrow> process_input \<Rightarrow> investigation_input \<Rightarrow> bool" where
  "valid_investigation s input iv \<longleftrightarrow>
     valid_uuidv7 s (ii_investigation_id iv) \<and> valid_trigger_reason (ii_trigger_reason iv)
     \<and> \<not> sint (ii_context_version iv) < 1
     \<and> (pi_investigation input \<noteq> None \<longrightarrow> ii_context_version iv = pi_context_version input)
     \<and> store_classification (ii_classification iv) \<and> validate_value [] (ii_context iv) = []
     \<and> fits_context (sto_lib s) (ii_context iv)
     \<and> valid_outbox_message s (ii_outbox iv) \<and> qu_message_id (ii_outbox iv) \<noteq> ii_investigation_id iv
     \<and> valid_assignment_for_process s input iv
     \<and> vd_record (sto_validator s) ((pi_record input)\<lparr>nl_body := ii_context iv, nl_event_name := []\<rparr>)
     \<and> (pi_candidate input \<noteq> None \<longrightarrow> valid_candidate_for input iv)"

definition valid_context_update :: "store \<Rightarrow> process_input \<Rightarrow> context_input \<Rightarrow> bool" where
  "valid_context_update s input update \<longleftrightarrow>
     pi_investigation input = None \<and> pi_candidate input = None \<and> \<not> sint (cx_version update) < 1
     \<and> cx_version update = pi_context_version input \<and> validate_value [] (cx_snapshot update) = []
     \<and> store_classification (cx_classification update) \<and> valid_utc (cx_created_at update)
     \<and> vd_value (sto_validator s) (cx_snapshot update) \<and> fits_context (sto_lib s) (cx_snapshot update)"

text \<open>The investigation an input proposes, the explicit one first.\<close>

definition proposed :: "process_input \<Rightarrow> investigation_input option" where
  "proposed input = (case pi_investigation input of None \<Rightarrow> pi_candidate input | Some iv \<Rightarrow> Some iv)"

definition valid_process_input :: "store \<Rightarrow> process_input \<Rightarrow> bool" where
  "valid_process_input s input =
     (if \<not> valid_input_header s input then False
      else if \<not> valid_input_identity s input then False
      else if (case pi_evidence input of None \<Rightarrow> False | Some e \<Rightarrow> \<not> valid_evidence s e) then False
      else if pi_evidence_only input then True
      else if pi_detection_status input \<noteq> pd_detection_status (pi_decision input)
              \<or> \<not> same_instant (pi_quiet_at input) (pd_quiet_at (pi_decision input))
              \<or> \<not> same_instant (pi_reopen_until input) (pd_reopen_until (pi_decision input)) then False
      else if pi_investigation input \<noteq> None \<and> pi_candidate input \<noteq> None then False
      else if (case proposed input of None \<Rightarrow> False | Some iv \<Rightarrow> \<not> valid_investigation s input iv) then False
      else if (case pi_context_update input of None \<Rightarrow> False | Some u \<Rightarrow> \<not> valid_context_update s input u) then False
      else if 0 < sint (pi_context_version input) \<and> pi_investigation input = None \<and> pi_candidate input = None
              \<and> pi_context_update input = None then False
      else True)"

section \<open>The whole batch\<close>

text \<open>
  The first loop of \<open>ProcessBatch\<close>: a disagreement with the deployment is \<open>ErrConfiguration\<close>, a replay
  identity that does not match the record is \<open>ErrInvalidInput\<close>; the first one found decides.
\<close>

definition batch_replay :: "store \<Rightarrow> process_input \<Rightarrow> perr + replay_identity" where
  "batch_replay s input =
     (if \<not> valid_scope (pi_scope input) \<or> \<not> permits s (pi_scope input)
         \<or> rm_policy_version (nl_redaction (pi_record input)) \<noteq> vd_version (sto_validator s)
      then Inl PConfiguration
      else case new_replay_identity (plb_journal (sto_lib s)) (pi_record input) (psc_tenant_id (pi_scope input))
                  (sto_classification s) (rp_priority (pi_replay input)) of
             None \<Rightarrow> Inl PInvalidInput
           | Some replay \<Rightarrow> if replay = pi_replay input then Inr replay else Inl PInvalidInput)"

fun batch_replays :: "store \<Rightarrow> process_input list \<Rightarrow> perr + replay_identity list" where
  "batch_replays s [] = Inr []"
| "batch_replays s (input # inputs) =
     bind_err (batch_replay s input) (\<lambda>replay.
     bind_err (batch_replays s inputs) (\<lambda>replays. Inr (replay # replays)))"

definition batch_preflight :: "store \<Rightarrow> process_input list \<Rightarrow> perr + replay_identity list" where
  "batch_preflight s inputs =
     (if length inputs = 0 \<or> max_process_batch < length inputs then Inl PInvalidInput
      else bind_err (batch_replays s inputs) (\<lambda>replays.
             if list_all (valid_process_input s) inputs then Inr replays else Inl PInvalidInput))"

section \<open>The occurrence projection\<close>

definition projection_validation :: bytes where "projection_validation = ''projection-validation''"

definition projection_of :: "normalized_log \<Rightarrow> occurrence_projection" where
  "projection_of r =
     \<lparr>op_schema_version = occurrence_projection_schema_version, op_region = nl_region r,
      op_event_time = nl_event_time r, op_observed_time = nl_observed_time r,
      op_timestamp_inferred = nl_timestamp_inferred r, op_timestamp_reason = nl_timestamp_inference_reason r,
      op_severity_number = nl_severity_number r, op_severity_text = nl_severity_text r,
      op_severity_class = nl_severity_class r, op_body = nl_body r, op_event_name = nl_event_name r,
      op_attributes = nl_attributes r, op_resource_attributes = nl_resource_attributes r,
      op_scope_attributes = nl_scope_attributes r, op_service = nl_service r, op_deployment = nl_deployment r,
      op_correlation = nl_correlation r, op_exception = nl_exception r, op_redaction = nl_redaction r\<rparr>"

definition projection_probe :: "occurrence_projection \<Rightarrow> normalized_log" where
  "projection_probe p =
     \<lparr>nl_schema_version = op_schema_version p, nl_record_id = replicate 64 (CHR ''0''),
      nl_record_id_version = ''otlp:v1'', nl_identity_quality = identity_quality_native,
      nl_batch_id = projection_validation,
      nl_source =
        \<lparr>te_source_type = source_type_otlp, te_source_account = projection_validation, te_region = op_region p,
         te_allowed_environments = [projection_validation], te_allowed_services = [projection_validation],
         te_source_instance = projection_validation, te_credential_identity = projection_validation,
         te_received_at = op_observed_time p\<rparr>,
      nl_region = op_region p, nl_event_time = op_event_time p, nl_observed_time = op_observed_time p,
      nl_timestamp_inferred = op_timestamp_inferred p, nl_timestamp_inference_reason = op_timestamp_reason p,
      nl_observed_time_inferred = False, nl_observed_time_inference_reason = [],
      nl_severity_number = op_severity_number p, nl_severity_text = op_severity_text p,
      nl_severity_class = op_severity_class p, nl_body = op_body p, nl_event_name = op_event_name p,
      nl_attributes = op_attributes p, nl_resource_attributes = op_resource_attributes p,
      nl_scope_attributes = op_scope_attributes p, nl_service = op_service p, nl_deployment = op_deployment p,
      nl_correlation = op_correlation p, nl_exception = op_exception p, nl_redaction = op_redaction p,
      nl_raw_reference = None\<rparr>"

definition valid_occurrence_projection :: "store \<Rightarrow> occurrence_projection \<Rightarrow> bool" where
  "valid_occurrence_projection s p =
     (if op_schema_version p \<noteq> occurrence_projection_schema_version \<or> \<not> valid_utc (op_event_time p)
         \<or> \<not> valid_utc (op_observed_time p) \<or> \<not> store_text (op_region p) max_scope_bytes
         \<or> rm_policy_version (op_redaction p) \<noteq> vd_version (sto_validator s) then False
      else validate (projection_probe p) = [] \<and> vd_record (sto_validator s) (projection_probe p))"

definition encode_occurrence_projection :: "store \<Rightarrow> normalized_log \<Rightarrow> perr + bytes" where
  "encode_occurrence_projection s r =
     (if \<not> valid_occurrence_projection s (projection_of r) then Inl PInvalidInput
      else case plb_projection (sto_lib s) (projection_of r) of
             None \<Rightarrow> Inl PInvalidInput
           | Some encoded \<Rightarrow> if max_projection_bytes < length encoded then Inl PInvalidInput else Inr encoded)"

end
