(* ===== verification/Database.thy ===== *)
theory Database
  imports Persistence
begin

text \<open>
  The transactional half of the store (\<open>internal/persistence/processing.go\<close>, over the tables of
  \<open>migrations/000001_static_log_analysis.sql\<close>). A table is its list of rows, a SELECT filters it, an UPDATE
  maps over it, an INSERT appends a row after checking the table's constraints; a violated constraint is a
  database error, which \<open>databaseError\<close> reports as unavailability. The statements of a transaction are
  composed with \<open>bind_err\<close>, so the first error ends it.
\<close>

section \<open>Tables\<close>

record seen_row =
  sn_record_id :: bytes
  sn_region :: bytes
  sn_tenant_id :: bytes
  sn_identity_version :: bytes
  sn_source_type :: bytes
  sn_digest :: bytes
  sn_priority :: nat
  sn_replay_version :: bytes
  sn_processed_at :: gtime
  sn_incident :: "bytes option"
  sn_generation :: "64 word option"

record family_row =
  fm_region :: bytes
  fm_tenant_id :: bytes
  fm_incident_id :: bytes
  fm_account :: bytes
  fm_service :: bytes
  fm_environment :: bytes
  fm_fingerprint_version :: bytes
  fm_fingerprint :: bytes
  fm_severity :: bytes
  fm_status :: bytes
  fm_latest_generation :: "64 word option"
  fm_latest_occurrence :: "gtime option"
  fm_active :: "bytes option"
  fm_context_version :: "64 word"
  fm_created_at :: gtime

record generation_row =
  gn_region :: bytes
  gn_tenant_id :: bytes
  gn_incident_id :: bytes
  gn_generation :: "64 word"
  gn_deployment_id :: bytes
  gn_episode_start :: gtime
  gn_first :: gtime
  gn_latest :: gtime
  gn_count :: nat
  gn_severity :: bytes
  gn_status :: bytes
  gn_quiet_at :: gtime
  gn_reopen_until :: gtime
  gn_rule_trigger :: bytes
  gn_context_version :: "64 word"

text \<open>\<open>oc_severity_class\<close> is what \<open>safe_summary->>'severity_class'\<close> reads in the projection's JSON.\<close>

record occurrence_row =
  oc_region :: bytes
  oc_tenant_id :: bytes
  oc_record_id :: bytes
  oc_incident_id :: bytes
  oc_generation :: "64 word"
  oc_event_time :: gtime
  oc_observed_time :: gtime
  oc_fingerprint_version :: bytes
  oc_fingerprint :: bytes
  oc_summary :: bytes
  oc_severity_class :: bytes
  oc_trace :: "bytes option"
  oc_span :: "bytes option"
  oc_late :: bool
  oc_evidence_only :: bool
  oc_reference :: "bytes option"

record evidence_row =
  er_region :: bytes
  er_tenant_id :: bytes
  er_evidence_id :: bytes
  er_incident_id :: bytes
  er_generation :: "64 word"
  er_version :: "64 word"
  er_classification :: bytes
  er_payload :: bytes
  er_reference :: "bytes option"
  er_provenance :: bytes
  er_created_at :: gtime
  er_expires_at :: gtime

record investigation_row =
  ig_region :: bytes
  ig_tenant_id :: bytes
  ig_id :: bytes
  ig_incident_id :: bytes
  ig_state :: bytes
  ig_trigger_reason :: bytes
  ig_context_version :: "64 word"
  ig_queued_at :: gtime
  ig_started_at :: "gtime option"
  ig_completed_at :: "gtime option"

record claim_row =
  cl_region :: bytes
  cl_tenant_id :: bytes
  cl_incident_id :: bytes
  cl_investigation_id :: bytes
  cl_owner :: "bytes option"
  cl_token :: "bytes option"
  cl_expires_at :: "gtime option"
  cl_sequence :: nat

record context_row =
  xr_region :: bytes
  xr_tenant_id :: bytes
  xr_investigation_id :: bytes
  xr_version :: "64 word"
  xr_snapshot :: bytes
  xr_classification :: bytes
  xr_policy_version :: bytes
  xr_created_at :: gtime

record outbox_row =
  ob_region :: bytes
  ob_tenant_id :: bytes
  ob_message_id :: bytes
  ob_deduplication_key :: bytes
  ob_type :: bytes
  ob_aggregate_type :: bytes
  ob_aggregate_id :: bytes
  ob_payload_version :: bytes
  ob_payload :: bytes
  ob_attributes :: bytes
  ob_digest :: bytes
  ob_state :: bytes
  ob_attempts :: nat
  ob_next_attempt_at :: gtime
  ob_claim_owner :: "bytes option"
  ob_claim_token :: "bytes option"
  ob_claim_expires_at :: "gtime option"
  ob_created_at :: gtime
  ob_published_at :: "gtime option"
  ob_last_error :: "bytes option"

record database =
  tb_seen :: "seen_row list"
  tb_families :: "family_row list"
  tb_generations :: "generation_row list"
  tb_occurrences :: "occurrence_row list"
  tb_evidence :: "evidence_row list"
  tb_investigations :: "investigation_row list"
  tb_claims :: "claim_row list"
  tb_contexts :: "context_row list"
  tb_outbox :: "outbox_row list"

definition empty_database :: database where
  "empty_database = \<lparr>tb_seen = [], tb_families = [], tb_generations = [], tb_occurrences = [], tb_evidence = [],
                     tb_investigations = [], tb_claims = [], tb_contexts = [], tb_outbox = []\<rparr>"

text \<open>\<open>UPDATE table SET f WHERE P\<close>, and the same with the CHECK constraints of the rows it touches.\<close>

definition update_rows :: "('r \<Rightarrow> bool) \<Rightarrow> ('r \<Rightarrow> 'r) \<Rightarrow> 'r list \<Rightarrow> 'r list" where
  "update_rows P f rows = map (\<lambda>r. if P r then f r else r) rows"

definition update_checked :: "('r \<Rightarrow> bool) \<Rightarrow> ('r \<Rightarrow> 'r) \<Rightarrow> ('r \<Rightarrow> bool) \<Rightarrow> 'r list \<Rightarrow> perr + 'r list" where
  "update_checked P f check rows =
     (if list_all (\<lambda>r. P r \<longrightarrow> check (f r)) rows then Inr (update_rows P f rows) else Inl PUnavailable)"

definition later :: "gtime \<Rightarrow> gtime \<Rightarrow> gtime" where
  "later a b = (if before a b then b else a)"

definition earlier :: "gtime \<Rightarrow> gtime \<Rightarrow> gtime" where
  "earlier a b = (if before b a then b else a)"

definition max_int8 :: "64 word \<Rightarrow> 64 word \<Rightarrow> 64 word" where
  "max_int8 a b = (if sint a < sint b then b else a)"

section \<open>Shapes the CHECK constraints test\<close>

definition hex_char :: "char \<Rightarrow> bool" where
  "hex_char c \<longleftrightarrow> hex_rune (ord_byte c)"

definition digest_shape :: "bytes \<Rightarrow> bool" where
  "digest_shape s \<longleftrightarrow> length s = 64 \<and> list_all hex_char s"

definition uuidv7_shape :: "bytes \<Rightarrow> bool" where
  "uuidv7_shape s \<longleftrightarrow>
     length s = 36 \<and> s ! 8 = CHR ''-'' \<and> s ! 13 = CHR ''-'' \<and> s ! 18 = CHR ''-'' \<and> s ! 23 = CHR ''-''
     \<and> s ! 14 = CHR ''7'' \<and> s ! 19 \<in> set ''89ab''
     \<and> list_all (\<lambda>i. i \<in> set [8, 13, 18, 23] \<or> hex_char (s ! i)) [0..<36]"

text \<open>The length of a STRING counts its characters.\<close>

definition char_length :: "bytes \<Rightarrow> nat" where
  "char_length s = length (filter (\<lambda>c. \<not> continuation (ord_byte c)) s)"

definition scope_lengths :: "bytes \<Rightarrow> bytes \<Rightarrow> bool" where
  "scope_lengths region tenant_id \<longleftrightarrow>
     1 \<le> char_length region \<and> char_length region \<le> 128
     \<and> 1 \<le> char_length tenant_id \<and> char_length tenant_id \<le> 128"

section \<open>Records seen\<close>

definition seen_of :: "store \<Rightarrow> process_input \<Rightarrow> replay_identity \<Rightarrow> seen_row" where
  "seen_of s input replay =
     \<lparr>sn_record_id = nl_record_id (pi_record input), sn_region = psc_region (pi_scope input),
      sn_tenant_id = psc_tenant_id (pi_scope input), sn_identity_version = nl_record_id_version (pi_record input),
      sn_source_type = te_source_type (nl_source (pi_record input)), sn_digest = rp_digest replay,
      sn_priority = rp_priority replay, sn_replay_version = rp_version replay,
      sn_processed_at = plb_timestamptz (sto_lib s) (pi_processed_at input), sn_incident = None, sn_generation = None\<rparr>"

definition seen_check :: "seen_row \<Rightarrow> bool" where
  "seen_check r \<longleftrightarrow>
     scope_lengths (sn_region r) (sn_tenant_id r) \<and> digest_shape (sn_record_id r) \<and> length (sn_digest r) = 32
     \<and> sn_priority r \<le> 3"

definition find_seen :: "database \<Rightarrow> bytes \<Rightarrow> seen_row option" where
  "find_seen d i = find (\<lambda>r. sn_record_id r = i) (tb_seen d)"

text \<open>What a record that was seen before reports.\<close>

definition replayed :: "process_input \<Rightarrow> replay_identity \<Rightarrow> seen_row \<Rightarrow> perr + process_outcome" where
  "replayed input replay r =
     (if sn_region r \<noteq> psc_region (pi_scope input) \<or> sn_tenant_id r \<noteq> psc_tenant_id (pi_scope input)
         \<or> sn_identity_version r \<noteq> nl_record_id_version (pi_record input)
         \<or> sn_source_type r \<noteq> te_source_type (nl_source (pi_record input)) \<or> sn_digest r \<noteq> rp_digest replay
         \<or> sn_priority r \<noteq> rp_priority replay \<or> sn_replay_version r \<noteq> rp_version replay then Inl PInvalidInput
      else case (sn_incident r, sn_generation r) of
             (Some incident, Some generation) \<Rightarrow>
               Inr (no_outcome\<lparr>px_record_id := nl_record_id (pi_record input), px_duplicate := True,
                               px_incident_id := incident, px_generation := generation\<rparr>)
           | _ \<Rightarrow> Inl PUnavailable)"

definition insert_seen :: "store \<Rightarrow> process_input \<Rightarrow> replay_identity \<Rightarrow> database \<Rightarrow> perr + database" where
  "insert_seen s input replay d =
     (if \<not> seen_check (seen_of s input replay) then Inl PUnavailable
      else Inr (d\<lparr>tb_seen := tb_seen d @ [seen_of s input replay]\<rparr>))"

definition set_seen :: "bytes \<Rightarrow> bytes \<Rightarrow> 64 word \<Rightarrow> database \<Rightarrow> database" where
  "set_seen i incident generation d =
     d\<lparr>tb_seen := update_rows (\<lambda>r. sn_record_id r = i)
         (\<lambda>r. r\<lparr>sn_incident := Some incident, sn_generation := Some generation\<rparr>) (tb_seen d)\<rparr>"

section \<open>Families\<close>

definition in_scope :: "persistence_scope \<Rightarrow> bytes \<Rightarrow> bytes \<Rightarrow> bool" where
  "in_scope sc region tenant_id \<longleftrightarrow> region = psc_region sc \<and> tenant_id = psc_tenant_id sc"

definition family_key :: "persistence_scope \<Rightarrow> bytes \<Rightarrow> family_row \<Rightarrow> bool" where
  "family_key sc incident r \<longleftrightarrow> in_scope sc (fm_region r) (fm_tenant_id r) \<and> fm_incident_id r = incident"

definition natural_key :: "process_input \<Rightarrow> family_row \<Rightarrow> bool" where
  "natural_key input r \<longleftrightarrow>
     in_scope (pi_scope input) (fm_region r) (fm_tenant_id r)
     \<and> fm_account r = te_source_account (nl_source (pi_record input))
     \<and> fm_service r = si_name (nl_service (pi_record input))
     \<and> fm_environment r = si_environment (nl_service (pi_record input))
     \<and> fm_fingerprint_version r = pi_fingerprint_version input \<and> fm_fingerprint r = pi_fingerprint input"

definition family_of :: "store \<Rightarrow> process_input \<Rightarrow> family_row" where
  "family_of s input =
     \<lparr>fm_region = psc_region (pi_scope input), fm_tenant_id = psc_tenant_id (pi_scope input),
      fm_incident_id = pi_incident_id input, fm_account = te_source_account (nl_source (pi_record input)),
      fm_service = si_name (nl_service (pi_record input)),
      fm_environment = si_environment (nl_service (pi_record input)),
      fm_fingerprint_version = pi_fingerprint_version input, fm_fingerprint = pi_fingerprint input,
      fm_severity = pi_severity input, fm_status = pi_detection_status input, fm_latest_generation = None,
      fm_latest_occurrence = None, fm_active = None, fm_context_version = 0,
      fm_created_at = plb_timestamptz (sto_lib s) (pi_processed_at input)\<rparr>"

definition family_check :: "family_row \<Rightarrow> bool" where
  "family_check r \<longleftrightarrow>
     digest_shape (fm_incident_id r) \<and> 1 \<le> char_length (fm_account r) \<and> char_length (fm_account r) \<le> 128
     \<and> valid_detection_status (fm_status r) \<and> 0 \<le> sint (fm_context_version r)
     \<and> (case fm_latest_generation r of None \<Rightarrow> True | Some g \<Rightarrow> 0 < sint g)"

text \<open>The INSERT does nothing on a natural-key conflict; one on the primary key is an error.\<close>

definition insert_family :: "store \<Rightarrow> process_input \<Rightarrow> database \<Rightarrow> perr + database" where
  "insert_family s input d =
     (if list_ex (natural_key input) (tb_families d) then Inr d
      else if list_ex (family_key (pi_scope input) (pi_incident_id input)) (tb_families d)
              \<or> \<not> family_check (family_of s input) then Inl PUnavailable
      else Inr (d\<lparr>tb_families := tb_families d @ [family_of s input]\<rparr>))"

definition select_family :: "process_input \<Rightarrow> database \<Rightarrow> perr + bytes" where
  "select_family input d =
     (case find (natural_key input) (tb_families d) of None \<Rightarrow> Inl PUnavailable | Some r \<Rightarrow> Inr (fm_incident_id r))"

section \<open>Generations\<close>

definition generation_of :: "store \<Rightarrow> process_input \<Rightarrow> bytes \<Rightarrow> generation_row" where
  "generation_of s input incident =
     (let tz = plb_timestamptz (sto_lib s) in
      \<lparr>gn_region = psc_region (pi_scope input), gn_tenant_id = psc_tenant_id (pi_scope input),
       gn_incident_id = incident, gn_generation = pi_generation input, gn_deployment_id = pi_deployment_id input,
       gn_episode_start = tz (pi_episode_start input), gn_first = tz (nl_event_time (pi_record input)),
       gn_latest = tz (nl_event_time (pi_record input)), gn_count = 0, gn_severity = pi_severity input,
       gn_status = pi_detection_status input, gn_quiet_at = tz (pi_quiet_at input),
       gn_reopen_until = tz (pi_reopen_until input), gn_rule_trigger = pi_rule_trigger input,
       gn_context_version = pi_context_version input\<rparr>)"

definition generation_key_of :: "persistence_scope \<Rightarrow> bytes \<Rightarrow> 64 word \<Rightarrow> generation_row \<Rightarrow> bool" where
  "generation_key_of sc incident generation r \<longleftrightarrow>
     in_scope sc (gn_region r) (gn_tenant_id r) \<and> gn_incident_id r = incident \<and> gn_generation r = generation"

definition episode_key :: "persistence_scope \<Rightarrow> bytes \<Rightarrow> bytes \<Rightarrow> gtime \<Rightarrow> generation_row \<Rightarrow> bool" where
  "episode_key sc incident deployment episode_start r \<longleftrightarrow>
     in_scope sc (gn_region r) (gn_tenant_id r) \<and> gn_incident_id r = incident
     \<and> gn_deployment_id r = deployment \<and> same_instant (gn_episode_start r) episode_start"

definition generation_check :: "generation_row \<Rightarrow> bool" where
  "generation_check r \<longleftrightarrow>
     0 < sint (gn_generation r) \<and> gn_count r < 9223372036854775808 \<and> 0 \<le> sint (gn_context_version r)
     \<and> valid_detection_status (gn_status r) \<and> valid_rule_trigger (gn_rule_trigger r)
     \<and> \<not> before (gn_latest r) (gn_first r) \<and> \<not> before (gn_quiet_at r) (gn_latest r)
     \<and> \<not> before (gn_reopen_until r) (gn_quiet_at r)"

text \<open>A conflict on either key of the table does nothing.\<close>

definition insert_generation :: "store \<Rightarrow> process_input \<Rightarrow> bytes \<Rightarrow> database \<Rightarrow> perr + database" where
  "insert_generation s input incident d =
     (let r = generation_of s input incident; sc = pi_scope input in
      if list_ex (generation_key_of sc incident (pi_generation input)) (tb_generations d)
         \<or> list_ex (episode_key sc incident (pi_deployment_id input) (gn_episode_start r)) (tb_generations d)
      then Inr d
      else if \<not> list_ex (family_key sc incident) (tb_families d) \<or> \<not> generation_check r then Inl PUnavailable
      else Inr (d\<lparr>tb_generations := tb_generations d @ [r]\<rparr>))"

definition select_generation :: "store \<Rightarrow> process_input \<Rightarrow> bytes \<Rightarrow> database \<Rightarrow> perr + 64 word" where
  "select_generation s input incident d =
     (case find (episode_key (pi_scope input) incident (pi_deployment_id input)
                   (plb_timestamptz (sto_lib s) (pi_episode_start input))) (tb_generations d) of
        None \<Rightarrow>
          if list_ex (generation_key_of (pi_scope input) incident (pi_generation input)) (tb_generations d)
          then Inl PIdentityConflict else Inl PUnavailable
      | Some r \<Rightarrow> if gn_generation r \<noteq> pi_generation input then Inl PIdentityConflict else Inr (gn_generation r))"

text \<open>\<open>canonicalGeneration\<close>: the method that inserts the generation and reads back its identity.\<close>

definition canonical_generation_row ::
    "store \<Rightarrow> process_input \<Rightarrow> bytes \<Rightarrow> database \<Rightarrow> perr + (64 word \<times> database)" where
  "canonical_generation_row s input incident d =
     bind_err (insert_generation s input incident d) (\<lambda>d.
     bind_err (select_generation s input incident d) (\<lambda>generation. Inr (generation, d)))"

definition count_occurrence :: "store \<Rightarrow> process_input \<Rightarrow> generation_row \<Rightarrow> generation_row" where
  "count_occurrence s input r =
     (let tz = plb_timestamptz (sto_lib s); event = tz (nl_event_time (pi_record input)) in
      r\<lparr>gn_first := earlier (gn_first r) event, gn_latest := later (gn_latest r) event,
        gn_count := gn_count r + 1, gn_severity := pi_severity input, gn_status := pi_detection_status input,
        gn_quiet_at := later (gn_quiet_at r) (tz (pi_quiet_at input)),
        gn_reopen_until := later (gn_reopen_until r) (tz (pi_reopen_until input)),
        gn_context_version := max_int8 (gn_context_version r) (pi_context_version input)\<rparr>)"

definition update_generation ::
    "store \<Rightarrow> process_input \<Rightarrow> bytes \<Rightarrow> 64 word \<Rightarrow> database \<Rightarrow> perr + database" where
  "update_generation s input incident generation d =
     bind_err (update_checked (generation_key_of (pi_scope input) incident generation) (count_occurrence s input)
                 generation_check (tb_generations d))
       (\<lambda>rows. Inr (d\<lparr>tb_generations := rows\<rparr>))"

text \<open>\<open>ORDER BY episode_start DESC, deployment_id DESC LIMIT 1\<close>.\<close>

definition newer_episode :: "generation_row \<Rightarrow> generation_row \<Rightarrow> generation_row" where
  "newer_episode a b =
     (if after (gn_episode_start b) (gn_episode_start a)
         \<or> same_instant (gn_episode_start b) (gn_episode_start a) \<and> gn_deployment_id a < gn_deployment_id b
      then b else a)"

definition newest_generation :: "persistence_scope \<Rightarrow> bytes \<Rightarrow> database \<Rightarrow> 64 word option" where
  "newest_generation sc incident d =
     (case filter (\<lambda>r. in_scope sc (gn_region r) (gn_tenant_id r) \<and> gn_incident_id r = incident) (tb_generations d) of
        [] \<Rightarrow> None
      | r # rows \<Rightarrow> Some (gn_generation (foldl newer_episode r rows)))"

definition touch_family :: "store \<Rightarrow> process_input \<Rightarrow> 64 word option \<Rightarrow> family_row \<Rightarrow> family_row" where
  "touch_family s input newest r =
     (let event = plb_timestamptz (sto_lib s) (nl_event_time (pi_record input)) in
      r\<lparr>fm_severity := pi_severity input, fm_status := pi_detection_status input, fm_latest_generation := newest,
        fm_latest_occurrence :=
          Some (case fm_latest_occurrence r of None \<Rightarrow> event | Some latest \<Rightarrow> later latest event)\<rparr>)"

definition update_family :: "store \<Rightarrow> process_input \<Rightarrow> bytes \<Rightarrow> database \<Rightarrow> perr + database" where
  "update_family s input incident d =
     bind_err (update_checked (family_key (pi_scope input) incident)
                 (touch_family s input (newest_generation (pi_scope input) incident d)) family_check (tb_families d))
       (\<lambda>rows. Inr (d\<lparr>tb_families := rows\<rparr>))"

section \<open>Occurrences and evidence\<close>

definition null_string :: "bytes \<Rightarrow> bytes option" where
  "null_string s = (if blank s then None else Some s)"

definition null_bytes :: "bytes \<Rightarrow> bytes option" where
  "null_bytes s = (if s = [] then None else Some s)"

definition encode_reference :: "store \<Rightarrow> process_input \<Rightarrow> perr + bytes" where
  "encode_reference s input =
     (case nl_raw_reference (pi_record input) of None \<Rightarrow> Inr []
      | Some reference \<Rightarrow> of_opt PInvalidInput (plb_reference (sto_lib s) reference))"

definition occurrence_of ::
    "store \<Rightarrow> process_input \<Rightarrow> bytes \<Rightarrow> 64 word \<Rightarrow> bytes \<Rightarrow> bytes \<Rightarrow> occurrence_row" where
  "occurrence_of s input incident generation summary reference =
     (let tz = plb_timestamptz (sto_lib s); r = pi_record input in
      \<lparr>oc_region = psc_region (pi_scope input), oc_tenant_id = psc_tenant_id (pi_scope input),
       oc_record_id = nl_record_id r, oc_incident_id = incident, oc_generation = generation,
       oc_event_time = tz (nl_event_time r), oc_observed_time = tz (nl_observed_time r),
       oc_fingerprint_version = pi_fingerprint_version input, oc_fingerprint = pi_fingerprint input,
       oc_summary = plb_jsonb (sto_lib s) summary, oc_severity_class = nl_severity_class r,
       oc_trace = null_string (ci_trace_id (nl_correlation r)), oc_span = null_string (ci_span_id (nl_correlation r)),
       oc_late = pi_late input, oc_evidence_only = pi_evidence_only input,
       oc_reference = map_option (plb_jsonb (sto_lib s)) (null_bytes reference)\<rparr>)"

definition insert_occurrence :: "persistence_scope \<Rightarrow> occurrence_row \<Rightarrow> database \<Rightarrow> perr + database" where
  "insert_occurrence sc r d =
     (if list_ex (\<lambda>x. oc_record_id x = oc_record_id r) (tb_occurrences d)
         \<or> \<not> list_ex (generation_key_of sc (oc_incident_id r) (oc_generation r)) (tb_generations d)
      then Inl PUnavailable
      else Inr (d\<lparr>tb_occurrences := tb_occurrences d @ [r]\<rparr>))"

definition evidence_of ::
    "store \<Rightarrow> process_input \<Rightarrow> evidence_input \<Rightarrow> bytes \<Rightarrow> 64 word \<Rightarrow> bytes \<Rightarrow> bytes \<Rightarrow> evidence_row" where
  "evidence_of s input e incident generation summary reference =
     (let tz = plb_timestamptz (sto_lib s) in
      \<lparr>er_region = psc_region (pi_scope input), er_tenant_id = psc_tenant_id (pi_scope input),
       er_evidence_id = ei_evidence_id e, er_incident_id = incident, er_generation = generation,
       er_version = ei_version e, er_classification = ei_classification e, er_payload = plb_jsonb (sto_lib s) summary,
       er_reference = map_option (plb_jsonb (sto_lib s)) (null_bytes reference), er_provenance = ei_provenance e,
       er_created_at = tz (ei_created_at e), er_expires_at = tz (ei_expires_at e)\<rparr>)"

definition evidence_check :: "evidence_row \<Rightarrow> bool" where
  "evidence_check r \<longleftrightarrow>
     uuidv7_shape (er_evidence_id r) \<and> 0 < sint (er_version r) \<and> store_classification (er_classification r)
     \<and> er_provenance r = normalized_log_provenance \<and> after (er_expires_at r) (er_created_at r)"

definition insert_evidence :: "persistence_scope \<Rightarrow> evidence_row \<Rightarrow> database \<Rightarrow> perr + database" where
  "insert_evidence sc r d =
     (if list_ex (\<lambda>x. in_scope sc (er_region x) (er_tenant_id x) \<and> er_evidence_id x = er_evidence_id r) (tb_evidence d)
         \<or> \<not> list_ex (generation_key_of sc (er_incident_id r) (er_generation r)) (tb_generations d)
         \<or> \<not> evidence_check r
      then Inl PUnavailable
      else Inr (d\<lparr>tb_evidence := tb_evidence d @ [r]\<rparr>))"

definition insert_occurrence_evidence ::
    "store \<Rightarrow> process_input \<Rightarrow> bytes \<Rightarrow> 64 word \<Rightarrow> database \<Rightarrow> perr + database" where
  "insert_occurrence_evidence s input incident generation d =
     bind_err (encode_occurrence_projection s (pi_record input)) (\<lambda>summary.
     bind_err (encode_reference s input) (\<lambda>reference.
     bind_err (insert_occurrence (pi_scope input) (occurrence_of s input incident generation summary reference) d) (\<lambda>d.
     (case pi_evidence input of None \<Rightarrow> Inr d
      | Some e \<Rightarrow>
          insert_evidence (pi_scope input) (evidence_of s input e incident generation summary reference) d))))"

end
