(* ===== verification/Transaction.thy ===== *)
theory Transaction
  imports Database
begin

text \<open>
  One transaction of the store: \<open>processOne\<close> with the rule window, the activation of an investigation and the
  append of a context, the loop over the inputs and \<open>ProcessBatch\<close> around them (\<open>internal/persistence/processing.go\<close>
  and \<open>appendInvestigationContextTx\<close> of \<open>orchestration.go\<close>).

  \<open>ExecuteTx\<close> runs its callback until an attempt is neither retried nor refused, and rolls back every other
  attempt; what the caller sees is one run of the callback and one of three ends (\<open>tx_end\<close>): committed, rolled
  back, or committed with the answer lost.
\<close>

section \<open>The rule window\<close>

definition five_minutes :: int where "five_minutes = 5 * go_minute"

text \<open>A contributing error of one generation.\<close>

definition rule_member :: "persistence_scope \<Rightarrow> bytes \<Rightarrow> 64 word \<Rightarrow> occurrence_row \<Rightarrow> bool" where
  "rule_member sc incident generation r \<longleftrightarrow>
     in_scope sc (oc_region r) (oc_tenant_id r) \<and> oc_incident_id r = incident \<and> oc_generation r = generation
     \<and> \<not> oc_evidence_only r \<and> oc_severity_class r = severity_class_error"

definition in_rule_window :: "gtime \<Rightarrow> occurrence_row \<Rightarrow> bool" where
  "in_rule_window endpoint r \<longleftrightarrow>
     after (oc_event_time r) (add_time endpoint (- five_minutes)) \<and> \<not> after (oc_event_time r) endpoint"

definition rule_count :: "persistence_scope \<Rightarrow> bytes \<Rightarrow> 64 word \<Rightarrow> gtime \<Rightarrow> database \<Rightarrow> nat" where
  "rule_count sc incident generation endpoint d =
     length (filter (\<lambda>r. rule_member sc incident generation r \<and> in_rule_window endpoint r) (tb_occurrences d))"

definition five_in_five_satisfied :: "store \<Rightarrow> process_input \<Rightarrow> bytes \<Rightarrow> database \<Rightarrow> bool" where
  "five_in_five_satisfied s input incident d \<longleftrightarrow>
     (let sc = pi_scope input; generation = pi_generation input;
          event = plb_timestamptz (sto_lib s) (nl_event_time (pi_record input))
      in list_ex (\<lambda>endpoint. rule_member sc incident generation endpoint
             \<and> \<not> before (oc_event_time endpoint) event \<and> before (oc_event_time endpoint) (add_time event five_minutes)
             \<and> 5 \<le> min 5 (rule_count sc incident generation (oc_event_time endpoint) d))
           (tb_occurrences d))"

section \<open>Contexts\<close>

definition investigation_key :: "persistence_scope \<Rightarrow> bytes \<Rightarrow> investigation_row \<Rightarrow> bool" where
  "investigation_key sc i r \<longleftrightarrow> in_scope sc (ig_region r) (ig_tenant_id r) \<and> ig_id r = i"

definition context_key :: "persistence_scope \<Rightarrow> bytes \<Rightarrow> 64 word \<Rightarrow> context_row \<Rightarrow> bool" where
  "context_key sc i version r \<longleftrightarrow>
     in_scope sc (xr_region r) (xr_tenant_id r) \<and> xr_investigation_id r = i \<and> xr_version r = version"

definition context_check :: "context_row \<Rightarrow> bool" where
  "context_check r \<longleftrightarrow> 0 < sint (xr_version r) \<and> store_classification (xr_classification r)"

definition insert_context :: "persistence_scope \<Rightarrow> context_row \<Rightarrow> database \<Rightarrow> perr + database" where
  "insert_context sc r d =
     (if list_ex (context_key sc (xr_investigation_id r) (xr_version r)) (tb_contexts d)
         \<or> \<not> list_ex (investigation_key sc (xr_investigation_id r)) (tb_investigations d) \<or> \<not> context_check r
      then Inl PUnavailable
      else Inr (d\<lparr>tb_contexts := tb_contexts d @ [r]\<rparr>))"

definition context_of ::
    "store \<Rightarrow> persistence_scope \<Rightarrow> bytes \<Rightarrow> 64 word \<Rightarrow> bytes \<Rightarrow> bytes \<Rightarrow> gtime \<Rightarrow> context_row" where
  "context_of s sc i version encoded classification created_at =
     \<lparr>xr_region = psc_region sc, xr_tenant_id = psc_tenant_id sc, xr_investigation_id = i, xr_version = version,
      xr_snapshot = plb_jsonb (sto_lib s) encoded, xr_classification = classification,
      xr_policy_version = vd_version (sto_validator s),
      xr_created_at = plb_timestamptz (sto_lib s) created_at\<rparr>"

text \<open>The stored context a replayed one has to equal in every sealed field.\<close>

definition same_context :: "context_row \<Rightarrow> context_row \<Rightarrow> bool" where
  "same_context a b \<longleftrightarrow>
     xr_snapshot a = xr_snapshot b \<and> xr_classification a = xr_classification b
     \<and> xr_policy_version a = xr_policy_version b \<and> same_instant (xr_created_at a) (xr_created_at b)"

definition set_context_version :: "persistence_scope \<Rightarrow> bytes \<Rightarrow> 64 word \<Rightarrow> database \<Rightarrow> perr + database" where
  "set_context_version sc i version d =
     bind_err (update_checked (investigation_key sc i) (\<lambda>r. r\<lparr>ig_context_version := version\<rparr>)
                 (\<lambda>r. 0 < sint (ig_context_version r)) (tb_investigations d))
       (\<lambda>rows. Inr (d\<lparr>tb_investigations := rows\<rparr>))"

text \<open>\<open>appendInvestigationContextTx\<close>: whether a context was appended.\<close>

definition append_context_tx :: "persistence_scope \<Rightarrow> context_row \<Rightarrow> database \<Rightarrow> perr + (bool \<times> database)" where
  "append_context_tx sc x d =
     (let i = xr_investigation_id x in
      case find (investigation_key sc i) (tb_investigations d) of None \<Rightarrow> Inl PInvalidInput
      | Some r \<Rightarrow>
          if sint (xr_version x) \<le> sint (ig_context_version r) then
            (if list_ex (\<lambda>c. context_key sc i (xr_version x) c \<and> same_context c x) (tb_contexts d) then Inr (False, d)
             else Inl PImmutable)
          else
            bind_err (insert_context sc x d) (\<lambda>d.
            bind_err (set_context_version sc i (xr_version x) d) (\<lambda>d. Inr (True, d))))"

section \<open>Activating an investigation\<close>

text \<open>The active investigation of a family; its row exists, or the SELECT finds nothing and fails.\<close>

definition select_active :: "persistence_scope \<Rightarrow> bytes \<Rightarrow> database \<Rightarrow> perr + bytes option" where
  "select_active sc incident d =
     (case find (family_key sc incident) (tb_families d) of None \<Rightarrow> Inl PUnavailable | Some r \<Rightarrow> Inr (fm_active r))"

definition set_family_context :: "persistence_scope \<Rightarrow> bytes \<Rightarrow> 64 word \<Rightarrow> database \<Rightarrow> perr + database" where
  "set_family_context sc incident version d =
     bind_err (update_checked (family_key sc incident) (\<lambda>r. r\<lparr>fm_context_version := version\<rparr>) family_check
                 (tb_families d))
       (\<lambda>rows. Inr (d\<lparr>tb_families := rows\<rparr>))"

definition update_active_context ::
    "store \<Rightarrow> persistence_scope \<Rightarrow> bytes \<Rightarrow> context_input \<Rightarrow> process_outcome \<Rightarrow> database
       \<Rightarrow> perr + (process_outcome \<times> database)" where
  "update_active_context s sc incident u out d =
     bind_err (select_active sc incident d) (\<lambda>active.
     case active of None \<Rightarrow> Inl PInvalidInput
     | Some i \<Rightarrow>
         (let out = out\<lparr>px_investigation_id := i\<rparr> in
          bind_err (encode_safe_value (sto_lib s) (cx_snapshot u)) (\<lambda>encoded.
          bind_err (append_context_tx sc
                      (context_of s sc i (cx_version u) encoded (cx_classification u) (cx_created_at u)) d) (\<lambda>(appended, d).
          if \<not> appended then Inr (out, d)
          else bind_err (set_family_context sc incident (cx_version u) d) (\<lambda>d. Inr (out, d))))))"

definition investigation_of :: "store \<Rightarrow> process_input \<Rightarrow> investigation_input \<Rightarrow> bytes \<Rightarrow> investigation_row" where
  "investigation_of s input iv incident =
     \<lparr>ig_region = psc_region (pi_scope input), ig_tenant_id = psc_tenant_id (pi_scope input),
      ig_id = ii_investigation_id iv, ig_incident_id = incident, ig_state = ''queued'',
      ig_trigger_reason = ii_trigger_reason iv, ig_context_version = ii_context_version iv,
      ig_queued_at = plb_timestamptz (sto_lib s) (pi_processed_at input), ig_started_at = None,
      ig_completed_at = None\<rparr>"

definition insert_investigation :: "persistence_scope \<Rightarrow> investigation_row \<Rightarrow> database \<Rightarrow> perr + database" where
  "insert_investigation sc r d =
     (if list_ex (investigation_key sc (ig_id r)) (tb_investigations d)
         \<or> \<not> list_ex (family_key sc (ig_incident_id r)) (tb_families d)
         \<or> \<not> uuidv7_shape (ig_id r) \<or> \<not> 0 < sint (ig_context_version r)
      then Inl PUnavailable
      else Inr (d\<lparr>tb_investigations := tb_investigations d @ [r]\<rparr>))"

definition insert_claim :: "persistence_scope \<Rightarrow> bytes \<Rightarrow> bytes \<Rightarrow> database \<Rightarrow> perr + database" where
  "insert_claim sc incident i d =
     (if list_ex (\<lambda>r. in_scope sc (cl_region r) (cl_tenant_id r)
                   \<and> (cl_incident_id r = incident \<or> cl_investigation_id r = i)) (tb_claims d)
         \<or> \<not> list_ex (\<lambda>r. investigation_key sc i r \<and> ig_incident_id r = incident) (tb_investigations d)
      then Inl PUnavailable
      else Inr (d\<lparr>tb_claims := tb_claims d @
             [\<lparr>cl_region = psc_region sc, cl_tenant_id = psc_tenant_id sc, cl_incident_id = incident,
               cl_investigation_id = i, cl_owner = None, cl_token = None, cl_expires_at = None, cl_sequence = 0\<rparr>]\<rparr>))"

definition outbox_key :: "persistence_scope \<Rightarrow> bytes \<Rightarrow> outbox_row \<Rightarrow> bool" where
  "outbox_key sc m r \<longleftrightarrow> in_scope sc (ob_region r) (ob_tenant_id r) \<and> ob_message_id r = m"

definition investigation_aggregate :: bytes where "investigation_aggregate = ''investigation''"

definition outbox_of :: "store \<Rightarrow> process_input \<Rightarrow> investigation_input \<Rightarrow> bytes \<Rightarrow> outbox_row" where
  "outbox_of s input iv attributes =
     (let tz = plb_timestamptz (sto_lib s); m = ii_outbox iv in
      \<lparr>ob_region = psc_region (pi_scope input), ob_tenant_id = psc_tenant_id (pi_scope input),
       ob_message_id = qu_message_id m, ob_deduplication_key = qu_deduplication_key m, ob_type = qu_type m,
       ob_aggregate_type = investigation_aggregate, ob_aggregate_id = ii_investigation_id iv,
       ob_payload_version = ''1.0'', ob_payload = qu_body m, ob_attributes = plb_jsonb (sto_lib s) attributes,
       ob_digest = outbox_content_digest (sto_lib s) m investigation_aggregate (ii_investigation_id iv)
                     assignment_schema_version,
       ob_state = ''pending'', ob_attempts = 0, ob_next_attempt_at = tz (pi_processed_at input),
       ob_claim_owner = None, ob_claim_token = None, ob_claim_expires_at = None,
       ob_created_at = tz (pi_processed_at input), ob_published_at = None, ob_last_error = None\<rparr>)"

definition outbox_check :: "outbox_row \<Rightarrow> bool" where
  "outbox_check r \<longleftrightarrow>
     uuidv7_shape (ob_message_id r) \<and> (case ob_claim_token r of None \<Rightarrow> True | Some t \<Rightarrow> uuidv7_shape t)
     \<and> length (ob_digest r) = 32 \<and> ob_state r \<in> {''pending'', ''claimed'', ''published''} \<and> ob_attempts r < 9223372036854775808
     \<and> (if ob_state r = ''claimed''
        then ob_claim_owner r \<noteq> None \<and> ob_claim_token r \<noteq> None \<and> ob_claim_expires_at r \<noteq> None
        else ob_claim_owner r = None \<and> ob_claim_token r = None \<and> ob_claim_expires_at r = None)
     \<and> (ob_state r = ''published'' \<longrightarrow> ob_published_at r \<noteq> None)"

definition insert_outbox :: "persistence_scope \<Rightarrow> outbox_row \<Rightarrow> database \<Rightarrow> perr + database" where
  "insert_outbox sc r d =
     (if list_ex (\<lambda>x. in_scope sc (ob_region x) (ob_tenant_id x)
                   \<and> (ob_message_id x = ob_message_id r \<or> ob_deduplication_key x = ob_deduplication_key r)) (tb_outbox d)
         \<or> \<not> outbox_check r
      then Inl PUnavailable
      else Inr (d\<lparr>tb_outbox := tb_outbox d @ [r]\<rparr>))"

definition set_active ::
    "persistence_scope \<Rightarrow> bytes \<Rightarrow> bytes \<Rightarrow> 64 word \<Rightarrow> database \<Rightarrow> perr + database" where
  "set_active sc incident i version d =
     bind_err (update_checked (family_key sc incident)
                 (\<lambda>r. r\<lparr>fm_active := Some i, fm_context_version := version\<rparr>) family_check (tb_families d))
       (\<lambda>rows. Inr (d\<lparr>tb_families := rows\<rparr>))"

definition activate_investigation ::
    "store \<Rightarrow> process_input \<Rightarrow> investigation_input \<Rightarrow> process_outcome \<Rightarrow> database
       \<Rightarrow> perr + (process_outcome \<times> database)" where
  "activate_investigation s input iv out d =
     (let sc = pi_scope input; incident = px_incident_id out in
      bind_err (select_active sc incident d) (\<lambda>active.
      case active of
        Some i \<Rightarrow>
          update_active_context s sc incident
            \<lparr>cx_version = ii_context_version iv, cx_snapshot = ii_context iv, cx_classification = ii_classification iv,
             cx_created_at = pi_processed_at input\<rparr> (out\<lparr>px_investigation_id := i\<rparr>) d
      | None \<Rightarrow>
          bind_err (encode_safe_value (sto_lib s) (ii_context iv)) (\<lambda>encoded.
          bind_err (of_opt PInvalidInput (plb_attributes (sto_lib s) (qu_attributes (ii_outbox iv)))) (\<lambda>attributes.
          bind_err (insert_investigation sc (investigation_of s input iv incident) d) (\<lambda>d.
          bind_err (insert_claim sc incident (ii_investigation_id iv) d) (\<lambda>d.
          bind_err (insert_context sc
                      (context_of s sc (ii_investigation_id iv) (ii_context_version iv) encoded (ii_classification iv)
                         (pi_processed_at input)) d) (\<lambda>d.
          bind_err (insert_outbox sc (outbox_of s input iv attributes) d) (\<lambda>d.
          bind_err (set_active sc incident (ii_investigation_id iv) (ii_context_version iv) d) (\<lambda>d.
            Inr (out\<lparr>px_investigation_id := ii_investigation_id iv, px_investigation_created := True\<rparr>, d))))))))))"

definition raise_generation_context ::
    "persistence_scope \<Rightarrow> bytes \<Rightarrow> 64 word \<Rightarrow> 64 word \<Rightarrow> database \<Rightarrow> perr + database" where
  "raise_generation_context sc incident generation version d =
     bind_err (update_checked (generation_key_of sc incident generation)
                 (\<lambda>r. r\<lparr>gn_context_version := max_int8 (gn_context_version r) version\<rparr>) generation_check (tb_generations d))
       (\<lambda>rows. Inr (d\<lparr>tb_generations := rows\<rparr>))"

definition activate_candidate ::
    "store \<Rightarrow> process_input \<Rightarrow> investigation_input \<Rightarrow> process_outcome \<Rightarrow> database
       \<Rightarrow> perr + (process_outcome \<times> database)" where
  "activate_candidate s input iv out d =
     bind_err (select_active (pi_scope input) (px_incident_id out) d) (\<lambda>active.
     case active of
       Some i \<Rightarrow> Inr (out\<lparr>px_investigation_id := i\<rparr>, d)
     | None \<Rightarrow>
         bind_err (activate_investigation s input iv out d) (\<lambda>(out', d).
         bind_err (raise_generation_context (pi_scope input) (px_incident_id out) (px_generation out)
                     (ii_context_version iv) d) (\<lambda>d. Inr (out', d))))"

section \<open>One record\<close>

definition attach_evidence_only :: "store \<Rightarrow> process_input \<Rightarrow> database \<Rightarrow> perr + (process_outcome \<times> database)" where
  "attach_evidence_only s input d =
     (let sc = pi_scope input;
          out = no_outcome\<lparr>px_record_id := nl_record_id (pi_record input), px_incident_id := pi_incident_id input,
                           px_generation := pi_generation input\<rparr>
      in if \<not> list_ex (\<lambda>r. family_key sc (pi_incident_id input) r \<and> natural_key input r) (tb_families d)
         then Inl PInvalidInput
         else if \<not> list_ex (\<lambda>r. generation_key_of sc (pi_incident_id input) (pi_generation input) r
                   \<and> episode_key sc (pi_incident_id input) (pi_deployment_id input)
                       (plb_timestamptz (sto_lib s) (pi_episode_start input)) r) (tb_generations d)
         then Inl PInvalidInput
         else
           bind_err (insert_occurrence_evidence s input (pi_incident_id input) (pi_generation input) d) (\<lambda>d.
             Inr (out, set_seen (nl_record_id (pi_record input)) (pi_incident_id input) (pi_generation input) d)))"

text \<open>The investigation part of \<open>processOne\<close>.\<close>

definition propose ::
    "store \<Rightarrow> process_input \<Rightarrow> process_outcome \<Rightarrow> database \<Rightarrow> perr + (process_outcome \<times> database)" where
  "propose s input out d =
     (case pi_investigation input of
        Some iv \<Rightarrow> activate_investigation s input iv out d
      | None \<Rightarrow>
     (case pi_candidate input of
        Some iv \<Rightarrow>
          if five_in_five_satisfied s input (px_incident_id out) d then activate_candidate s input iv out d
          else Inr (out, d)
      | None \<Rightarrow>
     (case pi_context_update input of
        Some u \<Rightarrow> update_active_context s (pi_scope input) (px_incident_id out) u out d
      | None \<Rightarrow> Inr (out, d))))"

definition process_contribution :: "store \<Rightarrow> process_input \<Rightarrow> database \<Rightarrow> perr + (process_outcome \<times> database)" where
  "process_contribution s input d =
     bind_err (insert_family s input d) (\<lambda>d.
     bind_err (select_family input d) (\<lambda>incident.
     bind_err (canonical_generation_row s input incident d) (\<lambda>(generation, d).
     bind_err (insert_occurrence_evidence s input incident generation d) (\<lambda>d.
     bind_err (update_generation s input incident generation d) (\<lambda>d.
     bind_err (update_family s input incident d) (\<lambda>d.
       propose s input
         (no_outcome\<lparr>px_record_id := nl_record_id (pi_record input), px_incident_id := incident,
                     px_generation := generation\<rparr>)
         (set_seen (nl_record_id (pi_record input)) incident generation d)))))))"

definition process_one ::
    "store \<Rightarrow> process_input \<Rightarrow> replay_identity \<Rightarrow> database \<Rightarrow> perr + (process_outcome \<times> database)" where
  "process_one s input replay d =
     (case find_seen d (nl_record_id (pi_record input)) of
        Some r \<Rightarrow> bind_err (replayed input replay r) (\<lambda>out. Inr (out, d))
      | None \<Rightarrow>
          bind_err (insert_seen s input replay d) (\<lambda>d.
          if pi_evidence_only input then attach_evidence_only s input d else process_contribution s input d))"

section \<open>The batch\<close>

fun process_all ::
    "store \<Rightarrow> (process_input \<times> replay_identity) list \<Rightarrow> database \<Rightarrow> perr + (process_outcome list \<times> database)" where
  "process_all s [] d = Inr ([], d)"
| "process_all s ((input, replay) # rest) d =
     bind_err (process_one s input replay d) (\<lambda>(out, d).
     bind_err (process_all s rest d) (\<lambda>(outs, d). Inr (out # outs, d)))"

datatype tx_end = TxCommitted | TxRolledBack | TxUnseen

record tx_env =
  tx_end :: tx_end
  tx_context_done :: bool

text \<open>\<open>ExecuteTx\<close> with \<open>databaseError\<close> applied to what it returns.\<close>

definition execute_tx ::
    "tx_env \<Rightarrow> (database \<Rightarrow> perr + ('a \<times> database)) \<Rightarrow> database \<Rightarrow> (perr + 'a) \<times> database" where
  "execute_tx env body d =
     (case tx_end env of
        TxRolledBack \<Rightarrow> (Inl (database_error (tx_context_done env) PUnavailable), d)
      | TxCommitted \<Rightarrow>
          (case body d of Inl e \<Rightarrow> (Inl (database_error (tx_context_done env) e), d) | Inr (x, d') \<Rightarrow> (Inr x, d'))
      | TxUnseen \<Rightarrow>
          (case body d of
             Inl e \<Rightarrow> (Inl (database_error (tx_context_done env) e), d)
           | Inr (x, d') \<Rightarrow> (Inl (database_error (tx_context_done env) PUnavailable), d')))"

definition process_batch ::
    "tx_env \<Rightarrow> store \<Rightarrow> process_input list \<Rightarrow> database \<Rightarrow> (perr + process_outcome list) \<times> database" where
  "process_batch env s inputs d =
     (case batch_preflight s inputs of
        Inl e \<Rightarrow> (Inl e, d)
      | Inr replays \<Rightarrow> execute_tx env (process_all s (zip inputs replays)) d)"

definition process :: "tx_env \<Rightarrow> store \<Rightarrow> process_input \<Rightarrow> database \<Rightarrow> (perr + process_outcome) \<times> database" where
  "process env s input d =
     (case process_batch env s [input] d of (Inl e, d') \<Rightarrow> (Inl e, d') | (Inr outs, d') \<Rightarrow> (Inr (hd outs), d'))"

end
