(* ===== verification/Leases.thy ===== *)
theory Leases
  imports Transaction
begin

text \<open>
  Investigation leases, contexts and the outbox (\<open>internal/persistence/orchestration.go\<close>): acquiring, renewing and
  completing an investigation, appending a context to it, and claiming, publishing and retrying outbox rows.
\<close>

text \<open>A statement outside a transaction has the three ends of a transaction.\<close>

section \<open>Investigation leases\<close>

record lease =
  le_scope :: persistence_scope
  le_incident_id :: bytes
  le_investigation_id :: bytes
  le_owner :: bytes
  le_token :: bytes
  le_expires_at :: gtime
  le_sequence :: nat

definition claim_of :: "persistence_scope \<Rightarrow> bytes \<Rightarrow> claim_row \<Rightarrow> bool" where
  "claim_of sc i r \<longleftrightarrow> in_scope sc (cl_region r) (cl_tenant_id r) \<and> cl_investigation_id r = i"

definition claim_check :: "claim_row \<Rightarrow> bool" where
  "claim_check r \<longleftrightarrow>
     (cl_owner r = None \<and> cl_token r = None \<and> cl_expires_at r = None
      \<or> cl_owner r \<noteq> None \<and> cl_token r \<noteq> None \<and> cl_expires_at r \<noteq> None)
     \<and> (case cl_token r of None \<Rightarrow> True | Some t \<Rightarrow> uuidv7_shape t) \<and> cl_sequence r < 9223372036854775808"

text \<open>A comparison with NULL is not true.\<close>

definition at_or_before :: "gtime option \<Rightarrow> gtime \<Rightarrow> bool" where
  "at_or_before t now \<longleftrightarrow> (case t of None \<Rightarrow> False | Some x \<Rightarrow> \<not> after x now)"

definition strictly_after :: "gtime option \<Rightarrow> gtime \<Rightarrow> bool" where
  "strictly_after t now \<longleftrightarrow> (case t of None \<Rightarrow> False | Some x \<Rightarrow> after x now)"

definition acquirable :: "persistence_scope \<Rightarrow> bytes \<Rightarrow> gtime \<Rightarrow> claim_row \<Rightarrow> bool" where
  "acquirable sc i now r \<longleftrightarrow> claim_of sc i r \<and> (cl_owner r = None \<or> at_or_before (cl_expires_at r) now)"

definition held_with :: "persistence_scope \<Rightarrow> bytes \<Rightarrow> bytes \<Rightarrow> gtime \<Rightarrow> claim_row \<Rightarrow> bool" where
  "held_with sc i token now r \<longleftrightarrow>
     claim_of sc i r \<and> cl_token r = Some token \<and> strictly_after (cl_expires_at r) now"

definition acquire_tx ::
    "store \<Rightarrow> persistence_scope \<Rightarrow> bytes \<Rightarrow> bytes \<Rightarrow> bytes \<Rightarrow> gtime \<Rightarrow> gtime \<Rightarrow> database
       \<Rightarrow> perr + (lease \<times> database)" where
  "acquire_tx s sc i owner token now expires_at d =
     (let tz = plb_timestamptz (sto_lib s) in
      case find (acquirable sc i (tz now)) (tb_claims d) of None \<Rightarrow> Inl PStaleClaim
      | Some r \<Rightarrow>
          bind_err (update_checked (acquirable sc i (tz now))
                      (\<lambda>r. r\<lparr>cl_owner := Some owner, cl_token := Some token, cl_expires_at := Some (tz expires_at),
                             cl_sequence := cl_sequence r + 1\<rparr>) claim_check (tb_claims d)) (\<lambda>rows.
          Inr (\<lparr>le_scope = sc, le_incident_id = cl_incident_id r, le_investigation_id = i, le_owner = owner,
                le_token = token, le_expires_at = expires_at, le_sequence = cl_sequence r + 1\<rparr>,
               d\<lparr>tb_claims := rows,
                 tb_investigations := update_rows (investigation_key sc i)
                   (\<lambda>r. r\<lparr>ig_state := ''claimed'',
                          ig_started_at := Some (case ig_started_at r of None \<Rightarrow> tz now | Some t \<Rightarrow> t)\<rparr>)
                   (tb_investigations d)\<rparr>)))"

definition acquire_investigation ::
    "tx_env \<Rightarrow> store \<Rightarrow> persistence_scope \<Rightarrow> bytes \<Rightarrow> bytes \<Rightarrow> bytes \<Rightarrow> gtime \<Rightarrow> int \<Rightarrow> database
       \<Rightarrow> (perr + lease) \<times> database" where
  "acquire_investigation env s sc i owner token now ttl d =
     (case safe_deadline now ttl of None \<Rightarrow> (Inl PInvalidInput, d)
      | Some expires_at \<Rightarrow>
          if \<not> valid_scope sc \<or> \<not> permits s sc \<or> \<not> valid_uuidv7 s i \<or> \<not> store_text owner max_lease_owner_bytes
             \<or> \<not> valid_uuidv7 s token then (Inl PInvalidInput, d)
          else execute_tx env (acquire_tx s sc i owner token now expires_at) d)"

definition renew_tx :: "store \<Rightarrow> lease \<Rightarrow> gtime \<Rightarrow> gtime \<Rightarrow> database \<Rightarrow> perr + (lease \<times> database)" where
  "renew_tx s le now expires_at d =
     (let tz = plb_timestamptz (sto_lib s);
          mine = (\<lambda>r. held_with (le_scope le) (le_investigation_id le) (le_token le) (tz now) r
                      \<and> cl_owner r = Some (le_owner le))
      in case find mine (tb_claims d) of None \<Rightarrow> Inl PStaleClaim
         | Some r \<Rightarrow>
             bind_err (update_checked mine
                         (\<lambda>r. r\<lparr>cl_expires_at := Some (tz expires_at), cl_sequence := cl_sequence r + 1\<rparr>) claim_check
                         (tb_claims d)) (\<lambda>rows.
             Inr (le\<lparr>le_expires_at := expires_at, le_incident_id := cl_incident_id r,
                     le_sequence := cl_sequence r + 1\<rparr>, d\<lparr>tb_claims := rows\<rparr>)))"

definition renew_investigation ::
    "tx_env \<Rightarrow> store \<Rightarrow> lease \<Rightarrow> gtime \<Rightarrow> int \<Rightarrow> database \<Rightarrow> (perr + lease) \<times> database" where
  "renew_investigation env s le now ttl d =
     (case safe_deadline now ttl of None \<Rightarrow> (Inl PInvalidInput, d)
      | Some expires_at \<Rightarrow>
          if \<not> valid_scope (le_scope le) \<or> \<not> permits s (le_scope le) \<or> \<not> valid_uuidv7 s (le_investigation_id le)
             \<or> \<not> store_text (le_owner le) max_lease_owner_bytes \<or> \<not> valid_uuidv7 s (le_token le)
          then (Inl PInvalidInput, d)
          else execute_tx env (renew_tx s le now expires_at) d)"

definition complete_tx :: "store \<Rightarrow> lease \<Rightarrow> gtime \<Rightarrow> database \<Rightarrow> perr + (unit \<times> database)" where
  "complete_tx s le at d =
     (let tz = plb_timestamptz (sto_lib s); sc = le_scope le; i = le_investigation_id le;
          mine = held_with sc i (le_token le) (tz at)
      in case find mine (tb_claims d) of None \<Rightarrow> Inl PStaleClaim
         | Some r \<Rightarrow>
             (let open_row = (\<lambda>g. investigation_key sc i g \<and> ig_state g \<noteq> ''completed'')
              in if length (filter open_row (tb_investigations d)) \<noteq> 1 then Inl PStaleClaim
                 else Inr ((),
                   d\<lparr>tb_claims := filter (\<lambda>r. \<not> mine r) (tb_claims d),
                     tb_investigations := update_rows open_row
                       (\<lambda>g. g\<lparr>ig_state := ''completed'', ig_completed_at := Some (tz at)\<rparr>) (tb_investigations d),
                     tb_families := update_rows
                       (\<lambda>f. family_key sc (cl_incident_id r) f \<and> fm_active f = Some i) (\<lambda>f. f\<lparr>fm_active := None\<rparr>)
                       (tb_families d)\<rparr>)))"

definition complete_investigation ::
    "tx_env \<Rightarrow> store \<Rightarrow> lease \<Rightarrow> gtime \<Rightarrow> database \<Rightarrow> (perr + unit) \<times> database" where
  "complete_investigation env s le at d =
     (if \<not> valid_scope (le_scope le) \<or> \<not> permits s (le_scope le) \<or> \<not> valid_uuidv7 s (le_investigation_id le)
         \<or> \<not> valid_uuidv7 s (le_token le) \<or> \<not> valid_utc at then (Inl PInvalidInput, d)
      else execute_tx env (complete_tx s le at) d)"

section \<open>Contexts\<close>

record investigation_context =
  ic_scope :: persistence_scope
  ic_investigation_id :: bytes
  ic_version :: "64 word"
  ic_snapshot :: safe_value
  ic_classification :: bytes
  ic_policy_version :: bytes
  ic_created_at :: gtime

definition append_tx :: "store \<Rightarrow> investigation_context \<Rightarrow> bytes \<Rightarrow> database \<Rightarrow> perr + (unit \<times> database)" where
  "append_tx s c encoded d =
     (let sc = ic_scope c; i = ic_investigation_id c in
      bind_err (append_context_tx sc
                  (context_of s sc i (ic_version c) encoded (ic_classification c) (ic_created_at c)) d) (\<lambda>(_, d).
      bind_err (update_checked
                  (\<lambda>f. in_scope sc (fm_region f) (fm_tenant_id f) \<and> fm_active f = Some i)
                  (\<lambda>f. f\<lparr>fm_context_version := max_int8 (fm_context_version f) (ic_version c)\<rparr>) family_check
                  (tb_families d)) (\<lambda>rows.
        Inr ((), d\<lparr>tb_families := rows\<rparr>))))"

definition append_investigation_context ::
    "tx_env \<Rightarrow> store \<Rightarrow> investigation_context \<Rightarrow> database \<Rightarrow> (perr + unit) \<times> database" where
  "append_investigation_context env s c d =
     (if \<not> valid_scope (ic_scope c) \<or> \<not> permits s (ic_scope c) \<or> \<not> valid_uuidv7 s (ic_investigation_id c)
         \<or> sint (ic_version c) < 1 \<or> validate_value [] (ic_snapshot c) \<noteq> []
         \<or> \<not> store_classification (ic_classification c) \<or> ic_policy_version c \<noteq> vd_version (sto_validator s)
         \<or> \<not> valid_utc (ic_created_at c) \<or> \<not> vd_value (sto_validator s) (ic_snapshot c) then (Inl PInvalidInput, d)
      else case encode_safe_value (sto_lib s) (ic_snapshot c) of
             Inl e \<Rightarrow> (Inl e, d)
           | Inr encoded \<Rightarrow>
               if max_context_bytes < length encoded then (Inl PInvalidInput, d)
               else execute_tx env (append_tx s c encoded) d)"

section \<open>Claiming outbox rows\<close>

record outbox_claim =
  oq_scope :: persistence_scope
  oq_message :: queue_message
  oq_token :: bytes
  oq_owner :: bytes
  oq_attempt :: nat
  oq_expires_at :: gtime

definition claimable :: "persistence_scope \<Rightarrow> gtime \<Rightarrow> outbox_row \<Rightarrow> bool" where
  "claimable sc now r \<longleftrightarrow>
     in_scope sc (ob_region r) (ob_tenant_id r)
     \<and> (ob_state r = ''pending'' \<and> \<not> after (ob_next_attempt_at r) now
        \<or> ob_state r = ''claimed'' \<and> at_or_before (ob_claim_expires_at r) now)"

definition row_message :: "store \<Rightarrow> outbox_row \<Rightarrow> queue_message option" where
  "row_message s r =
     (case plb_read_attributes (sto_lib s) (ob_attributes r) of None \<Rightarrow> None
      | Some attributes \<Rightarrow>
          Some \<lparr>qu_message_id = ob_message_id r, qu_deduplication_key = ob_deduplication_key r, qu_type = ob_type r,
                qu_body = ob_payload r, qu_attributes = attributes\<rparr>)"

text \<open>One scanned row: its attributes parse and its content digest is the recomputed one.\<close>

definition read_candidate :: "store \<Rightarrow> outbox_row \<Rightarrow> perr + (outbox_row \<times> queue_message)" where
  "read_candidate s r =
     (case row_message s r of None \<Rightarrow> Inl PUnavailable
      | Some m \<Rightarrow>
          if ob_digest r = outbox_content_digest (sto_lib s) m (ob_aggregate_type r) (ob_aggregate_id r) (ob_payload_version r)
          then Inr (r, m) else Inl PUnavailable)"

fun read_candidates :: "store \<Rightarrow> outbox_row list \<Rightarrow> perr + (outbox_row \<times> queue_message) list" where
  "read_candidates s [] = Inr []"
| "read_candidates s (r # rows) =
     bind_err (read_candidate s r) (\<lambda>c. bind_err (read_candidates s rows) (\<lambda>cs. Inr (c # cs)))"

text \<open>The family the LEFT JOINs attach to a row.\<close>

definition joined :: "database \<Rightarrow> outbox_row \<Rightarrow> (bytes \<times> family_row option) option" where
  "joined d r =
     map_option (\<lambda>g. (ig_incident_id g,
         find (\<lambda>f. fm_region f = ig_region g \<and> fm_tenant_id f = ig_tenant_id g \<and> fm_incident_id f = ig_incident_id g)
           (tb_families d)))
       (find (\<lambda>g. ig_region g = ob_region r \<and> ig_tenant_id g = ob_tenant_id r \<and> ig_id g = ob_aggregate_id r)
         (tb_investigations d))"

definition valid_assignment_outbox ::
    "store \<Rightarrow> persistence_scope \<Rightarrow> database \<Rightarrow> outbox_row \<Rightarrow> queue_message \<Rightarrow> bool" where
  "valid_assignment_outbox s sc d r m =
     (case decode_assignment (plb_uuid (sto_lib s)) (plb_assignment (sto_lib s)) (qu_body m) of
        None \<Rightarrow> False
      | Some payload \<Rightarrow>
     (case joined d r of
        Some (incident, Some f) \<Rightarrow>
          valid_outbox_message s m \<and> qu_type m = assignment_message_type
          \<and> ob_aggregate_type r = investigation_aggregate \<and> valid_uuidv7 s (ob_aggregate_id r)
          \<and> ob_payload_version r = assignment_schema_version
          \<and> qu_deduplication_key m = assignment_key (ob_aggregate_id r)
          \<and> as_schema_version payload = ob_payload_version r \<and> as_message_id payload = qu_message_id m
          \<and> as_message_type payload = qu_type m \<and> as_investigation_id payload = ob_aggregate_id r
          \<and> as_correlation_id payload = ob_aggregate_id r \<and> as_region payload = psc_region sc
          \<and> as_tenant_id payload = psc_tenant_id sc \<and> as_classification payload = sto_classification s
          \<and> same_instant (as_created_at payload) (ob_created_at r) \<and> as_incident_id payload = incident
          \<and> as_service_id payload = fm_service f \<and> as_environment payload = fm_environment f
          \<and> valid_assignment_attributes (qu_attributes m) (psc_region sc)
          \<and> list_ex (generation_key_of sc (as_incident_id payload) (as_incident_generation payload)) (tb_generations d)
          \<and> list_ex (context_key sc (as_investigation_id payload) (as_context_version payload)) (tb_contexts d)
      | _ \<Rightarrow> False))"

definition outbox_order :: "outbox_row \<Rightarrow> int \<times> bytes" where
  "outbox_order r = (t_inst (ob_created_at r), ob_message_id r)"

text \<open>
  The rows a claim selects: claimable and not locked by a competitor (\<open>SKIP LOCKED\<close>, the predicate
  \<open>locked\<close>), oldest first, as many as there are tokens.
\<close>

definition select_claimable ::
    "persistence_scope \<Rightarrow> gtime \<Rightarrow> (bytes \<Rightarrow> bool) \<Rightarrow> nat \<Rightarrow> database \<Rightarrow> outbox_row list" where
  "select_claimable sc now locked limit d =
     take limit (sort_key outbox_order
       (filter (\<lambda>r. claimable sc now r \<and> \<not> locked (ob_message_id r)) (tb_outbox d)))"

fun claim_rows ::
    "store \<Rightarrow> persistence_scope \<Rightarrow> bytes \<Rightarrow> gtime \<Rightarrow> (queue_message \<times> bytes) list \<Rightarrow> database
       \<Rightarrow> perr + (outbox_claim list \<times> database)" where
  "claim_rows s sc owner expires_at [] d = Inr ([], d)"
| "claim_rows s sc owner expires_at ((m, token) # rest) d =
     (case find (outbox_key sc (qu_message_id m)) (tb_outbox d) of None \<Rightarrow> Inl PUnavailable
      | Some r \<Rightarrow>
          bind_err (update_checked (outbox_key sc (qu_message_id m))
                      (\<lambda>r. r\<lparr>ob_state := ''claimed'', ob_attempts := ob_attempts r + 1, ob_claim_owner := Some owner,
                             ob_claim_token := Some token,
                             ob_claim_expires_at := Some (plb_timestamptz (sto_lib s) expires_at)\<rparr>)
                      outbox_check (tb_outbox d)) (\<lambda>rows.
          bind_err (claim_rows s sc owner expires_at rest (d\<lparr>tb_outbox := rows\<rparr>)) (\<lambda>(claims, d).
            Inr (\<lparr>oq_scope = sc, oq_message = m, oq_token = token, oq_owner = owner,
                  oq_attempt = ob_attempts r + 1, oq_expires_at = expires_at\<rparr> # claims, d))))"

definition claim_outbox_tx ::
    "store \<Rightarrow> persistence_scope \<Rightarrow> bytes \<Rightarrow> bytes list \<Rightarrow> gtime \<Rightarrow> gtime \<Rightarrow> (bytes \<Rightarrow> bool) \<Rightarrow> database
       \<Rightarrow> perr + (outbox_claim list \<times> database)" where
  "claim_outbox_tx s sc owner tokens now expires_at locked d =
     bind_err (read_candidates s
       (select_claimable sc (plb_timestamptz (sto_lib s) now) locked (length tokens) d)) (\<lambda>candidates.
       if \<not> list_all (\<lambda>(r, m). valid_assignment_outbox s sc d r m) candidates then Inl PUnavailable
       else claim_rows s sc owner expires_at (zip (map snd candidates) tokens) d)"

definition claim_outbox ::
    "tx_env \<Rightarrow> (bytes \<Rightarrow> bool) \<Rightarrow> store \<Rightarrow> persistence_scope \<Rightarrow> bytes \<Rightarrow> bytes list \<Rightarrow> gtime \<Rightarrow> int
       \<Rightarrow> database \<Rightarrow> (perr + outbox_claim list) \<times> database" where
  "claim_outbox env locked s sc owner tokens now ttl d =
     (if \<not> valid_scope sc \<or> \<not> permits s sc \<or> \<not> store_text owner max_lease_owner_bytes \<or> length tokens = 0
         \<or> max_claim_batch < length tokens then (Inl PInvalidInput, d)
      else case safe_deadline now ttl of None \<Rightarrow> (Inl PInvalidInput, d)
      | Some expires_at \<Rightarrow>
          if \<not> list_all (valid_uuidv7 s) tokens \<or> \<not> distinct tokens then (Inl PInvalidInput, d)
          else execute_tx env (claim_outbox_tx s sc owner tokens now expires_at locked) d)"

section \<open>Publishing and retrying\<close>

datatype outbox_failure = QueueUnavailable | TimedOut | LostAck | Rejected | OtherFailure bytes

fun failure_text :: "outbox_failure \<Rightarrow> bytes" where
  "failure_text QueueUnavailable = ''queue_unavailable''"
| "failure_text TimedOut = ''timeout''"
| "failure_text LostAck = ''lost_ack''"
| "failure_text Rejected = ''rejected''"
| "failure_text (OtherFailure s) = s"

definition valid_outbox_failure :: "outbox_failure \<Rightarrow> bool" where
  "valid_outbox_failure f \<longleftrightarrow>
     failure_text f \<in> {''queue_unavailable'', ''timeout'', ''lost_ack'', ''rejected''}"

definition claimed_with :: "outbox_claim \<Rightarrow> gtime \<Rightarrow> outbox_row \<Rightarrow> bool" where
  "claimed_with c now r \<longleftrightarrow>
     outbox_key (oq_scope c) (qu_message_id (oq_message c)) r \<and> ob_claim_token r = Some (oq_token c)
     \<and> ob_state r = ''claimed'' \<and> strictly_after (ob_claim_expires_at r) now"

text \<open>An UPDATE that has to touch exactly one row; the row changed even when the count is refused.\<close>

definition update_claimed ::
    "outbox_claim \<Rightarrow> gtime \<Rightarrow> (outbox_row \<Rightarrow> outbox_row) \<Rightarrow> database \<Rightarrow> perr + (nat \<times> database)" where
  "update_claimed c now f d =
     bind_err (update_checked (claimed_with c now) f outbox_check (tb_outbox d)) (\<lambda>rows.
       Inr (length (filter (claimed_with c now) (tb_outbox d)), d\<lparr>tb_outbox := rows\<rparr>))"

definition affected_one :: "(perr + nat) \<times> database \<Rightarrow> (perr + unit) \<times> database" where
  "affected_one p =
     (case p of (Inl e, d) \<Rightarrow> (Inl e, d) | (Inr n, d) \<Rightarrow> (if n \<noteq> 1 then Inl PStaleClaim else Inr (), d))"

definition release_row :: "outbox_row \<Rightarrow> outbox_row" where
  "release_row r = r\<lparr>ob_claim_owner := None, ob_claim_token := None, ob_claim_expires_at := None\<rparr>"

definition mark_outbox_published ::
    "tx_env \<Rightarrow> store \<Rightarrow> outbox_claim \<Rightarrow> gtime \<Rightarrow> database \<Rightarrow> (perr + unit) \<times> database" where
  "mark_outbox_published env s c at d =
     (if \<not> valid_scope (oq_scope c) \<or> \<not> permits s (oq_scope c) \<or> \<not> valid_uuidv7 s (qu_message_id (oq_message c))
         \<or> \<not> valid_uuidv7 s (oq_token c) \<or> \<not> valid_utc at then (Inl PInvalidInput, d)
      else
        (let at' = plb_timestamptz (sto_lib s) at in
         affected_one (execute_tx env
           (update_claimed c at'
             (\<lambda>r. (release_row r)\<lparr>ob_state := ''published'', ob_published_at := Some at', ob_last_error := None\<rparr>)) d)))"

definition retry_outbox ::
    "tx_env \<Rightarrow> store \<Rightarrow> outbox_claim \<Rightarrow> outbox_failure \<Rightarrow> gtime \<Rightarrow> gtime \<Rightarrow> database
       \<Rightarrow> (perr + unit) \<times> database" where
  "retry_outbox env s c failure now next_attempt_at d =
     (if \<not> valid_scope (oq_scope c) \<or> \<not> permits s (oq_scope c) \<or> \<not> valid_uuidv7 s (qu_message_id (oq_message c))
         \<or> \<not> valid_uuidv7 s (oq_token c) \<or> \<not> valid_outbox_failure failure \<or> \<not> valid_utc now
         \<or> \<not> valid_utc next_attempt_at \<or> before next_attempt_at now then (Inl PInvalidInput, d)
      else
        (let tz = plb_timestamptz (sto_lib s) in
         affected_one (execute_tx env
           (update_claimed c (tz now)
             (\<lambda>r. (release_row r)\<lparr>ob_state := ''pending'', ob_next_attempt_at := tz next_attempt_at,
                                    ob_last_error := Some (failure_text failure)\<rparr>)) d)))"

end
