(* ===== verification/DatabaseFacts.thy ===== *)
theory DatabaseFacts
  imports Leases
begin

text \<open>
  What the statements of the store leave alone. The identity of a row is the part of it no UPDATE writes;
  \<open>extends d d'\<close> says that \<open>d'\<close> has the rows of \<open>d\<close>, in their order and with their identities, and new rows
  behind them. Every operation of the store extends the database.
\<close>

section \<open>Identities of rows\<close>

definition family_id :: "family_row \<Rightarrow> bytes list" where
  "family_id r = [fm_region r, fm_tenant_id r, fm_incident_id r, fm_account r, fm_service r, fm_environment r,
     fm_fingerprint_version r, fm_fingerprint r]"

definition generation_id :: "generation_row \<Rightarrow> bytes list \<times> 64 word \<times> gtime" where
  "generation_id r = ([gn_region r, gn_tenant_id r, gn_incident_id r, gn_deployment_id r], gn_generation r, gn_episode_start r)"

definition investigation_id :: "investigation_row \<Rightarrow> bytes list" where
  "investigation_id r = [ig_region r, ig_tenant_id r, ig_id r, ig_incident_id r]"

definition context_id :: "context_row \<Rightarrow> bytes list \<times> 64 word" where
  "context_id r = ([xr_region r, xr_tenant_id r, xr_investigation_id r], xr_version r)"

definition extends :: "database \<Rightarrow> database \<Rightarrow> bool" where
  "extends d d' \<longleftrightarrow>
     (\<exists>fs gs is cs.
        map family_id (tb_families d') = map family_id (tb_families d) @ fs
        \<and> map generation_id (tb_generations d') = map generation_id (tb_generations d) @ gs
        \<and> map investigation_id (tb_investigations d') = map investigation_id (tb_investigations d) @ is
        \<and> map context_id (tb_contexts d') = map context_id (tb_contexts d) @ cs)"

lemma extends_refl [simp]: "extends d d"
  by (simp add: extends_def)

lemma extends_trans:
  assumes "extends d1 d2" and "extends d2 d3"
  shows "extends d1 d3"
  using assms unfolding extends_def by fastforce

lemma extends_same:
  assumes "map family_id (tb_families d') = map family_id (tb_families d)"
    and "map generation_id (tb_generations d') = map generation_id (tb_generations d)"
    and "map investigation_id (tb_investigations d') = map investigation_id (tb_investigations d)"
    and "map context_id (tb_contexts d') = map context_id (tb_contexts d)"
  shows "extends d d'"
  unfolding extends_def using assms by simp

section \<open>Updates\<close>

lemma map_update_rows: "(\<And>r. g (f r) = g r) \<Longrightarrow> map g (update_rows P f rows) = map g rows"
  by (simp add: update_rows_def)

lemma set_update_rows: "x \<in> set (update_rows P f rows) \<longleftrightarrow> (\<exists>r\<in>set rows. x = (if P r then f r else r))"
  by (auto simp: update_rows_def)

lemma update_checked_Inr [simp]:
  "update_checked P f check rows = Inr rows' \<longleftrightarrow>
     list_all (\<lambda>r. P r \<longrightarrow> check (f r)) rows \<and> rows' = update_rows P f rows"
  by (auto simp: update_checked_def)

lemma filter_update_rows:
  assumes "\<And>r. Q (f r) = Q r"
  shows "length (filter Q (update_rows P f rows)) = length (filter Q rows)"
  by (induction rows) (auto simp: update_rows_def assms)

text \<open>A condition that only reads a projection no UPDATE changes.\<close>

lemma list_ex_map: "list_ex (\<lambda>r. Q (g r)) rows \<longleftrightarrow> list_ex Q (map g rows)"
  by (induction rows) auto

lemma find_map: "map_option g (find (\<lambda>r. Q (g r)) rows) = find Q (map g rows)"
  by (induction rows) auto

lemma find_append: "find Q (xs @ ys) = (case find Q xs of None \<Rightarrow> find Q ys | Some x \<Rightarrow> Some x)"
  by (induction xs) auto

lemma list_ex_iff_set: "list_ex Q xs \<longleftrightarrow> (\<exists>x\<in>set xs. Q x)"
  by (induction xs) auto

section \<open>Every statement extends the database\<close>

lemma insert_seen_extends: "insert_seen s input replay d = Inr d' \<Longrightarrow> extends d d'"
  by (auto simp: insert_seen_def extends_def split: if_splits)

lemma set_seen_extends [simp]: "extends d (set_seen i incident generation d)"
  by (simp add: set_seen_def extends_def)

lemma insert_family_extends: "insert_family s input d = Inr d' \<Longrightarrow> extends d d'"
  by (auto simp: insert_family_def extends_def split: if_splits)

lemma insert_generation_extends: "insert_generation s input incident d = Inr d' \<Longrightarrow> extends d d'"
  by (auto simp: insert_generation_def Let_def extends_def split: if_splits)

lemma canonical_generation_row_extends:
  "canonical_generation_row s input incident d = Inr (generation, d') \<Longrightarrow> extends d d'"
  by (auto simp: canonical_generation_row_def intro: insert_generation_extends)

lemma update_generation_extends: "update_generation s input incident generation d = Inr d' \<Longrightarrow> extends d d'"
  unfolding update_generation_def
  by (auto intro!: extends_same map_update_rows simp: generation_id_def count_occurrence_def Let_def)

lemma update_family_extends: "update_family s input incident d = Inr d' \<Longrightarrow> extends d d'"
  unfolding update_family_def
  by (auto intro!: extends_same map_update_rows simp: family_id_def touch_family_def Let_def)

lemma insert_occurrence_extends: "insert_occurrence sc r d = Inr d' \<Longrightarrow> extends d d'"
  by (auto simp: insert_occurrence_def extends_def split: if_splits)

lemma insert_evidence_extends: "insert_evidence sc r d = Inr d' \<Longrightarrow> extends d d'"
  by (auto simp: insert_evidence_def extends_def split: if_splits)

lemma insert_occurrence_evidence_extends:
  "insert_occurrence_evidence s input incident generation d = Inr d' \<Longrightarrow> extends d d'"
  by (auto simp: insert_occurrence_evidence_def split: option.splits
      intro: insert_occurrence_extends extends_trans [OF insert_occurrence_extends insert_evidence_extends])

lemma insert_context_extends: "insert_context sc r d = Inr d' \<Longrightarrow> extends d d'"
  by (auto simp: insert_context_def extends_def split: if_splits)

lemma set_context_version_extends: "set_context_version sc i version d = Inr d' \<Longrightarrow> extends d d'"
  unfolding set_context_version_def
  by (auto intro!: extends_same map_update_rows simp: investigation_id_def)

lemma append_context_tx_extends: "append_context_tx sc x d = Inr (b, d') \<Longrightarrow> extends d d'"
  by (auto simp: append_context_tx_def Let_def split: option.splits if_splits
      intro: extends_trans [OF insert_context_extends set_context_version_extends])

lemma set_family_context_extends: "set_family_context sc incident version d = Inr d' \<Longrightarrow> extends d d'"
  unfolding set_family_context_def by (auto intro!: extends_same map_update_rows simp: family_id_def)

lemma update_active_context_extends:
  "update_active_context s sc incident u out d = Inr (out', d') \<Longrightarrow> extends d d'"
  by (auto simp: update_active_context_def Let_def split: option.splits if_splits
      intro: append_context_tx_extends extends_trans [OF append_context_tx_extends set_family_context_extends])

lemma insert_investigation_extends: "insert_investigation sc r d = Inr d' \<Longrightarrow> extends d d'"
  by (auto simp: insert_investigation_def extends_def split: if_splits)

lemma insert_claim_extends: "insert_claim sc incident i d = Inr d' \<Longrightarrow> extends d d'"
  by (auto simp: insert_claim_def extends_def split: if_splits)

lemma insert_outbox_extends: "insert_outbox sc r d = Inr d' \<Longrightarrow> extends d d'"
  by (auto simp: insert_outbox_def extends_def split: if_splits)

lemma set_active_extends: "set_active sc incident i version d = Inr d' \<Longrightarrow> extends d d'"
  unfolding set_active_def by (auto intro!: extends_same map_update_rows simp: family_id_def)

lemma raise_generation_context_extends:
  "raise_generation_context sc incident generation version d = Inr d' \<Longrightarrow> extends d d'"
  unfolding raise_generation_context_def
  by (auto intro!: extends_same map_update_rows simp: generation_id_def)

lemmas statement_extends = insert_seen_extends insert_family_extends canonical_generation_row_extends
  update_generation_extends update_family_extends insert_occurrence_evidence_extends insert_context_extends
  update_active_context_extends insert_investigation_extends insert_claim_extends insert_outbox_extends
  set_active_extends raise_generation_context_extends append_context_tx_extends set_family_context_extends

lemma activate_investigation_extends:
  assumes "activate_investigation s input iv out d = Inr (out', d')"
  shows "extends d d'"
  using assms unfolding activate_investigation_def Let_def
  by (auto split: option.splits) (metis statement_extends extends_trans)+

lemma activate_candidate_extends: "activate_candidate s input iv out d = Inr (out', d') \<Longrightarrow> extends d d'"
  by (auto simp: activate_candidate_def split: option.splits
      intro: extends_trans [OF activate_investigation_extends raise_generation_context_extends])

lemma propose_extends: "propose s input out d = Inr (out', d') \<Longrightarrow> extends d d'"
  by (auto simp: propose_def split: option.splits if_splits
      intro: activate_investigation_extends activate_candidate_extends update_active_context_extends)

lemma attach_evidence_only_extends: "attach_evidence_only s input d = Inr (out, d') \<Longrightarrow> extends d d'"
  by (auto simp: attach_evidence_only_def Let_def split: if_splits
      intro: extends_trans [OF insert_occurrence_evidence_extends set_seen_extends])

lemma process_contribution_extends: "process_contribution s input d = Inr (out, d') \<Longrightarrow> extends d d'"
  unfolding process_contribution_def
  by (clarsimp, drule insert_family_extends, drule canonical_generation_row_extends,
      drule insert_occurrence_evidence_extends, drule update_generation_extends, drule update_family_extends,
      drule propose_extends)
    (meson set_seen_extends extends_trans)

lemma process_one_extends: "process_one s input replay d = Inr (out, d') \<Longrightarrow> extends d d'"
  by (auto simp: process_one_def split: option.splits if_splits
      intro: extends_trans [OF insert_seen_extends attach_evidence_only_extends]
        extends_trans [OF insert_seen_extends process_contribution_extends])

lemma process_all_extends: "process_all s pairs d = Inr (outs, d') \<Longrightarrow> extends d d'"
proof (induction s pairs d arbitrary: outs d' rule: process_all.induct)
  case (2 s input replay rest d)
  then show ?case
    by (auto intro: extends_trans [OF process_one_extends])
qed simp

section \<open>What the investigation part leaves alone\<close>

text \<open>The part of a generation the rule state is kept in, and the part of an outcome that names the record.\<close>

definition counted :: "generation_row \<Rightarrow> (bytes list \<times> 64 word \<times> gtime) \<times> nat" where
  "counted r = (generation_id r, gn_count r)"

definition outcome_id :: "process_outcome \<Rightarrow> bytes \<times> bool \<times> bytes \<times> 64 word" where
  "outcome_id out = (px_record_id out, px_duplicate out, px_incident_id out, px_generation out)"

definition same_held :: "database \<Rightarrow> database \<Rightarrow> bool" where
  "same_held d d' \<longleftrightarrow>
     tb_seen d' = tb_seen d \<and> tb_occurrences d' = tb_occurrences d
     \<and> map counted (tb_generations d') = map counted (tb_generations d)"

lemma same_held_trans: "same_held d1 d2 \<Longrightarrow> same_held d2 d3 \<Longrightarrow> same_held d1 d3"
  by (simp add: same_held_def)

lemma same_held_refl [simp]: "same_held d d"
  by (simp add: same_held_def)

lemma statement_same_records:
  "insert_family s input d = Inr d' \<Longrightarrow> same_held d d'"
  "update_family s input incident d = Inr d' \<Longrightarrow> same_held d d'"
  "append_context_tx sc x d = Inr (b, d') \<Longrightarrow> same_held d d'"
  "set_family_context sc incident version d = Inr d' \<Longrightarrow> same_held d d'"
  "raise_generation_context sc incident generation version d = Inr d' \<Longrightarrow> same_held d d'"
  by (auto simp: insert_family_def update_family_def append_context_tx_def insert_context_def set_context_version_def
      set_family_context_def raise_generation_context_def Let_def same_held_def counted_def generation_id_def
      intro!: map_update_rows split: if_splits option.splits)

text \<open>A new investigation: the rows it adds.\<close>

lemma activate_investigation_new:
  assumes "activate_investigation s input iv out d = Inr (out', d')"
    and "select_active (pi_scope input) (px_incident_id out) d = Inr None"
  obtains encoded attributes where "encode_safe_value (sto_lib s) (ii_context iv) = Inr encoded"
    and "plb_attributes (sto_lib s) (qu_attributes (ii_outbox iv)) = Some attributes"
    and "out' = out\<lparr>px_investigation_id := ii_investigation_id iv, px_investigation_created := True\<rparr>"
    and "\<not> list_ex (investigation_key (pi_scope input) (ii_investigation_id iv)) (tb_investigations d)"
    and "outbox_check (outbox_of s input iv attributes)"
    and "d' = d\<lparr>tb_investigations := tb_investigations d @ [investigation_of s input iv (px_incident_id out)],
               tb_claims := tb_claims d @ [\<lparr>cl_region = psc_region (pi_scope input),
                 cl_tenant_id = psc_tenant_id (pi_scope input), cl_incident_id = px_incident_id out,
                 cl_investigation_id = ii_investigation_id iv, cl_owner = None, cl_token = None, cl_expires_at = None,
                 cl_sequence = 0\<rparr>],
               tb_contexts := tb_contexts d @ [context_of s (pi_scope input) (ii_investigation_id iv)
                 (ii_context_version iv) encoded (ii_classification iv) (pi_processed_at input)],
               tb_outbox := tb_outbox d @ [outbox_of s input iv attributes],
               tb_families := update_rows (family_key (pi_scope input) (px_incident_id out))
                 (\<lambda>r. r\<lparr>fm_active := Some (ii_investigation_id iv), fm_context_version := ii_context_version iv\<rparr>)
                 (tb_families d)\<rparr>"
  using assms
  by (auto simp: activate_investigation_def insert_investigation_def insert_claim_def insert_context_def
      insert_outbox_def set_active_def investigation_of_def Let_def of_opt_def split: if_splits option.splits)

lemma select_active_Inl: "select_active sc incident d = Inl e \<Longrightarrow> \<not> (\<exists>x. select_active sc incident d = Inr x)"
  by simp

lemma activate_investigation_old:
  assumes "activate_investigation s input iv out d = Inr (out', d')"
    and "select_active (pi_scope input) (px_incident_id out) d = Inr (Some i)"
  shows "update_active_context s (pi_scope input) (px_incident_id out)
      \<lparr>cx_version = ii_context_version iv, cx_snapshot = ii_context iv, cx_classification = ii_classification iv,
       cx_created_at = pi_processed_at input\<rparr> (out\<lparr>px_investigation_id := i\<rparr>) d = Inr (out', d')"
  using assms by (simp add: activate_investigation_def Let_def)

lemma update_active_context_keeps:
  "update_active_context s sc incident u out d = Inr (out', d') \<Longrightarrow>
     same_held d d' \<and> outcome_id out' = outcome_id out \<and> tb_outbox d' = tb_outbox d"
  by (auto simp: update_active_context_def append_context_tx_def insert_context_def set_context_version_def
      set_family_context_def Let_def same_held_def outcome_id_def split: option.splits if_splits)

lemma activate_investigation_keeps:
  assumes "activate_investigation s input iv out d = Inr (out', d')"
  shows "same_held d d' \<and> outcome_id out' = outcome_id out"
proof -
  obtain active where a: "select_active (pi_scope input) (px_incident_id out) d = Inr active"
    using assms by (auto simp: activate_investigation_def Let_def)
  show ?thesis
  proof (cases active)
    case None
    from assms a [unfolded None] show ?thesis
      by (rule activate_investigation_new) (simp add: same_held_def outcome_id_def)
  next
    case (Some i)
    from update_active_context_keeps [OF activate_investigation_old [OF assms a [unfolded Some]]] show ?thesis
      by (simp add: outcome_id_def)
  qed
qed

lemma propose_keeps:
  assumes "propose s input out d = Inr (out', d')"
  shows "same_held d d' \<and> outcome_id out' = outcome_id out"
  using assms
  by (auto simp: propose_def activate_candidate_def outcome_id_def split: option.splits if_splits
      dest!: activate_investigation_keeps update_active_context_keeps statement_same_records(5)
      intro: same_held_trans)

end
