(* ===== verification/DatabaseInvariant.thy ===== *)
theory DatabaseInvariant
  imports DatabaseFacts
begin

text \<open>
  What the store promises about records. A record it reports as processed is \<open>held\<close>: seen once, with its
  incident and generation, and kept as an occurrence of that generation. \<open>records_ok\<close> is the invariant:
  every record seen is held, and every generation counts the contributing occurrences it has.
\<close>

section \<open>The invariant\<close>

definition held :: "database \<Rightarrow> bytes \<Rightarrow> bool" where
  "held d i \<longleftrightarrow>
     (\<exists>r\<in>set (tb_seen d). \<exists>x\<in>set (tb_occurrences d).
        sn_record_id r = i \<and> oc_record_id x = i \<and> sn_incident r = Some (oc_incident_id x)
        \<and> sn_generation r = Some (oc_generation x))"

definition occurs_in :: "generation_row \<Rightarrow> occurrence_row \<Rightarrow> bool" where
  "occurs_in g r \<longleftrightarrow>
     gn_region g = oc_region r \<and> gn_tenant_id g = oc_tenant_id r \<and> gn_incident_id g = oc_incident_id r
     \<and> gn_generation g = oc_generation r"

definition contributions :: "generation_row \<Rightarrow> database \<Rightarrow> nat" where
  "contributions g d = length (filter (\<lambda>r. \<not> oc_evidence_only r \<and> occurs_in g r) (tb_occurrences d))"

definition records_ok :: "database \<Rightarrow> bool" where
  "records_ok d \<longleftrightarrow>
     (\<forall>r\<in>set (tb_seen d). held d (sn_record_id r))
     \<and> (\<forall>x\<in>set (tb_occurrences d). find_seen d (oc_record_id x) \<noteq> None)
     \<and> (\<forall>g\<in>set (tb_generations d). gn_count g = contributions g d)
     \<and> (\<forall>x\<in>set (tb_occurrences d). \<exists>g\<in>set (tb_generations d). occurs_in g x)"

lemma records_ok_empty: "records_ok empty_database"
  by (simp add: records_ok_def empty_database_def)

section \<open>The invariant reads the record part only\<close>

lemma counted_fields:
  "counted g = counted g' \<Longrightarrow> gn_count g = gn_count g' \<and> occurs_in g r = occurs_in g' r"
  by (auto simp: counted_def generation_id_def occurs_in_def)

lemma map_eq_bex: "map f xs = map f ys \<Longrightarrow> x \<in> set xs \<Longrightarrow> \<exists>y\<in>set ys. f y = f x"
  by (metis image_iff image_set)

lemma same_held_ok:
  assumes "same_held d d'"
  shows "records_ok d' = records_ok d" and "held d' i = held d i" and "find_seen d' i = find_seen d i"
proof -
  have s: "tb_seen d' = tb_seen d" and x: "tb_occurrences d' = tb_occurrences d"
    and c: "map counted (tb_generations d') = map counted (tb_generations d)"
    using assms by (simp_all add: same_held_def)
  show h: "held d' i = held d i" for i
    by (simp add: held_def s x)
  show f: "find_seen d' i = find_seen d i" for i
    by (simp add: find_seen_def s)
  have e: "occurs_in g = occurs_in g'" "gn_count g = gn_count g'" if "counted g = counted g'" for g g'
    using counted_fields [OF that] by auto
  have k: "contributions g d' = contributions g d" for g
    by (simp add: contributions_def x)
  have t: "gn_count g = contributions g d \<longleftrightarrow> gn_count g' = contributions g' d" if "counted g = counted g'" for g g'
    by (simp add: contributions_def e [OF that])
  have "(\<forall>g\<in>set (tb_generations d'). gn_count g = contributions g d)
      = (\<forall>g\<in>set (tb_generations d). gn_count g = contributions g d)"
    using map_eq_bex [OF c] map_eq_bex [OF c [symmetric]] t by metis
  moreover have "(\<exists>g\<in>set (tb_generations d'). occurs_in g r) = (\<exists>g\<in>set (tb_generations d). occurs_in g r)" for r
    using map_eq_bex [OF c] map_eq_bex [OF c [symmetric]] e(1) by metis
  ultimately show "records_ok d' = records_ok d"
    by (simp add: records_ok_def h f s x k)
qed

section \<open>One record\<close>

lemma generation_key_of_cong:
  "generation_key_of sc incident generation (count_occurrence s input r) = generation_key_of sc incident generation r"
  by (simp add: generation_key_of_def count_occurrence_def Let_def)

lemma insert_occurrence_evidence_shape:
  assumes "insert_occurrence_evidence s input incident generation d = Inr d'"
  obtains summary reference where
    "tb_occurrences d' = tb_occurrences d @ [occurrence_of s input incident generation summary reference]"
    and "\<not> list_ex (\<lambda>x. oc_record_id x = nl_record_id (pi_record input)) (tb_occurrences d)"
    and "list_ex (generation_key_of (pi_scope input) incident generation) (tb_generations d)"
    and "tb_seen d' = tb_seen d" and "tb_generations d' = tb_generations d" and "tb_families d' = tb_families d"
    and "tb_outbox d' = tb_outbox d"
  using assms
  by (auto simp: insert_occurrence_evidence_def insert_occurrence_def insert_evidence_def occurrence_of_def Let_def
      split: option.splits if_splits)

lemma attach_evidence_only_shape:
  assumes "attach_evidence_only s input d = Inr (out, d')"
  obtains summary reference where
    "outcome_id out = (nl_record_id (pi_record input), False, pi_incident_id input, pi_generation input)"
    and "tb_occurrences d' = tb_occurrences d @ [occurrence_of s input (pi_incident_id input) (pi_generation input) summary reference]"
    and "list_ex (generation_key_of (pi_scope input) (pi_incident_id input) (pi_generation input)) (tb_generations d)"
    and "tb_seen d' = update_rows (\<lambda>r. sn_record_id r = nl_record_id (pi_record input))
          (\<lambda>r. r\<lparr>sn_incident := Some (pi_incident_id input), sn_generation := Some (pi_generation input)\<rparr>) (tb_seen d)"
    and "tb_generations d' = tb_generations d" and "tb_outbox d' = tb_outbox d"
proof -
  obtain d1 where i: "insert_occurrence_evidence s input (pi_incident_id input) (pi_generation input) d = Inr d1"
    and d': "d' = set_seen (nl_record_id (pi_record input)) (pi_incident_id input) (pi_generation input) d1"
    and out: "outcome_id out = (nl_record_id (pi_record input), False, pi_incident_id input, pi_generation input)"
    using assms by (auto simp: attach_evidence_only_def Let_def outcome_id_def no_outcome_def split: if_splits)
  from i show thesis
    by (rule insert_occurrence_evidence_shape) (rule that [OF out], auto simp: d' set_seen_def)
qed

lemma process_contribution_shape:
  assumes "process_contribution s input d = Inr (out, d')"
  obtains incident summary reference rows d1 where
    "outcome_id out = (nl_record_id (pi_record input), False, incident, pi_generation input)"
    and "insert_family s input d = Inr d1" and "select_family input d1 = Inr incident"
    and "tb_occurrences d' = tb_occurrences d @ [occurrence_of s input incident (pi_generation input) summary reference]"
    and "tb_seen d' = update_rows (\<lambda>r. sn_record_id r = nl_record_id (pi_record input))
          (\<lambda>r. r\<lparr>sn_incident := Some incident, sn_generation := Some (pi_generation input)\<rparr>) (tb_seen d)"
    and "map counted (tb_generations d') = map counted
          (update_rows (generation_key_of (pi_scope input) incident (pi_generation input)) (count_occurrence s input) rows)"
    and "rows = tb_generations d \<or> rows = tb_generations d @ [generation_of s input incident]
          \<and> \<not> list_ex (generation_key_of (pi_scope input) incident (pi_generation input)) (tb_generations d)"
    and "list_ex (generation_key_of (pi_scope input) incident (pi_generation input)) rows"
proof -
  obtain d1 incident generation d2 d3 d4 d5 where f: "insert_family s input d = Inr d1" "select_family input d1 = Inr incident"
    and g: "canonical_generation_row s input incident d1 = Inr (generation, d2)"
    and o: "insert_occurrence_evidence s input incident generation d2 = Inr d3"
    and u: "update_generation s input incident generation d3 = Inr d4" "update_family s input incident d4 = Inr d5"
    and p: "propose s input (no_outcome\<lparr>px_record_id := nl_record_id (pi_record input), px_incident_id := incident,
                     px_generation := generation\<rparr>) (set_seen (nl_record_id (pi_record input)) incident generation d5)
             = Inr (out, d')"
    using assms by (auto simp: process_contribution_def)
  have gen: "generation = pi_generation input" and i2: "insert_generation s input incident d1 = Inr d2"
    using g by (auto simp: canonical_generation_row_def select_generation_def split: option.splits if_splits)
  have d1: "tb_seen d1 = tb_seen d" "tb_occurrences d1 = tb_occurrences d" "tb_generations d1 = tb_generations d"
    using f(1) by (auto simp: insert_family_def split: if_splits)
  have d2: "tb_seen d2 = tb_seen d" "tb_occurrences d2 = tb_occurrences d"
    "tb_generations d2 = tb_generations d \<or> tb_generations d2 = tb_generations d @ [generation_of s input incident]
       \<and> \<not> list_ex (generation_key_of (pi_scope input) incident (pi_generation input)) (tb_generations d)"
    using i2 d1 by (auto simp: insert_generation_def Let_def split: if_splits)
  from o obtain summary reference where
    d3: "tb_occurrences d3 = tb_occurrences d @ [occurrence_of s input incident (pi_generation input) summary reference]"
    "list_ex (generation_key_of (pi_scope input) incident (pi_generation input)) (tb_generations d2)"
    "tb_seen d3 = tb_seen d" "tb_generations d3 = tb_generations d2"
    by (rule insert_occurrence_evidence_shape) (simp add: d2 gen)
  have d4: "tb_seen d4 = tb_seen d3" "tb_occurrences d4 = tb_occurrences d3"
    "tb_generations d4 = update_rows (generation_key_of (pi_scope input) incident (pi_generation input))
       (count_occurrence s input) (tb_generations d2)"
    using u(1) d3(4) by (auto simp: update_generation_def gen)
  have d5: "tb_seen d5 = tb_seen d4" "tb_occurrences d5 = tb_occurrences d4" "tb_generations d5 = tb_generations d4"
    using u(2) by (auto simp: update_family_def)
  have k: "same_held (set_seen (nl_record_id (pi_record input)) incident generation d5) d'"
    "outcome_id out = (nl_record_id (pi_record input), False, incident, pi_generation input)"
    using propose_keeps [OF p] by (simp_all add: outcome_id_def no_outcome_def gen)
  show thesis
    by (rule that [OF k(2) f, where rows = "tb_generations d2"])
      (use k(1) d2 d3 d4 d5 in \<open>auto simp: same_held_def set_seen_def gen\<close>)
qed

text \<open>The row a record has after its transaction, and what the tables look like around it.\<close>

definition settled :: "bytes \<Rightarrow> 64 word \<Rightarrow> seen_row \<Rightarrow> seen_row" where
  "settled incident generation r = r\<lparr>sn_incident := Some incident, sn_generation := Some generation\<rparr>"

lemma update_new_row:
  assumes "find (\<lambda>r. sn_record_id r = i) rows = None" and "sn_record_id x = i"
  shows "update_rows (\<lambda>r. sn_record_id r = i) f (rows @ [x]) = rows @ [f x]"
proof -
  have "update_rows (\<lambda>r. sn_record_id r = i) f rows = rows"
    using assms(1) by (induction rows) (auto simp: update_rows_def split: if_splits)
  then show ?thesis
    using assms(2) by (simp add: update_rows_def)
qed

definition added :: "seen_row \<Rightarrow> occurrence_row \<Rightarrow> database \<Rightarrow> database \<Rightarrow> bool" where
  "added r x d d' \<longleftrightarrow>
     find_seen d (sn_record_id r) = None \<and> oc_record_id x = sn_record_id r
     \<and> sn_incident r = Some (oc_incident_id x) \<and> sn_generation r = Some (oc_generation x)
     \<and> tb_seen d' = tb_seen d @ [r] \<and> tb_occurrences d' = tb_occurrences d @ [x]
     \<and> (\<exists>rows. (rows = tb_generations d \<or> (\<exists>g. rows = tb_generations d @ [g] \<and> gn_count g = 0
                   \<and> (\<forall>h\<in>set (tb_generations d). \<not> (\<forall>y. occurs_in h y = occurs_in g y))))
          \<and> (\<exists>g\<in>set rows. occurs_in g x)
          \<and> map counted (tb_generations d')
              = map (\<lambda>g. (generation_id g, gn_count g + (if \<not> oc_evidence_only x \<and> occurs_in g x then 1 else 0))) rows)"

lemma occurs_in_generation_id: "generation_id g = generation_id g' \<Longrightarrow> occurs_in g = occurs_in g'"
  by (auto simp: generation_id_def occurs_in_def fun_eq_iff)

lemma occurs_in_unique: "occurs_in g x \<Longrightarrow> occurs_in h x \<Longrightarrow> occurs_in g = occurs_in h"
  by (auto simp: occurs_in_def fun_eq_iff)

lemma added_keeps:
  assumes "added r x d d'" and "records_ok d"
  shows "records_ok d'" and "held d i \<Longrightarrow> held d' i" and "held d' (sn_record_id r)"
    and "find_seen d j = Some y \<Longrightarrow> find_seen d' j = Some y" and "find_seen d' (sn_record_id r) = Some r"
proof -
  have new: "find_seen d (sn_record_id r) = None" and x: "oc_record_id x = sn_record_id r"
    and rx: "sn_incident r = Some (oc_incident_id x)" "sn_generation r = Some (oc_generation x)"
    and t: "tb_seen d' = tb_seen d @ [r]" and oc: "tb_occurrences d' = tb_occurrences d @ [x]"
    using assms(1) by (simp_all add: added_def)
  obtain rows where rows: "rows = tb_generations d \<or> (\<exists>g. rows = tb_generations d @ [g] \<and> gn_count g = 0
                   \<and> (\<forall>h\<in>set (tb_generations d). \<not> (\<forall>y. occurs_in h y = occurs_in g y)))"
    and ex: "\<exists>g\<in>set rows. occurs_in g x"
    and c: "map counted (tb_generations d')
      = map (\<lambda>g. (generation_id g, gn_count g + (if \<not> oc_evidence_only x \<and> occurs_in g x then 1 else 0))) rows"
    using assms(1) unfolding added_def by blast
  show mono: "held d' i" if "held d i" for i
    using that by (auto simp: held_def t oc)
  show hx: "held d' (sn_record_id r)"
    by (auto simp: held_def t oc x rx)
  show st: "find_seen d' j = Some y" if "find_seen d j = Some y" for j y
    using that by (simp add: find_seen_def t find_append)
  show fr: "find_seen d' (sn_record_id r) = Some r"
    using new by (simp add: find_seen_def t find_append)
  have old: "gn_count g = contributions g d" if "g \<in> set rows" for g
  proof (cases "g \<in> set (tb_generations d)")
    case True
    with assms(2) show ?thesis
      by (simp add: records_ok_def)
  next
    case False
    with that rows have zero: "gn_count g = 0"
      and ne: "\<forall>h\<in>set (tb_generations d). \<not> (\<forall>y. occurs_in h y = occurs_in g y)"
      by auto
    have "\<not> occurs_in g y" if y: "y \<in> set (tb_occurrences d)" for y
    proof
      assume gy: "occurs_in g y"
      obtain h where "h \<in> set (tb_generations d)" "occurs_in h y"
        using assms(2) y by (auto simp: records_ok_def)
      with ne occurs_in_unique [OF gy] show False
        by metis
    qed
    then have "contributions g d = 0"
      by (simp add: contributions_def)
    with zero show ?thesis
      by simp
  qed
  have gens: "\<exists>h\<in>set rows. generation_id g = generation_id h
      \<and> gn_count g = gn_count h + (if \<not> oc_evidence_only x \<and> occurs_in h x then 1 else 0)"
    if "g \<in> set (tb_generations d')" for g
  proof -
    have "counted g \<in> set (map counted (tb_generations d'))"
      using that by simp
    then show ?thesis
      unfolding c by (auto simp: counted_def)
  qed
  have gens': "\<exists>g\<in>set (tb_generations d'). generation_id g = generation_id h" if "h \<in> set rows" for h
  proof -
    have "generation_id h \<in> fst ` set (map counted (tb_generations d'))"
      unfolding c using that by force
    then show ?thesis
      by (auto simp: counted_def)
  qed
  have "gn_count g = contributions g d'" if g: "g \<in> set (tb_generations d')" for g
  proof -
    obtain h where h: "h \<in> set rows" "generation_id g = generation_id h"
      "gn_count g = gn_count h + (if \<not> oc_evidence_only x \<and> occurs_in h x then 1 else 0)"
      using gens [OF g] by blast
    have "contributions g d' = contributions h d + (if \<not> oc_evidence_only x \<and> occurs_in h x then 1 else 0)"
      by (simp add: contributions_def oc occurs_in_generation_id [OF h(2)])
    with h(3) old [OF h(1)] show ?thesis
      by simp
  qed
  moreover have "\<exists>g\<in>set (tb_generations d'). occurs_in g y" if "y \<in> set (tb_occurrences d')" for y
  proof -
    have "\<exists>h\<in>set rows. occurs_in h y"
      using that ex rows assms(2) by (auto simp: oc records_ok_def)
    then show ?thesis
      using gens' occurs_in_generation_id by metis
  qed
  moreover have "held d' (sn_record_id y)" if "y \<in> set (tb_seen d')" for y
    using that hx mono assms(2) by (auto simp: t records_ok_def)
  moreover have "find_seen d' (oc_record_id y) \<noteq> None" if "y \<in> set (tb_occurrences d')" for y
    using that assms(2) st fr x by (fastforce simp: oc records_ok_def)
  ultimately show "records_ok d'"
    by (simp add: records_ok_def)
qed

lemma occurs_in_occurrence_of:
  "occurs_in g (occurrence_of s input incident generation summary reference)
     = generation_key_of (pi_scope input) incident generation g"
  by (auto simp: occurs_in_def occurrence_of_def generation_key_of_def in_scope_def Let_def)

lemma counted_update:
  assumes "\<And>g. P g = occurs_in g x" and "\<not> oc_evidence_only x"
  shows "map counted (update_rows P (count_occurrence s input) rows)
    = map (\<lambda>g. (generation_id g, gn_count g + (if \<not> oc_evidence_only x \<and> occurs_in g x then 1 else 0))) rows"
  using assms by (simp add: update_rows_def counted_def count_occurrence_def generation_id_def Let_def)

text \<open>The first time a record is processed, it is added with the incident and generation reported.\<close>

lemma process_one_added:
  assumes p: "process_one s input replay d = Inr (out, d')"
    and new: "find_seen d (nl_record_id (pi_record input)) = None"
  obtains incident summary reference where
    "outcome_id out = (nl_record_id (pi_record input), False, incident, pi_generation input)"
    and "added (settled incident (pi_generation input) (seen_of s input replay))
           (occurrence_of s input incident (pi_generation input) summary reference) d d'"
proof -
  let ?i = "nl_record_id (pi_record input)" and ?r = "seen_of s input replay"
  have seen: "update_rows (\<lambda>r. sn_record_id r = ?i) (\<lambda>r. r\<lparr>sn_incident := Some incident, sn_generation := Some generation\<rparr>)
      (tb_seen d @ [?r]) = tb_seen d @ [settled incident generation ?r]" for incident generation
    using new by (subst update_new_row) (auto simp: find_seen_def seen_of_def settled_def)
  have ids: "sn_record_id (settled incident generation ?r) = ?i"
    "sn_incident (settled incident generation ?r) = Some incident"
    "sn_generation (settled incident generation ?r) = Some generation" for incident generation
    by (simp_all add: settled_def seen_of_def)
  have fields: "oc_record_id (occurrence_of s input incident generation a b) = ?i"
    "oc_incident_id (occurrence_of s input incident generation a b) = incident"
    "oc_generation (occurrence_of s input incident generation a b) = generation"
    "oc_evidence_only (occurrence_of s input incident generation a b) = pi_evidence_only input" for incident generation a b
    by (simp_all add: occurrence_of_def Let_def)
  let ?d = "d\<lparr>tb_seen := tb_seen d @ [?r]\<rparr>"
  show thesis
  proof (cases "pi_evidence_only input")
    case True
    with p new have "attach_evidence_only s input ?d = Inr (out, d')"
      by (auto simp: process_one_def insert_seen_def split: if_splits)
    then show thesis
    proof (rule attach_evidence_only_shape)
      fix a b
      let ?x = "occurrence_of s input (pi_incident_id input) (pi_generation input) a b"
      assume o: "outcome_id out = (?i, False, pi_incident_id input, pi_generation input)"
        and oc: "tb_occurrences d' = tb_occurrences ?d @ [?x]"
        and ex: "list_ex (generation_key_of (pi_scope input) (pi_incident_id input) (pi_generation input)) (tb_generations ?d)"
        and sn: "tb_seen d' = update_rows (\<lambda>r. sn_record_id r = ?i)
          (\<lambda>r. r\<lparr>sn_incident := Some (pi_incident_id input), sn_generation := Some (pi_generation input)\<rparr>) (tb_seen ?d)"
        and g: "tb_generations d' = tb_generations ?d"
      have "\<exists>g\<in>set (tb_generations d). occurs_in g ?x"
        using ex by (simp add: list_ex_iff_set occurs_in_occurrence_of)
      moreover have "map counted (tb_generations d')
          = map (\<lambda>g. (generation_id g, gn_count g + (if \<not> oc_evidence_only ?x \<and> occurs_in g ?x then 1 else 0))) (tb_generations d)"
        using g True by (simp add: fields counted_def)
      ultimately have "added (settled (pi_incident_id input) (pi_generation input) ?r) ?x d d'"
        unfolding added_def using new oc sn by (simp add: ids fields seen) blast
      with o show thesis
        by (rule that)
    qed
  next
    case False
    with p new have "process_contribution s input ?d = Inr (out, d')"
      by (auto simp: process_one_def insert_seen_def split: if_splits)
    then show thesis
    proof (rule process_contribution_shape)
      fix incident a b rows
      let ?x = "occurrence_of s input incident (pi_generation input) a b"
      let ?k = "generation_key_of (pi_scope input) incident (pi_generation input)"
      assume o: "outcome_id out = (?i, False, incident, pi_generation input)"
        and oc: "tb_occurrences d' = tb_occurrences ?d @ [?x]"
        and sn: "tb_seen d' = update_rows (\<lambda>r. sn_record_id r = ?i)
          (\<lambda>r. r\<lparr>sn_incident := Some incident, sn_generation := Some (pi_generation input)\<rparr>) (tb_seen ?d)"
        and g: "map counted (tb_generations d') = map counted (update_rows ?k (count_occurrence s input) rows)"
        and rows: "rows = tb_generations ?d \<or> rows = tb_generations ?d @ [generation_of s input incident]
          \<and> \<not> list_ex ?k (tb_generations ?d)"
        and ex: "list_ex ?k rows"
      have xk: "occurs_in h ?x = ?k h" for h
        by (rule occurs_in_occurrence_of)
      have kg: "?k (generation_of s input incident)"
        by (simp add: generation_key_of_def generation_of_def in_scope_def Let_def)
      have "\<exists>g\<in>set rows. occurs_in g ?x"
        using ex by (simp add: list_ex_iff_set xk)
      moreover have "map counted (tb_generations d')
          = map (\<lambda>g. (generation_id g, gn_count g + (if \<not> oc_evidence_only ?x \<and> occurs_in g ?x then 1 else 0))) rows"
        unfolding g using False by (intro counted_update) (simp_all add: xk fields)
      moreover have "rows = tb_generations d \<or> (\<exists>g. rows = tb_generations d @ [g] \<and> gn_count g = 0
            \<and> (\<forall>h\<in>set (tb_generations d). \<not> (\<forall>y. occurs_in h y = occurs_in g y)))"
      proof (rule disjE [OF rows])
        assume "rows = tb_generations ?d @ [generation_of s input incident] \<and> \<not> list_ex ?k (tb_generations ?d)"
        then have r: "rows = tb_generations d @ [generation_of s input incident]" and no: "\<forall>h\<in>set (tb_generations d). \<not> ?k h"
          by (auto simp: list_ex_iff_set)
        have "\<not> (\<forall>y. occurs_in h y = occurs_in (generation_of s input incident) y)" if "h \<in> set (tb_generations d)" for h
          using no that kg xk by blast
        moreover have "gn_count (generation_of s input incident) = 0"
          by (simp add: generation_of_def Let_def)
        ultimately show ?thesis
          using r by blast
      qed simp
      ultimately have "added (settled incident (pi_generation input) ?r) ?x d d'"
        unfolding added_def using new oc sn by (simp add: ids fields seen) blast
      with o show thesis
        by (rule that)
    qed
  qed
qed

text \<open>A replay that agrees with the stored row changes nothing.\<close>

definition already_done :: "store \<Rightarrow> process_input \<times> replay_identity \<Rightarrow> database \<Rightarrow> process_outcome \<Rightarrow> bool" where
  "already_done s p d out \<longleftrightarrow>
     (\<exists>r. find_seen d (nl_record_id (pi_record (fst p))) = Some r \<and> replayed (fst p) (snd p) r = Inr out)"

lemma already_done_process: "already_done s (input, replay) d out \<Longrightarrow> process_one s input replay d = Inr (out, d)"
  by (auto simp: already_done_def process_one_def)

text \<open>What a caller reads off an outcome once the record has been replayed.\<close>

definition replay_of :: "process_outcome \<Rightarrow> process_outcome" where
  "replay_of out = no_outcome\<lparr>px_record_id := px_record_id out, px_duplicate := True,
                              px_incident_id := px_incident_id out, px_generation := px_generation out\<rparr>"

lemma process_one_effect:
  assumes p: "process_one s input replay d = Inr (out, d')" and ok: "records_ok d"
  shows "records_ok d'" and "\<And>i. held d i \<Longrightarrow> held d' i" and "held d' (nl_record_id (pi_record input))"
    and "\<And>j y. find_seen d j = Some y \<Longrightarrow> find_seen d' j = Some y"
    and "already_done s (input, replay) d' (replay_of out)" and "px_record_id out = nl_record_id (pi_record input)"
    and "px_duplicate out = (find_seen d (nl_record_id (pi_record input)) \<noteq> None)"
proof -
  let ?i = "nl_record_id (pi_record input)"
  have "records_ok d' \<and> (\<forall>i. held d i \<longrightarrow> held d' i) \<and> held d' ?i \<and> (\<forall>j y. find_seen d j = Some y \<longrightarrow> find_seen d' j = Some y)
    \<and> already_done s (input, replay) d' (replay_of out) \<and> px_record_id out = ?i
    \<and> px_duplicate out = (find_seen d ?i \<noteq> None)"
  proof (cases "find_seen d ?i")
    case None
    from p None show ?thesis
    proof (rule process_one_added)
      fix incident a b
      let ?r = "settled incident (pi_generation input) (seen_of s input replay)"
      assume o: "outcome_id out = (?i, False, incident, pi_generation input)"
        and a: "added ?r (occurrence_of s input incident (pi_generation input) a b) d d'"
      have i: "sn_record_id ?r = ?i"
        by (simp add: settled_def seen_of_def)
      have "replayed input replay ?r = Inr (replay_of out)"
        using o by (simp add: replayed_def settled_def seen_of_def replay_of_def outcome_id_def)
      then have "already_done s (input, replay) d' (replay_of out)"
        using added_keeps(5) [OF a ok] by (simp add: already_done_def i)
      then show ?thesis
        using added_keeps(1-4) [OF a ok] o None by (auto simp: i outcome_id_def)
    qed
  next
    case (Some r)
    then have out: "replayed input replay r = Inr out" and d': "d' = d"
      using p by (auto simp: process_one_def)
    have "r \<in> set (tb_seen d)" "sn_record_id r = ?i"
      using Some by (auto simp: find_seen_def find_Some_iff)
    then have "held d ?i"
      using ok by (auto simp: records_ok_def)
    moreover have "replay_of out = out" "px_record_id out = ?i" "px_duplicate out"
      using out by (auto simp: replayed_def replay_of_def no_outcome_def split: if_splits option.splits)
    ultimately show ?thesis
      using Some out ok d' by (auto simp: already_done_def)
  qed
  then show "records_ok d'" "\<And>i. held d i \<Longrightarrow> held d' i" "held d' ?i"
    "\<And>j y. find_seen d j = Some y \<Longrightarrow> find_seen d' j = Some y" "already_done s (input, replay) d' (replay_of out)"
    "px_record_id out = ?i" "px_duplicate out = (find_seen d ?i \<noteq> None)"
    by auto
qed

section \<open>The batch\<close>

lemma process_all_effect:
  "process_all s pairs d = Inr (outs, d') \<Longrightarrow> records_ok d \<Longrightarrow>
     records_ok d' \<and> (\<forall>i. held d i \<longrightarrow> held d' i) \<and> (\<forall>j y. find_seen d j = Some y \<longrightarrow> find_seen d' j = Some y)
     \<and> list_all2 (\<lambda>p out. held d' (nl_record_id (pi_record (fst p))) \<and> px_record_id out = nl_record_id (pi_record (fst p))
          \<and> already_done s p d' (replay_of out)) pairs outs"
proof (induction s pairs d arbitrary: outs d' rule: process_all.induct)
  case (2 s input replay rest d)
  obtain out d1 os where one: "process_one s input replay d = Inr (out, d1)"
    and rest: "process_all s rest d1 = Inr (os, d')" and outs: "outs = out # os"
    using 2(2) by auto
  note e = process_one_effect [OF one 2(3)]
  have r: "records_ok d' \<and> (\<forall>i. held d1 i \<longrightarrow> held d' i) \<and> (\<forall>j y. find_seen d1 j = Some y \<longrightarrow> find_seen d' j = Some y)
     \<and> list_all2 (\<lambda>p out. held d' (nl_record_id (pi_record (fst p))) \<and> px_record_id out = nl_record_id (pi_record (fst p))
          \<and> already_done s p d' (replay_of out)) rest os"
    using "2.IH" [OF rest e(1)] .
  have "already_done s (input, replay) d' (replay_of out)"
    using e(5) r by (auto simp: already_done_def)
  with r e outs show ?case
    by auto
qed simp

lemma process_all_replay:
  "list_all2 (\<lambda>p out. already_done s p d (replay_of out)) pairs outs \<Longrightarrow>
     process_all s pairs d = Inr (map replay_of outs, d)"
proof (induction s pairs d arbitrary: outs rule: process_all.induct)
  case (2 s input replay rest d)
  then obtain out os where o: "outs = out # os" "already_done s (input, replay) d (replay_of out)"
    "list_all2 (\<lambda>p out. already_done s p d (replay_of out)) rest os"
    by (auto simp: list_all2_Cons1)
  have one: "process_one s input replay d = Inr (replay_of out, d)"
    by (rule already_done_process [OF o(2)])
  show ?case
    using one "2.IH" [OF o(3)] by (simp add: o(1))
qed simp

lemma execute_tx_cases:
  assumes "execute_tx env body d = (r, d')"
  obtains (failed) e where "r = Inl e" "d' = d"
  | (finished) x where "r = Inr x" "body d = Inr (x, d')"
  | (unseen) e x where "r = Inl e" "body d = Inr (x, d')"
  using assms by (auto simp: execute_tx_def split: tx_end.splits sum.splits prod.splits)

lemma process_batch_cases:
  assumes "process_batch env s inputs d = (r, d')"
  obtains (failed) e where "r = Inl e" "d' = d"
  | (finished) replays outs where "batch_preflight s inputs = Inr replays" "r = Inr outs"
      "process_all s (zip inputs replays) d = Inr (outs, d')"
  | (unseen) replays outs e where "batch_preflight s inputs = Inr replays" "r = Inl e"
      "process_all s (zip inputs replays) d = Inr (outs, d')"
proof (cases "batch_preflight s inputs")
  case (Inl e)
  with assms show thesis
    by (intro failed) (auto simp: process_batch_def)
next
  case (Inr replays)
  with assms have "execute_tx env (process_all s (zip inputs replays)) d = (r, d')"
    by (simp add: process_batch_def)
  then show thesis
    by (cases rule: execute_tx_cases) (use Inr that in auto)
qed

lemma batch_replays_length: "batch_replays s inputs = Inr replays \<Longrightarrow> length replays = length inputs"
  by (induction inputs arbitrary: replays) auto

lemma batch_preflight_length: "batch_preflight s inputs = Inr replays \<Longrightarrow> length replays = length inputs"
  by (auto simp: batch_preflight_def batch_replays_length split: if_splits)

end
