(* ===== verification/OutboxSafety.thy ===== *)
theory OutboxSafety
  imports DatabaseInvariant
begin

text \<open>
  Every outbox row the store writes can be claimed. Claiming re-reads each row, recomputes its content
  digest and checks its assignment against the investigation, family, generation and context it points to;
  one row that fails the check makes every claim of the scope fail. \<open>outbox_ok\<close> says that no such row
  exists; every operation of the store preserves it, and a claim then succeeds.
\<close>

section \<open>What the store relies on\<close>

text \<open>The JSON text of an attribute map with one entry is read back from the column as that map.\<close>

definition attributes_ok :: "persistence_lib \<Rightarrow> bool" where
  "attributes_ok l \<longleftrightarrow>
     (\<forall>k v t. plb_attributes l [(k, v)] = Some t \<and> utf8_valid k \<and> utf8_valid v \<longrightarrow>
        plb_read_attributes l (plb_jsonb l t) = Some [(k, v)])"

text \<open>A TIMESTAMPTZ column keeps an instant of whole microseconds.\<close>

definition timestamptz_ok :: "persistence_lib \<Rightarrow> bool" where
  "timestamptz_ok l \<longleftrightarrow> (\<forall>t. t_inst t mod 1000 = 0 \<longrightarrow> same_instant (plb_timestamptz l t) t)"

definition whole_microseconds :: "process_input \<Rightarrow> bool" where
  "whole_microseconds input \<longleftrightarrow> t_inst (pi_processed_at input) mod 1000 = 0"

section \<open>The invariant\<close>

definition family_hash :: "store \<Rightarrow> family_row \<Rightarrow> bytes" where
  "family_hash s f =
     fmt_hex (plb_hash (sto_lib s)
       (join_strings [byte 0]
          [''incident:v1'', fm_account f, fm_region f, fm_service f, fm_environment f, fm_fingerprint_version f,
           fm_fingerprint f]))"

definition families_ok :: "store \<Rightarrow> database \<Rightarrow> bool" where
  "families_ok s d \<longleftrightarrow>
     (\<forall>f\<in>set (tb_families d). in_scope (sto_scope s) (fm_region f) (fm_tenant_id f) \<longrightarrow>
        fm_incident_id f = family_hash s f
        \<and> (\<forall>g\<in>set (tb_families d). family_key (sto_scope s) (fm_incident_id f) g \<longrightarrow> family_id g = family_id f))"

definition stored_message :: "store \<Rightarrow> database \<Rightarrow> outbox_row \<Rightarrow> bool" where
  "stored_message s d r \<longleftrightarrow>
     (\<exists>m. read_candidate s r = Inr (r, m) \<and> valid_assignment_outbox s (sto_scope s) d r m) \<and> outbox_check r"

definition outbox_ok :: "store \<Rightarrow> database \<Rightarrow> bool" where
  "outbox_ok s d \<longleftrightarrow>
     families_ok s d
     \<and> (\<forall>r\<in>set (tb_outbox d). in_scope (sto_scope s) (ob_region r) (ob_tenant_id r) \<longrightarrow> stored_message s d r)"

lemma outbox_ok_empty: "outbox_ok s empty_database"
  by (simp add: outbox_ok_def families_ok_def empty_database_def)

section \<open>The check only reads identities, so it survives every extension\<close>

lemma extends_maps:
  assumes "extends d d'"
  obtains fs gs iv cs where "map family_id (tb_families d') = map family_id (tb_families d) @ fs"
    and "map generation_id (tb_generations d') = map generation_id (tb_generations d) @ gs"
    and "map investigation_id (tb_investigations d') = map investigation_id (tb_investigations d) @ iv"
    and "map context_id (tb_contexts d') = map context_id (tb_contexts d) @ cs"
  using assms unfolding extends_def by blast

lemma extended_list_ex:
  assumes "map g rows' = map g rows @ ys" and "list_ex (\<lambda>r. Q (g r)) rows"
  shows "list_ex (\<lambda>r. Q (g r)) rows'"
  using assms by (simp add: list_ex_map [of Q g])

lemma extended_find:
  assumes "map g rows' = map g rows @ ys" and "find (\<lambda>r. Q (g r)) rows = Some r"
  shows "\<exists>r'. find (\<lambda>r. Q (g r)) rows' = Some r' \<and> g r' = g r"
proof -
  have "find Q (map g rows) = Some (g r)"
    using find_map [of g Q rows] assms(2) by simp
  then have "find Q (map g rows') = Some (g r)"
    by (simp add: assms(1) find_append)
  then show ?thesis
    using find_map [of g Q rows'] by (cases "find (\<lambda>r. Q (g r)) rows'") auto
qed

lemma key_identities:
  "generation_key_of sc incident generation r =
     (\<lambda>(n, w, t). in_scope sc (n ! 0) (n ! 1) \<and> n ! 2 = incident \<and> w = generation) (generation_id r)"
  "context_key sc i version c = (\<lambda>(n, w). in_scope sc (n ! 0) (n ! 1) \<and> n ! 2 = i \<and> w = version) (context_id c)"
  "(ig_region g = a \<and> ig_tenant_id g = b \<and> ig_id g = i)
     = (\<lambda>n. n ! 0 = a \<and> n ! 1 = b \<and> n ! 2 = i) (investigation_id g)"
  "(fm_region f = a \<and> fm_tenant_id f = b \<and> fm_incident_id f = i) = (\<lambda>n. n ! 0 = a \<and> n ! 1 = b \<and> n ! 2 = i) (family_id f)"
  by (simp_all add: generation_key_of_def generation_id_def context_key_def context_id_def investigation_id_def family_id_def)

lemma extends_generation:
  assumes "extends d d'" and "list_ex (generation_key_of sc incident generation) (tb_generations d)"
  shows "list_ex (generation_key_of sc incident generation) (tb_generations d')"
  using assms(1)
  by (rule extends_maps) (use assms(2) extended_list_ex in \<open>unfold key_identities(1) [abs_def], blast\<close>)

lemma extends_context:
  assumes "extends d d'" and "list_ex (context_key sc i version) (tb_contexts d)"
  shows "list_ex (context_key sc i version) (tb_contexts d')"
  using assms(1)
  by (rule extends_maps) (use assms(2) extended_list_ex in \<open>unfold key_identities(2) [abs_def], blast\<close>)

lemma extends_joined:
  assumes "extends d d'" and "joined d r = Some (incident, Some f)"
  shows "\<exists>f'. joined d' r = Some (incident, Some f') \<and> family_id f' = family_id f"
proof -
  obtain g where g: "find (\<lambda>g. ig_region g = ob_region r \<and> ig_tenant_id g = ob_tenant_id r \<and> ig_id g = ob_aggregate_id r)
        (tb_investigations d) = Some g"
    and inc: "incident = ig_incident_id g"
    and f: "find (\<lambda>f. fm_region f = ig_region g \<and> fm_tenant_id f = ig_tenant_id g \<and> fm_incident_id f = ig_incident_id g)
        (tb_families d) = Some f"
    using assms(2) by (auto simp: joined_def)
  obtain fs gs iv cs where m: "map family_id (tb_families d') = map family_id (tb_families d) @ fs"
    "map investigation_id (tb_investigations d') = map investigation_id (tb_investigations d) @ iv"
    using assms(1) by (rule extends_maps)
  obtain g' where g': "find (\<lambda>g. ig_region g = ob_region r \<and> ig_tenant_id g = ob_tenant_id r \<and> ig_id g = ob_aggregate_id r)
        (tb_investigations d') = Some g'" "investigation_id g' = investigation_id g"
    using extended_find [OF m(2) g [unfolded key_identities(3)]] unfolding key_identities(3) by blast
  obtain f' where f': "find (\<lambda>f. fm_region f = ig_region g \<and> fm_tenant_id f = ig_tenant_id g \<and> fm_incident_id f = ig_incident_id g)
        (tb_families d') = Some f'" "family_id f' = family_id f"
    using extended_find [OF m(1) f [unfolded key_identities(4)]] unfolding key_identities(4) by blast
  have e: "ig_region g' = ig_region g" "ig_tenant_id g' = ig_tenant_id g" "ig_incident_id g' = ig_incident_id g"
    using g'(2) by (simp_all add: investigation_id_def)
  show ?thesis
    using g'(1) f' by (simp add: joined_def e inc)
qed

lemma extends_valid_outbox:
  assumes "extends d d'" and "valid_assignment_outbox s sc d r m"
  shows "valid_assignment_outbox s sc d' r m"
proof -
  obtain payload where p: "decode_assignment (plb_uuid (sto_lib s)) (plb_assignment (sto_lib s)) (qu_body m) = Some payload"
    using assms(2) by (auto simp: valid_assignment_outbox_def split: option.splits)
  obtain incident f where j: "joined d r = Some (incident, Some f)"
    using assms(2) p by (auto simp: valid_assignment_outbox_def split: option.splits)
  obtain f' where j': "joined d' r = Some (incident, Some f')" and e: "family_id f' = family_id f"
    using extends_joined [OF assms(1) j] by blast
  have "fm_service f' = fm_service f" "fm_environment f' = fm_environment f"
    using e by (simp_all add: family_id_def)
  then show ?thesis
    using assms(2) by (auto simp: valid_assignment_outbox_def p j j' intro: extends_generation [OF assms(1)] extends_context [OF assms(1)])
qed

text \<open>Rows that agree in what a claim never writes.\<close>

definition sealed :: "outbox_row \<Rightarrow> outbox_row" where
  "sealed r = (release_row r)\<lparr>ob_state := [], ob_attempts := 0, ob_next_attempt_at := zero_time, ob_published_at := None,
                               ob_last_error := None\<rparr>"

lemma sealed_fields:
  assumes "sealed r' = sealed r"
  shows "ob_region r' = ob_region r" "ob_tenant_id r' = ob_tenant_id r" "ob_message_id r' = ob_message_id r"
    "row_message s r' = row_message s r" "ob_digest r' = ob_digest r" "ob_aggregate_type r' = ob_aggregate_type r"
    "ob_aggregate_id r' = ob_aggregate_id r" "ob_payload_version r' = ob_payload_version r"
    "ob_created_at r' = ob_created_at r"
proof -
  note f = arg_cong [OF assms]
  show "ob_region r' = ob_region r" "ob_tenant_id r' = ob_tenant_id r" "ob_message_id r' = ob_message_id r"
    "ob_digest r' = ob_digest r" "ob_aggregate_type r' = ob_aggregate_type r"
    "ob_aggregate_id r' = ob_aggregate_id r" "ob_payload_version r' = ob_payload_version r"
    "ob_created_at r' = ob_created_at r" "row_message s r' = row_message s r"
    using f [of ob_region] f [of ob_tenant_id] f [of ob_message_id] f [of ob_digest] f [of ob_aggregate_type]
      f [of ob_aggregate_id] f [of ob_payload_version] f [of ob_created_at] f [of ob_deduplication_key] f [of ob_type]
      f [of ob_payload] f [of ob_attributes]
    by (simp_all add: sealed_def release_row_def row_message_def split: option.split)
qed

lemma sealed_valid_outbox:
  assumes "sealed r' = sealed r"
  shows "valid_assignment_outbox s sc d r' m = valid_assignment_outbox s sc d r m"
proof -
  have "joined d r' = joined d r"
    by (simp add: joined_def sealed_fields [OF assms])
  then show ?thesis
    by (simp only: valid_assignment_outbox_def sealed_fields [OF assms])
qed

lemma stored_message_sealed:
  assumes "sealed r' = sealed r" and "extends d d'" and "outbox_check r'" and "stored_message s d r"
  shows "stored_message s d' r'"
proof -
  obtain m where m: "read_candidate s r = Inr (r, m)" "valid_assignment_outbox s (sto_scope s) d r m"
    using assms(4) by (auto simp: stored_message_def)
  have "read_candidate s r' = Inr (r', m)"
    using m(1) by (auto simp: read_candidate_def sealed_fields [OF assms(1)] split: option.splits if_splits)
  moreover have "valid_assignment_outbox s (sto_scope s) d' r' m"
    using extends_valid_outbox [OF assms(2) m(2)] by (simp add: sealed_valid_outbox [OF assms(1)])
  ultimately show ?thesis
    using assms(3) by (auto simp: stored_message_def)
qed

text \<open>\<open>families_ok\<close> and the rest of the invariant under each kind of change.\<close>

lemma families_ok_hash:
  "families_ok s d \<Longrightarrow> f \<in> set (tb_families d) \<Longrightarrow> in_scope (sto_scope s) (fm_region f) (fm_tenant_id f) \<Longrightarrow>
     fm_incident_id f = family_hash s f"
  by (simp add: families_ok_def)

lemma families_ok_unique:
  "families_ok s d \<Longrightarrow> f \<in> set (tb_families d) \<Longrightarrow> in_scope (sto_scope s) (fm_region f) (fm_tenant_id f) \<Longrightarrow>
     g \<in> set (tb_families d) \<Longrightarrow> family_key (sto_scope s) (fm_incident_id f) g \<Longrightarrow> family_id g = family_id f"
  by (simp add: families_ok_def)

lemma family_id_fields:
  assumes "family_id f = family_id g"
  shows "fm_region f = fm_region g" "fm_tenant_id f = fm_tenant_id g" "fm_incident_id f = fm_incident_id g"
    "fm_service f = fm_service g" "fm_environment f = fm_environment g" "family_hash s f = family_hash s g"
    "family_key sc i f = family_key sc i g" "natural_key input f = natural_key input g"
  using assms by (simp_all add: family_id_def family_hash_def family_key_def natural_key_def)

lemma families_ok_identities:
  assumes "map family_id (tb_families d') = map family_id (tb_families d)" and "families_ok s d"
  shows "families_ok s d'"
  unfolding families_ok_def
proof (intro ballI impI conjI)
  fix f
  assume f: "f \<in> set (tb_families d')" "in_scope (sto_scope s) (fm_region f) (fm_tenant_id f)"
  obtain f0 where f0: "f0 \<in> set (tb_families d)" "family_id f0 = family_id f"
    using map_eq_bex [OF assms(1) f(1)] by blast
  note e = family_id_fields [OF f0(2)]
  have sc: "in_scope (sto_scope s) (fm_region f0) (fm_tenant_id f0)"
    using f(2) by (simp add: e)
  show "fm_incident_id f = family_hash s f"
    using families_ok_hash [OF assms(2) f0(1) sc] by (simp add: e)
  fix g
  assume g: "g \<in> set (tb_families d')" "family_key (sto_scope s) (fm_incident_id f) g"
  obtain g0 where g0: "g0 \<in> set (tb_families d)" "family_id g0 = family_id g"
    using map_eq_bex [OF assms(1) g(1)] by blast
  have "family_key (sto_scope s) (fm_incident_id f0) g0"
    using g(2) by (simp add: e family_id_fields [OF g0(2)])
  then have "family_id g0 = family_id f0"
    by (rule families_ok_unique [OF assms(2) f0(1) sc g0(1)])
  then show "family_id g = family_id f"
    by (simp add: f0(2) g0(2))
qed

text \<open>A change that only touches outbox rows through \<open>f\<close>, and extends the rest.\<close>

lemma outbox_ok_update:
  assumes "outbox_ok s d" and "extends d d'" and "map family_id (tb_families d') = map family_id (tb_families d)"
    and "tb_outbox d' = update_rows P f (tb_outbox d)" and "\<And>r. sealed (f r) = sealed r"
    and "\<forall>r\<in>set (tb_outbox d). P r \<longrightarrow> outbox_check (f r)"
  shows "outbox_ok s d'"
  unfolding outbox_ok_def
proof (intro conjI ballI impI)
  show "families_ok s d'"
    using families_ok_identities [OF assms(3)] assms(1) by (simp add: outbox_ok_def)
  fix r'
  assume r': "r' \<in> set (tb_outbox d')" "in_scope (sto_scope s) (ob_region r') (ob_tenant_id r')"
  obtain r where r: "r \<in> set (tb_outbox d)" "r' = (if P r then f r else r)"
    using r'(1) by (auto simp: assms(4) set_update_rows)
  then have e: "sealed r' = sealed r"
    using assms(5) by simp
  have "stored_message s d r"
    using assms(1) r(1) r'(2) sealed_fields(1,2) [OF e] by (auto simp: outbox_ok_def)
  moreover from this have "outbox_check r'"
    using r assms(6) by (auto simp: stored_message_def)
  ultimately show "stored_message s d' r'"
    using stored_message_sealed [OF e assms(2)] by blast
qed

lemma update_rows_False: "update_rows (\<lambda>r. False) f rows = rows"
  by (simp add: update_rows_def)

lemma outbox_ok_same:
  assumes "outbox_ok s d" and "extends d d'" and "map family_id (tb_families d') = map family_id (tb_families d)"
    and "tb_outbox d' = tb_outbox d"
  shows "outbox_ok s d'"
  by (rule outbox_ok_update [OF assms(1-3), where P = "\<lambda>r. False" and f = "\<lambda>r. r"])
    (simp_all add: assms(4) update_rows_False)

section \<open>A new investigation's message\<close>

text \<open>The identity of the family of a valid input is the hash of the natural key.\<close>

lemma valid_input_parts:
  assumes "valid_process_input s input"
  shows "pi_scope input = sto_scope s" and "nl_region (pi_record input) = psc_region (pi_scope input)"
    and "valid_input_identity s input"
  using assms by (auto simp: valid_process_input_def valid_input_header_def permits_def split: if_splits)

lemma natural_key_hash:
  assumes v: "valid_process_input s input" and k: "natural_key input f"
  shows "family_hash s f = pi_incident_id input"
proof -
  obtain fp where fp: "fingerprint_of (plb_hash (sto_lib s)) (pi_record input) = Inr fp"
    and e: "pi_fingerprint_version input = fp_version fp" "pi_fingerprint input = fp_digest fp"
    using valid_input_parts(3) [OF v] by (auto simp: valid_input_identity_def split: sum.splits)
  have "incident_id (plb_hash (sto_lib s)) (pi_record input) fp = pi_incident_id input"
    using valid_input_parts(3) [OF v] fp by (simp add: valid_input_identity_def deterministic_id_def)
  then show ?thesis
    using k e valid_input_parts(2) [OF v]
    by (simp add: family_hash_def incident_id_def incident_preimage_def natural_key_def in_scope_def)
qed

lemma natural_key_family_of: "natural_key input (family_of s input)"
  by (simp add: natural_key_def family_of_def in_scope_def)

lemma insert_family_ok:
  assumes i: "insert_family s input d = Inr d'" and v: "valid_process_input s input" and ok: "families_ok s d"
  shows "families_ok s d'"
proof (cases "tb_families d' = tb_families d")
  case True
  with ok show ?thesis
    by (simp add: families_ok_def)
next
  case False
  let ?f = "family_of s input"
  have new: "tb_families d' = tb_families d @ [?f]"
    and no: "\<forall>g\<in>set (tb_families d). \<not> family_key (sto_scope s) (pi_incident_id input) g"
    using i False valid_input_parts(1) [OF v] by (auto simp: insert_family_def list_ex_iff_set split: if_splits)
  have fi: "fm_incident_id ?f = pi_incident_id input" "in_scope (sto_scope s) (fm_region ?f) (fm_tenant_id ?f)"
    using valid_input_parts(1) [OF v] by (simp_all add: family_of_def in_scope_def)
  have h: "family_hash s ?f = pi_incident_id input"
    using natural_key_hash [OF v natural_key_family_of] .
  show ?thesis
    unfolding families_ok_def
  proof (intro ballI impI conjI)
    fix f
    assume f: "f \<in> set (tb_families d')" "in_scope (sto_scope s) (fm_region f) (fm_tenant_id f)"
    then consider (first) "f = ?f" | (old) "f \<in> set (tb_families d)"
      by (auto simp: new)
    note c = this
    from c show "fm_incident_id f = family_hash s f"
      by cases (use families_ok_hash [OF ok _ f(2)] fi h in auto)
    fix g
    assume g: "g \<in> set (tb_families d')" "family_key (sto_scope s) (fm_incident_id f) g"
    from c show "family_id g = family_id f"
    proof cases
      case first
      with g no fi show ?thesis
        by (auto simp: new)
    next
      case old
      then have "f \<in> set (tb_families d) \<and> fm_incident_id f \<noteq> pi_incident_id input"
        using no f(2) by (auto simp: family_key_def)
      with g fi have "g \<in> set (tb_families d)"
        by (auto simp: new family_key_def)
      with old g(2) f(2) show ?thesis
        using families_ok_unique [OF ok] by blast
    qed
  qed
qed

text \<open>The family of an input: the one its natural key selects, and its identity is the input's.\<close>

lemma selected_family:
  assumes ok: "families_ok s d" and v: "valid_process_input s input" and sel: "select_family input d = Inr incident"
  obtains f where "f \<in> set (tb_families d)" "natural_key input f" "fm_incident_id f = incident"
    "incident = pi_incident_id input" "family_key (sto_scope s) incident f"
proof -
  obtain f where f: "find (natural_key input) (tb_families d) = Some f" "fm_incident_id f = incident"
    using sel by (auto simp: select_family_def split: option.splits)
  then have "f \<in> set (tb_families d)" "natural_key input f"
    by (auto simp: find_Some_iff)
  moreover from this have "in_scope (sto_scope s) (fm_region f) (fm_tenant_id f)"
    using valid_input_parts(1) [OF v] by (simp add: natural_key_def)
  ultimately show thesis
    using families_ok_hash [OF ok] natural_key_hash [OF v] f(2) by (intro that [of f]) (auto simp: family_key_def)
qed

lemma digest_bytes_utf8: "utf8_valid ''region''"
  by (rule ascii_utf8) code_simp

lemma valid_investigation_parts:
  assumes "valid_investigation s input iv"
  shows "valid_uuidv7 s (ii_investigation_id iv)" "valid_outbox_message s (ii_outbox iv)"
    "valid_assignment_for_process s input iv"
  using assms by (simp_all add: valid_investigation_def)

lemma assignment_attributes_region:
  assumes "valid_assignment_attributes a region" and "region \<noteq> []"
  shows "a = [(''region'', region)]"
proof -
  obtain k v where a: "a = [(k, v)]"
    using assms(1) by (cases a; cases "tl a") (auto simp: valid_assignment_attributes_def split: if_splits)
  show ?thesis
    using assms by (auto simp: a valid_assignment_attributes_def kv_get_def split: if_splits)
qed

lemma valid_scope_region: "valid_scope sc \<Longrightarrow> psc_region sc \<noteq> [] \<and> utf8_valid (psc_region sc)"
  by (auto simp: valid_scope_def store_text_def assignment_text_rune_def elim!: all_runes_utf8 split: if_splits)

lemma new_message_stored:
  assumes lib: "attributes_ok (sto_lib s)" "timestamptz_ok (sto_lib s)"
    and v: "valid_process_input s input" and us: "whole_microseconds input" and iv: "valid_investigation s input iv"
    and fam: "families_ok s d" and f: "f \<in> set (tb_families d)" "natural_key input f" "fm_incident_id f = pi_incident_id input"
    and gen: "list_ex (generation_key_of (sto_scope s) (pi_incident_id input) (pi_generation input)) (tb_generations d)"
    and act: "activate_investigation s input iv out d = Inr (out', d')"
    and none: "select_active (pi_scope input) (px_incident_id out) d = Inr None"
    and inc: "px_incident_id out = pi_incident_id input"
  shows "\<exists>r. tb_outbox d' = tb_outbox d @ [r] \<and> stored_message s d' r"
proof -
  have ext: "extends d d'"
    using activate_investigation_extends [OF act] .
  have sc: "pi_scope input = sto_scope s"
    using valid_input_parts(1) [OF v] .
  note parts = valid_investigation_parts [OF iv]
  from act none obtain encoded attributes where
    at: "plb_attributes (sto_lib s) (qu_attributes (ii_outbox iv)) = Some attributes"
    and fresh: "\<not> list_ex (investigation_key (pi_scope input) (ii_investigation_id iv)) (tb_investigations d)"
    and chk: "outbox_check (outbox_of s input iv attributes)"
    and ob: "tb_outbox d' = tb_outbox d @ [outbox_of s input iv attributes]"
    and ig: "tb_investigations d' = tb_investigations d @ [investigation_of s input iv (pi_incident_id input)]"
    and cs: "tb_contexts d' = tb_contexts d @ [context_of s (pi_scope input) (ii_investigation_id iv)
                 (ii_context_version iv) encoded (ii_classification iv) (pi_processed_at input)]"
    by (rule activate_investigation_new) (simp add: inc)
  let ?r = "outbox_of s input iv attributes" and ?m = "ii_outbox iv"
  obtain payload where p: "decode_assignment (plb_uuid (sto_lib s)) (plb_assignment (sto_lib s)) (qu_body ?m) = Some payload"
    using parts(3) by (auto simp: valid_assignment_for_process_def split: option.splits)
  have ap: "valid_assignment_attributes (qu_attributes ?m) (psc_region (sto_scope s))"
    using parts(3) p sc by (simp add: valid_assignment_for_process_def)
  have "valid_scope (sto_scope s)"
    using v sc by (auto simp: valid_process_input_def valid_input_header_def split: if_splits)
  then have region: "psc_region (sto_scope s) \<noteq> []" "utf8_valid (psc_region (sto_scope s))"
    using valid_scope_region by blast+
  have "plb_read_attributes (sto_lib s) (plb_jsonb (sto_lib s) attributes) = Some (qu_attributes ?m)"
    using lib(1) at region digest_bytes_utf8 assignment_attributes_region [OF ap region(1)]
    by (simp add: attributes_ok_def)
  then have m: "row_message s ?r = Some ?m"
    by (simp add: row_message_def outbox_of_def Let_def)
  have read: "read_candidate s ?r = Inr (?r, ?m)"
    using m by (simp add: read_candidate_def outbox_of_def Let_def assignment_schema_version_def)
  have j1: "find (\<lambda>g. ig_region g = ob_region ?r \<and> ig_tenant_id g = ob_tenant_id ?r \<and> ig_id g = ob_aggregate_id ?r)
      (tb_investigations d') = Some (investigation_of s input iv (pi_incident_id input))"
  proof -
    have "find (\<lambda>g. ig_region g = ob_region ?r \<and> ig_tenant_id g = ob_tenant_id ?r \<and> ig_id g = ob_aggregate_id ?r)
        (tb_investigations d) = None"
      using fresh by (auto simp: find_None_iff list_ex_iff_set investigation_key_def in_scope_def outbox_of_def Let_def)
    then show ?thesis
      by (simp add: ig find_append investigation_of_def outbox_of_def Let_def)
  qed
  have fk: "family_key (sto_scope s) (pi_incident_id input) f"
    using f sc by (simp add: family_key_def natural_key_def)
  obtain f' where f': "find (\<lambda>f. fm_region f = psc_region (sto_scope s) \<and> fm_tenant_id f = psc_tenant_id (sto_scope s)
        \<and> fm_incident_id f = pi_incident_id input) (tb_families d) = Some f'"
    using fk f(1) by (cases "find (\<lambda>f. fm_region f = psc_region (sto_scope s) \<and> fm_tenant_id f = psc_tenant_id (sto_scope s)
        \<and> fm_incident_id f = pi_incident_id input) (tb_families d)")
      (auto simp: find_None_iff family_key_def in_scope_def)
  then have "f' \<in> set (tb_families d)" "family_key (sto_scope s) (pi_incident_id input) f'"
    by (auto simp: find_Some_iff family_key_def in_scope_def)
  then have same: "family_id f' = family_id f"
    using families_ok_unique [OF fam f(1)] fk f(3) by (simp add: family_key_def)
  obtain fs where mf: "map family_id (tb_families d') = map family_id (tb_families d) @ fs"
    using ext by (rule extends_maps)
  obtain f2 where f2: "find (\<lambda>f. fm_region f = psc_region (sto_scope s) \<and> fm_tenant_id f = psc_tenant_id (sto_scope s)
        \<and> fm_incident_id f = pi_incident_id input) (tb_families d') = Some f2" "family_id f2 = family_id f'"
    using extended_find [OF mf f' [unfolded key_identities(4)]] unfolding key_identities(4) by blast
  have j: "joined d' ?r = Some (pi_incident_id input, Some f2)"
    using f2(1) by (simp add: joined_def j1) (simp add: investigation_of_def sc)
  have svc: "fm_service f2 = si_name (nl_service (pi_record input))"
    "fm_environment f2 = si_environment (nl_service (pi_record input))"
    using f(2) by (simp_all add: family_id_fields(4,5) [OF trans [OF f2(2) same]] natural_key_def)
  have tz: "same_instant (pi_processed_at input) (plb_timestamptz (sto_lib s) (pi_processed_at input))"
    using lib(2) us by (simp add: timestamptz_ok_def whole_microseconds_def same_instant_def)
  have ctx: "list_ex (context_key (sto_scope s) (ii_investigation_id iv) (ii_context_version iv)) (tb_contexts d')"
    by (simp add: cs list_ex_iff_set context_key_def context_of_def in_scope_def sc)
  have gen': "list_ex (generation_key_of (sto_scope s) (pi_incident_id input) (pi_generation input)) (tb_generations d')"
    using extends_generation [OF ext gen] .
  have r: "ob_aggregate_type ?r = investigation_aggregate" "ob_aggregate_id ?r = ii_investigation_id iv"
    "ob_payload_version ?r = assignment_schema_version"
    "ob_created_at ?r = plb_timestamptz (sto_lib s) (pi_processed_at input)"
    by (simp_all add: outbox_of_def Let_def assignment_schema_version_def)
  have "valid_assignment_outbox s (sto_scope s) d' ?r ?m"
    using parts p ap svc tz ctx gen' sc
    by (simp add: valid_assignment_outbox_def j r valid_assignment_for_process_def same_instant_def)
  with read chk ob show ?thesis
    by (auto simp: stored_message_def)
qed

section \<open>Processing preserves the invariant\<close>

lemma append_context_tx_families: "append_context_tx sc x d = Inr (b, d') \<Longrightarrow> tb_families d' = tb_families d"
  by (auto simp: append_context_tx_def insert_context_def set_context_version_def Let_def split: option.splits if_splits)

lemma set_family_context_families:
  "set_family_context sc incident version d = Inr d' \<Longrightarrow> map family_id (tb_families d') = map family_id (tb_families d)"
  by (auto simp: set_family_context_def family_id_def intro!: map_update_rows)

lemma update_active_context_families:
  "update_active_context s sc incident u out d = Inr (out', d') \<Longrightarrow>
     map family_id (tb_families d') = map family_id (tb_families d)"
  by (auto simp: update_active_context_def Let_def split: option.splits if_splits
      dest!: append_context_tx_families set_family_context_families)

lemma update_active_context_outbox_ok:
  "update_active_context s sc incident u out d = Inr (out', d') \<Longrightarrow> outbox_ok s d \<Longrightarrow> outbox_ok s d'"
  using update_active_context_keeps [of s sc incident u out d out' d']
  by (auto intro: outbox_ok_same update_active_context_extends update_active_context_families)

text \<open>The state an investigation is proposed in: the family and the generation of the input are there.\<close>

definition ready :: "store \<Rightarrow> process_input \<Rightarrow> process_outcome \<Rightarrow> database \<Rightarrow> bool" where
  "ready s input out d \<longleftrightarrow>
     px_incident_id out = pi_incident_id input
     \<and> (\<exists>f\<in>set (tb_families d). natural_key input f \<and> fm_incident_id f = pi_incident_id input)
     \<and> list_ex (generation_key_of (sto_scope s) (pi_incident_id input) (pi_generation input)) (tb_generations d)"

lemma activate_investigation_outbox_ok:
  assumes lib: "attributes_ok (sto_lib s)" "timestamptz_ok (sto_lib s)"
    and v: "valid_process_input s input" and us: "whole_microseconds input" and iv: "valid_investigation s input iv"
    and ok: "outbox_ok s d" and rdy: "ready s input out d"
    and act: "activate_investigation s input iv out d = Inr (out', d')"
  shows "outbox_ok s d'"
proof -
  obtain active where a: "select_active (pi_scope input) (px_incident_id out) d = Inr active"
    using act by (auto simp: activate_investigation_def Let_def)
  show ?thesis
  proof (cases active)
    case (Some i)
    from activate_investigation_old [OF act a [unfolded Some]] ok show ?thesis
      by (rule update_active_context_outbox_ok)
  next
    case None
    obtain f where f: "f \<in> set (tb_families d)" "natural_key input f" "fm_incident_id f = pi_incident_id input"
      using rdy by (auto simp: ready_def)
    have fam: "families_ok s d"
      using ok by (simp add: outbox_ok_def)
    obtain r where r: "tb_outbox d' = tb_outbox d @ [r]" "stored_message s d' r"
      using new_message_stored [OF lib v us iv fam f _ act a [unfolded None]] rdy by (auto simp: ready_def)
    have ids: "map family_id (tb_families d') = map family_id (tb_families d)"
      using act a [unfolded None]
      by (rule activate_investigation_new) (auto simp: family_id_def intro!: map_update_rows)
    have "stored_message s d' x" if "x \<in> set (tb_outbox d)" "in_scope (sto_scope s) (ob_region x) (ob_tenant_id x)" for x
    proof -
      have x: "stored_message s d x"
        using ok that by (simp add: outbox_ok_def)
      then have "outbox_check x"
        by (simp add: stored_message_def)
      from stored_message_sealed [OF refl activate_investigation_extends [OF act] this x] show ?thesis .
    qed
    then show ?thesis
      using families_ok_identities [OF ids fam] r by (auto simp: outbox_ok_def)
  qed
qed

lemma raise_generation_context_outbox_ok:
  "raise_generation_context sc incident generation version d = Inr d' \<Longrightarrow> outbox_ok s d \<Longrightarrow> outbox_ok s d'"
proof -
  assume r: "raise_generation_context sc incident generation version d = Inr d'" and ok: "outbox_ok s d"
  from r have "tb_families d' = tb_families d" "tb_outbox d' = tb_outbox d"
    by (auto simp: raise_generation_context_def)
  then show ?thesis
    by (intro outbox_ok_same [OF ok raise_generation_context_extends [OF r]]) simp_all
qed

lemma valid_input_proposal:
  assumes "valid_process_input s input" and "\<not> pi_evidence_only input"
  shows "pi_investigation input = Some iv \<Longrightarrow> valid_investigation s input iv"
    and "pi_investigation input = None \<Longrightarrow> pi_candidate input = Some iv \<Longrightarrow> valid_investigation s input iv"
  using assms by (auto simp: valid_process_input_def proposed_def split: if_splits)

lemma propose_outbox_ok:
  assumes lib: "attributes_ok (sto_lib s)" "timestamptz_ok (sto_lib s)"
    and v: "valid_process_input s input" "\<not> pi_evidence_only input" and us: "whole_microseconds input"
    and ok: "outbox_ok s d" and rdy: "ready s input out d" and p: "propose s input out d = Inr (out', d')"
  shows "outbox_ok s d'"
proof (cases "pi_investigation input")
  case (Some iv)
  with p have "activate_investigation s input iv out d = Inr (out', d')"
    by (simp add: propose_def)
  then show ?thesis
    using activate_investigation_outbox_ok [OF lib v(1) us valid_input_proposal(1) [OF v Some] ok rdy] by blast
next
  case no: None
  show ?thesis
  proof (cases "pi_candidate input")
    case (Some iv)
    note iv = valid_input_proposal(2) [OF v no Some]
    consider (none) "d' = d"
      | (old) i where "activate_candidate s input iv out d = Inr (out', d')" "select_active (pi_scope input) (px_incident_id out) d = Inr (Some i)"
      | (launched) out1 d1 where "activate_investigation s input iv out d = Inr (out1, d1)"
          "raise_generation_context (pi_scope input) (px_incident_id out) (px_generation out) (ii_context_version iv) d1 = Inr d'"
      using p no Some by (auto simp: propose_def activate_candidate_def split: if_splits option.splits)
    then show ?thesis
    proof cases
      case old
      then have "d' = d"
        by (simp add: activate_candidate_def)
      with ok show ?thesis
        by simp
    next
      case launched
      show ?thesis
        using raise_generation_context_outbox_ok [OF launched(2)]
          activate_investigation_outbox_ok [OF lib v(1) us iv ok rdy launched(1)] by blast
    qed (use ok in simp)
  next
    case None
    with p no ok show ?thesis
      by (auto simp: propose_def split: option.splits intro: update_active_context_outbox_ok)
  qed
qed

lemma process_contribution_outbox_ok:
  assumes lib: "attributes_ok (sto_lib s)" "timestamptz_ok (sto_lib s)"
    and v: "valid_process_input s input" "\<not> pi_evidence_only input" and us: "whole_microseconds input"
    and ok: "outbox_ok s d" and p: "process_contribution s input d = Inr (out, d')"
  shows "outbox_ok s d'"
proof -
  obtain d1 incident generation d2 d3 d4 d5 where f: "insert_family s input d = Inr d1" "select_family input d1 = Inr incident"
    and g: "canonical_generation_row s input incident d1 = Inr (generation, d2)"
    and o: "insert_occurrence_evidence s input incident generation d2 = Inr d3"
    and u: "update_generation s input incident generation d3 = Inr d4" "update_family s input incident d4 = Inr d5"
    and pr: "propose s input (no_outcome\<lparr>px_record_id := nl_record_id (pi_record input), px_incident_id := incident,
                     px_generation := generation\<rparr>) (set_seen (nl_record_id (pi_record input)) incident generation d5)
             = Inr (out, d')"
    using p by (auto simp: process_contribution_def)
  let ?d6 = "set_seen (nl_record_id (pi_record input)) incident generation d5"
  have gen: "generation = pi_generation input" and i2: "insert_generation s input incident d1 = Inr d2"
    using g by (auto simp: canonical_generation_row_def select_generation_def split: option.splits if_splits)
  from o obtain ge: "list_ex (generation_key_of (pi_scope input) incident generation) (tb_generations d2)"
    and d3: "tb_families d3 = tb_families d2" "tb_outbox d3 = tb_outbox d2"
    by (rule insert_occurrence_evidence_shape)
  have d1: "tb_outbox d1 = tb_outbox d" and d2: "tb_families d2 = tb_families d1" "tb_outbox d2 = tb_outbox d1"
    and d5: "tb_outbox d5 = tb_outbox d4" "tb_outbox d4 = tb_outbox d3" "tb_families d4 = tb_families d3"
    using f(1) i2 u
    by (auto simp: insert_family_def insert_generation_def update_generation_def update_family_def Let_def split: if_splits)
  have ids: "map family_id (tb_families ?d6) = map family_id (tb_families d1)"
    using u(2) d2 d3 d5
    by (auto simp: update_family_def set_seen_def family_id_def touch_family_def Let_def intro!: map_update_rows)
  have out: "tb_outbox ?d6 = tb_outbox d"
    by (simp add: set_seen_def d1 d2 d3 d5)
  have e25: "extends d2 ?d6"
    using insert_occurrence_evidence_extends [OF o] update_generation_extends [OF u(1)] update_family_extends [OF u(2)]
    by (meson extends_trans set_seen_extends)
  have ext: "extends d ?d6"
    using insert_family_extends [OF f(1)] canonical_generation_row_extends [OF g] e25 by (meson extends_trans)
  have fam1: "families_ok s d1"
    using insert_family_ok [OF f(1) v(1)] ok by (simp add: outbox_ok_def)
  obtain f0 where f0: "f0 \<in> set (tb_families d1)" "natural_key input f0" "fm_incident_id f0 = incident"
    "incident = pi_incident_id input"
    using selected_family [OF fam1 v(1) f(2)] by blast
  obtain f1 where f1: "f1 \<in> set (tb_families ?d6)" "family_id f1 = family_id f0"
    using map_eq_bex [OF ids [symmetric] f0(1)] by blast
  have "list_ex (generation_key_of (sto_scope s) (pi_incident_id input) (pi_generation input)) (tb_generations ?d6)"
    using extends_generation [OF e25 ge] f0(4) gen valid_input_parts(1) [OF v(1)] by simp
  then have rdy: "ready s input (no_outcome\<lparr>px_record_id := nl_record_id (pi_record input), px_incident_id := incident,
                     px_generation := generation\<rparr>) ?d6"
    using f1 f0 family_id_fields(3,8) [OF f1(2)] by (auto simp: ready_def)
  have "stored_message s ?d6 x" if "x \<in> set (tb_outbox d)" "in_scope (sto_scope s) (ob_region x) (ob_tenant_id x)" for x
  proof -
    have x: "stored_message s d x"
      using ok that by (simp add: outbox_ok_def)
    then have "outbox_check x"
      by (simp add: stored_message_def)
    from stored_message_sealed [OF refl ext this x] show ?thesis .
  qed
  then have "outbox_ok s ?d6"
    using families_ok_identities [OF ids fam1] by (simp add: outbox_ok_def out)
  from propose_outbox_ok [OF lib v us this rdy pr] show ?thesis .
qed

lemma process_one_outbox_ok:
  assumes lib: "attributes_ok (sto_lib s)" "timestamptz_ok (sto_lib s)"
    and v: "valid_process_input s input" and us: "whole_microseconds input"
    and ok: "outbox_ok s d" and p: "process_one s input replay d = Inr (out, d')"
  shows "outbox_ok s d'"
proof (cases "find_seen d (nl_record_id (pi_record input))")
  case (Some r)
  with p ok show ?thesis
    by (auto simp: process_one_def)
next
  case None
  let ?d = "d\<lparr>tb_seen := tb_seen d @ [seen_of s input replay]\<rparr>"
  have d0: "outbox_ok s ?d"
    by (rule outbox_ok_same [OF ok]) (simp_all add: extends_def)
  show ?thesis
  proof (cases "pi_evidence_only input")
    case True
    with p None have a: "attach_evidence_only s input ?d = Inr (out, d')"
      by (auto simp: process_one_def insert_seen_def split: if_splits)
    obtain d1 where "insert_occurrence_evidence s input (pi_incident_id input) (pi_generation input) ?d = Inr d1"
      and "d' = set_seen (nl_record_id (pi_record input)) (pi_incident_id input) (pi_generation input) d1"
      using a by (auto simp: attach_evidence_only_def Let_def split: if_splits)
    then have "tb_families d' = tb_families ?d" "tb_outbox d' = tb_outbox ?d"
      by (auto simp: set_seen_def elim!: insert_occurrence_evidence_shape)
    then show ?thesis
      by (intro outbox_ok_same [OF d0 attach_evidence_only_extends [OF a]]) simp_all
  next
    case False
    with p None have "process_contribution s input ?d = Inr (out, d')"
      by (auto simp: process_one_def insert_seen_def split: if_splits)
    from process_contribution_outbox_ok [OF lib v False us d0 this] show ?thesis .
  qed
qed

lemma process_all_outbox_ok:
  "process_all s pairs d = Inr (outs, d') \<Longrightarrow> attributes_ok (sto_lib s) \<Longrightarrow> timestamptz_ok (sto_lib s) \<Longrightarrow>
     \<forall>p\<in>set pairs. valid_process_input s (fst p) \<and> whole_microseconds (fst p) \<Longrightarrow> outbox_ok s d \<Longrightarrow> outbox_ok s d'"
proof (induction s pairs d arbitrary: outs d' rule: process_all.induct)
  case (2 s input replay rest d)
  obtain out d1 os where one: "process_one s input replay d = Inr (out, d1)" and rest: "process_all s rest d1 = Inr (os, d')"
    using 2(2) by auto
  have "outbox_ok s d1"
    using process_one_outbox_ok [OF 2(3,4) _ _ 2(6) one] 2(5) by simp
  from "2.IH" [OF rest 2(3,4) _ this] 2(5) show ?case
    by simp
qed simp

lemma process_batch_outbox_ok:
  assumes "process_batch env s inputs d = (r, d')" and "attributes_ok (sto_lib s)" and "timestamptz_ok (sto_lib s)"
    and "list_all whole_microseconds inputs" and "outbox_ok s d"
  shows "outbox_ok s d'"
proof -
  have pairs: "valid_process_input s (fst p) \<and> whole_microseconds (fst p)"
    if "batch_preflight s inputs = Inr replays" "p \<in> set (zip inputs replays)" for replays p
  proof -
    have "fst p \<in> set inputs"
      using set_zip_leftD [of "fst p" "snd p" inputs replays] that(2) by simp
    with that(1) assms(4) show ?thesis
      by (auto simp: batch_preflight_def list_all_iff split: if_splits)
  qed
  from assms(1) show ?thesis
    by (cases rule: process_batch_cases) (use assms(2,3,5) pairs process_all_outbox_ok in blast)+
qed

end
