(* ===== verification/StoreReach.thy ===== *)
theory StoreReach
  imports OutboxSafety
begin

text \<open>
  The store as a state machine. \<open>store_step\<close> is any one operation of the store with any arguments and any end
  of its transaction; every database reached from the empty one satisfies \<open>records_ok\<close> and \<open>outbox_ok\<close>, as
  long as the inputs processed carry whole microseconds. From such a database a claim of the outbox succeeds.
\<close>

section \<open>The operations on leases, contexts and the outbox\<close>

lemma execute_tx_keeps:
  assumes "execute_tx env body d = (r, d')" and "I d" and "\<And>x d'. body d = Inr (x, d') \<Longrightarrow> I d'"
  shows "I d'"
  using assms(1) by (cases rule: execute_tx_cases) (use assms(2,3) in auto)

definition store_ok :: "store \<Rightarrow> database \<Rightarrow> bool" where
  "store_ok s d \<longleftrightarrow> records_ok d \<and> outbox_ok s d"

lemma store_ok_empty: "store_ok s empty_database"
  by (simp add: store_ok_def records_ok_empty outbox_ok_empty)

lemma store_ok_same:
  assumes "store_ok s d" and "same_held d d'" and "extends d d'"
    and "map family_id (tb_families d') = map family_id (tb_families d)" and "tb_outbox d' = tb_outbox d"
  shows "store_ok s d'"
  using assms same_held_ok(1) [OF assms(2)] outbox_ok_same [OF _ assms(3-5)] by (simp add: store_ok_def)

lemma store_ok_update:
  assumes "store_ok s d" and "list_all (\<lambda>r. P r \<longrightarrow> outbox_check (f r)) (tb_outbox d)" and "\<And>r. sealed (f r) = sealed r"
  shows "store_ok s (d\<lparr>tb_outbox := update_rows P f (tb_outbox d)\<rparr>)"
proof -
  have "records_ok (d\<lparr>tb_outbox := update_rows P f (tb_outbox d)\<rparr>)"
    using assms(1) same_held_ok(1) [of d "d\<lparr>tb_outbox := update_rows P f (tb_outbox d)\<rparr>"]
    by (simp add: store_ok_def same_held_def)
  moreover have "outbox_ok s (d\<lparr>tb_outbox := update_rows P f (tb_outbox d)\<rparr>)"
    by (rule outbox_ok_update [where d = d and P = P and f = f])
      (use assms in \<open>auto simp: store_ok_def extends_def list_all_iff\<close>)
  ultimately show ?thesis
    by (simp add: store_ok_def)
qed

lemma acquire_tx_ok: "acquire_tx s sc i owner token now expires_at d = Inr (x, d') \<Longrightarrow> store_ok st d \<Longrightarrow> store_ok st d'"
  by (rule store_ok_same [where d = d])
    (auto simp: acquire_tx_def Let_def same_held_def investigation_id_def split: option.splits
      intro!: extends_same map_update_rows)

lemma renew_tx_ok: "renew_tx s le now expires_at d = Inr (x, d') \<Longrightarrow> store_ok st d \<Longrightarrow> store_ok st d'"
  by (rule store_ok_same [where d = d])
    (auto simp: renew_tx_def Let_def same_held_def split: option.splits intro!: extends_same)

lemma complete_tx_ok: "complete_tx s le at d = Inr (x, d') \<Longrightarrow> store_ok st d \<Longrightarrow> store_ok st d'"
  by (rule store_ok_same [where d = d])
    (auto simp: complete_tx_def Let_def same_held_def investigation_id_def family_id_def
      split: option.splits if_splits intro!: extends_same map_update_rows)

lemma append_context_tx_outbox: "append_context_tx sc x d = Inr (b, d') \<Longrightarrow> tb_outbox d' = tb_outbox d"
  by (auto simp: append_context_tx_def insert_context_def set_context_version_def Let_def split: option.splits if_splits)

lemma append_tx_ok: "append_tx s c encoded d = Inr (x, d') \<Longrightarrow> store_ok st d \<Longrightarrow> store_ok st d'"
proof -
  assume a: "append_tx s c encoded d = Inr (x, d')" and ok: "store_ok st d"
  let ?P = "\<lambda>f. in_scope (ic_scope c) (fm_region f) (fm_tenant_id f) \<and> fm_active f = Some (ic_investigation_id c)"
  let ?f = "\<lambda>f. f\<lparr>fm_context_version := max_int8 (fm_context_version f) (ic_version c)\<rparr>"
  obtain b d1 where t: "append_context_tx (ic_scope c)
        (context_of s (ic_scope c) (ic_investigation_id c) (ic_version c) encoded (ic_classification c) (ic_created_at c)) d
      = Inr (b, d1)"
    and d': "d' = d1\<lparr>tb_families := update_rows ?P ?f (tb_families d1)\<rparr>"
    using a by (auto simp: append_tx_def Let_def)
  have ids: "map family_id (tb_families d') = map family_id (tb_families d1)"
    by (simp add: d' family_id_def map_update_rows)
  have "extends d d'"
    using append_context_tx_extends [OF t] by (rule extends_trans) (rule extends_same [OF ids], simp_all add: d')
  moreover have "same_held d d'"
    using statement_same_records(3) [OF t] by (simp add: same_held_def d')
  ultimately show ?thesis
    using append_context_tx_families [OF t] append_context_tx_outbox [OF t] ids
    by (intro store_ok_same [OF ok]) (simp_all add: d')
qed

lemma claim_rows_ok: "claim_rows s sc owner expires_at cs d = Inr (x, d') \<Longrightarrow> store_ok st d \<Longrightarrow> store_ok st d'"
proof (induction s sc owner expires_at cs d arbitrary: x rule: claim_rows.induct)
  case (2 s sc owner expires_at m token rest d)
  let ?f = "\<lambda>r. r\<lparr>ob_state := ''claimed'', ob_attempts := ob_attempts r + 1, ob_claim_owner := Some owner,
                 ob_claim_token := Some token, ob_claim_expires_at := Some (plb_timestamptz (sto_lib s) expires_at)\<rparr>"
  let ?rows = "update_rows (outbox_key sc (qu_message_id m)) ?f (tb_outbox d)"
  obtain r y where f: "find (outbox_key sc (qu_message_id m)) (tb_outbox d) = Some r"
    and chk: "list_all (\<lambda>r. outbox_key sc (qu_message_id m) r \<longrightarrow> outbox_check (?f r)) (tb_outbox d)"
    and rest: "claim_rows s sc owner expires_at rest (d\<lparr>tb_outbox := ?rows\<rparr>) = Inr (y, d')"
    using 2(2) by (auto split: option.splits)
  have "store_ok st (d\<lparr>tb_outbox := ?rows\<rparr>)"
    by (rule store_ok_update [OF 2(3) chk]) (simp add: sealed_def release_row_def)
  from "2.IH" [OF f rest this] show ?case .
qed simp

lemma claim_outbox_tx_ok:
  "claim_outbox_tx s sc owner tokens now expires_at locked d = Inr (x, d') \<Longrightarrow> store_ok st d \<Longrightarrow> store_ok st d'"
  by (auto simp: claim_outbox_tx_def split: if_splits intro: claim_rows_ok)

lemma update_claimed_ok:
  "update_claimed c now f d = Inr (x, d') \<Longrightarrow> (\<And>r. sealed (f r) = sealed r) \<Longrightarrow> store_ok st d \<Longrightarrow> store_ok st d'"
  by (auto simp: update_claimed_def intro!: store_ok_update)

lemma affected_one_db: "snd (affected_one p) = snd p"
  by (auto simp: affected_one_def split: sum.splits prod.splits)

lemma outbox_operations_ok:
  "mark_outbox_published env s c at d = (r, d') \<Longrightarrow> store_ok st d \<Longrightarrow> store_ok st d'"
  "retry_outbox env s c failure now next d = (r, d') \<Longrightarrow> store_ok st d \<Longrightarrow> store_ok st d'"
proof -
  have keeps: "store_ok st (snd (affected_one (execute_tx env (update_claimed c now' f) d)))"
    if "\<And>r. sealed (f r) = sealed r" "store_ok st d" for now' f
  proof -
    obtain x d1 where e: "execute_tx env (update_claimed c now' f) d = (x, d1)"
      by fastforce
    have "store_ok st d1"
      using e that(2) by (rule execute_tx_keeps) (rule update_claimed_ok [OF _ that])
    then show ?thesis
      by (simp add: affected_one_db e)
  qed
  show "mark_outbox_published env s c at d = (r, d') \<Longrightarrow> store_ok st d \<Longrightarrow> store_ok st d'"
    unfolding mark_outbox_published_def Let_def
    by (split if_splits, simp, drule arg_cong [where f = snd], simp only: snd_conv, erule subst, rule keeps)
      (simp_all add: sealed_def release_row_def)
  show "retry_outbox env s c failure now next d = (r, d') \<Longrightarrow> store_ok st d \<Longrightarrow> store_ok st d'"
    unfolding retry_outbox_def Let_def
    by (split if_splits, simp, drule arg_cong [where f = snd], simp only: snd_conv, erule subst, rule keeps)
      (simp_all add: sealed_def release_row_def)
qed

section \<open>Reachable databases\<close>

inductive store_step :: "store \<Rightarrow> database \<Rightarrow> database \<Rightarrow> bool" for s where
  step_process: "list_all whole_microseconds inputs \<Longrightarrow> process_batch env s inputs d = (r, d') \<Longrightarrow> store_step s d d'"
| step_acquire: "acquire_investigation env s sc i owner token now ttl d = (r, d') \<Longrightarrow> store_step s d d'"
| step_renew: "renew_investigation env s le now ttl d = (r, d') \<Longrightarrow> store_step s d d'"
| step_complete: "complete_investigation env s le now d = (r, d') \<Longrightarrow> store_step s d d'"
| step_context: "append_investigation_context env s c d = (r, d') \<Longrightarrow> store_step s d d'"
| step_claim: "claim_outbox env locked s sc owner tokens now ttl d = (r, d') \<Longrightarrow> store_step s d d'"
| step_publish: "mark_outbox_published env s q now d = (r, d') \<Longrightarrow> store_step s d d'"
| step_retry: "retry_outbox env s q failure now next_attempt d = (r, d') \<Longrightarrow> store_step s d d'"

inductive store_reach :: "store \<Rightarrow> database \<Rightarrow> bool" for s where
  store_reach_empty: "store_reach s empty_database"
| store_reach_step: "store_reach s d \<Longrightarrow> store_step s d d' \<Longrightarrow> store_reach s d'"

lemma process_batch_ok:
  assumes "process_batch env s inputs d = (r, d')" and "attributes_ok (sto_lib s)" and "timestamptz_ok (sto_lib s)"
    and "list_all whole_microseconds inputs" and "store_ok s d"
  shows "store_ok s d'"
proof -
  have "records_ok d'"
    using assms(1) by (cases rule: process_batch_cases)
      (use assms(5) process_all_effect in \<open>auto simp: store_ok_def\<close>)
  then show ?thesis
    using process_batch_outbox_ok [OF assms(1-4)] assms(5) by (simp add: store_ok_def)
qed

lemma store_step_ok:
  assumes "store_step s d d'" and "attributes_ok (sto_lib s)" and "timestamptz_ok (sto_lib s)" and "store_ok s d"
  shows "store_ok s d'"
  using assms(1)
proof cases
  case step_process
  then show ?thesis
    using process_batch_ok assms(2-4) by blast
next
  case step_acquire
  then show ?thesis
    using assms(4) by (auto simp: acquire_investigation_def split: option.splits if_splits
        elim!: execute_tx_keeps intro: acquire_tx_ok)
next
  case step_renew
  then show ?thesis
    using assms(4) by (auto simp: renew_investigation_def split: option.splits if_splits
        elim!: execute_tx_keeps intro: renew_tx_ok)
next
  case step_complete
  then show ?thesis
    using assms(4) by (auto simp: complete_investigation_def split: if_splits elim!: execute_tx_keeps intro: complete_tx_ok)
next
  case step_context
  then show ?thesis
    using assms(4) by (auto simp: append_investigation_context_def split: if_splits sum.splits
        elim!: execute_tx_keeps intro: append_tx_ok)
next
  case step_claim
  then show ?thesis
    using assms(4) by (auto simp: claim_outbox_def split: if_splits option.splits
        elim!: execute_tx_keeps intro: claim_outbox_tx_ok)
next
  case step_publish
  then show ?thesis
    using outbox_operations_ok(1) assms(4) by blast
next
  case step_retry
  then show ?thesis
    using outbox_operations_ok(2) assms(4) by blast
qed

lemma store_reach_ok:
  assumes "store_reach s d" and "attributes_ok (sto_lib s)" and "timestamptz_ok (sto_lib s)"
  shows "store_ok s d"
  using assms(1) by induction (use assms(2,3) store_ok_empty store_step_ok in auto)

section \<open>A claim succeeds\<close>

text \<open>Identifiers that pass \<open>ids.Validate\<close> have the shape the CHECK constraints test.\<close>

definition uuid_shape_ok :: "uuid_lib \<Rightarrow> bool" where
  "uuid_shape_ok u \<longleftrightarrow> (\<forall>i. ids_validate u i = Inr () \<longrightarrow> uuidv7_shape i)"

definition attempts_below :: "store \<Rightarrow> nat \<Rightarrow> database \<Rightarrow> bool" where
  "attempts_below s n d \<longleftrightarrow>
     (\<forall>r\<in>set (tb_outbox d). in_scope (sto_scope s) (ob_region r) (ob_tenant_id r) \<longrightarrow>
        outbox_check r \<and> ob_attempts r + n < 9223372036854775808)"

lemma outbox_check_claimed:
  assumes "outbox_check r" and "ob_attempts r + 1 < 9223372036854775808" and "uuidv7_shape token"
  shows "outbox_check (r\<lparr>ob_state := ''claimed'', ob_attempts := ob_attempts r + 1, ob_claim_owner := Some owner,
           ob_claim_token := Some token, ob_claim_expires_at := Some t\<rparr>)"
  using assms by (simp add: outbox_check_def)

lemma claim_rows_total:
  "attempts_below s (length cs) d \<Longrightarrow> list_all (\<lambda>(m, token). uuidv7_shape token) cs \<Longrightarrow>
     \<forall>c\<in>set cs. list_ex (outbox_key (sto_scope s) (qu_message_id (fst c))) (tb_outbox d) \<Longrightarrow>
     \<exists>claims d'. claim_rows s (sto_scope s) owner expires_at cs d = Inr (claims, d')
       \<and> map oq_message claims = map fst cs \<and> map oq_token claims = map snd cs"
proof (induction s "sto_scope s" owner expires_at cs d rule: claim_rows.induct)
  case (2 s owner expires_at m token rest d)
  let ?key = "outbox_key (sto_scope s) (qu_message_id m)"
  let ?f = "\<lambda>r. r\<lparr>ob_state := ''claimed'', ob_attempts := ob_attempts r + 1, ob_claim_owner := Some owner,
                 ob_claim_token := Some token, ob_claim_expires_at := Some (plb_timestamptz (sto_lib s) expires_at)\<rparr>"
  let ?d = "d\<lparr>tb_outbox := update_rows ?key ?f (tb_outbox d)\<rparr>"
  obtain r where f: "find ?key (tb_outbox d) = Some r"
    using 2(4) by (cases "find ?key (tb_outbox d)") (auto simp: find_None_iff list_ex_iff_set)
  have chk: "list_all (\<lambda>r. ?key r \<longrightarrow> outbox_check (?f r)) (tb_outbox d)"
    unfolding list_all_iff
  proof (intro ballI impI)
    fix x
    assume "x \<in> set (tb_outbox d)" "?key x"
    then have "outbox_check x" "ob_attempts x + 1 < 9223372036854775808"
      using 2(2) by (auto simp: attempts_below_def outbox_key_def)
    then show "outbox_check (?f x)"
      using 2(3) by (intro outbox_check_claimed) simp_all
  qed
  have "attempts_below s (length rest) ?d"
    unfolding attempts_below_def
  proof (intro ballI impI)
    fix y
    assume "y \<in> set (tb_outbox ?d)" "in_scope (sto_scope s) (ob_region y) (ob_tenant_id y)"
    then obtain x where x: "x \<in> set (tb_outbox d)" "y = (if ?key x then ?f x else x)"
      "in_scope (sto_scope s) (ob_region x) (ob_tenant_id x)"
      by (auto simp: set_update_rows split: if_splits)
    then have "outbox_check x \<and> ob_attempts x + (1 + length rest) < 9223372036854775808"
      using 2(2) by (auto simp: attempts_below_def)
    then show "outbox_check y \<and> ob_attempts y + length rest < 9223372036854775808"
      using x chk by (auto simp: list_all_iff)
  qed
  moreover have "list_ex (outbox_key (sto_scope s) i) (tb_outbox ?d)" if ex: "list_ex (outbox_key (sto_scope s) i) (tb_outbox d)" for i
  proof -
    obtain x where x: "x \<in> set (tb_outbox d)" "outbox_key (sto_scope s) i x"
      using ex by (auto simp: list_ex_iff_set)
    then have "(if ?key x then ?f x else x) \<in> set (tb_outbox ?d)"
      by (simp add: update_rows_def)
    moreover have "outbox_key (sto_scope s) i (if ?key x then ?f x else x)"
      using x(2) by (simp add: outbox_key_def)
    ultimately show ?thesis
      unfolding list_ex_iff_set by blast
  qed
  ultimately obtain claims d' where "claim_rows s (sto_scope s) owner expires_at rest ?d = Inr (claims, d')"
    "map oq_message claims = map fst rest" "map oq_token claims = map snd rest"
    using "2.hyps" [OF f, of "update_rows ?key ?f (tb_outbox d)"] 2(3,4) by auto
  with f chk show ?case
    by simp
qed simp

lemma read_candidates_total:
  "\<forall>r\<in>set rows. \<exists>m. read_candidate s r = Inr (r, m) \<and> P r m \<Longrightarrow>
     \<exists>cs. read_candidates s rows = Inr cs \<and> map fst cs = rows \<and> list_all (\<lambda>(r, m). P r m \<and> row_message s r = Some m) cs"
proof (induction rows)
  case (Cons r rows)
  then obtain m cs where "read_candidate s r = Inr (r, m)" "P r m" "read_candidates s rows = Inr cs" "map fst cs = rows"
    "list_all (\<lambda>(r, m). P r m \<and> row_message s r = Some m) cs"
    by auto
  moreover from this have "row_message s r = Some m"
    by (auto simp: read_candidate_def split: option.splits if_splits)
  ultimately show ?case
    by simp
qed simp

end
