(* ===== verification/StoreTheorems.thy ===== *)
theory StoreTheorems
  imports StoreReach IncidentTheorems
begin

text \<open>The properties of the store and a concrete store on which their hypotheses hold.\<close>

section \<open>A concrete store\<close>

definition sample_scope :: persistence_scope where
  "sample_scope = \<lparr>psc_region = ''us-east-1'', psc_tenant_id = ''tenant''\<rparr>"

definition sample_uuids :: uuid_lib where
  "sample_uuids =
     \<lparr>ul_parse = (\<lambda>s. if uuidv7_shape s then Some s else None), ul_string = (\<lambda>s. s), ul_version = (\<lambda>_. 7),
      ul_rfc4122 = (\<lambda>_. True)\<rparr>"

definition sample_investigation_id :: bytes where
  "sample_investigation_id = ''00000000-0000-7000-8000-000000000001''"

definition sample_message_id :: bytes where "sample_message_id = ''00000000-0000-7000-8000-000000000002''"


definition sample_incident :: bytes where "sample_incident = concat (replicate 32 ''00'')"

definition sample_assignment :: assignment where
  "sample_assignment =
     \<lparr>as_schema_version = ''1.0'', as_message_id = sample_message_id, as_message_type = assignment_message_type,
      as_created_at = sample_time 300, as_region = ''us-east-1'', as_tenant_id = ''tenant'',
      as_classification = ''SENSITIVE'', as_producer = assignment_producer,
      as_correlation_id = sample_investigation_id, as_incident_id = sample_incident, as_incident_generation = 1,
      as_investigation_id = sample_investigation_id, as_service_id = ''api'', as_environment = ''prod'',
      as_severity = ''error'', as_context_version = 1\<rparr>"

definition sample_persistence_lib :: persistence_lib where
  "sample_persistence_lib =
     \<lparr>plb_journal = sample_lib, plb_uuid = sample_uuids,
      plb_assignment = \<lparr>aj_marshal = (\<lambda>_. Some ''assignment''), aj_decode = (\<lambda>_. Some (sample_assignment, True))\<rparr>,
      plb_value = (\<lambda>_. Some ''{}''), plb_projection = (\<lambda>_. Some ''{}''), plb_reference = (\<lambda>_. Some ''{}''),
      plb_attributes = (\<lambda>a. case a of [(k, v)] \<Rightarrow> if k = ''region'' then Some v else None | _ \<Rightarrow> None),
      plb_read_attributes = (\<lambda>t. Some [(''region'', t)]),
      plb_jsonb = (\<lambda>t. t), plb_timestamptz = (\<lambda>t. t)\<rparr>"

definition sample_store :: store where
  "sample_store =
     \<lparr>sto_lib = sample_persistence_lib,
      sto_validator = \<lparr>vd_version = ''policy-1'', vd_record = (\<lambda>_. True), vd_value = (\<lambda>_. True), vd_text = (\<lambda>_. True)\<rparr>,
      sto_scope = sample_scope, sto_classification = ''SENSITIVE''\<rparr>"

definition sample_decision :: persistence_decision where
  "sample_decision =
     \<lparr>pd_version = persistence_decision_version, pd_incident_id = sample_incident, pd_record_id = sample_id,
      pd_deployment_id = ''d1'', pd_episode_start = sample_time 90, pd_generation_key = 1,
      pd_finalized_through = sample_time 180, pd_evidence_only = False, pd_detection_status = detection_active,
      pd_quiet_at = add_time (sample_time 90) default_quiet_period,
      pd_reopen_until = add_time (add_time (sample_time 90) default_quiet_period) default_reopen_window,
      pd_late = False\<rparr>"

definition sample_investigation :: investigation_input where
  "sample_investigation =
     \<lparr>ii_investigation_id = sample_investigation_id, ii_trigger_reason = ''fatal'', ii_context_version = 1,
      ii_context = safe_map (Some []), ii_classification = ''SENSITIVE'',
      ii_outbox = \<lparr>qu_message_id = sample_message_id, qu_deduplication_key = assignment_key sample_investigation_id,
                   qu_type = assignment_message_type, qu_body = ''assignment'', qu_attributes = [(''region'', ''us-east-1'')]\<rparr>\<rparr>"

definition sample_input :: process_input where
  "sample_input =
     \<lparr>pi_scope = sample_scope, pi_record = sample_record, pi_decision = sample_decision,
      pi_replay = \<lparr>rp_version = replay_identity_version, rp_digest = replicate 32 (CHR 0x00), rp_priority = 1\<rparr>,
      pi_processed_at = sample_time 300, pi_fingerprint_version = error_v1, pi_fingerprint = sample_incident,
      pi_incident_id = sample_incident, pi_generation = 1, pi_deployment_id = ''d1'', pi_episode_start = sample_time 90,
      pi_detection_status = detection_active, pi_severity = ''error'', pi_quiet_at = pd_quiet_at sample_decision,
      pi_reopen_until = pd_reopen_until sample_decision, pi_rule_trigger = ''ordinary_error_v1'',
      pi_context_version = 1, pi_late = False, pi_evidence_only = False, pi_evidence = None,
      pi_investigation = Some sample_investigation, pi_candidate = None, pi_context_update = None\<rparr>"

definition sample_tx :: tx_env where
  "sample_tx = \<lparr>tx_end = TxCommitted, tx_context_done = False\<rparr>"

definition sample_processed :: database where
  "sample_processed = snd (process_batch sample_tx sample_store [sample_input] empty_database)"

lemma sample_processed_facts:
  "(case process_batch sample_tx sample_store [sample_input] empty_database of
      (Inl _, _) \<Rightarrow> False
    | (Inr outs, d) \<Rightarrow>
        map px_investigation_created outs = [True]
        \<and> map ob_message_id (select_claimable sample_scope (sample_time 400) (\<lambda>_. False) 1 d) = [sample_message_id]
        \<and> list_all (\<lambda>r. ob_attempts r = 0) (tb_outbox d))"
  by code_simp

lemma sample_processed_batch:
  obtains outs where
    "process_batch sample_tx sample_store [sample_input] empty_database = (Inr outs, sample_processed)"
    and "map ob_message_id (select_claimable sample_scope (sample_time 400) (\<lambda>_. False) 1 sample_processed) = [sample_message_id]"
    and "list_all (\<lambda>r. ob_attempts r = 0) (tb_outbox sample_processed)"
  using sample_processed_facts
  by (cases "process_batch sample_tx sample_store [sample_input] empty_database") (auto simp: sample_processed_def split: sum.splits)

lemma sample_store_lib:
  "attributes_ok (sto_lib sample_store)" "timestamptz_ok (sto_lib sample_store)"
  "uuid_shape_ok (plb_uuid (sto_lib sample_store))"
  by (auto simp: attributes_ok_def timestamptz_ok_def uuid_shape_ok_def sample_store_def sample_persistence_lib_def
      sample_uuids_def ids_validate_def same_instant_def split: if_splits)


section \<open>Processing a batch\<close>

text \<open>
  C4. A batch the store reports as processed is processed exactly once: every record of it is kept as an
  occurrence with the incident and generation reported, records processed earlier stay, every generation
  counts exactly its contributing occurrences, and sending the same batch again changes nothing and reports
  every record as a duplicate with the same incident and generation.
\<close>

theorem batch_processed_once:
  assumes "store_reach s d" and "attributes_ok (sto_lib s)" and "timestamptz_ok (sto_lib s)"
    and "process_batch env s inputs d = (Inr outs, d')" and "tx_end again = TxCommitted"
  shows "map px_record_id outs = map (nl_record_id \<circ> pi_record) inputs
    \<and> list_all (held d') (map (nl_record_id \<circ> pi_record) inputs) \<and> (\<forall>i. held d i \<longrightarrow> held d' i)
    \<and> (\<forall>g\<in>set (tb_generations d'). gn_count g = contributions g d')
    \<and> process_batch again s inputs d' = (Inr (map replay_of outs), d')"
proof -
  have ok: "records_ok d"
    using store_reach_ok [OF assms(1-3)] by (simp add: store_ok_def)
  obtain replays where p: "batch_preflight s inputs = Inr replays"
    and all: "process_all s (zip inputs replays) d = Inr (outs, d')"
    using assms(4) by (cases rule: process_batch_cases) auto
  have len: "length replays = length inputs"
    using batch_preflight_length [OF p] .
  note e = process_all_effect [OF all ok]
  then have l: "list_all2 (\<lambda>p out. held d' (nl_record_id (pi_record (fst p))) \<and> px_record_id out = nl_record_id (pi_record (fst p))
          \<and> already_done s p d' (replay_of out)) (zip inputs replays) outs"
    by simp
  have "length outs = length inputs"
    using list_all2_lengthD [OF l] len by simp
  moreover have at: "held d' (nl_record_id (pi_record (inputs ! n))) \<and> px_record_id (outs ! n) = nl_record_id (pi_record (inputs ! n))"
    if "n < length inputs" for n
    using list_all2_nthD [OF l, of n] that len by simp
  ultimately have "map px_record_id outs = map (nl_record_id \<circ> pi_record) inputs"
    by (intro nth_equalityI) simp_all
  moreover have "list_all (held d') (map (nl_record_id \<circ> pi_record) inputs)"
    using at by (auto simp: list_all_length)
  moreover have "process_all s (zip inputs replays) d' = Inr (map replay_of outs, d')"
    using l by (intro process_all_replay) (auto elim: list_all2_mono)
  then have "process_batch again s inputs d' = (Inr (map replay_of outs), d')"
    using assms(5) by (simp add: process_batch_def p execute_tx_def)
  ultimately show ?thesis
    using e by (auto simp: records_ok_def)
qed

theorem batch_processed_once_witness:
  "\<exists>outs d. process_batch sample_tx sample_store [sample_input] empty_database = (Inr outs, d)
    \<and> map px_record_id outs = [sample_id] \<and> held d sample_id
    \<and> process_batch sample_tx sample_store [sample_input] d = (Inr (map replay_of outs), d)"
proof -
  obtain outs d where b: "process_batch sample_tx sample_store [sample_input] empty_database = (Inr outs, d)"
    using sample_processed_batch by metis
  have "nl_record_id (pi_record sample_input) = sample_id" "tx_end sample_tx = TxCommitted"
    by (simp_all add: sample_input_def sample_record_def sample_tx_def)
  with batch_processed_once [OF store_reach_empty sample_store_lib(1,2) b, of sample_tx] b show ?thesis
    by (auto simp: comp_def)
qed

section \<open>Claiming the outbox\<close>




end
