(* ===== verification/Pipeline.thy ===== *)
theory Pipeline
  imports JournalOpen IncidentDecision AdmissionLimits Admission Persistence "HOL-Library.Signed_Division"
begin

text \<open>
  The pipeline coordinator (\<open>internal/pipeline/pipeline.go\<close>): \<open>New\<close>, the two ingestion entry points,
  \<open>Process\<close> with the renewal of claims and the bisection of poisoned batches, and \<open>prepareInput\<close>.

  The coordinator works through interfaces: a clock, a source of identifiers, the journal and the store.
  \<open>ports\<close> is their method table. Each method takes the state \<open>'s\<close> behind the interfaces and returns it
  changed; everything the other users of the journal and the database do between two calls is part of that
  state. The normalizer is an argument of \<open>ingest\<close>; it generates a batch identifier, so it also takes and
  returns the state.
\<close>

section \<open>Constants, results and errors\<close>

definition default_worker_owner :: bytes where "default_worker_owner = ''static-log-analysis''"
definition default_recovery_max :: nat where "default_recovery_max = max_transition_records"
definition required_retention :: int where
  "required_retention = default_investigation_window + default_allowed_lateness"

datatype pipeline_error =
    PlInvalidConfig
  | PlRequestRejected
  | PlScopeNotPermitted
  | PlJournalRejected
  | PlJournalUnavailable
  | PlInvalidStoreResult
  | PlJournal jerr
  | PlStore perr
  | PlIdentifiers
  | PlAssignment

datatype rejection_reason = NestingTooDeep | ClaimNotPermitted | UnusableIdentity | InvalidRecord | RecordTooLarge

datatype rejection_subreason =
    NoSubreason | MissingTimestamps | MissingContent | ProhibitedContent | StructuralValidation | OtherInvalid

record record_rejection =
  rj_index :: nat
  rj_reason :: rejection_reason
  rj_subreason :: rejection_subreason

record ingest_result =
  ir_acknowledged :: bool
  ir_accepted :: nat
  ir_rejected :: "record_rejection list"

record process_result =
  ps_claimed :: nat
  ps_processed :: nat
  ps_duplicates :: nat
  ps_investigations :: nat
  ps_quarantined :: nat

definition no_result :: process_result where
  "no_result = \<lparr>ps_claimed = 0, ps_processed = 0, ps_duplicates = 0, ps_investigations = 0, ps_quarantined = 0\<rparr>"

text \<open>The sums of \<open>persistClaims\<close> and of \<open>Process\<close>; neither adds the claimed count.\<close>

definition add_result :: "process_result \<Rightarrow> process_result \<Rightarrow> process_result" where
  "add_result a b =
     a\<lparr>ps_processed := ps_processed a + ps_processed b, ps_duplicates := ps_duplicates a + ps_duplicates b,
       ps_investigations := ps_investigations a + ps_investigations b,
       ps_quarantined := ps_quarantined a + ps_quarantined b\<rparr>"

record pipeline_counters =
  pk_recovery_skipped :: "64 word"
  pk_scope_rejections :: "64 word"
  pk_journal_rejections :: "64 word"
  pk_quarantined :: "64 word"
  pk_shed :: "64 word"
  pk_backpressured :: "64 word"
  pk_derived_identity :: "64 word"
  pk_nesting_too_deep :: "64 word"
  pk_claim_not_permitted :: "64 word"
  pk_unusable_identity :: "64 word"
  pk_record_too_large :: "64 word"
  pk_missing_timestamps :: "64 word"
  pk_missing_content :: "64 word"
  pk_prohibited_content :: "64 word"
  pk_structural :: "64 word"
  pk_other_invalid :: "64 word"

definition zero_counters :: pipeline_counters where
  "zero_counters =
     \<lparr>pk_recovery_skipped = 0, pk_scope_rejections = 0, pk_journal_rejections = 0, pk_quarantined = 0,
      pk_shed = 0, pk_backpressured = 0, pk_derived_identity = 0, pk_nesting_too_deep = 0,
      pk_claim_not_permitted = 0, pk_unusable_identity = 0, pk_record_too_large = 0,
      pk_missing_timestamps = 0, pk_missing_content = 0, pk_prohibited_content = 0, pk_structural = 0,
      pk_other_invalid = 0\<rparr>"

text \<open>\<open>RecordRejectionCounters.Total\<close>\<close>

definition record_rejections_total :: "pipeline_counters \<Rightarrow> 64 word" where
  "record_rejections_total k =
     pk_nesting_too_deep k + pk_claim_not_permitted k + pk_unusable_identity k + pk_record_too_large k
     + pk_missing_timestamps k + pk_missing_content k + pk_prohibited_content k + pk_structural k
     + pk_other_invalid k"

section \<open>The interfaces\<close>

record 's ports =
  pt_now :: "'s \<Rightarrow> gtime \<times> 's"
  pt_new_id :: "'s \<Rightarrow> bytes option \<times> 's"
  pt_adopt :: "bytes \<Rightarrow> nat \<Rightarrow> 's \<Rightarrow> (jerr + claimed_record list) \<times> 's"
  pt_append :: "bytes \<Rightarrow> admission list \<Rightarrow> 's \<Rightarrow> (jerr + unit) \<times> 's"
  pt_claim :: "nat \<Rightarrow> bytes \<Rightarrow> 's \<Rightarrow> (jerr + claimed_record list) \<times> 's"
  pt_claim_ttl :: "'s \<Rightarrow> int"
  pt_capacity :: "'s \<Rightarrow> capacity_observation \<times> 's"
  pt_manifest :: "'s \<Rightarrow> manifest"
  pt_mark :: "commit_claim list \<Rightarrow> 's \<Rightarrow> (jerr + unit) \<times> 's"
  pt_quarantine :: "bytes \<Rightarrow> bytes \<Rightarrow> nat \<Rightarrow> 's \<Rightarrow> (jerr + unit) \<times> 's"
  pt_recover :: "bytes \<Rightarrow> nat \<Rightarrow> 's \<Rightarrow> (jerr + recovered_record list \<times> bytes) \<times> 's"
  pt_renew :: "commit_claim list \<Rightarrow> 's \<Rightarrow> (jerr + claimed_record list) \<times> 's"
  pt_retention :: "'s \<Rightarrow> int"
  pt_boundary :: "'s \<Rightarrow> store_boundary"
  pt_process :: "process_input list \<Rightarrow> 's \<Rightarrow> (perr + process_outcome list) \<times> 's"

text \<open>\<open>Config\<close>; \<open>missing\<close> says that one of its interfaces or the policy is nil.\<close>

record pipeline_config =
  pc_missing :: bool
  pc_lib :: persistence_lib
  pc_policy_version :: bytes
  pc_scope :: persistence_scope
  pc_classification :: bytes
  pc_worker_owner :: bytes
  pc_recovery_max :: int
  pc_limits :: request_limits
  pc_capacity_policy :: capacity_policy
  pc_classifier :: "admission_rule list option"

record coordinator =
  co_lib :: persistence_lib
  co_engine :: engine
  co_scope :: persistence_scope
  co_classification :: bytes
  co_owner :: bytes
  co_limits :: request_limits
  co_capacity_policy :: capacity_policy
  co_classifier :: "admission_rule list option"
  co_counters :: pipeline_counters
  co_held :: "(bytes, claimed_record) kv"

abbreviation co_hash :: "coordinator \<Rightarrow> bytes \<Rightarrow> bytes" where
  "co_hash c \<equiv> plb_hash (co_lib c)"

definition bump :: "(pipeline_counters \<Rightarrow> pipeline_counters) \<Rightarrow> coordinator \<Rightarrow> coordinator" where
  "bump f c = c\<lparr>co_counters := f (co_counters c)\<rparr>"

definition hold :: "claimed_record \<Rightarrow> coordinator \<Rightarrow> coordinator" where
  "hold cr c = c\<lparr>co_held := kv_put (nl_record_id (cr_record cr)) cr (co_held c)\<rparr>"

definition release :: "bytes \<Rightarrow> coordinator \<Rightarrow> coordinator" where
  "release i c = c\<lparr>co_held := kv_del i (co_held c)\<rparr>"

fun hold_all :: "claimed_record list \<Rightarrow> coordinator \<Rightarrow> coordinator" where
  "hold_all [] c = c"
| "hold_all (cr # claims) c = hold_all claims (hold cr c)"

definition commit_of :: "claimed_record \<Rightarrow> commit_claim" where
  "commit_of cr = \<lparr>cc_record_id = nl_record_id (cr_record cr), cc_token = cr_token cr\<rparr>"

section \<open>New\<close>

text \<open>The engine and the number of skipped records after one page of the recovery.\<close>

fun observe_recovered ::
    "(bytes \<Rightarrow> bytes) \<Rightarrow> recovered_record list \<Rightarrow> engine \<Rightarrow> 64 word \<Rightarrow> engine \<times> 64 word" where
  "observe_recovered H [] e skipped = (e, skipped)"
| "observe_recovered H (r # rs) e skipped =
     (case observe H e (rc_record r) of
        (Inl _, e) \<Rightarrow> observe_recovered H rs e (skipped + 1)
      | (Inr _, e) \<Rightarrow> observe_recovered H rs e skipped)"

text \<open>The paging loop, which ends when the journal answers an empty cursor.\<close>

partial_function (option) recover_pages ::
    "'s ports \<Rightarrow> (bytes \<Rightarrow> bytes) \<Rightarrow> nat \<Rightarrow> bytes \<Rightarrow> engine \<Rightarrow> 64 word \<Rightarrow> 's
       \<Rightarrow> ((pipeline_error + engine \<times> 64 word) \<times> 's) option" where
  "recover_pages p H maximum cursor e skipped s =
     (case pt_recover p cursor maximum s of
        (Inl err, s) \<Rightarrow> Some (Inl (PlJournal err), s)
      | (Inr (recovered, next_cursor), s) \<Rightarrow>
          (case observe_recovered H recovered e skipped of
             (e, skipped) \<Rightarrow>
               if next_cursor = [] then Some (Inr (e, skipped), s)
               else recover_pages p H maximum next_cursor e skipped s))"

definition config_refused :: "'s ports \<Rightarrow> pipeline_config \<Rightarrow> 's \<Rightarrow> bool" where
  "config_refused p cfg s \<longleftrightarrow>
     pc_missing cfg \<or> blank (psc_region (pc_scope cfg)) \<or> blank (psc_tenant_id (pc_scope cfg))
     \<or> \<not> valid_classification (pc_classification cfg) \<or> pt_retention p s < required_retention
     \<or> limits_validate (pc_limits cfg) \<noteq> None"

definition misdeployed :: "'s ports \<Rightarrow> pipeline_config \<Rightarrow> 's \<Rightarrow> bool" where
  "misdeployed p cfg s \<longleftrightarrow>
     (let manifest = pt_manifest p s; boundary = pt_boundary p s in
      mf_region manifest \<noteq> psc_region (pc_scope cfg) \<or> mf_tenant_id manifest \<noteq> psc_tenant_id (pc_scope cfg)
      \<or> mf_classification manifest \<noteq> pc_classification cfg \<or> mf_policy_version manifest \<noteq> pc_policy_version cfg
      \<or> bo_scope boundary \<noteq> pc_scope cfg \<or> bo_classification boundary \<noteq> pc_classification cfg
      \<or> bo_policy_version boundary \<noteq> pc_policy_version cfg)"

definition started :: "pipeline_config \<Rightarrow> bytes \<Rightarrow> engine \<Rightarrow> 64 word \<Rightarrow> claimed_record list \<Rightarrow> coordinator" where
  "started cfg owner e skipped adopted =
     hold_all adopted
       \<lparr>co_lib = pc_lib cfg, co_engine = e, co_scope = pc_scope cfg, co_classification = pc_classification cfg,
        co_owner = owner, co_limits = pc_limits cfg, co_capacity_policy = pc_capacity_policy cfg,
        co_classifier = pc_classifier cfg, co_counters = zero_counters\<lparr>pk_recovery_skipped := skipped\<rparr>,
        co_held = []\<rparr>"

text \<open>\<open>New\<close>; no value means that the recovery loop never ends.\<close>

definition new_coordinator ::
    "'s ports \<Rightarrow> pipeline_config \<Rightarrow> 's \<Rightarrow> ((pipeline_error + coordinator) \<times> 's) option" where
  "new_coordinator p cfg s =
     (if config_refused p cfg s then Some (Inl PlInvalidConfig, s)
      else if misdeployed p cfg s then Some (Inl PlInvalidConfig, s)
      else
        (let owner = (if pc_worker_owner cfg = [] then default_worker_owner else pc_worker_owner cfg) in
         if trim_space owner \<noteq> owner \<or> max_owner_bytes < length owner then Some (Inl PlInvalidConfig, s)
         else
           (let recovery_max = (if pc_recovery_max cfg = 0 then int default_recovery_max else pc_recovery_max cfg) in
            if recovery_max < 1 \<or> int max_transition_records < recovery_max then Some (Inl PlInvalidConfig, s)
            else
              (case recover_pages p (plb_hash (pc_lib cfg)) (nat recovery_max) [] new_engine 0 s of
                 None \<Rightarrow> None
               | Some (Inl err, s) \<Rightarrow> Some (Inl err, s)
               | Some (Inr (e, skipped), s) \<Rightarrow>
                   (case pt_adopt p owner max_transition_records s of
                      (Inl err, s) \<Rightarrow> Some (Inl (PlJournal err), s)
                    | (Inr adopted, s) \<Rightarrow> Some (Inr (started cfg owner e skipped adopted), s))))))"

section \<open>Rejections\<close>

datatype normalize_error =
    NzClaimNotPermitted
  | NzUnusableIdentity
  | NzMissingTimestamps
  | NzMissingContent
  | NzProhibitedContent
  | NzStructural
  | NzOther

definition normalization_reason :: "normalize_error \<Rightarrow> rejection_reason" where
  "normalization_reason e =
     (if e = NzClaimNotPermitted then ClaimNotPermitted
      else if e = NzUnusableIdentity then UnusableIdentity
      else InvalidRecord)"

definition normalization_subreason :: "normalize_error \<Rightarrow> rejection_subreason" where
  "normalization_subreason e =
     (if e = NzMissingTimestamps then MissingTimestamps
      else if e = NzMissingContent then MissingContent
      else if e = NzProhibitedContent then ProhibitedContent
      else if e = NzStructural then StructuralValidation
      else if normalization_reason e = InvalidRecord then OtherInvalid
      else NoSubreason)"

fun count_invalid :: "rejection_subreason \<Rightarrow> pipeline_counters \<Rightarrow> pipeline_counters" where
  "count_invalid MissingTimestamps k = k\<lparr>pk_missing_timestamps := pk_missing_timestamps k + 1\<rparr>"
| "count_invalid MissingContent k = k\<lparr>pk_missing_content := pk_missing_content k + 1\<rparr>"
| "count_invalid ProhibitedContent k = k\<lparr>pk_prohibited_content := pk_prohibited_content k + 1\<rparr>"
| "count_invalid StructuralValidation k = k\<lparr>pk_structural := pk_structural k + 1\<rparr>"
| "count_invalid _ k = k\<lparr>pk_other_invalid := pk_other_invalid k + 1\<rparr>"

fun count_rejection :: "rejection_reason \<Rightarrow> rejection_subreason \<Rightarrow> pipeline_counters \<Rightarrow> pipeline_counters" where
  "count_rejection NestingTooDeep sub k = k\<lparr>pk_nesting_too_deep := pk_nesting_too_deep k + 1\<rparr>"
| "count_rejection ClaimNotPermitted sub k = k\<lparr>pk_claim_not_permitted := pk_claim_not_permitted k + 1\<rparr>"
| "count_rejection UnusableIdentity sub k = k\<lparr>pk_unusable_identity := pk_unusable_identity k + 1\<rparr>"
| "count_rejection RecordTooLarge sub k = k\<lparr>pk_record_too_large := pk_record_too_large k + 1\<rparr>"
| "count_rejection InvalidRecord sub k = count_invalid sub k"

definition named_subreason :: "rejection_reason \<Rightarrow> rejection_subreason \<Rightarrow> rejection_subreason" where
  "named_subreason reason sub =
     (if reason = InvalidRecord
         \<and> sub \<notin> {MissingTimestamps, MissingContent, ProhibitedContent, StructuralValidation}
      then OtherInvalid else sub)"

definition record_rejection_of ::
    "nat \<Rightarrow> rejection_reason \<Rightarrow> rejection_subreason \<Rightarrow> coordinator \<Rightarrow> record_rejection \<times> coordinator" where
  "record_rejection_of i reason sub c =
     (\<lparr>rj_index = i, rj_reason = reason, rj_subreason = named_subreason reason sub\<rparr>,
      bump (count_rejection reason sub) c)"

fun reject_all ::
    "(nat \<times> rejection_reason \<times> rejection_subreason) list \<Rightarrow> coordinator \<Rightarrow> record_rejection list \<times> coordinator" where
  "reject_all [] c = ([], c)"
| "reject_all ((i, reason, sub) # rs) c =
     (case record_rejection_of i reason sub c of (r, c) \<Rightarrow>
      case reject_all rs c of (rejected, c) \<Rightarrow> (r # rejected, c))"

section \<open>Ingestion\<close>

definition severity_class_fatal :: bytes where "severity_class_fatal = ''fatal''"
definition severity_class_warn :: bytes where "severity_class_warn = ''warn''"

definition record_priority :: "bytes \<Rightarrow> nat" where
  "record_priority severity =
     (if severity = severity_class_fatal then priority_critical
      else if severity = severity_class_error then priority_high
      else if severity = severity_class_warn then priority_normal
      else priority_low)"

definition admit :: "normalized_log \<Rightarrow> admission" where
  "admit r = \<lparr>adm_record = r, adm_priority = record_priority (nl_severity_class r)\<rparr>"

definition normalized_maximum :: "coordinator \<Rightarrow> int" where
  "normalized_maximum c = default_if_zero (lm_normalized_bytes (co_limits c)) default_max_normalized_bytes"

definition too_large :: "coordinator \<Rightarrow> normalized_log \<Rightarrow> bool" where
  "too_large c r \<longleftrightarrow> normalized_maximum c < int (encoded_normalized_size (plb_journal (co_lib c)) r)"

definition append_error :: "jerr \<Rightarrow> coordinator \<Rightarrow> pipeline_error \<times> coordinator" where
  "append_error e c =
     (if e = ErrDuplicateConflict then (PlJournal ErrDuplicateConflict, c)
      else if e = ErrInvalidInput
      then (PlJournalRejected, bump (\<lambda>k. k\<lparr>pk_journal_rejections := pk_journal_rejections k + 1\<rparr>) c)
      else (PlJournalUnavailable, c))"

text \<open>What both entry points do once they know what to append.\<close>

definition append_admissions ::
    "'s ports \<Rightarrow> bytes \<Rightarrow> admission list \<Rightarrow> record_rejection list \<Rightarrow> coordinator \<Rightarrow> 's
       \<Rightarrow> (pipeline_error + ingest_result) \<times> coordinator \<times> 's" where
  "append_admissions p batch_id admissions rejected c s =
     (let result = \<lparr>ir_acknowledged = True, ir_accepted = length admissions, ir_rejected = rejected\<rparr> in
      if admissions = [] then (Inr result, c, s)
      else
        (case pt_append p batch_id admissions s of
           (Inl e, s) \<Rightarrow> (case append_error e c of (err, c) \<Rightarrow> (Inl err, c, s))
         | (Inr _, s) \<Rightarrow> (Inr result, c, s)))"

text \<open>The loop of \<open>IngestRecords\<close>, over the records with their indexes.\<close>

fun admit_records ::
    "(nat \<times> normalized_log) list \<Rightarrow> coordinator \<Rightarrow> admission list \<times> record_rejection list \<times> coordinator" where
  "admit_records [] c = ([], [], c)"
| "admit_records ((i, r) # rs) c =
     (if too_large c r
      then (case record_rejection_of i RecordTooLarge NoSubreason c of (x, c) \<Rightarrow>
            case admit_records rs c of (admissions, rejected, c) \<Rightarrow> (admissions, x # rejected, c))
      else (case admit_records rs c of (admissions, rejected, c) \<Rightarrow> (admit r # admissions, rejected, c)))"

text \<open>The context of a request is over, or still live.\<close>

definition ingest_records ::
    "'s ports \<Rightarrow> bool \<Rightarrow> trusted_envelope \<Rightarrow> normalized_log list \<Rightarrow> coordinator \<Rightarrow> 's
       \<Rightarrow> (pipeline_error + ingest_result) \<times> coordinator \<times> 's" where
  "ingest_records p live envelope records c s =
     (if \<not> live then (Inl PlRequestRejected, c, s)
      else if te_region envelope \<noteq> psc_region (co_scope c)
      then (Inl PlScopeNotPermitted, bump (\<lambda>k. k\<lparr>pk_scope_rejections := pk_scope_rejections k + 1\<rparr>) c, s)
      else
        (case records of
           [] \<Rightarrow> (Inr \<lparr>ir_acknowledged = True, ir_accepted = 0, ir_rejected = []\<rparr>, c, s)
         | first # _ \<Rightarrow>
             if \<not> list_all (\<lambda>r. nl_batch_id r = nl_batch_id first) records then (Inl PlRequestRejected, c, s)
             else
               (case admit_records (enumerate 0 records) c of
                  (admissions, rejected, c) \<Rightarrow>
                    append_admissions p (nl_batch_id first) admissions rejected c s)))"

definition observe_capacity :: "'s ports \<Rightarrow> coordinator \<Rightarrow> 's \<Rightarrow> capacity_state \<times> 's" where
  "observe_capacity p c s =
     (case co_classifier c of
        None \<Rightarrow> (\<lparr>ks_used = 0, ks_capacity = 0, ks_can_persist = True\<rparr>, s)
      | Some _ \<Rightarrow>
          (case pt_capacity p s of
             (observed, s) \<Rightarrow>
               (\<lparr>ks_used = co_used observed, ks_capacity = co_total observed,
                 ks_can_persist = co_can_persist observed\<rparr>, s)))"

definition admission_candidate :: "normalized_log \<Rightarrow> admission_record" where
  "admission_candidate r =
     \<lparr>ar_source = te_source_type (nl_source r), ar_service = si_name (nl_service r),
      ar_environment = si_environment (nl_service r), ar_severity = nl_severity_class r,
      ar_event_type = nl_event_name r, ar_attributes = [], ar_security = False, ar_event_triggering = False\<rparr>"

definition capacity_action :: "coordinator \<Rightarrow> normalized_log \<Rightarrow> capacity_state \<Rightarrow> admission_action" where
  "capacity_action c r state =
     (case co_classifier c of
        None \<Rightarrow> ActionAdmit
      | Some rules \<Rightarrow>
          (let candidate = admission_candidate r in
           kr_action (capacity_decide (co_capacity_policy c) candidate (classify (Some rules) candidate) state)))"

text \<open>The loop of \<open>Ingest\<close>; no admissions means that a mandatory record could not be persisted.\<close>

fun admit_normalized ::
    "capacity_state \<Rightarrow> (nat \<times> normalized_log) list \<Rightarrow> coordinator
       \<Rightarrow> (admission list \<times> record_rejection list) option \<times> coordinator" where
  "admit_normalized state [] c = (Some ([], []), c)"
| "admit_normalized state ((i, r) # rs) c =
     (if too_large c r
      then (case record_rejection_of i RecordTooLarge NoSubreason c of (x, c) \<Rightarrow>
            case admit_normalized state rs c of (res, c) \<Rightarrow>
              (map_option (\<lambda>(admissions, rejected). (admissions, x # rejected)) res, c))
      else
        (case capacity_action c r state of
           ActionShed \<Rightarrow> admit_normalized state rs (bump (\<lambda>k. k\<lparr>pk_shed := pk_shed k + 1\<rparr>) c)
         | ActionBackpressure \<Rightarrow> (None, bump (\<lambda>k. k\<lparr>pk_backpressured := pk_backpressured k + 1\<rparr>) c)
         | ActionAdmit \<Rightarrow>
             (case admit_normalized state rs c of (res, c) \<Rightarrow>
                (map_option (\<lambda>(admissions, rejected). (admit r # admissions, rejected)) res, c))))"

record normalized_batch =
  nz_batch_id :: bytes
  nz_records :: "normalized_log list"
  nz_original_indexes :: "nat list"
  nz_rejected :: "(nat \<times> normalize_error) list"

fun count_derived :: "normalized_log list \<Rightarrow> coordinator \<Rightarrow> coordinator" where
  "count_derived [] c = c"
| "count_derived (r # rs) c =
     count_derived rs
       (if nl_identity_quality r = identity_quality_derived
        then bump (\<lambda>k. k\<lparr>pk_derived_identity := pk_derived_identity k + 1\<rparr>) c else c)"

definition nested_rejections :: "nat list \<Rightarrow> (nat \<times> rejection_reason \<times> rejection_subreason) list" where
  "nested_rejections = map (\<lambda>i. (i, NestingTooDeep, NoSubreason))"

definition normalizer_rejections ::
    "(nat \<times> normalize_error) list \<Rightarrow> (nat \<times> rejection_reason \<times> rejection_subreason) list" where
  "normalizer_rejections = map (\<lambda>(i, e). (i, normalization_reason e, normalization_subreason e))"

definition ingest_normalized ::
    "'s ports \<Rightarrow> nat list \<Rightarrow> normalized_batch \<Rightarrow> coordinator \<Rightarrow> 's
       \<Rightarrow> (pipeline_error + ingest_result) \<times> coordinator \<times> 's" where
  "ingest_normalized p nested b c s =
     (case reject_all (nested_rejections nested @ normalizer_rejections (nz_rejected b))
             (count_derived (nz_records b) c) of
        (rejected, c) \<Rightarrow>
     (case observe_capacity p c s of
        (state, s) \<Rightarrow>
     (case admit_normalized state (zip (nz_original_indexes b) (nz_records b)) c of
        (None, c) \<Rightarrow> (Inl PlJournalUnavailable, c, s)
      | (Some (admissions, large), c) \<Rightarrow>
          append_admissions p (nz_batch_id b) admissions (sort_key rj_index (rejected @ large)) c s)))"

definition ingest ::
    "'s ports \<Rightarrow> ('a, 'r) decode_lib
       \<Rightarrow> (trusted_envelope \<Rightarrow> ('a, 'r) export_request \<Rightarrow> nat list \<Rightarrow> 's \<Rightarrow> normalized_batch option \<times> 's)
       \<Rightarrow> bool \<Rightarrow> trusted_envelope \<Rightarrow> bytes \<Rightarrow> content_encoding \<Rightarrow> coordinator \<Rightarrow> 's
       \<Rightarrow> (pipeline_error + ingest_result) \<times> coordinator \<times> 's" where
  "ingest p dl normalizer live envelope payload encoding c s =
     (if \<not> live then (Inl PlRequestRejected, c, s)
      else if te_region envelope \<noteq> psc_region (co_scope c)
      then (Inl PlScopeNotPermitted, bump (\<lambda>k. k\<lparr>pk_scope_rejections := pk_scope_rejections k + 1\<rparr>) c, s)
      else
        (case decode_request dl payload encoding (co_limits c) of
           Inl _ \<Rightarrow> (Inl PlRequestRejected, c, s)
         | Inr decoded \<Rightarrow>
             (case normalizer envelope (dr_request decoded) (dr_accepted_indexes decoded) s of
                (None, s) \<Rightarrow> (Inl PlRequestRejected, c, s)
              | (Some b, s) \<Rightarrow> ingest_normalized p (dr_rejected decoded) b c s)))"

section \<open>Holding claims\<close>

definition lapsed :: "gtime \<Rightarrow> claimed_record \<Rightarrow> bool" where
  "lapsed now cr \<longleftrightarrow> \<not> before now (cr_expires_at cr)"

definition renewal_due :: "gtime \<Rightarrow> int \<Rightarrow> claimed_record \<Rightarrow> bool" where
  "renewal_due now ttl cr \<longleftrightarrow> \<not> after (cr_expires_at cr) (add_time now (ttl sdiv 2))"

definition drop_lapsed :: "gtime \<Rightarrow> coordinator \<Rightarrow> coordinator" where
  "drop_lapsed now c = c\<lparr>co_held := filter (\<lambda>(i, cr). \<not> lapsed now cr) (co_held c)\<rparr>"

text \<open>The held claims are kept by record identifier, so the claims due are in the order the source sorts them.\<close>

definition due_claims :: "gtime \<Rightarrow> int \<Rightarrow> coordinator \<Rightarrow> commit_claim list" where
  "due_claims now ttl c =
     map (\<lambda>(i, cr). \<lparr>cc_record_id = i, cc_token = cr_token cr\<rparr>)
       (filter (\<lambda>(i, cr). \<not> lapsed now cr \<and> renewal_due now ttl cr) (co_held c))"

text \<open>One record at a time after a stale batch; an error other than a stale claim ends the loop.\<close>

fun renew_each ::
    "'s ports \<Rightarrow> commit_claim list \<Rightarrow> claimed_record list \<Rightarrow> coordinator \<Rightarrow> 's
       \<Rightarrow> (pipeline_error + claimed_record list) \<times> coordinator \<times> 's" where
  "renew_each p [] renewed c s = (Inr renewed, c, s)"
| "renew_each p (cr # claims) renewed c s =
     (case pt_renew p [cr] s of
        (Inl e, s) \<Rightarrow>
          if e = ErrStaleClaim then renew_each p claims renewed (release (cc_record_id cr) c) s
          else (Inl (PlJournal e), c, s)
      | (Inr held, s) \<Rightarrow> renew_each p claims (renewed @ held) c s)"

definition hold_claims ::
    "'s ports \<Rightarrow> gtime \<Rightarrow> coordinator \<Rightarrow> 's \<Rightarrow> (pipeline_error + unit) \<times> coordinator \<times> 's" where
  "hold_claims p now c s =
     (let due = due_claims now (pt_claim_ttl p s) c; c = drop_lapsed now c in
      if due = [] then (Inr (), c, s)
      else
        (case pt_renew p due s of
           (Inr renewed, s) \<Rightarrow> (Inr (), hold_all renewed c, s)
         | (Inl e, s) \<Rightarrow>
             if e \<noteq> ErrStaleClaim then (Inl (PlJournal e), c, s)
             else
               (case renew_each p due [] c s of
                  (Inl err, c, s) \<Rightarrow> (Inl err, c, s)
                | (Inr renewed, c, s) \<Rightarrow> (Inr (), hold_all renewed c, s))))"

section \<open>Preparing one input\<close>

definition quarantine_unsupported_data :: nat where "quarantine_unsupported_data = 3"
definition quarantine_deterministic_processing :: nat where "quarantine_deterministic_processing = 2"

text \<open>Why an input cannot be prepared: never, or not now.\<close>

datatype prepare_error = RecordPoison | Retryable pipeline_error

definition microseconds :: "gtime \<Rightarrow> gtime" where
  "microseconds t = \<lparr>t_inst = t_inst t - t_inst t mod 1000, t_utc = True\<rparr>"

definition prepared_input :: "coordinator \<Rightarrow> claimed_record \<Rightarrow> persistence_decision \<Rightarrow> gtime \<Rightarrow> fingerprint \<Rightarrow> process_input" where
  "prepared_input c cr d now fp =
     \<lparr>pi_scope = co_scope c, pi_record = cr_record cr, pi_decision = d, pi_replay = cr_replay cr,
      pi_processed_at = now, pi_fingerprint_version = fp_version fp, pi_fingerprint = fp_digest fp,
      pi_incident_id = pd_incident_id d, pi_generation = pd_generation_key d,
      pi_deployment_id = pd_deployment_id d, pi_episode_start = pd_episode_start d,
      pi_detection_status = pd_detection_status d, pi_severity = nl_severity_class (cr_record cr),
      pi_quiet_at = pd_quiet_at d, pi_reopen_until = pd_reopen_until d, pi_rule_trigger = ''ordinary_error_v1'',
      pi_context_version = 0, pi_late = pd_late d, pi_evidence_only = pd_evidence_only d, pi_evidence = None,
      pi_investigation = None, pi_candidate = None, pi_context_update = None\<rparr>"

definition investigates :: "process_input \<Rightarrow> bool" where
  "investigates input \<longleftrightarrow>
     \<not> (pi_evidence_only input \<or> nl_severity_class (pi_record input) \<noteq> severity_class_error
        \<or> blank (si_name (nl_service (pi_record input))) \<or> blank (si_environment (nl_service (pi_record input))))"

definition candidate_context :: "process_input \<Rightarrow> safe_value" where
  "candidate_context input =
     safe_map (Some
       [(''generation'', safe_int (pi_generation input)), (''incident_id'', safe_string (pi_incident_id input)),
        (''record_id'', safe_string (nl_record_id (pi_record input))),
        (''representative_error'', nl_body (pi_record input)), (''rule_id'', safe_string ''ordinary_error_v1''),
        (''schema_version'', safe_string ''1.0''), (''threshold'', safe_int 5), (''window_seconds'', safe_int 300)])"

definition candidate_assignment :: "coordinator \<Rightarrow> process_input \<Rightarrow> bytes \<Rightarrow> bytes \<Rightarrow> assignment" where
  "candidate_assignment c input investigation message =
     \<lparr>as_schema_version = assignment_schema_version, as_message_id = message,
      as_message_type = assignment_message_type, as_created_at = pi_processed_at input,
      as_region = psc_region (co_scope c), as_tenant_id = psc_tenant_id (co_scope c),
      as_classification = co_classification c, as_producer = assignment_producer,
      as_correlation_id = investigation, as_incident_id = pi_incident_id input,
      as_incident_generation = pi_generation input, as_investigation_id = investigation,
      as_service_id = si_name (nl_service (pi_record input)),
      as_environment = si_environment (nl_service (pi_record input)), as_severity = pi_severity input,
      as_context_version = 1\<rparr>"

definition candidate_of :: "coordinator \<Rightarrow> process_input \<Rightarrow> bytes \<Rightarrow> bytes \<Rightarrow> bytes \<Rightarrow> investigation_input" where
  "candidate_of c input investigation message body =
     \<lparr>ii_investigation_id = investigation, ii_trigger_reason = five_in_five, ii_context_version = 1,
      ii_context = candidate_context input, ii_classification = co_classification c,
      ii_outbox = \<lparr>qu_message_id = message, qu_deduplication_key = assignment_key investigation,
                   qu_type = assignment_message_type, qu_body = body,
                   qu_attributes = [(''region'', psc_region (co_scope c))]\<rparr>\<rparr>"

definition prepare_input ::
    "'s ports \<Rightarrow> coordinator \<Rightarrow> claimed_record \<Rightarrow> persistence_decision \<Rightarrow> gtime \<Rightarrow> 's
       \<Rightarrow> (prepare_error + process_input) \<times> 's" where
  "prepare_input p c cr d now s =
     (case fingerprint_of (co_hash c) (cr_record cr) of Inl _ \<Rightarrow> (Inl RecordPoison, s)
      | Inr fp \<Rightarrow>
          (let input = prepared_input c cr d (microseconds now) fp in
           if \<not> investigates input then (Inr input, s)
           else
             (case pt_new_id p s of (None, s) \<Rightarrow> (Inl (Retryable PlIdentifiers), s)
              | (Some investigation, s) \<Rightarrow>
             (case pt_new_id p s of (None, s) \<Rightarrow> (Inl (Retryable PlIdentifiers), s)
              | (Some message, s) \<Rightarrow>
             (case encode_assignment (plb_uuid (co_lib c)) (plb_assignment (co_lib c))
                     (candidate_assignment c input investigation message) of
                None \<Rightarrow> (Inl (Retryable PlAssignment), s)
              | Some body \<Rightarrow>
                  (Inr (input\<lparr>pi_candidate := Some (candidate_of c input investigation message body)\<rparr>), s))))))"

section \<open>Persisting the claims\<close>

definition outcome_counts :: "process_outcome list \<Rightarrow> nat \<Rightarrow> process_result" where
  "outcome_counts outs n =
     no_result\<lparr>ps_processed := n, ps_duplicates := length (filter px_duplicate outs),
               ps_investigations := length (filter px_investigation_created outs)\<rparr>"

fun release_all :: "claimed_record list \<Rightarrow> coordinator \<Rightarrow> coordinator" where
  "release_all [] c = c"
| "release_all (cr # claims) c = release_all claims (release (nl_record_id (cr_record cr)) c)"

definition count_quarantined :: "coordinator \<Rightarrow> coordinator" where
  "count_quarantined = bump (\<lambda>k. k\<lparr>pk_quarantined := pk_quarantined k + 1\<rparr>)"

text \<open>Each input with the claim it was prepared from; the two slices of the source always have one length.\<close>

type_synonym work = "(process_input \<times> claimed_record) list"

function persist_claims ::
    "'s ports \<Rightarrow> work \<Rightarrow> coordinator \<Rightarrow> 's \<Rightarrow> process_result \<times> pipeline_error option \<times> coordinator \<times> 's" where
  "persist_claims p work c s =
     (case pt_process p (map fst work) s of
        (Inl e, s) \<Rightarrow>
          if e \<noteq> PInvalidInput then (no_result, Some (PlStore e), c, s)
          else
            (case work of
               [] \<Rightarrow> (no_result, Some (PlStore e), c, s)
             | [(input, cr)] \<Rightarrow>
                 (case pt_quarantine p (nl_record_id (cr_record cr)) (cr_token cr)
                         quarantine_deterministic_processing s of
                    (Inl e, s) \<Rightarrow> (no_result, Some (PlJournal e), c, s)
                  | (Inr _, s) \<Rightarrow>
                      (no_result\<lparr>ps_quarantined := 1\<rparr>, None,
                       count_quarantined (release (nl_record_id (cr_record cr)) c), s))
             | _ # _ # _ \<Rightarrow>
                 (let middle = length work div 2 in
                  case persist_claims p (take middle work) c s of
                    (left, Some err, c, s) \<Rightarrow> (left, Some err, c, s)
                  | (left, None, c, s) \<Rightarrow>
                      (case persist_claims p (drop middle work) c s of
                         (right, err, c, s) \<Rightarrow> (add_result left right, err, c, s))))
      | (Inr outs, s) \<Rightarrow>
          if length outs \<noteq> length work then (no_result, Some PlInvalidStoreResult, c, s)
          else
            (case pt_mark p (map (commit_of \<circ> snd) work) s of
               (Inl e, s) \<Rightarrow> (no_result, Some (PlJournal e), c, s)
             | (Inr _, s) \<Rightarrow> (outcome_counts outs (length work), None, release_all (map snd work) c, s)))"
  by pat_completeness auto
termination
  by (relation "measure (\<lambda>(p, work, c, s). length work)") (auto simp: min_def)

declare persist_claims.simps [simp del]

section \<open>One cycle\<close>

text \<open>The newly claimed records: held, observed, and quarantined where the engine refuses them.\<close>

fun take_claims ::
    "'s ports \<Rightarrow> claimed_record list \<Rightarrow> nat \<Rightarrow> coordinator \<Rightarrow> 's
       \<Rightarrow> (pipeline_error option \<times> nat) \<times> coordinator \<times> 's" where
  "take_claims p [] n c s = ((None, n), c, s)"
| "take_claims p (cr # claims) n c s =
     (let c = hold cr c in
      case observe (co_hash c) (co_engine c) (cr_record cr) of
        (Inr _, e) \<Rightarrow> take_claims p claims n (c\<lparr>co_engine := e\<rparr>) s
      | (Inl _, e) \<Rightarrow>
          (let c = c\<lparr>co_engine := e\<rparr> in
           case pt_quarantine p (nl_record_id (cr_record cr)) (cr_token cr) quarantine_unsupported_data s of
             (Inl err, s) \<Rightarrow> ((Some (PlJournal err), n), c, s)
           | (Inr _, s) \<Rightarrow>
               take_claims p claims (n + 1) (count_quarantined (release (nl_record_id (cr_record cr)) c)) s))"

definition fill_cohort ::
    "'s ports \<Rightarrow> nat \<Rightarrow> coordinator \<Rightarrow> 's
       \<Rightarrow> (pipeline_error option \<times> process_result) \<times> coordinator \<times> 's" where
  "fill_cohort p limit c s =
     (if limit \<le> length (co_held c) then ((None, no_result), c, s)
      else
        (case pt_claim p (limit - length (co_held c)) (co_owner c) s of
           (Inl e, s) \<Rightarrow> ((Some (PlJournal e), no_result), c, s)
         | (Inr claims, s) \<Rightarrow>
             (case take_claims p claims 0 c s of
                ((err, n), c, s) \<Rightarrow>
                  ((err, no_result\<lparr>ps_claimed := length claims, ps_quarantined := n\<rparr>), c, s))))"

text \<open>The prepared inputs of the held records whose place in the topology is decided.\<close>

fun prepare_all ::
    "'s ports \<Rightarrow> gtime \<Rightarrow> bytes list \<Rightarrow> nat \<Rightarrow> coordinator \<Rightarrow> 's
       \<Rightarrow> (pipeline_error option \<times> nat \<times> work) \<times> coordinator \<times> 's" where
  "prepare_all p now [] n c s = ((None, n, []), c, s)"
| "prepare_all p now (i # is) n c s =
     (case (decide_persistence (co_hash c) (co_engine c) i, kv_get (co_held c) i) of
        (Some d, Some cr) \<Rightarrow>
          (case prepare_input p c cr d now s of
             (Inr input, s) \<Rightarrow>
               (case prepare_all p now is n c s of
                  ((err, n, work), c, s) \<Rightarrow> ((err, n, (input, cr) # work), c, s))
           | (Inl (Retryable err), s) \<Rightarrow> ((Some err, n, []), c, s)
           | (Inl RecordPoison, s) \<Rightarrow>
               (case pt_quarantine p i (cr_token cr) quarantine_unsupported_data s of
                  (Inl err, s) \<Rightarrow> ((Some (PlJournal err), n, []), c, s)
                | (Inr _, s) \<Rightarrow> prepare_all p now is (n + 1) (count_quarantined (release i c)) s))
      | _ \<Rightarrow> prepare_all p now is n c s)"

definition advance_engine :: "gtime \<Rightarrow> coordinator \<Rightarrow> coordinator" where
  "advance_engine now c = c\<lparr>co_engine := snd (advance (pin (co_engine c) (map fst (co_held c))) now)\<rparr>"

definition process_cycle ::
    "'s ports \<Rightarrow> nat \<Rightarrow> coordinator \<Rightarrow> 's \<Rightarrow> process_result \<times> pipeline_error option \<times> coordinator \<times> 's" where
  "process_cycle p limit c s =
     (if limit < 1 \<or> max_process_batch < limit then (no_result, Some PlInvalidConfig, c, s)
      else
     (case pt_now p s of (now, s) \<Rightarrow>
     (case hold_claims p now c s of
        (Inl err, c, s) \<Rightarrow> (no_result, Some err, c, s)
      | (Inr _, c, s) \<Rightarrow>
     (case fill_cohort p limit c s of
        ((Some err, result), c, s) \<Rightarrow> (result, Some err, c, s)
      | ((None, result), c, s) \<Rightarrow>
     (let c = advance_engine now c in
     (case prepare_all p now (map fst (co_held c)) 0 c s of
        ((err, n, work), c, s) \<Rightarrow>
          (let result = result\<lparr>ps_quarantined := ps_quarantined result + n\<rparr> in
           case err of Some e \<Rightarrow> (result, Some e, c, s)
           | None \<Rightarrow>
               if work = [] then (result, None, c, s)
               else
                 (case persist_claims p work c s of
                    (persisted, err, c, s) \<Rightarrow> (add_result result persisted, err, c, s)))))))))"

end
