(* ===== verification/PipelineClient.thy ===== *)
theory PipelineClient
  imports Pipeline OutboxSafety JournalLifecycle
begin

text \<open>
  What the coordinator guarantees whatever journal, store, clock and source of identifiers it works with,
  as long as they keep a few promises (locale \<open>coordinator_ports\<close>): no operation of the coordinator makes
  the state unsafe or uncovers a record, records are only marked committed after the store answered that
  it holds them, and an acknowledgement means that every admitted record is covered.
\<close>

section \<open>Progress\<close>

text \<open>
  A step from a safe state: it stays safe, covered records stay covered, records the store holds stay held.
\<close>

definition advances ::
    "('s \<Rightarrow> bool) \<Rightarrow> ('s \<Rightarrow> bytes \<Rightarrow> bool) \<Rightarrow> ('s \<Rightarrow> bytes \<Rightarrow> bool) \<Rightarrow> 's \<Rightarrow> 's \<Rightarrow> bool" where
  "advances safe covered stored s s' \<longleftrightarrow>
     (safe s \<longrightarrow> safe s' \<and> (\<forall>i. covered s i \<longrightarrow> covered s' i) \<and> (\<forall>i. stored s i \<longrightarrow> stored s' i))"

lemma advances_refl [simp]: "advances safe covered stored s s"
  by (simp add: advances_def)

lemma advances_trans:
  "advances safe covered stored s s' \<Longrightarrow> advances safe covered stored s' s'' \<Longrightarrow> advances safe covered stored s s''"
  by (simp add: advances_def)

lemma admission_ids_Cons: "admission_ids (a # as) = insert (nl_record_id (adm_record a)) (admission_ids as)"
  by (simp add: admission_ids_def)

text \<open>The work of a cycle: each input is about the record of its claim, at whole microseconds.\<close>

definition ready_work :: "work \<Rightarrow> bool" where
  "ready_work work \<longleftrightarrow>
     (\<forall>(input, cr)\<in>set work. pi_record input = cr_record cr \<and> whole_microseconds input)"

lemma ready_work_simps [simp]:
  "ready_work []"
  "ready_work ((input, cr) # work) \<longleftrightarrow> pi_record input = cr_record cr \<and> whole_microseconds input \<and> ready_work work"
  by (simp_all add: ready_work_def)

lemma ready_work_slices: "ready_work work \<Longrightarrow> ready_work (take n work)" "ready_work work \<Longrightarrow> ready_work (drop n work)"
  unfolding ready_work_def by (blast dest: in_set_takeD in_set_dropD)+

lemma ready_work_inputs: "ready_work work \<Longrightarrow> \<forall>x\<in>set (map fst work). whole_microseconds x"
  by (auto simp: ready_work_def)

lemma prepared_input_facts [simp]:
  "pi_record (prepared_input c cr d now fp) = cr_record cr"
  "pi_processed_at (prepared_input c cr d now fp) = now"
  by (simp_all add: prepared_input_def)

lemma prepare_input_ready:
  "prepare_input p c cr d now s = (Inr input, s1) \<Longrightarrow> pi_record input = cr_record cr \<and> whole_microseconds input"
  by (auto simp: prepare_input_def Let_def whole_microseconds_def microseconds_def minus_mod_eq_mult_div
      split: if_splits prod.splits sum.splits option.splits)

lemma prepare_all_ready: "prepare_all p now is n c s = ((err, n', work), c1, s1) \<Longrightarrow> ready_work work"
  by (induction p now "is" n c s arbitrary: err n' work c1 s1 rule: prepare_all.induct)
    (auto split: prod.splits sum.splits option.splits prepare_error.splits dest!: prepare_input_ready)

section \<open>The contract\<close>

locale coordinator_ports =
  fixes p :: "'s ports" and safe :: "'s \<Rightarrow> bool" and covered stored :: "'s \<Rightarrow> bytes \<Rightarrow> bool"
  assumes now_law: "pt_now p s = (now, s1) \<Longrightarrow> advances safe covered stored s s1"
    and new_id_law: "pt_new_id p s = (new_id, s1) \<Longrightarrow> advances safe covered stored s s1"
    and adopt_law: "pt_adopt p owner limit s = (rc, s1) \<Longrightarrow> advances safe covered stored s s1"
    and append_law: "pt_append p b as s = (r, s1) \<Longrightarrow> advances safe covered stored s s1"
    and append_covers: "pt_append p b as s = (Inr (), s1) \<Longrightarrow> safe s \<Longrightarrow> i \<in> admission_ids as \<Longrightarrow> covered s1 i"
    and claim_law: "pt_claim p limit owner s = (rc, s1) \<Longrightarrow> advances safe covered stored s s1"
    and capacity_law: "pt_capacity p s = (ob, s1) \<Longrightarrow> advances safe covered stored s s1"
    and mark_law: "pt_mark p cs s = (r, s1) \<Longrightarrow> safe s \<Longrightarrow> \<forall>c\<in>set cs. stored s (cc_record_id c)
      \<Longrightarrow> advances safe covered stored s s1"
    and quarantine_law: "pt_quarantine p i token reason s = (r, s1) \<Longrightarrow> advances safe covered stored s s1"
    and recover_law: "pt_recover p i limit s = (rr, s1) \<Longrightarrow> advances safe covered stored s s1"
    and renew_law: "pt_renew p cs s = (rc, s1) \<Longrightarrow> advances safe covered stored s s1"
    and process_law: "pt_process p inputs s = (ro, s1) \<Longrightarrow> \<forall>x\<in>set inputs. whole_microseconds x
      \<Longrightarrow> advances safe covered stored s s1"
    and process_stores: "pt_process p inputs s = (Inr outs, s1) \<Longrightarrow> safe s
      \<Longrightarrow> \<forall>x\<in>set inputs. whole_microseconds x
      \<Longrightarrow> input \<in> set inputs \<Longrightarrow> stored s1 (nl_record_id (pi_record input))"
begin

lemmas port_laws = now_law new_id_law adopt_law append_law claim_law capacity_law quarantine_law recover_law renew_law

section \<open>Starting\<close>

lemma recover_pages_steps:
  assumes "recover_pages p H maximum cursor e skipped s = Some (r, s1)"
  shows "advances safe covered stored s s1"
proof -
  have "p = p \<longrightarrow> advances safe covered stored s (snd (r, s1))"
    by (rule recover_pages.raw_induct [where P = "\<lambda>q H maximum cursor e skipped s y. q = p \<longrightarrow> advances safe covered stored s (snd y)", OF _ assms])
      (fastforce split: prod.splits sum.splits if_splits dest!: recover_law intro: advances_trans)
  then show ?thesis
    by simp
qed

lemma new_coordinator_steps:
  assumes "new_coordinator p cfg s = Some (r, s1)"
  shows "advances safe covered stored s s1"
  using assms
  by (auto simp: new_coordinator_def Let_def split: if_splits option.splits sum.splits prod.splits
      dest!: recover_pages_steps adopt_law intro: advances_trans)

section \<open>Ingestion\<close>

lemma append_admissions_steps:
  assumes "append_admissions p b as rejected c s = (r, c1, s1)"
  shows "advances safe covered stored s s1" and "r = Inr result \<Longrightarrow> safe s \<Longrightarrow> i \<in> admission_ids as \<Longrightarrow> covered s1 i"
proof -
  show "advances safe covered stored s s1"
    using assms by (auto simp: append_admissions_def Let_def split: if_splits prod.splits sum.splits dest!: append_law)
  show "covered s1 i" if "r = Inr result" "safe s" "i \<in> admission_ids as"
    using assms that append_covers [of b as s s1 i]
    by (auto simp: append_admissions_def Let_def admission_ids_def split: if_splits prod.splits sum.splits)
qed

lemma ingest_records_steps:
  assumes "ingest_records p live envelope records c s = (r, c1, s1)"
  shows "advances safe covered stored s s1"
  using assms
  by (auto simp: ingest_records_def split: if_splits list.splits prod.splits dest!: append_admissions_steps(1))

lemma observe_capacity_steps: "observe_capacity p c s = (state, s1) \<Longrightarrow> advances safe covered stored s s1"
  by (auto simp: observe_capacity_def split: option.splits prod.splits dest!: capacity_law)

lemma ingest_normalized_steps:
  assumes "ingest_normalized p nested b c s = (r, c1, s1)"
  shows "advances safe covered stored s s1"
  using assms
  by (auto simp: ingest_normalized_def split: prod.splits option.splits
      dest!: observe_capacity_steps append_admissions_steps(1) intro: advances_trans)

section \<open>Holding claims\<close>

lemma renew_each_steps: "renew_each p cs renewed c s = (r, c1, s1) \<Longrightarrow> advances safe covered stored s s1"
proof (induction cs arbitrary: renewed c s)
  case (Cons cr cs)
  then show ?case
    by (auto split: prod.splits sum.splits if_splits dest!: renew_law intro: advances_trans)
qed simp

lemma hold_claims_steps:
  assumes "hold_claims p now c s = (r, c1, s1)"
  shows "advances safe covered stored s s1"
  using assms
  by (auto simp: hold_claims_def Let_def split: if_splits prod.splits sum.splits
      dest!: renew_law renew_each_steps intro: advances_trans)

section \<open>Preparing\<close>

lemma prepare_input_steps: "prepare_input p c cl d now s = (r, s1) \<Longrightarrow> advances safe covered stored s s1"
  by (auto simp: prepare_input_def Let_def split: if_splits prod.splits sum.splits option.splits
      dest!: new_id_law intro: advances_trans)

lemma take_claims_steps: "take_claims p crs n c s = (x, c1, s1) \<Longrightarrow> advances safe covered stored s s1"
proof (induction crs arbitrary: n c s)
  case (Cons cr crs)
  then show ?case
    by (auto simp: Let_def split: prod.splits sum.splits dest!: quarantine_law intro: advances_trans)
qed simp

lemma fill_cohort_steps: "fill_cohort p limit c s = (x, c1, s1) \<Longrightarrow> advances safe covered stored s s1"
  by (auto simp: fill_cohort_def split: if_splits prod.splits sum.splits
      dest!: claim_law take_claims_steps intro: advances_trans)

lemma prepare_all_steps:
  "prepare_all p now ids n c s = ((err, n', work), c1, s1) \<Longrightarrow> advances safe covered stored s s1 \<and> ready_work work"
proof (induction ids arbitrary: n c s err n' work)
  case (Cons i ids)
  show ?case
  proof (cases "decide_persistence (co_hash c) (co_engine c) i = None \<or> kv_get (co_held c) i = None")
    case True
    then have "prepare_all p now ids n c s = ((err, n', work), c1, s1)"
      using Cons.prems by (auto split: option.splits)
    then show ?thesis
      by (rule Cons.IH)
  next
    case False
    then obtain d cr where d: "decide_persistence (co_hash c) (co_engine c) i = Some d" "kv_get (co_held c) i = Some cr"
      by auto
    obtain r s2 where r: "prepare_input p c cr d now s = (r, s2)"
      by fastforce
    note first = prepare_input_steps [OF r]
    consider (poison) "r = Inl RecordPoison" | (later) e where "r = Inl (Retryable e)" | (input) input where "r = Inr input"
      by (metis prepare_error.exhaust sum.exhaust)
    then show ?thesis
    proof cases
      case poison
      obtain q s3 where q: "pt_quarantine p i (cr_token cr) quarantine_unsupported_data s2 = (q, s3)"
        by fastforce
      have "advances safe covered stored s s3"
        using first quarantine_law [OF q] by (rule advances_trans)
      then show ?thesis
        using Cons d r poison q Cons.IH [of "n + 1" "count_quarantined (release i c)" s3]
        by (cases q) (auto intro: advances_trans)
    next
      case later
      then show ?thesis
        using Cons.prems d r first by simp
    next
      case input
      obtain e m rest c2 s3 where rest: "prepare_all p now ids n c s2 = ((e, m, rest), c2, s3)"
        by (metis prod_cases3)
      then have "s3 = s1" "work = (input, cr) # rest"
        using Cons.prems d r input by simp_all
      then show ?thesis
        using Cons.IH [of n c s2] rest first prepare_input_ready [OF r [unfolded input]] Cons.prems r input d
        by (auto intro: advances_trans)
    qed
  qed
qed simp

section \<open>Persisting\<close>

text \<open>The records of a batch are marked committed only once the store holds them.\<close>

lemma persisted_steps:
  assumes "pt_process p (map fst work) s = (Inr outs, s1)" and "ready_work work"
    and "pt_mark p (map (commit_of \<circ> snd) work) s1 = (r, s2)"
  shows "advances safe covered stored s s2"
proof -
  have first: "advances safe covered stored s s1"
    using process_law [OF assms(1) ready_work_inputs [OF assms(2)]] .
  show ?thesis
  proof (cases "safe s")
    case True
    then have "safe s1"
      using first by (simp add: advances_def)
    moreover have "\<forall>cc\<in>set (map (commit_of \<circ> snd) work). stored s1 (cc_record_id cc)"
      using process_stores [OF assms(1) True ready_work_inputs [OF assms(2)]] assms(2)
      by (fastforce simp: ready_work_def commit_of_def)
    ultimately show ?thesis
      using advances_trans [OF first mark_law [OF assms(3)]] by blast
  qed (simp add: advances_def)
qed

lemma persist_claims_steps:
  "ready_work work \<Longrightarrow> persist_claims p work c s = (res, err, c1, s1) \<Longrightarrow> advances safe covered stored s s1"
proof (induction "length work" arbitrary: work c s res err c1 s1 rule: less_induct)
  case less
  obtain ro s2 where pr: "pt_process p (map fst work) s = (ro, s2)"
    by fastforce
  have first: "advances safe covered stored s s2"
    using process_law [OF pr ready_work_inputs [OF less(2)]] .
  show ?case
  proof (cases ro)
    case (Inr outs)
    show ?thesis
      using less(3) pr first Inr persisted_steps [OF _ less(2)]
      by (auto simp: persist_claims.simps [of p work] split: if_splits prod.splits sum.splits)
  next
    case (Inl e)
    show ?thesis
    proof (cases "\<exists>a b rest. e = PInvalidInput \<and> work = a # b # rest")
      case True
      then obtain a b rest where w: "e = PInvalidInput" "work = a # b # rest"
        by blast
      let ?m = "length work div 2"
      obtain l le c2 s3 where left: "persist_claims p (take ?m work) c s2 = (l, le, c2, s3)"
        by (metis prod_cases4)
      obtain r re c3 s4 where right: "persist_claims p (drop ?m work) c2 s3 = (r, re, c3, s4)"
        by (metis prod_cases4)
      have l: "advances safe covered stored s2 s3"
        using less(1) [OF _ ready_work_slices(1) [OF less(2)] left] w by simp
      have r: "advances safe covered stored s3 s4"
        using less(1) [OF _ ready_work_slices(2) [OF less(2)] right] w by simp
      have "s1 = s3 \<or> s1 = s4"
        using less(3) pr Inl w left right by (cases le) (auto simp: persist_claims.simps [of p "a # b # rest" c s] Let_def)
      then show ?thesis
        using advances_trans [OF first l] advances_trans [OF advances_trans [OF first l] r] by auto
    next
      case False
      then have short: "e \<noteq> PInvalidInput \<or> work = [] \<or> (\<exists>w. work = [w])"
      proof (cases work)
        case (Cons a rest)
        with False show ?thesis
          by (cases rest) simp_all
      qed simp
      have one: "advances safe covered stored s s1" if "work = [w]" "e = PInvalidInput" for w
      proof -
        obtain q s3 where q: "pt_quarantine p (nl_record_id (cr_record (snd w))) (cr_token (snd w))
            quarantine_deterministic_processing s2 = (q, s3)"
          by fastforce
        have "s1 = s3"
          using less(3) pr Inl that q by (cases w; cases q) (auto simp: persist_claims.simps)
        then show ?thesis
          using advances_trans [OF first quarantine_law [OF q]] by simp
      qed
      have "s1 = s2" if "e \<noteq> PInvalidInput \<or> work = []"
        using less(3) pr Inl that by (auto simp: persist_claims.simps [of p work c s] split: if_splits)
      then show ?thesis
        using short one first by blast
    qed
  qed
qed

lemma process_cycle_steps:
  assumes "process_cycle p limit c s = (res, err, c1, s1)"
  shows "advances safe covered stored s s1"
proof -
  obtain now s2 where n: "pt_now p s = (now, s2)"
    by fastforce
  obtain rh c3 s3 where h: "hold_claims p now c s2 = (rh, c3, s3)"
    by (metis prod_cases3)
  obtain ef rf c4 s4 where f: "fill_cohort p limit c3 s3 = ((ef, rf), c4, s4)"
    by (metis prod_cases3 surj_pair)
  obtain ea m work c5 s5 where a:
    "prepare_all p now (map fst (co_held (advance_engine now c4))) 0 (advance_engine now c4) s4 = ((ea, m, work), c5, s5)"
    by (metis prod_cases3)
  obtain rp ep c6 s6 where q: "persist_claims p work c5 s5 = (rp, ep, c6, s6)"
    by (metis prod_cases4)
  note steps = now_law [OF n] hold_claims_steps [OF h] fill_cohort_steps [OF f] prepare_all_steps [OF a]
  have "s1 \<in> {s, s3, s4, s5, s6}"
    using assms n h f a q
    by (auto simp: process_cycle_def Let_def split: if_splits sum.splits option.splits)
  moreover note s3 = advances_trans [OF steps(1) steps(2)]
  moreover note s4 = advances_trans [OF s3 steps(3)]
  moreover note s5 = advances_trans [OF s4 conjunct1 [OF steps(4)]]
  moreover note advances_trans [OF s5 persist_claims_steps [OF conjunct2 [OF steps(4)] q]]
  ultimately show ?thesis
    by (elim insertE emptyE) simp_all
qed

end

end
