(* ===== verification/ServiceWorld.thy ===== *)
theory ServiceWorld
  imports PipelineClient DatabaseInvariant JournalDurable
begin

text \<open>
  The coordinator on its real journal and store. \<open>world\<close> is what lies behind the interfaces of
  \<open>Pipeline\<close>: the journal directory, the database, and for each call the environment it runs in. Between two
  calls of the coordinator anything other users of the journal and the database do may happen, in any order:
  appends by other requests, compaction, observers, and every operation of the store by other replicas, the
  publisher and the agents (\<open>other_call\<close>). The world keeps the promises of \<open>coordinator_ports\<close>.
\<close>

section \<open>The world\<close>

datatype store_call =
    CallProcess tx_env "process_input list"
  | CallAcquire tx_env persistence_scope bytes bytes bytes gtime int
  | CallRenew tx_env lease gtime int
  | CallComplete tx_env lease gtime
  | CallContext tx_env investigation_context
  | CallClaim tx_env "bytes list" persistence_scope bytes "bytes list" gtime int
  | CallPublish tx_env outbox_claim gtime
  | CallRetry tx_env outbox_claim outbox_failure gtime gtime

fun run_store :: "store \<Rightarrow> store_call \<Rightarrow> database \<Rightarrow> database" where
  "run_store s (CallProcess env inputs) d = snd (process_batch env s inputs d)"
| "run_store s (CallAcquire env sc i owner token now ttl) d = snd (acquire_investigation env s sc i owner token now ttl d)"
| "run_store s (CallRenew env le now ttl) d = snd (renew_investigation env s le now ttl d)"
| "run_store s (CallComplete env le now) d = snd (complete_investigation env s le now d)"
| "run_store s (CallContext env x) d = snd (append_investigation_context env s x d)"
| "run_store s (CallClaim env locked sc owner tokens now ttl) d =
     snd (claim_outbox env (\<lambda>i. i \<in> set locked) s sc owner tokens now ttl d)"
| "run_store s (CallPublish env q now) d = snd (mark_outbox_published env s q now d)"
| "run_store s (CallRetry env q failure now next_attempt) d = snd (retry_outbox env s q failure now next_attempt d)"

datatype other_call =
    OtherAppend env bytes "admission list"
  | OtherCompact env nat
  | OtherStats env
  | OtherCapacity env
  | OtherClose bool bool
  | OtherStore store_call

record world =
  wd_journal :: journal
  wd_db :: database
  wd_store :: store
  wd_tick :: nat
  wd_env :: "nat \<Rightarrow> env"
  wd_tx :: "nat \<Rightarrow> tx_env"
  wd_clock :: "nat \<Rightarrow> gtime"
  wd_ids :: "nat \<Rightarrow> bytes option"
  wd_others :: "nat \<Rightarrow> other_call list"

fun run_other :: "other_call \<Rightarrow> world \<Rightarrow> world" where
  "run_other (OtherAppend env b as) w = w\<lparr>wd_journal := snd (append_batch env (wd_journal w) b as)\<rparr>"
| "run_other (OtherCompact env limit) w = w\<lparr>wd_journal := snd (journal_compact env (wd_journal w) limit)\<rparr>"
| "run_other (OtherStats env) w = w\<lparr>wd_journal := snd (journal_stats env (wd_journal w))\<rparr>"
| "run_other (OtherCapacity env) w = w\<lparr>wd_journal := snd (journal_capacity env (wd_journal w))\<rparr>"
| "run_other (OtherClose a b) w = w\<lparr>wd_journal := snd (journal_close a b (wd_journal w))\<rparr>"
| "run_other (OtherStore call) w = w\<lparr>wd_db := run_store (wd_store w) call (wd_db w)\<rparr>"

definition between :: "world \<Rightarrow> world" where
  "between w = fold run_other (wd_others w (wd_tick w)) (w\<lparr>wd_tick := Suc (wd_tick w)\<rparr>)"

definition on_journal :: "(env \<Rightarrow> journal \<Rightarrow> 'a \<times> journal) \<Rightarrow> world \<Rightarrow> 'a \<times> world" where
  "on_journal f w =
     (let w1 = between w in
      case f (wd_env w (wd_tick w)) (wd_journal w1) of (r, j) \<Rightarrow> (r, w1\<lparr>wd_journal := j\<rparr>))"

definition service_ports :: "world ports" where
  "service_ports =
     \<lparr>pt_now = (\<lambda>w. (wd_clock w (wd_tick w), between w)),
      pt_new_id = (\<lambda>w. (wd_ids w (wd_tick w), between w)),
      pt_adopt = (\<lambda>owner limit. on_journal (\<lambda>env j. adopt_claims env j owner limit)),
      pt_append = (\<lambda>b as. on_journal (\<lambda>env j. append_batch env j b as)),
      pt_claim = (\<lambda>limit owner. on_journal (\<lambda>env j. claim env j limit owner)),
      pt_claim_ttl = (\<lambda>w. journal_claim_ttl (wd_journal w)),
      pt_capacity = on_journal journal_capacity,
      pt_manifest = (\<lambda>w. journal_manifest (wd_journal w)),
      pt_mark = (\<lambda>cs. on_journal (\<lambda>env j. mark_committed_batch env j cs)),
      pt_quarantine = (\<lambda>i token reason. on_journal (\<lambda>env j. quarantine env j i token reason)),
      pt_recover = (\<lambda>i limit. on_journal (\<lambda>env j. recover_retained env j i limit)),
      pt_renew = (\<lambda>cs. on_journal (\<lambda>env j. renew_claims env j cs)),
      pt_retention = (\<lambda>w. journal_retention (wd_journal w)),
      pt_boundary = (\<lambda>w. boundary (wd_store w)),
      pt_process =
        (\<lambda>inputs w.
           let w1 = between w in
           case process_batch (wd_tx w (wd_tick w)) (wd_store w1) inputs (wd_db w1) of
             (r, d) \<Rightarrow> (r, w1\<lparr>wd_db := d\<rparr>))\<rparr>"

section \<open>What the world keeps\<close>

definition covered :: "world \<Rightarrow> bytes \<Rightarrow> bool" where
  "covered w i \<longleftrightarrow> kept (wd_journal w) i \<or> held (wd_db w) i"

definition in_store :: "world \<Rightarrow> bytes \<Rightarrow> bool" where
  "in_store w i \<longleftrightarrow> held (wd_db w) i"

text \<open>
  The relation between journal and database: what a batch lists is covered, and a record the journal has as
  committed is held by the store.
\<close>

definition world_safe :: "world \<Rightarrow> bool" where
  "world_safe w \<longleftrightarrow>
     lib_ok (j_lib (wd_journal w)) \<and> lib_sized (j_lib (wd_journal w)) \<and> records_ok (wd_db w)
     \<and> (\<forall>i. listed (wd_journal w) i \<longrightarrow> covered w i)
     \<and> (\<forall>i. committed_at (wd_journal w) i \<longrightarrow> in_store w i)"

text \<open>A journal operation that loses nothing, given what the store holds.\<close>

definition journal_honest :: "(bytes \<Rightarrow> bool) \<Rightarrow> journal \<Rightarrow> journal \<Rightarrow> bool" where
  "journal_honest stored j j' \<longleftrightarrow>
     j_lib j' = j_lib j
     \<and> (\<forall>i. kept j i \<longrightarrow> kept j' i \<or> stored i)
     \<and> (\<forall>i. listed j' i \<longrightarrow> listed j i \<or> kept j' i)
     \<and> (\<forall>i. committed_at j' i \<longrightarrow> committed_at j i \<or> stored i)"

lemma journal_honest_advances:
  assumes "world_safe w \<Longrightarrow> journal_honest (held (wd_db w)) (wd_journal w) j'"
  shows "advances world_safe covered in_store w (w\<lparr>wd_journal := j'\<rparr>)"
proof (cases "world_safe w")
  case True
  then show ?thesis
    using assms [OF True] unfolding advances_def world_safe_def journal_honest_def covered_def in_store_def by fastforce
qed (simp add: advances_def)

lemma same_directory_honest:
  assumes "j_db j' = j_db j" and "j_cfg j' = j_cfg j"
  shows "journal_honest stored j j'"
  by (simp add: journal_honest_def same_directory [OF assms] assms)

lemma database_advances:
  assumes "records_ok (wd_db w) \<Longrightarrow> records_ok d' \<and> (\<forall>i. held (wd_db w) i \<longrightarrow> held d' i)"
  shows "advances world_safe covered in_store w (w\<lparr>wd_db := d'\<rparr>)"
  using assms by (auto simp: advances_def world_safe_def covered_def in_store_def)

section \<open>The journal's operations\<close>

lemma world_digest: "world_safe w \<Longrightarrow> digest (j_hash (wd_journal w))"
  using lib_ok_digest by (auto simp: world_safe_def)

text \<open>An operation with none of the steps that drop or commit a record.\<close>

lemma quiet_honest:
  assumes "moves acts now j j'" and "grows {} {} j j'" and "\<And>i. acts i \<inter> {Isolated, Compacted, Committed} = {}"
    and "j_cfg j' = j_cfg j"
  shows "journal_honest stored j j'"
  using kept_moves [OF assms(1,2)] committed_moves [OF assms(1)] assms(2-4)
  by (fastforce simp: journal_honest_def grows_def)

lemma honours_cfg: "honours j r j' \<Longrightarrow> j_cfg j' = j_cfg j"
  by (simp add: honours_def same_identity_def)

lemma reading_same:
  "adopt_claims env j owner limit = (rc, j') \<Longrightarrow> j_db j' = j_db j \<and> j_cfg j' = j_cfg j"
  "journal_stats env j = (rs, j') \<Longrightarrow> j_db j' = j_db j \<and> j_cfg j' = j_cfg j"
  "recover_retained env j a limit = (rr, j') \<Longrightarrow> j_db j' = j_db j \<and> j_cfg j' = j_cfg j"
  "journal_capacity env j = (ro, j') \<Longrightarrow> j_db j' = j_db j \<and> j_cfg j' = j_cfg j"
  "journal_close f1 f2 j = (r, j') \<Longrightarrow> j_db j' = j_db j \<and> j_cfg j' = j_cfg j"
  by (auto simp: adopt_claims_def journal_stats_def recover_retained_def journal_capacity_def journal_close_def
      when_usable_def fail_with_def Let_def split: sum.splits if_splits option.splits prod.splits)

lemma reading_honest:
  "adopt_claims env j owner limit = (rc, j') \<Longrightarrow> journal_honest stored j j'"
  "journal_stats env j = (rs, j') \<Longrightarrow> journal_honest stored j j'"
  "recover_retained env j a n = (rr, j') \<Longrightarrow> journal_honest stored j j'"
  "journal_capacity env j = (ro, j') \<Longrightarrow> journal_honest stored j j'"
  "journal_close f1 f2 j = (r, j') \<Longrightarrow> journal_honest stored j j'"
  by (blast dest: reading_same intro: same_directory_honest)+

lemma append_honest:
  assumes "append_batch env j b as = (r, j')" and "lib_ok (j_lib j)" and "lib_sized (j_lib j)"
  shows "journal_honest stored j j'"
proof -
  have "committed_at j' i \<Longrightarrow> committed_at j i" for i
    using committed_moves [OF append_batch_moves [OF assms, where now = zero_time], of i]
    by (auto simp: only_def split: if_splits)
  then show ?thesis
    using append_batch_kept [OF assms] honours_cfg [OF append_batch_honours [OF assms(1)]]
    by (auto simp: journal_honest_def)
qed

lemma renew_honest:
  assumes "renew_claims env j cs = (r, j')" and "digest (j_hash j)"
  shows "journal_honest stored j j'"
  by (rule quiet_honest [OF renew_claims_moves [OF assms] renew_claims_grows [OF assms(1)] _ honours_cfg [OF renew_claims_honours [OF assms(1)]]])
    (simp add: only_def)

lemma claim_honest:
  assumes "claim env j limit owner = (r, j')" and "digest (j_hash j)"
  shows "journal_honest stored j j'"
proof -
  obtain j1 where m: "moves (\<lambda>_. {Expired}) (env_clock env 0) j j1" "moves (\<lambda>_. {Claimed}) (env_clock env 1) j1 j'"
    using claim_moves [OF assms] by blast
  note g = claim_grows [OF assms(1)]
  have "stored_at j i \<noteq> None \<Longrightarrow> stored_at j' i \<noteq> None" for i
    using stays_stored [OF m(2)] stays_stored [OF m(1)] by simp
  moreover have "committed_at j' i \<Longrightarrow> committed_at j i" for i
    using committed_moves [OF m(2), of i] committed_moves [OF m(1), of i] by auto
  moreover have "j_cfg j' = j_cfg j"
    using claim_honours [OF assms(1)] by (simp add: honours_weak_def same_identity_def)
  ultimately show ?thesis
    using g by (auto simp: journal_honest_def kept_def grows_def)
qed

lemma mark_honest:
  assumes "mark_committed_batch env j cs = (r, j')" and "digest (j_hash j)" and "\<forall>c\<in>set cs. stored (cc_record_id c)"
  shows "journal_honest stored j j'"
proof -
  note m = mark_committed_batch_moves [OF assms(1,2)] and g = mark_committed_batch_grows [OF assms(1)]
  have "kept j i \<Longrightarrow> kept j' i" for i
    using kept_moves [OF m g] by (simp add: only_def)
  moreover have "committed_at j' i \<Longrightarrow> committed_at j i \<or> stored i" for i
    using committed_moves [OF m, of i] assms(3) by (auto simp: only_def named_by_def split: if_splits)
  ultimately show ?thesis
    using g honours_cfg [OF mark_committed_batch_honours [OF assms(1)]] by (auto simp: journal_honest_def grows_def)
qed

lemma quarantine_honest:
  assumes "quarantine env j i token reason = (r, j')" and "digest (j_hash j)"
  shows "journal_honest stored j j'"
proof -
  have "committed_at j' x \<Longrightarrow> committed_at j x" for x
    using committed_moves [OF quarantine_moves [OF assms(1)], of x] by (auto simp: only_def split: if_splits)
  then show ?thesis
    using quarantine_kept [OF assms] quarantine_grows [OF assms] honours_cfg [OF quarantine_honours [OF assms(1)]]
    by (auto simp: journal_honest_def grows_def)
qed

lemma compact_honest:
  assumes "journal_compact env j limit = (r, j')" and "digest (j_hash j)" and "\<forall>i. committed_at j i \<longrightarrow> stored i"
  shows "journal_honest stored j j'"
proof -
  have "committed_at j' x \<Longrightarrow> committed_at j x" for x
    using committed_moves [OF journal_compact_moves [OF assms(1)], of x] by auto
  then show ?thesis
    using compact_kept [OF assms(1,2)] journal_compact_grows [OF assms(1,2)]
      honours_cfg [OF journal_compact_honours [OF assms(1)]] assms(3)
    by (auto simp: journal_honest_def grows_def)
qed

section \<open>The store's operations\<close>

lemma records_kept_same: "same_held d d' \<Longrightarrow> records_ok d \<Longrightarrow> records_ok d' \<and> (\<forall>i. held d i \<longrightarrow> held d' i)"
  by (simp add: same_held_ok)

lemma execute_tx_same:
  assumes "\<And>x d'. body d = Inr (x, d') \<Longrightarrow> same_held d d'"
  shows "same_held d (snd (execute_tx env body d))"
proof -
  obtain r d' where e: "execute_tx env body d = (r, d')"
    by fastforce
  then have "same_held d d'"
    by (cases rule: execute_tx_cases) (use assms in auto)
  with e show ?thesis
    by simp
qed

lemma claim_rows_same: "claim_rows s sc owner expires_at cs d = Inr (x, d') \<Longrightarrow> same_held d d'"
proof (induction s sc owner expires_at cs d arbitrary: x rule: claim_rows.induct)
  case (2 s sc owner expires_at m token rest d)
  then obtain r rows y where f: "find (outbox_key sc (qu_message_id m)) (tb_outbox d) = Some r"
    and rest: "claim_rows s sc owner expires_at rest (d\<lparr>tb_outbox := rows\<rparr>) = Inr (y, d')"
    by (auto split: option.splits)
  have "same_held (d\<lparr>tb_outbox := rows\<rparr>) d'"
    using "2.IH" [OF f rest] .
  then show ?case
    by (simp add: same_held_def)
qed simp

lemma affected_one_snd: "snd (affected_one q) = snd q"
  by (auto simp: affected_one_def split: sum.splits prod.splits)

lemma outbox_update_same: "update_claimed c now f d = Inr (x, d') \<Longrightarrow> same_held d d'"
  by (auto simp: update_claimed_def same_held_def)

text \<open>Everything but \<open>ProcessBatch\<close> leaves the records alone.\<close>

lemma run_store_same:
  assumes "\<And>env inputs. call \<noteq> CallProcess env inputs"
  shows "same_held d (run_store s call d)"
proof (cases call)
  case (CallAcquire env sc i owner token now ttl)
  then show ?thesis
    by (auto simp: acquire_investigation_def acquire_tx_def Let_def same_held_def split: option.splits
        intro!: execute_tx_same [unfolded same_held_def])
next
  case (CallRenew env le now ttl)
  then show ?thesis
    by (auto simp: renew_investigation_def renew_tx_def Let_def same_held_def split: option.splits
        intro!: execute_tx_same [unfolded same_held_def])
next
  case (CallComplete env le now)
  then show ?thesis
    by (auto simp: complete_investigation_def complete_tx_def Let_def same_held_def split: option.splits if_splits
        intro!: execute_tx_same [unfolded same_held_def])
next
  case (CallContext env x)
  have "same_held d d'" if "append_tx s x encoded d = Inr (u, d')" for encoded u d'
    using that by (auto simp: append_tx_def Let_def same_held_def dest!: statement_same_records(3))
  then show ?thesis
    by (auto simp: CallContext append_investigation_context_def split: sum.splits intro!: execute_tx_same)
next
  case (CallClaim env locked sc owner tokens now ttl)
  have "same_held d d'" if "claim_outbox_tx s sc owner tokens now e l d = Inr (u, d')" for e l u d'
    using that by (auto simp: claim_outbox_tx_def split: if_splits dest!: claim_rows_same)
  then show ?thesis
    by (auto simp: CallClaim claim_outbox_def split: option.splits intro!: execute_tx_same)
next
  case (CallPublish env q now)
  then show ?thesis
    by (auto simp: mark_outbox_published_def Let_def affected_one_snd intro!: execute_tx_same elim: outbox_update_same)
next
  case (CallRetry env q failure now next_attempt)
  then show ?thesis
    by (auto simp: retry_outbox_def Let_def affected_one_snd intro!: execute_tx_same elim: outbox_update_same)
qed (use assms in simp)

lemma process_batch_keeps:
  assumes "process_batch env s inputs d = (r, d')" and "records_ok d"
  shows "records_ok d' \<and> (\<forall>i. held d i \<longrightarrow> held d' i)"
    and "r = Inr outs \<Longrightarrow> input \<in> set inputs \<Longrightarrow> held d' (nl_record_id (pi_record input))"
proof -
  show "records_ok d' \<and> (\<forall>i. held d i \<longrightarrow> held d' i)"
    using assms(1) by (cases rule: process_batch_cases) (use process_all_effect assms(2) in auto)
  assume r: "r = Inr outs" and input: "input \<in> set inputs"
  show "held d' (nl_record_id (pi_record input))"
    using assms(1)
  proof (cases rule: process_batch_cases)
    case (finished replays os)
    have len: "length replays = length inputs"
      using batch_preflight_length [OF finished(1)] .
    have l: "list_all2 (\<lambda>q out. held d' (nl_record_id (pi_record (fst q))) \<and> px_record_id out = nl_record_id (pi_record (fst q))
          \<and> already_done s q d' (replay_of out)) (zip inputs replays) os"
      using process_all_effect [OF finished(3) assms(2)] by simp
    obtain n where n: "n < length inputs" "inputs ! n = input"
      using input by (auto simp: in_set_conv_nth)
    then show ?thesis
      using list_all2_nthD [OF l, of n] len by simp
  qed (use r in auto)
qed

lemma run_store_keeps: "records_ok d \<Longrightarrow> records_ok (run_store s call d) \<and> (\<forall>i. held d i \<longrightarrow> held (run_store s call d) i)"
proof (cases "\<exists>env inputs. call = CallProcess env inputs")
  case True
  then show "records_ok d \<Longrightarrow> ?thesis"
    using process_batch_keeps(1) by (auto simp: prod_eq_iff)
next
  case False
  then show "records_ok d \<Longrightarrow> ?thesis"
    using run_store_same records_kept_same by blast
qed

section \<open>Steps of the world\<close>

lemma journal_advances:
  assumes "world_safe w \<Longrightarrow> journal_honest (held (wd_db w)) (wd_journal w) j'"
  shows "advances world_safe covered in_store w (w\<lparr>wd_journal := j'\<rparr>)"
  by (rule journal_honest_advances) (rule assms)

lemma safe_libraries: "world_safe w \<Longrightarrow> lib_ok (j_lib (wd_journal w)) \<and> lib_sized (j_lib (wd_journal w))"
  by (simp add: world_safe_def)

lemma safe_committed: "world_safe w \<Longrightarrow> \<forall>i. committed_at (wd_journal w) i \<longrightarrow> held (wd_db w) i"
  by (simp add: world_safe_def in_store_def)

lemma run_other_advances: "advances world_safe covered in_store w (run_other call w)"
proof (cases call)
  case (OtherAppend env b as)
  then show ?thesis
    using append_honest [of env "wd_journal w" b as] safe_libraries [of w]
    by (auto intro!: journal_advances simp: prod_eq_iff)
next
  case (OtherCompact env limit)
  then show ?thesis
    using compact_honest [of env "wd_journal w" limit] world_digest [of w] safe_committed [of w]
    by (auto intro!: journal_advances simp: prod_eq_iff)
next
  case (OtherStats env)
  then show ?thesis
    using reading_honest(2) [of env "wd_journal w"] by (auto intro!: journal_advances simp: prod_eq_iff)
next
  case (OtherCapacity env)
  then show ?thesis
    using reading_honest(4) [of env "wd_journal w"] by (auto intro!: journal_advances simp: prod_eq_iff)
next
  case (OtherClose a b)
  then show ?thesis
    using reading_honest(5) [of a b "wd_journal w"] by (auto intro!: journal_advances simp: prod_eq_iff)
next
  case (OtherStore c)
  then show ?thesis
    using run_store_keeps by (auto intro!: database_advances)
qed

lemma tick_advances: "advances world_safe covered in_store w (w\<lparr>wd_tick := n\<rparr>)"
  by (simp add: advances_def world_safe_def covered_def in_store_def)

lemma run_others_advances: "advances world_safe covered in_store w (fold run_other calls w)"
  by (induction calls arbitrary: w) (use run_other_advances advances_trans in \<open>auto simp: advances_def\<close>)

lemma between_advances: "advances world_safe covered in_store w (between w)"
  unfolding between_def using tick_advances run_others_advances by (rule advances_trans)

lemma on_journal_advances:
  assumes "on_journal f w = (r, w')"
    and "\<And>env w1 r j. f env (wd_journal w1) = (r, j) \<Longrightarrow> world_safe w1 \<Longrightarrow> journal_honest (held (wd_db w1)) (wd_journal w1) j"
  shows "advances world_safe covered in_store w w'"
proof -
  obtain x j where f: "f (wd_env w (wd_tick w)) (wd_journal (between w)) = (x, j)"
    by fastforce
  then have "w' = (between w)\<lparr>wd_journal := j\<rparr>"
    using assms(1) by (simp add: on_journal_def Let_def)
  moreover have "advances world_safe covered in_store (between w) ((between w)\<lparr>wd_journal := j\<rparr>)"
    using assms(2) [OF f] by (intro journal_advances)
  ultimately show ?thesis
    using advances_trans [OF between_advances] by simp
qed

lemma on_journal_mark:
  assumes "on_journal (\<lambda>env j. mark_committed_batch env j cs) w = (r, w')" and "world_safe w"
    and "\<forall>c\<in>set cs. in_store w (cc_record_id c)"
  shows "advances world_safe covered in_store w w'"
proof -
  obtain x j where f: "mark_committed_batch (wd_env w (wd_tick w)) (wd_journal (between w)) cs = (x, j)"
    by fastforce
  then have w': "w' = (between w)\<lparr>wd_journal := j\<rparr>"
    using assms(1) by (simp add: on_journal_def Let_def)
  have "\<forall>c\<in>set cs. held (wd_db (between w)) (cc_record_id c)"
    using between_advances [of w] assms(2,3) by (simp add: advances_def in_store_def)
  then have "advances world_safe covered in_store (between w) w'"
    unfolding w' using mark_honest [OF f] world_digest by (intro journal_advances) blast
  with between_advances show ?thesis
    by (rule advances_trans)
qed

lemma on_journal_append:
  assumes "on_journal (\<lambda>env j. append_batch env j b as) w = (Inr (), w')" and "world_safe w" and "i \<in> admission_ids as"
  shows "covered w' i"
proof -
  obtain j where f: "append_batch (wd_env w (wd_tick w)) (wd_journal (between w)) b as = (Inr (), j)"
    and w': "w' = (between w)\<lparr>wd_journal := j\<rparr>"
    using assms(1) by (auto simp: on_journal_def Let_def split: prod.splits)
  have safe: "world_safe (between w)"
    using between_advances [of w] assms(2) by (simp add: advances_def)
  have k: "kept j i \<or> listed (wd_journal (between w)) i"
    using append_batch_kept [OF f] safe_libraries [OF safe] assms(3) by blast
  moreover have "kept (wd_journal (between w)) i \<longrightarrow> kept j i"
    using append_batch_kept [OF f] safe_libraries [OF safe] by blast
  ultimately show ?thesis
    using safe by (auto simp: w' covered_def world_safe_def)
qed

lemma process_port:
  assumes "pt_process service_ports inputs w = (r, w')"
  shows "advances world_safe covered in_store w w'"
    and "r = Inr outs \<Longrightarrow> world_safe w \<Longrightarrow> input \<in> set inputs \<Longrightarrow> in_store w' (nl_record_id (pi_record input))"
proof -
  obtain d where f: "process_batch (wd_tx w (wd_tick w)) (wd_store (between w)) inputs (wd_db (between w)) = (r, d)"
    and w': "w' = (between w)\<lparr>wd_db := d\<rparr>"
    using assms by (auto simp: service_ports_def Let_def split: prod.splits)
  have "advances world_safe covered in_store (between w) w'"
    unfolding w' using process_batch_keeps(1) [OF f] by (intro database_advances)
  with between_advances show "advances world_safe covered in_store w w'"
    by (rule advances_trans)
  assume "r = Inr outs" and "world_safe w" and "input \<in> set inputs"
  moreover have "records_ok (wd_db (between w))"
    using between_advances [of w] \<open>world_safe w\<close> by (simp add: advances_def world_safe_def)
  ultimately show "in_store w' (nl_record_id (pi_record input))"
    using process_batch_keeps(2) [OF f] by (simp add: w' in_store_def)
qed

lemma service_ports_simps [simp]:
  "pt_now service_ports w = (wd_clock w (wd_tick w), between w)"
  "pt_new_id service_ports w = (wd_ids w (wd_tick w), between w)"
  "pt_adopt service_ports owner limit = on_journal (\<lambda>env j. adopt_claims env j owner limit)"
  "pt_append service_ports b as = on_journal (\<lambda>env j. append_batch env j b as)"
  "pt_claim service_ports limit owner = on_journal (\<lambda>env j. claim env j limit owner)"
  "pt_capacity service_ports = on_journal journal_capacity"
  "pt_mark service_ports cs = on_journal (\<lambda>env j. mark_committed_batch env j cs)"
  "pt_quarantine service_ports i token reason = on_journal (\<lambda>env j. quarantine env j i token reason)"
  "pt_recover service_ports i limit = on_journal (\<lambda>env j. recover_retained env j i limit)"
  "pt_renew service_ports cs = on_journal (\<lambda>env j. renew_claims env j cs)"
  by (simp_all add: service_ports_def)

section \<open>The world keeps the contract\<close>

interpretation service: coordinator_ports service_ports world_safe covered in_store
proof unfold_locales
  fix w w' and cs :: "commit_claim list"
  show "pt_process service_ports inputs w = (r, w') \<Longrightarrow> advances world_safe covered in_store w w'" for inputs r
    by (rule process_port(1))
  show "pt_process service_ports inputs w = (Inr outs, w') \<Longrightarrow> world_safe w \<Longrightarrow> input \<in> set inputs
      \<Longrightarrow> in_store w' (nl_record_id (pi_record input))" for inputs outs input
    using process_port(2) by blast
  show "pt_mark service_ports cs w = (r, w') \<Longrightarrow> world_safe w \<Longrightarrow> \<forall>c\<in>set cs. in_store w (cc_record_id c)
      \<Longrightarrow> advances world_safe covered in_store w w'" for r
    using on_journal_mark by simp
  show "pt_append service_ports b as w = (Inr (), w') \<Longrightarrow> world_safe w \<Longrightarrow> i \<in> admission_ids as \<Longrightarrow> covered w' i" for b as i
    using on_journal_append by simp
qed (use between_advances in \<open>auto intro: reading_honest append_honest claim_honest renew_honest quarantine_honest
      dest: safe_libraries world_digest elim!: on_journal_advances\<close>)

end
