(* ===== verification/Spec2Isabelle.thy ===== *)
theory Spec2Isabelle
  imports JournalTheorems ModelTheorems IdentityTheorems IncidentSafety CwSample Admission AdmissionSample JournalRefinement StoreTheorems ServiceWorld
begin

text \<open>
  A verification library for the static-log-analysis service.
\<close>

end
